(* ===== verification/NF_Prelude.thy ===== *)
theory NF_Prelude
  imports Main "HOL-Library.Word"
begin

text \<open>
  Shared vocabulary of the development: Go's machine integers and byte slices, errors and
  panics as values, \<open>copy\<close> into a slice, conversions between Go strings (byte sequences,
  HOL \<open>string\<close>) and byte slices, and the generic list, option and map lemmas the
  component theories use.  Two collections gather facts for the component proofs:
  \<open>wire_simps\<close> (lengths and layouts of encoded data) and \<open>inv_intros\<close>
  (preservation of component invariants).
\<close>

unbundle bit_operations_syntax

named_theorems wire_simps "lengths and layouts of encoded byte sequences"
named_theorems inv_intros "operations that keep a component's invariant"

subsection \<open>Machine integers and byte slices\<close>

type_synonym byte = "8 word"
type_synonym uint8 = "8 word"
type_synonym uint16 = "16 word"
type_synonym uint32 = "32 word"
type_synonym uint64 = "64 word"
type_synonym bytes = "byte list"

subsection \<open>Errors and panics\<close>

text \<open>
  Sentinel errors of the packages are constructors of their own, because the code compares
  them with \<open>errors.Is\<close>; \<open>ErrorString s\<close> is \<open>errors.New(s)\<close> or an
  \<open>fmt.Errorf\<close> value with the fixed part of its text; \<open>External n\<close> is an error
  value that comes from code outside the repository (a dial error, a codec error, ...).
\<close>

datatype error =
    ErrClosed
  | ErrTimeout
  | ErrNoReady
  | EOF
  | ErrUnexpectedEOF
  | ErrUnsupported
  | RedisNil
  | ContextCanceled
  | ErrorString string
  | External nat

text \<open>An operation that can panic returns an \<open>outcome\<close>.\<close>

datatype 'a outcome = Ret 'a | Panic string

primrec bind_outcome :: "'a outcome \<Rightarrow> ('a \<Rightarrow> 'b outcome) \<Rightarrow> 'b outcome" where
  "bind_outcome (Ret x) f = f x"
| "bind_outcome (Panic m) f = Panic m"

subsection \<open>Slices\<close>

text \<open>The bytes of a slice that may be nil.\<close>

definition slice_bytes :: "bytes option \<Rightarrow> bytes" where
  "slice_bytes b = (case b of None \<Rightarrow> [] | Some xs \<Rightarrow> xs)"

text \<open>
  \<open>copy(dst, src)\<close> copies \<open>min(len(dst), len(src))\<close> elements over the front of
  \<open>dst\<close>; \<open>copy_at\<close> is \<open>copy(dst[p:], src)\<close>.
\<close>

definition go_copy :: "'a list \<Rightarrow> 'a list \<Rightarrow> 'a list" where
  "go_copy dst src = take (length dst) src @ drop (length src) dst"

definition copy_at :: "nat \<Rightarrow> 'a list \<Rightarrow> 'a list \<Rightarrow> 'a list" where
  "copy_at p dst src = take p dst @ go_copy (drop p dst) src"

lemma length_go_copy [simp]: "length (go_copy dst src) = length dst"
  by (simp add: go_copy_def)

lemma length_copy_at [simp]: "length (copy_at p dst src) = length dst"
  by (simp add: copy_at_def)

lemma go_copy_fits: "length src \<le> length dst \<Longrightarrow> go_copy dst src = src @ drop (length src) dst"
  by (simp add: go_copy_def)

lemma copy_at_fits:
  "p + length src \<le> length dst \<Longrightarrow>
   copy_at p dst src = take p dst @ src @ drop (p + length src) dst"
  by (simp add: copy_at_def go_copy_def add.commute)

lemma take_copy_at: "p \<le> length dst \<Longrightarrow> take p (copy_at p dst src) = take p dst"
  by (simp add: copy_at_def)

lemma take_copy_at_end:
  "p + length src \<le> length dst \<Longrightarrow>
   take (p + length src) (copy_at p dst src) = take p dst @ src"
  by (simp add: copy_at_fits)

lemma copy_at_read:
  "p + length src \<le> length dst \<Longrightarrow> take (length src) (drop p (copy_at p dst src)) = src"
  by (simp add: copy_at_fits)

lemma drop_copy_at:
  "p + length src \<le> length dst \<Longrightarrow>
   drop p (copy_at p dst src) = src @ drop (p + length src) dst"
  by (simp add: copy_at_fits)

lemma copy_at_copy_at:
  "p + length xs + length ys \<le> length dst \<Longrightarrow>
   copy_at (p + length xs) (copy_at p dst xs) ys = copy_at p dst (xs @ ys)"
  by (simp add: copy_at_fits ac_simps)

lemma drop_eq_length: "drop p xs = ys \<Longrightarrow> p \<le> length xs \<Longrightarrow> length xs = p + length ys"
  by auto

subsection \<open>Strings and byte slices\<close>

text \<open>The conversions \<open>[]byte(s)\<close> and \<open>string(b)\<close> keep the bytes.\<close>

definition byte_of_char :: "char \<Rightarrow> byte" where
  "byte_of_char c = of_nat (of_char c)"

definition char_of_byte :: "byte \<Rightarrow> char" where
  "char_of_byte b = char_of (unat b)"

definition bytes_of_string :: "string \<Rightarrow> bytes" where
  "bytes_of_string s = map byte_of_char s"

definition string_of_bytes :: "bytes \<Rightarrow> string" where
  "string_of_bytes bs = map char_of_byte bs"

lemma unat_byte_of_char: "unat (byte_of_char c) = (of_char c :: nat)"
proof -
  have "(of_char c :: nat) mod 256 = of_char c"
    by simp
  then show ?thesis
    by (simp only: byte_of_char_def unat_of_nat) simp
qed

lemma char_of_byte_of_char [simp]: "char_of_byte (byte_of_char c) = c"
  by (simp add: char_of_byte_def unat_byte_of_char)

lemma byte_of_char_of_byte [simp]: "byte_of_char (char_of_byte b) = b"
proof -
  have "unat b < 256"
    using unsigned_less [of b] by simp
  then show ?thesis
    by (simp add: byte_of_char_def char_of_byte_def)
qed

lemma length_bytes_of_string [simp]: "length (bytes_of_string s) = length s"
  by (simp add: bytes_of_string_def)

lemma length_string_of_bytes [simp]: "length (string_of_bytes bs) = length bs"
  by (simp add: string_of_bytes_def)

lemma string_of_bytes_of_string [simp]: "string_of_bytes (bytes_of_string s) = s"
  by (simp add: string_of_bytes_def bytes_of_string_def o_def)

lemma bytes_of_string_of_bytes [simp]: "bytes_of_string (string_of_bytes bs) = bs"
  by (simp add: string_of_bytes_def bytes_of_string_def o_def)

subsection \<open>Maps\<close>

text \<open>\<open>delete(m, k)\<close>.\<close>

definition map_delete :: "'k \<Rightarrow> ('k \<rightharpoonup> 'v) \<Rightarrow> ('k \<rightharpoonup> 'v)" where
  "map_delete k m = m(k := None)"

lemma map_delete_apply [simp]: "map_delete k m x = (if x = k then None else m x)"
  by (simp add: map_delete_def)

lemma dom_map_delete [simp]: "dom (map_delete k m) = dom m - {k}"
  by (auto simp: map_delete_def)

subsection \<open>Invariants of transition systems\<close>

text \<open>
  The contract every step relation of the development meets with its invariant: a step keeps
  it.  What is proved once here is that whole runs keep it, and that what the invariant
  implies holds in every state of a run.  Each relation is an interpretation.
\<close>

locale transition_system =
  fixes step :: "'s \<Rightarrow> 's \<Rightarrow> bool" and inv :: "'s \<Rightarrow> bool"
  assumes step_inv: "inv s \<Longrightarrow> step s s' \<Longrightarrow> inv s'"
begin

lemma steps_inv: "step\<^sup>*\<^sup>* s s' \<Longrightarrow> inv s \<Longrightarrow> inv s'"
  by (induction rule: rtranclp_induct) (auto intro: step_inv)

lemma always: "inv s \<Longrightarrow> step\<^sup>*\<^sup>* s s' \<Longrightarrow> (\<And>x. inv x \<Longrightarrow> P x) \<Longrightarrow> P s'"
  using steps_inv by blast

end

text \<open>
  A system whose steps are named actions: \<open>act a s\<close> is the state after action \<open>a\<close>, or \<open>None\<close>
  when it cannot happen now.  A list of actions is one interleaving.
\<close>

fun run_actions :: "('a \<Rightarrow> 's \<Rightarrow> 's option) \<Rightarrow> 'a list \<Rightarrow> 's \<Rightarrow> 's option" where
  "run_actions act [] s = Some s"
| "run_actions act (a # as) s = (case act a s of None \<Rightarrow> None | Some s' \<Rightarrow> run_actions act as s')"

lemma run_actions_append:
  "run_actions act as s = Some s' \<Longrightarrow> run_actions act (as @ bs) s = run_actions act bs s'"
  by (induction as arbitrary: s) (auto split: option.splits)

lemma run_actions_ConsE:
  assumes "run_actions act (a # as) s = Some s'"
  obtains s1 where "act a s = Some s1" and "run_actions act as s1 = Some s'"
  using assms by (auto split: option.splits)

locale action_system =
  fixes act :: "'a \<Rightarrow> 's \<Rightarrow> 's option" and inv :: "'s \<Rightarrow> bool"
  assumes act_inv: "inv s \<Longrightarrow> act a s = Some s' \<Longrightarrow> inv s'"
begin

lemma run_inv: "run_actions act as s = Some s' \<Longrightarrow> inv s \<Longrightarrow> inv s'"
  by (induction as arbitrary: s) (auto split: option.splits intro: act_inv)

text \<open>What the actions of a class \<open>P\<close> keep, they keep along every run made of them.\<close>

lemma run_keeps:
  assumes keeps: "\<And>a s s'. inv s \<Longrightarrow> Q s \<Longrightarrow> P a \<Longrightarrow> act a s = Some s' \<Longrightarrow> Q s'"
    and "run_actions act as s = Some s'" and "inv s" and "Q s" and "list_all P as"
  shows "Q s'"
  using assms(2-)
proof (induction as arbitrary: s)
  case (Cons a as)
  from Cons.prems(1) obtain s1 where "act a s = Some s1" "run_actions act as s1 = Some s'"
    by (rule run_actions_ConsE)
  with Cons.IH [of s1] Cons.prems keeps [of s a s1] act_inv [of s a s1] show ?case by simp
qed simp

end

sublocale action_system \<subseteq> transition_system "\<lambda>s s'. \<exists>a. act a s = Some s'" inv
  by unfold_locales (auto intro: act_inv)

end
