(* ===== verification/Byte_Order.thy ===== *)
theory Byte_Order
  imports NF_Prelude
begin

text \<open>
  The part of Go's \<open>encoding/binary\<close> that the code calls: the fixed-width reads
  \<open>Uint16\<close>, \<open>Uint32\<close>, \<open>Uint64\<close> and the byte sequences that
  \<open>PutUint16\<close>, \<open>PutUint32\<close>, \<open>PutUint64\<close> store, in both byte orders.  The locale
  \<open>fixed_codec\<close> is the contract the stream and packet theories rely on: a fixed
  width, and that decoding inverts encoding whatever follows in the buffer.
\<close>

subsection \<open>Big endian\<close>

definition BE_Uint16 :: "bytes \<Rightarrow> uint16" where
  "BE_Uint16 b = ucast (b ! 1) OR push_bit 8 (ucast (b ! 0))"

definition BE_Uint32 :: "bytes \<Rightarrow> uint32" where
  "BE_Uint32 b = ucast (b ! 3) OR push_bit 8 (ucast (b ! 2)) OR
     push_bit 16 (ucast (b ! 1)) OR push_bit 24 (ucast (b ! 0))"

definition BE_Uint64 :: "bytes \<Rightarrow> uint64" where
  "BE_Uint64 b = ucast (b ! 7) OR push_bit 8 (ucast (b ! 6)) OR
     push_bit 16 (ucast (b ! 5)) OR push_bit 24 (ucast (b ! 4)) OR
     push_bit 32 (ucast (b ! 3)) OR push_bit 40 (ucast (b ! 2)) OR
     push_bit 48 (ucast (b ! 1)) OR push_bit 56 (ucast (b ! 0))"

definition BE_bytes16 :: "uint16 \<Rightarrow> bytes" where
  "BE_bytes16 v = [ucast (drop_bit 8 v), ucast v]"

definition BE_bytes32 :: "uint32 \<Rightarrow> bytes" where
  "BE_bytes32 v = [ucast (drop_bit 24 v), ucast (drop_bit 16 v), ucast (drop_bit 8 v), ucast v]"

definition BE_bytes64 :: "uint64 \<Rightarrow> bytes" where
  "BE_bytes64 v = [ucast (drop_bit 56 v), ucast (drop_bit 48 v), ucast (drop_bit 40 v),
     ucast (drop_bit 32 v), ucast (drop_bit 24 v), ucast (drop_bit 16 v),
     ucast (drop_bit 8 v), ucast v]"

subsection \<open>Little endian\<close>

definition LE_Uint16 :: "bytes \<Rightarrow> uint16" where
  "LE_Uint16 b = ucast (b ! 0) OR push_bit 8 (ucast (b ! 1))"

definition LE_Uint32 :: "bytes \<Rightarrow> uint32" where
  "LE_Uint32 b = ucast (b ! 0) OR push_bit 8 (ucast (b ! 1)) OR
     push_bit 16 (ucast (b ! 2)) OR push_bit 24 (ucast (b ! 3))"

definition LE_Uint64 :: "bytes \<Rightarrow> uint64" where
  "LE_Uint64 b = ucast (b ! 0) OR push_bit 8 (ucast (b ! 1)) OR
     push_bit 16 (ucast (b ! 2)) OR push_bit 24 (ucast (b ! 3)) OR
     push_bit 32 (ucast (b ! 4)) OR push_bit 40 (ucast (b ! 5)) OR
     push_bit 48 (ucast (b ! 6)) OR push_bit 56 (ucast (b ! 7))"

definition LE_bytes16 :: "uint16 \<Rightarrow> bytes" where
  "LE_bytes16 v = [ucast v, ucast (drop_bit 8 v)]"

definition LE_bytes32 :: "uint32 \<Rightarrow> bytes" where
  "LE_bytes32 v = [ucast v, ucast (drop_bit 8 v), ucast (drop_bit 16 v), ucast (drop_bit 24 v)]"

definition LE_bytes64 :: "uint64 \<Rightarrow> bytes" where
  "LE_bytes64 v = [ucast v, ucast (drop_bit 8 v), ucast (drop_bit 16 v), ucast (drop_bit 24 v),
     ucast (drop_bit 32 v), ucast (drop_bit 40 v), ucast (drop_bit 48 v), ucast (drop_bit 56 v)]"

text \<open>A single byte is its own encoding.\<close>

definition Byte_get :: "bytes \<Rightarrow> byte" where
  "Byte_get b = b ! 0"

definition Byte_put :: "byte \<Rightarrow> bytes" where
  "Byte_put v = [v]"

lemma length_encodings [simp, wire_simps]:
  "length (BE_bytes16 v) = 2" "length (BE_bytes32 w) = 4" "length (BE_bytes64 x) = 8"
  "length (LE_bytes16 v) = 2" "length (LE_bytes32 w) = 4" "length (LE_bytes64 x) = 8"
  "length (Byte_put b) = 1"
  by (simp_all add: BE_bytes16_def BE_bytes32_def BE_bytes64_def
      LE_bytes16_def LE_bytes32_def LE_bytes64_def Byte_put_def)

subsection \<open>The byte order only reverses the encoding\<close>

lemma LE_bytes_rev:
  "LE_bytes16 v = rev (BE_bytes16 v)"
  "LE_bytes32 w = rev (BE_bytes32 w)"
  "LE_bytes64 x = rev (BE_bytes64 x)"
  by (simp_all add: BE_bytes16_def BE_bytes32_def BE_bytes64_def
      LE_bytes16_def LE_bytes32_def LE_bytes64_def)

subsection \<open>Decoding inverts encoding\<close>

text \<open>Bits \<open>k\<close> to \<open>k + 7\<close> of a word, moved back to their place.\<close>

lemma bit_byte_field:
  fixes v :: "'a::len word"
  shows "bit (push_bit k (ucast (ucast (drop_bit k v) :: byte) :: 'a word)) n \<longleftrightarrow>
    k \<le> n \<and> n < k + 8 \<and> bit v n"
proof (cases "k \<le> n")
  case True
  then show ?thesis
    using bit_imp_le_length [of v n] by (auto simp: bit_simps)
qed (simp add: bit_simps)

lemma bit_low_byte:
  fixes v :: "'a::len word"
  shows "bit (ucast (ucast v :: byte) :: 'a word) n \<longleftrightarrow> n < 8 \<and> bit v n"
  using bit_byte_field [of 0 v n] by simp

lemma split16:
  fixes v :: uint16
  shows "(ucast (ucast v :: byte) :: uint16) OR push_bit 8 (ucast (ucast (drop_bit 8 v) :: byte)) = v"
  by (rule bit_word_eqI) (simp add: bit_or_iff bit_byte_field bit_low_byte, linarith)

lemma split32:
  fixes v :: uint32
  shows "(ucast (ucast v :: byte) :: uint32) OR push_bit 8 (ucast (ucast (drop_bit 8 v) :: byte)) OR
    push_bit 16 (ucast (ucast (drop_bit 16 v) :: byte)) OR
    push_bit 24 (ucast (ucast (drop_bit 24 v) :: byte)) = v"
  by (rule bit_word_eqI) (simp add: bit_or_iff bit_byte_field bit_low_byte, linarith)

lemma split64:
  fixes v :: uint64
  shows "(ucast (ucast v :: byte) :: uint64) OR push_bit 8 (ucast (ucast (drop_bit 8 v) :: byte)) OR
    push_bit 16 (ucast (ucast (drop_bit 16 v) :: byte)) OR
    push_bit 24 (ucast (ucast (drop_bit 24 v) :: byte)) OR
    push_bit 32 (ucast (ucast (drop_bit 32 v) :: byte)) OR
    push_bit 40 (ucast (ucast (drop_bit 40 v) :: byte)) OR
    push_bit 48 (ucast (ucast (drop_bit 48 v) :: byte)) OR
    push_bit 56 (ucast (ucast (drop_bit 56 v) :: byte)) = v"
  by (rule bit_word_eqI) (simp add: bit_or_iff bit_byte_field bit_low_byte, linarith)

lemma BE_decode [simp]:
  "BE_Uint16 (BE_bytes16 v @ r) = v"
  "BE_Uint32 (BE_bytes32 w @ r) = w"
  "BE_Uint64 (BE_bytes64 x @ r) = x"
  by (simp_all add: BE_Uint16_def BE_bytes16_def split16 BE_Uint32_def BE_bytes32_def split32
      BE_Uint64_def BE_bytes64_def split64)

lemma LE_decode [simp]:
  "LE_Uint16 (LE_bytes16 v @ r) = v"
  "LE_Uint32 (LE_bytes32 w @ r) = w"
  "LE_Uint64 (LE_bytes64 x @ r) = x"
  by (simp_all add: LE_Uint16_def LE_bytes16_def split16 LE_Uint32_def LE_bytes32_def split32
      LE_Uint64_def LE_bytes64_def split64)

lemma decode_exact [simp]:
  "BE_Uint16 (BE_bytes16 v) = v" "BE_Uint32 (BE_bytes32 w) = w" "BE_Uint64 (BE_bytes64 x) = x"
  "LE_Uint16 (LE_bytes16 v) = v" "LE_Uint32 (LE_bytes32 w) = w" "LE_Uint64 (LE_bytes64 x) = x"
  using BE_decode [where r = "[]"] LE_decode [where r = "[]"] by simp_all

lemma Byte_decode [simp]: "Byte_get (Byte_put v @ r) = v"
  by (simp add: Byte_get_def Byte_put_def)

subsection \<open>The codec contract\<close>

locale fixed_codec =
  fixes width :: nat
    and put :: "'v \<Rightarrow> bytes"
    and get :: "bytes \<Rightarrow> 'v"
  assumes put_length: "length (put v) = width"
    and get_put: "get (put v @ r) = v"
begin

lemma put_inj: "put v = put w \<Longrightarrow> v = w"
  using get_put [of v "[]"] get_put [of w "[]"] by simp

text \<open>What was stored at a position of a buffer is read back there.\<close>

lemma get_copy_at:
  assumes "p + width \<le> length buf"
  shows "get (drop p (copy_at p buf (put v))) = v"
  using assms by (simp add: drop_copy_at put_length get_put)

text \<open>A read only looks at the \<open>width\<close> bytes that were stored.\<close>

lemma get_of_prefix:
  assumes "take width b = put v" and "width \<le> length b"
  shows "get b = v"
proof -
  have "b = put v @ drop width b"
    using append_take_drop_id [of width b] assms(1) by simp
  then show ?thesis
    using get_put [of v "drop width b"] by simp
qed

end

interpretation BE16: fixed_codec 2 BE_bytes16 BE_Uint16
  by unfold_locales simp_all
interpretation BE32: fixed_codec 4 BE_bytes32 BE_Uint32
  by unfold_locales simp_all
interpretation BE64: fixed_codec 8 BE_bytes64 BE_Uint64
  by unfold_locales simp_all
interpretation LE16: fixed_codec 2 LE_bytes16 LE_Uint16
  by unfold_locales simp_all
interpretation LE32: fixed_codec 4 LE_bytes32 LE_Uint32
  by unfold_locales simp_all
interpretation LE64: fixed_codec 8 LE_bytes64 LE_Uint64
  by unfold_locales simp_all
interpretation B8: fixed_codec 1 Byte_put Byte_get
  by unfold_locales simp_all

end
