(* ===== verification/Byte_Stream.thy ===== *)
theory Byte_Stream
  imports Byte_Order
begin

text \<open>
  \<open>pkg/network/stream/stream.go\<close>: the cursor over a byte buffer in its two byte orders.
  Both structs have the same two fields, so one record models them; the operations are
  named after the method with a \<open>BE_\<close> or \<open>LE_\<close> prefix.  Methods that return
  \<open>(value, err)\<close> return a sum, since the value is the zero value whenever \<open>err\<close> is set;
  \<open>Read\<close> and \<open>Write\<close>, where it is not, return both.  A \<open>nil\<close> slice argument is
  \<open>None\<close>.
\<close>

record stream =
  pos :: nat
  buff :: bytes

type_synonym BigEndianStreamImpl = stream
type_synonym LittleEndianStreamImpl = stream

definition ErrTooSmall :: error where
  "ErrTooSmall = ErrorString ''buff is too small to io''"

definition stream_Left :: "stream \<Rightarrow> int" where
  "stream_Left s = int (length (buff s)) - int (pos s)"

subsection \<open>Bodies shared by the two structs\<close>

definition read_fixed :: "nat \<Rightarrow> (bytes \<Rightarrow> 'v) \<Rightarrow> stream \<Rightarrow> (error + 'v) \<times> stream" where
  "read_fixed n get s =
     (if stream_Left s < int n then (Inl ErrTooSmall, s)
      else (Inr (get (drop (pos s) (buff s))), s\<lparr>pos := pos s + n\<rparr>))"

definition write_fixed :: "nat \<Rightarrow> bytes \<Rightarrow> stream \<Rightarrow> error option \<times> stream" where
  "write_fixed n enc s =
     (if stream_Left s < int n then (Some ErrTooSmall, s)
      else (None, s\<lparr>buff := copy_at (pos s) (buff s) enc, pos := pos s + n\<rparr>))"

definition read_buff :: "int \<Rightarrow> stream \<Rightarrow> ((error + bytes) \<times> stream) outcome" where
  "read_buff sz s =
     (if stream_Left s < sz then Ret (Inl ErrTooSmall, s)
      else if sz < 0 then Panic ''makeslice: len out of range''
      else Ret (Inr (take (nat sz) (drop (pos s) (buff s))), s\<lparr>pos := pos s + nat sz\<rparr>))"

text \<open>\<open>CopyBuff\<close> fills the caller's slice and does not move the cursor.\<close>

definition copy_buff :: "bytes \<Rightarrow> stream \<Rightarrow> error option \<times> bytes" where
  "copy_buff b s =
     (if stream_Left s < int (length b) then (Some ErrTooSmall, b)
      else (None, go_copy b (take (length b) (drop (pos s) (buff s)))))"

subsection \<open>BigEndianStreamImpl\<close>

definition NewBigEndianStream :: "bytes \<Rightarrow> BigEndianStreamImpl" where
  "NewBigEndianStream b = \<lparr>pos = 0, buff = b\<rparr>"

definition BE_Size :: "BigEndianStreamImpl \<Rightarrow> nat" where
  "BE_Size s = length (buff s)"

definition BE_Length :: "BigEndianStreamImpl \<Rightarrow> nat" where
  "BE_Length s = pos s"

definition BE_Data :: "BigEndianStreamImpl \<Rightarrow> bytes" where
  "BE_Data s = buff s"

definition BE_Left :: "BigEndianStreamImpl \<Rightarrow> int" where
  "BE_Left s = stream_Left s"

definition BE_Reset :: "bytes \<Rightarrow> BigEndianStreamImpl \<Rightarrow> BigEndianStreamImpl" where
  "BE_Reset b s = s\<lparr>pos := 0, buff := b\<rparr>"

definition BE_ReadByte :: "BigEndianStreamImpl \<Rightarrow> (error + byte) \<times> BigEndianStreamImpl" where
  "BE_ReadByte s = read_fixed 1 Byte_get s"

definition BE_ReadUint16 :: "BigEndianStreamImpl \<Rightarrow> (error + uint16) \<times> BigEndianStreamImpl" where
  "BE_ReadUint16 s = read_fixed 2 BE_Uint16 s"

definition BE_ReadUint32 :: "BigEndianStreamImpl \<Rightarrow> (error + uint32) \<times> BigEndianStreamImpl" where
  "BE_ReadUint32 s = read_fixed 4 BE_Uint32 s"

definition BE_ReadUint64 :: "BigEndianStreamImpl \<Rightarrow> (error + uint64) \<times> BigEndianStreamImpl" where
  "BE_ReadUint64 s = read_fixed 8 BE_Uint64 s"

definition BE_ReadBuff ::
  "int \<Rightarrow> BigEndianStreamImpl \<Rightarrow> ((error + bytes) \<times> BigEndianStreamImpl) outcome" where
  "BE_ReadBuff sz s = read_buff sz s"

text \<open>\<open>Read(p)\<close> returns the pair \<open>(n, err)\<close>, the contents of \<open>p\<close> and the stream.\<close>

definition BE_Read ::
  "bytes \<Rightarrow> BigEndianStreamImpl \<Rightarrow> ((int \<times> error option) \<times> bytes \<times> BigEndianStreamImpl) outcome" where
  "BE_Read p s =
     (case BE_ReadBuff (int (length p)) s of
        Panic m \<Rightarrow> Panic m
      | Ret (Inr buf, s') \<Rightarrow> Ret ((int (length buf), None), go_copy p buf, s')
      | Ret (Inl e, s') \<Rightarrow> Ret ((- 1, Some e), p, s'))"

definition BE_ReadString ::
  "BigEndianStreamImpl \<Rightarrow> ((error + string) \<times> BigEndianStreamImpl) outcome" where
  "BE_ReadString s =
     (case BE_ReadUint16 s of
        (Inl e, s') \<Rightarrow> Ret (Inl e, s')
      | (Inr len, s') \<Rightarrow>
         (case BE_ReadBuff (uint len) s' of
            Panic m \<Rightarrow> Panic m
          | Ret (Inl e, s'') \<Rightarrow> Ret (Inl e, s'')
          | Ret (Inr b, s'') \<Rightarrow> Ret (Inr (string_of_bytes b), s'')))"

definition BE_CopyBuff :: "bytes \<Rightarrow> BigEndianStreamImpl \<Rightarrow> error option \<times> bytes" where
  "BE_CopyBuff b s = copy_buff b s"

definition BE_WriteByte :: "byte \<Rightarrow> BigEndianStreamImpl \<Rightarrow> error option \<times> BigEndianStreamImpl" where
  "BE_WriteByte b s = write_fixed 1 (Byte_put b) s"

definition BE_WriteUint16 :: "uint16 \<Rightarrow> BigEndianStreamImpl \<Rightarrow> error option \<times> BigEndianStreamImpl" where
  "BE_WriteUint16 b s = write_fixed 2 (BE_bytes16 b) s"

definition BE_WriteUint32 :: "uint32 \<Rightarrow> BigEndianStreamImpl \<Rightarrow> error option \<times> BigEndianStreamImpl" where
  "BE_WriteUint32 b s = write_fixed 4 (BE_bytes32 b) s"

definition BE_WriteUint64 :: "uint64 \<Rightarrow> BigEndianStreamImpl \<Rightarrow> error option \<times> BigEndianStreamImpl" where
  "BE_WriteUint64 b s = write_fixed 8 (BE_bytes64 b) s"

definition BE_WriteBuff ::
  "bytes option \<Rightarrow> BigEndianStreamImpl \<Rightarrow> error option \<times> BigEndianStreamImpl" where
  "BE_WriteBuff b s =
     (if BE_Left s < int (length (slice_bytes b)) then (Some ErrTooSmall, s)
      else if b = None \<or> BE_Left s < int (length (slice_bytes b)) then (Some ErrTooSmall, s)
      else (None, s\<lparr>buff := copy_at (pos s) (buff s) (slice_bytes b),
                    pos := pos s + length (slice_bytes b)\<rparr>))"

definition BE_Write ::
  "bytes option \<Rightarrow> BigEndianStreamImpl \<Rightarrow> (int \<times> error option) \<times> BigEndianStreamImpl" where
  "BE_Write b s =
     (case BE_WriteBuff b s of (err, s') \<Rightarrow> ((int (length (slice_bytes b)), err), s'))"

definition BE_WriteString :: "string \<Rightarrow> BigEndianStreamImpl \<Rightarrow> error option \<times> BigEndianStreamImpl" where
  "BE_WriteString b s =
     (case BE_WriteUint16 (of_nat (length b)) s of
        (Some e, s') \<Rightarrow> (Some e, s')
      | (None, s') \<Rightarrow> BE_WriteBuff (Some (bytes_of_string b)) s')"

subsection \<open>LittleEndianStreamImpl\<close>

definition NewLittleEndianStream :: "bytes \<Rightarrow> LittleEndianStreamImpl" where
  "NewLittleEndianStream b = \<lparr>pos = 0, buff = b\<rparr>"

definition LE_Size :: "LittleEndianStreamImpl \<Rightarrow> nat" where
  "LE_Size s = length (buff s)"

definition LE_Data :: "LittleEndianStreamImpl \<Rightarrow> bytes" where
  "LE_Data s = buff s"

definition LE_Left :: "LittleEndianStreamImpl \<Rightarrow> int" where
  "LE_Left s = stream_Left s"

definition LE_Reset :: "bytes \<Rightarrow> LittleEndianStreamImpl \<Rightarrow> LittleEndianStreamImpl" where
  "LE_Reset b s = s\<lparr>pos := 0, buff := b\<rparr>"

definition LE_ReadByte :: "LittleEndianStreamImpl \<Rightarrow> (error + byte) \<times> LittleEndianStreamImpl" where
  "LE_ReadByte s = read_fixed 1 Byte_get s"

definition LE_ReadUint16 :: "LittleEndianStreamImpl \<Rightarrow> (error + uint16) \<times> LittleEndianStreamImpl" where
  "LE_ReadUint16 s = read_fixed 2 LE_Uint16 s"

definition LE_ReadUint32 :: "LittleEndianStreamImpl \<Rightarrow> (error + uint32) \<times> LittleEndianStreamImpl" where
  "LE_ReadUint32 s = read_fixed 4 LE_Uint32 s"

definition LE_ReadUint64 :: "LittleEndianStreamImpl \<Rightarrow> (error + uint64) \<times> LittleEndianStreamImpl" where
  "LE_ReadUint64 s = read_fixed 8 LE_Uint64 s"

definition LE_ReadBuff ::
  "int \<Rightarrow> LittleEndianStreamImpl \<Rightarrow> ((error + bytes) \<times> LittleEndianStreamImpl) outcome" where
  "LE_ReadBuff sz s = read_buff sz s"

definition LE_ReadString ::
  "LittleEndianStreamImpl \<Rightarrow> ((error + string) \<times> LittleEndianStreamImpl) outcome" where
  "LE_ReadString s =
     (case LE_ReadUint16 s of
        (Inl e, s') \<Rightarrow> Ret (Inl e, s')
      | (Inr len, s') \<Rightarrow>
         (case LE_ReadBuff (uint len) s' of
            Panic m \<Rightarrow> Panic m
          | Ret (Inl e, s'') \<Rightarrow> Ret (Inl e, s'')
          | Ret (Inr b, s'') \<Rightarrow> Ret (Inr (string_of_bytes b), s'')))"

definition LE_CopyBuff :: "bytes \<Rightarrow> LittleEndianStreamImpl \<Rightarrow> error option \<times> bytes" where
  "LE_CopyBuff b s = copy_buff b s"

definition LE_WriteByte :: "byte \<Rightarrow> LittleEndianStreamImpl \<Rightarrow> error option \<times> LittleEndianStreamImpl" where
  "LE_WriteByte b s = write_fixed 1 (Byte_put b) s"

definition LE_WriteUint16 :: "uint16 \<Rightarrow> LittleEndianStreamImpl \<Rightarrow> error option \<times> LittleEndianStreamImpl" where
  "LE_WriteUint16 b s = write_fixed 2 (LE_bytes16 b) s"

definition LE_WriteUint32 :: "uint32 \<Rightarrow> LittleEndianStreamImpl \<Rightarrow> error option \<times> LittleEndianStreamImpl" where
  "LE_WriteUint32 b s = write_fixed 4 (LE_bytes32 b) s"

definition LE_WriteUint64 :: "uint64 \<Rightarrow> LittleEndianStreamImpl \<Rightarrow> error option \<times> LittleEndianStreamImpl" where
  "LE_WriteUint64 b s = write_fixed 8 (LE_bytes64 b) s"

text \<open>Here a \<open>nil\<close> slice is not rejected: its length is 0.\<close>

definition LE_WriteBuff ::
  "bytes option \<Rightarrow> LittleEndianStreamImpl \<Rightarrow> error option \<times> LittleEndianStreamImpl" where
  "LE_WriteBuff b s = write_fixed (length (slice_bytes b)) (slice_bytes b) s"

definition LE_WriteString :: "string \<Rightarrow> LittleEndianStreamImpl \<Rightarrow> error option \<times> LittleEndianStreamImpl" where
  "LE_WriteString b s =
     (case LE_WriteUint16 (of_nat (length b)) s of
        (Some e, s') \<Rightarrow> (Some e, s')
      | (None, s') \<Rightarrow> LE_WriteBuff (Some (bytes_of_string b)) s')"

subsection \<open>Sequences of fields\<close>

text \<open>
  A field is one value of the wire format; \<open>encode_field\<close> is its layout.  The locale
  \<open>field_stream\<close> states what the writing and reading methods of a stream owe to each
  other: a write stores the layout at the cursor or fails, and a read of the same kind at a
  position where that layout stands returns the field.  Writing any sequence of fields and
  reading it back is proved once from these laws.
\<close>

datatype field =
    FByte byte | FUint16 uint16 | FUint32 uint32 | FUint64 uint64 | FBuff bytes | FString string

datatype field_kind = KByte | KUint16 | KUint32 | KUint64 | KBuff nat | KString

fun kind_of :: "field \<Rightarrow> field_kind" where
  "kind_of (FByte _) = KByte"
| "kind_of (FUint16 _) = KUint16"
| "kind_of (FUint32 _) = KUint32"
| "kind_of (FUint64 _) = KUint64"
| "kind_of (FBuff b) = KBuff (length b)"
| "kind_of (FString _) = KString"

text \<open>The two-byte length prefix of a string can only hold lengths below 65536.\<close>

fun field_ok :: "field \<Rightarrow> bool" where
  "field_ok (FString t) = (length t < 65536)"
| "field_ok _ = True"

fun BE_write_field :: "field \<Rightarrow> stream \<Rightarrow> error option \<times> stream" where
  "BE_write_field (FByte b) s = BE_WriteByte b s"
| "BE_write_field (FUint16 v) s = BE_WriteUint16 v s"
| "BE_write_field (FUint32 v) s = BE_WriteUint32 v s"
| "BE_write_field (FUint64 v) s = BE_WriteUint64 v s"
| "BE_write_field (FBuff b) s = BE_WriteBuff (Some b) s"
| "BE_write_field (FString t) s = BE_WriteString t s"

fun LE_write_field :: "field \<Rightarrow> stream \<Rightarrow> error option \<times> stream" where
  "LE_write_field (FByte b) s = LE_WriteByte b s"
| "LE_write_field (FUint16 v) s = LE_WriteUint16 v s"
| "LE_write_field (FUint32 v) s = LE_WriteUint32 v s"
| "LE_write_field (FUint64 v) s = LE_WriteUint64 v s"
| "LE_write_field (FBuff b) s = LE_WriteBuff (Some b) s"
| "LE_write_field (FString t) s = LE_WriteString t s"

definition ret_field :: "('v \<Rightarrow> field) \<Rightarrow> (error + 'v) \<times> stream \<Rightarrow> ((error + field) \<times> stream) outcome" where
  "ret_field f r = Ret (case r of (Inl e, s) \<Rightarrow> (Inl e, s) | (Inr v, s) \<Rightarrow> (Inr (f v), s))"

fun BE_read_field :: "field_kind \<Rightarrow> stream \<Rightarrow> ((error + field) \<times> stream) outcome" where
  "BE_read_field KByte s = ret_field FByte (BE_ReadByte s)"
| "BE_read_field KUint16 s = ret_field FUint16 (BE_ReadUint16 s)"
| "BE_read_field KUint32 s = ret_field FUint32 (BE_ReadUint32 s)"
| "BE_read_field KUint64 s = ret_field FUint64 (BE_ReadUint64 s)"
| "BE_read_field (KBuff n) s = bind_outcome (BE_ReadBuff (int n) s) (ret_field FBuff)"
| "BE_read_field KString s = bind_outcome (BE_ReadString s) (ret_field FString)"

fun LE_read_field :: "field_kind \<Rightarrow> stream \<Rightarrow> ((error + field) \<times> stream) outcome" where
  "LE_read_field KByte s = ret_field FByte (LE_ReadByte s)"
| "LE_read_field KUint16 s = ret_field FUint16 (LE_ReadUint16 s)"
| "LE_read_field KUint32 s = ret_field FUint32 (LE_ReadUint32 s)"
| "LE_read_field KUint64 s = ret_field FUint64 (LE_ReadUint64 s)"
| "LE_read_field (KBuff n) s = bind_outcome (LE_ReadBuff (int n) s) (ret_field FBuff)"
| "LE_read_field KString s = bind_outcome (LE_ReadString s) (ret_field FString)"

fun BE_encode_field :: "field \<Rightarrow> bytes" where
  "BE_encode_field (FByte b) = Byte_put b"
| "BE_encode_field (FUint16 v) = BE_bytes16 v"
| "BE_encode_field (FUint32 v) = BE_bytes32 v"
| "BE_encode_field (FUint64 v) = BE_bytes64 v"
| "BE_encode_field (FBuff b) = b"
| "BE_encode_field (FString t) = BE_bytes16 (of_nat (length t)) @ bytes_of_string t"

fun LE_encode_field :: "field \<Rightarrow> bytes" where
  "LE_encode_field (FByte b) = Byte_put b"
| "LE_encode_field (FUint16 v) = LE_bytes16 v"
| "LE_encode_field (FUint32 v) = LE_bytes32 v"
| "LE_encode_field (FUint64 v) = LE_bytes64 v"
| "LE_encode_field (FBuff b) = b"
| "LE_encode_field (FString t) = LE_bytes16 (of_nat (length t)) @ bytes_of_string t"

text \<open>Writing stops at the first error, as the callers' \<open>if err != nil { return err }\<close> does.\<close>

fun write_fields :: "(field \<Rightarrow> stream \<Rightarrow> error option \<times> stream) \<Rightarrow> field list \<Rightarrow> stream
    \<Rightarrow> error option \<times> stream" where
  "write_fields wr [] s = (None, s)"
| "write_fields wr (f # fs) s =
     (case wr f s of (Some e, s') \<Rightarrow> (Some e, s') | (None, s') \<Rightarrow> write_fields wr fs s')"

fun read_fields :: "(field_kind \<Rightarrow> stream \<Rightarrow> ((error + field) \<times> stream) outcome) \<Rightarrow> field_kind list
    \<Rightarrow> stream \<Rightarrow> ((error + field list) \<times> stream) outcome" where
  "read_fields rd [] s = Ret (Inr [], s)"
| "read_fields rd (k # ks) s =
     (case rd k s of
        Panic m \<Rightarrow> Panic m
      | Ret (Inl e, s') \<Rightarrow> Ret (Inl e, s')
      | Ret (Inr f, s') \<Rightarrow>
         (case read_fields rd ks s' of
            Panic m \<Rightarrow> Panic m
          | Ret (Inl e, s'') \<Rightarrow> Ret (Inl e, s'')
          | Ret (Inr fs, s'') \<Rightarrow> Ret (Inr (f # fs), s'')))"

locale field_stream =
  fixes wr :: "field \<Rightarrow> stream \<Rightarrow> error option \<times> stream"
    and rd :: "field_kind \<Rightarrow> stream \<Rightarrow> ((error + field) \<times> stream) outcome"
    and enc :: "field \<Rightarrow> bytes"
  assumes write_ok: "field_ok f \<Longrightarrow> wr f s = (None, s') \<longleftrightarrow>
      pos s + length (enc f) \<le> length (buff s) \<and>
      s' = s\<lparr>buff := copy_at (pos s) (buff s) (enc f), pos := pos s + length (enc f)\<rparr>"
    and read_ok: "field_ok f \<Longrightarrow> pos s \<le> length (buff s) \<Longrightarrow> drop (pos s) (buff s) = enc f @ r \<Longrightarrow>
      rd (kind_of f) s = Ret (Inr f, s\<lparr>pos := pos s + length (enc f)\<rparr>)"
begin

text \<open>A successful sequence of writes leaves exactly the encodings, one after another.\<close>

lemma write_fields_ok:
  assumes "\<forall>f \<in> set fs. field_ok f" and "write_fields wr fs s = (None, s')"
    and "pos s \<le> length (buff s)"
  shows "pos s' = pos s + length (concat (map enc fs)) \<and> pos s' \<le> length (buff s') \<and>
    buff s' = copy_at (pos s) (buff s) (concat (map enc fs))"
  using assms
proof (induction fs arbitrary: s)
  case Nil
  then show ?case by (simp add: copy_at_fits)
next
  case (Cons f fs)
  from Cons.prems obtain t where w: "wr f s = (None, t)" and ws: "write_fields wr fs t = (None, s')"
    by (auto split: prod.splits option.splits)
  with Cons.prems write_ok [of f s t] have fit: "pos s + length (enc f) \<le> length (buff s)"
    and t: "t = s\<lparr>buff := copy_at (pos s) (buff s) (enc f), pos := pos s + length (enc f)\<rparr>"
    by auto
  have IH: "pos s' = pos t + length (concat (map enc fs)) \<and> pos s' \<le> length (buff s') \<and>
    buff s' = copy_at (pos t) (buff t) (concat (map enc fs))"
    using Cons.prems ws fit by (intro Cons.IH) (auto simp: t)
  then show ?case
    using fit by (auto simp: t copy_at_fits ac_simps)
qed

lemma read_fields_ok:
  assumes "\<forall>f \<in> set fs. field_ok f" and "pos s \<le> length (buff s)"
    and "drop (pos s) (buff s) = concat (map enc fs) @ r"
  shows "read_fields rd (map kind_of fs) s =
    Ret (Inr fs, s\<lparr>pos := pos s + length (concat (map enc fs))\<rparr>)"
  using assms
proof (induction fs arbitrary: s)
  case (Cons f fs)
  let ?t = "s\<lparr>pos := pos s + length (enc f)\<rparr>"
  have "rd (kind_of f) s = Ret (Inr f, ?t)"
    using Cons.prems by (intro read_ok) auto
  moreover have "drop (pos ?t) (buff ?t) = drop (length (enc f)) (drop (pos s) (buff s))"
    by (simp add: add.commute)
  then have t: "drop (pos ?t) (buff ?t) = concat (map enc fs) @ r"
    by (simp add: Cons.prems(3) del: drop_drop)
  moreover have "pos ?t \<le> length (buff ?t)"
    using drop_eq_length [OF Cons.prems(3,2)] by simp
  ultimately show ?case
    using Cons.IH [of ?t] Cons.prems(1) t by (simp add: add.assoc)
qed simp

lemma write_read_fields:
  assumes "\<forall>f \<in> set fs. field_ok f" and "pos s \<le> length (buff s)"
    and "write_fields wr fs s = (None, s')"
  shows "read_fields rd (map kind_of fs) (s'\<lparr>pos := pos s\<rparr>) = Ret (Inr fs, s')"
proof -
  note W = write_fields_ok [OF assms(1,3,2)]
  have "drop (pos s) (buff s') = concat (map enc fs) @ drop (pos s') (buff s)"
    using W by (auto simp: drop_copy_at)
  then have "read_fields rd (map kind_of fs) (s'\<lparr>pos := pos s\<rparr>) =
    Ret (Inr fs, s'\<lparr>pos := pos s + length (concat (map enc fs))\<rparr>)"
    using read_fields_ok [OF assms(1), of "s'\<lparr>pos := pos s\<rparr>"] W assms(2) by simp
  then show ?thesis using W by (cases s') simp
qed

end

subsection \<open>The two byte orders meet the contract\<close>

lemma write_fixed_ok:
  "write_fixed n e s = (None, s') \<longleftrightarrow> pos s + n \<le> length (buff s) \<and>
     s' = s\<lparr>buff := copy_at (pos s) (buff s) e, pos := pos s + n\<rparr>"
  by (auto simp: write_fixed_def stream_Left_def)

lemma BE_WriteBuff_Some: "BE_WriteBuff (Some b) s = write_fixed (length b) b s"
  by (simp add: BE_WriteBuff_def write_fixed_def BE_Left_def slice_bytes_def)

lemma LE_WriteBuff_Some: "LE_WriteBuff (Some b) s = write_fixed (length b) b s"
  by (simp add: LE_WriteBuff_def slice_bytes_def)

lemma write_prefixed_ok:
  assumes "length e = n"
  shows "(case write_fixed n e s of (Some x, t) \<Rightarrow> (Some x, t) | (None, t) \<Rightarrow> write_fixed (length b) b t) = (None, s')
    \<longleftrightarrow> pos s + length (e @ b) \<le> length (buff s) \<and>
      s' = s\<lparr>buff := copy_at (pos s) (buff s) (e @ b), pos := pos s + length (e @ b)\<rparr>"
  using assms
  by (cases "pos s + n \<le> length (buff s)")
    (auto simp: write_fixed_def stream_Left_def copy_at_copy_at add.assoc)

lemma read_fixed_ok:
  assumes "drop (pos s) (buff s) = e @ r" and "length e = n" and "pos s \<le> length (buff s)"
  shows "read_fixed n get s = (Inr (get (e @ r)), s\<lparr>pos := pos s + n\<rparr>)"
  using drop_eq_length [OF assms(1,3)] assms
  by (simp add: read_fixed_def stream_Left_def)

lemma read_buff_ok:
  assumes "drop (pos s) (buff s) = b @ r" and "pos s \<le> length (buff s)"
  shows "read_buff (int (length b)) s = Ret (Inr b, s\<lparr>pos := pos s + length b\<rparr>)"
  using drop_eq_length [OF assms(1,2)] assms
  by (simp add: read_buff_def stream_Left_def)

lemma uint_length16: "n < 65536 \<Longrightarrow> uint (of_nat n :: uint16) = int n"
  by (simp add: uint_nat unat_of_nat)

lemmas stream_writes =
  BE_WriteByte_def BE_WriteUint16_def BE_WriteUint32_def BE_WriteUint64_def
  LE_WriteByte_def LE_WriteUint16_def LE_WriteUint32_def LE_WriteUint64_def
  BE_WriteBuff_Some LE_WriteBuff_Some

lemmas stream_reads =
  BE_ReadByte_def BE_ReadUint16_def BE_ReadUint32_def BE_ReadUint64_def BE_ReadBuff_def
  LE_ReadByte_def LE_ReadUint16_def LE_ReadUint32_def LE_ReadUint64_def LE_ReadBuff_def

lemma read_prefixed_ok:
  assumes "drop (pos s) (buff s) = (e @ bytes_of_string t) @ r" and "length e = 2"
    and "pos s \<le> length (buff s)" and "length t < 65536"
    and "get (e @ bytes_of_string t @ r) = (of_nat (length t) :: uint16)"
  shows "(case read_fixed 2 get s of
        (Inl x, s') \<Rightarrow> Ret (Inl x, s')
      | (Inr len, s') \<Rightarrow>
         (case read_buff (uint len) s' of
            Panic m \<Rightarrow> Panic m
          | Ret (Inl x, s'') \<Rightarrow> Ret (Inl x, s'')
          | Ret (Inr b, s'') \<Rightarrow> Ret (Inr (string_of_bytes b), s'')))
    = Ret (Inr t, s\<lparr>pos := pos s + length (e @ bytes_of_string t)\<rparr>)"
proof -
  let ?s = "s\<lparr>pos := pos s + 2\<rparr>"
  have "read_fixed 2 get s = (Inr (of_nat (length t)), ?s)"
    using read_fixed_ok [of s e "bytes_of_string t @ r" 2 get] assms by simp
  moreover have "drop (pos ?s) (buff ?s) = drop 2 (drop (pos s) (buff s))"
    by (simp add: add.commute)
  then have "drop (pos ?s) (buff ?s) = bytes_of_string t @ r"
    using assms(1,2) by (simp del: drop_drop)
  moreover have "pos ?s \<le> length (buff ?s)"
    using drop_eq_length [OF assms(1,3)] assms(2) by simp
  ultimately show ?thesis
    using read_buff_ok [of ?s "bytes_of_string t" r] assms(2,4) by (simp add: uint_length16)
qed

interpretation BEs: field_stream BE_write_field BE_read_field BE_encode_field
proof
  fix f and s s' :: stream
  have "BE_WriteString t s = (None, s') \<longleftrightarrow> pos s + length (BE_encode_field (FString t)) \<le> length (buff s) \<and>
      s' = s\<lparr>buff := copy_at (pos s) (buff s) (BE_encode_field (FString t)),
             pos := pos s + length (BE_encode_field (FString t))\<rparr>" for t
    unfolding BE_WriteString_def stream_writes BE_encode_field.simps by (rule write_prefixed_ok) simp
  then show "BE_write_field f s = (None, s') \<longleftrightarrow>
      pos s + length (BE_encode_field f) \<le> length (buff s) \<and>
      s' = s\<lparr>buff := copy_at (pos s) (buff s) (BE_encode_field f),
             pos := pos s + length (BE_encode_field f)\<rparr>"
    by (cases f)
      (simp_all add: stream_writes write_fixed_ok)
next
  fix f and s :: stream and r
  assume f: "field_ok f" and p: "pos s \<le> length (buff s)"
    and d: "drop (pos s) (buff s) = BE_encode_field f @ r"
  show "BE_read_field (kind_of f) s = Ret (Inr f, s\<lparr>pos := pos s + length (BE_encode_field f)\<rparr>)"
  proof (cases f)
    case (FString t)
    have "BE_ReadString s = Ret (Inr t, s\<lparr>pos := pos s + length (BE_encode_field f)\<rparr>)"
      unfolding BE_ReadString_def stream_reads FString BE_encode_field.simps
      by (rule read_prefixed_ok) (use FString f p d in simp_all)
    then show ?thesis
      by (simp add: FString ret_field_def)
  qed (use p d in \<open>simp_all add: stream_reads read_fixed_ok read_buff_ok ret_field_def\<close>)
qed

interpretation LEs: field_stream LE_write_field LE_read_field LE_encode_field
proof
  fix f and s s' :: stream
  have "LE_WriteString t s = (None, s') \<longleftrightarrow> pos s + length (LE_encode_field (FString t)) \<le> length (buff s) \<and>
      s' = s\<lparr>buff := copy_at (pos s) (buff s) (LE_encode_field (FString t)),
             pos := pos s + length (LE_encode_field (FString t))\<rparr>" for t
    unfolding LE_WriteString_def stream_writes LE_encode_field.simps by (rule write_prefixed_ok) simp
  then show "LE_write_field f s = (None, s') \<longleftrightarrow>
      pos s + length (LE_encode_field f) \<le> length (buff s) \<and>
      s' = s\<lparr>buff := copy_at (pos s) (buff s) (LE_encode_field f),
             pos := pos s + length (LE_encode_field f)\<rparr>"
    by (cases f)
      (simp_all add: stream_writes write_fixed_ok)
next
  fix f and s :: stream and r
  assume f: "field_ok f" and p: "pos s \<le> length (buff s)"
    and d: "drop (pos s) (buff s) = LE_encode_field f @ r"
  show "LE_read_field (kind_of f) s = Ret (Inr f, s\<lparr>pos := pos s + length (LE_encode_field f)\<rparr>)"
  proof (cases f)
    case (FString t)
    have "LE_ReadString s = Ret (Inr t, s\<lparr>pos := pos s + length (LE_encode_field f)\<rparr>)"
      unfolding LE_ReadString_def stream_reads FString LE_encode_field.simps
      by (rule read_prefixed_ok) (use FString f p d in simp_all)
    then show ?thesis
      by (simp add: FString ret_field_def)
  qed (use p d in \<open>simp_all add: stream_reads read_fixed_ok read_buff_ok ret_field_def\<close>)
qed

subsection \<open>Invariant: the cursor stays inside the buffer\<close>

definition stream_inv :: "stream \<Rightarrow> bool" where
  "stream_inv s \<longleftrightarrow> pos s \<le> length (buff s)"

text \<open>
  One call of a state-changing method of \<open>BigEndianStreamImpl\<close>: the stream after it, or
  \<open>None\<close> for a panic.
\<close>

datatype stream_call =
    CReset bytes | CReadByte | CReadUint16 | CReadUint32 | CReadUint64 | CReadBuff int
  | CRead bytes | CReadString | CWriteByte byte | CWriteUint16 uint16 | CWriteUint32 uint32
  | CWriteUint64 uint64 | CWriteBuff "bytes option" | CWrite "bytes option" | CWriteString string

definition after :: "('r \<times> stream) outcome \<Rightarrow> stream option" where
  "after r = (case r of Ret (_, s) \<Rightarrow> Some s | Panic _ \<Rightarrow> None)"

fun BE_call :: "stream_call \<Rightarrow> stream \<Rightarrow> stream option" where
  "BE_call (CReset b) s = Some (BE_Reset b s)"
| "BE_call CReadByte s = Some (snd (BE_ReadByte s))"
| "BE_call CReadUint16 s = Some (snd (BE_ReadUint16 s))"
| "BE_call CReadUint32 s = Some (snd (BE_ReadUint32 s))"
| "BE_call CReadUint64 s = Some (snd (BE_ReadUint64 s))"
| "BE_call (CReadBuff n) s = after (BE_ReadBuff n s)"
| "BE_call (CRead p) s = after (bind_outcome (BE_Read p s) (\<lambda>(r, _, s'). Ret (r, s')))"
| "BE_call CReadString s = after (BE_ReadString s)"
| "BE_call (CWriteByte b) s = Some (snd (BE_WriteByte b s))"
| "BE_call (CWriteUint16 v) s = Some (snd (BE_WriteUint16 v s))"
| "BE_call (CWriteUint32 v) s = Some (snd (BE_WriteUint32 v s))"
| "BE_call (CWriteUint64 v) s = Some (snd (BE_WriteUint64 v s))"
| "BE_call (CWriteBuff b) s = Some (snd (BE_WriteBuff b s))"
| "BE_call (CWrite b) s = Some (snd (BE_Write b s))"
| "BE_call (CWriteString t) s = Some (snd (BE_WriteString t s))"

lemma read_fixed_inv [inv_intros]:
  "stream_inv s \<Longrightarrow> stream_inv (snd (read_fixed n g s)) \<and> buff (snd (read_fixed n g s)) = buff s"
  by (auto simp: read_fixed_def stream_inv_def stream_Left_def)

lemma write_fixed_inv [inv_intros]:
  "stream_inv s \<Longrightarrow> stream_inv (snd (write_fixed n e s)) \<and>
     length (buff (snd (write_fixed n e s))) = length (buff s)"
  by (auto simp: write_fixed_def stream_inv_def stream_Left_def)

lemma read_buff_inv:
  "stream_inv s \<Longrightarrow> read_buff n s = Ret (r, s') \<Longrightarrow> stream_inv s' \<and> buff s' = buff s"
  by (auto simp: read_buff_def stream_inv_def stream_Left_def split: if_splits)

lemma read_buff_Panic: "stream_inv s \<Longrightarrow> (\<exists>m. read_buff n s = Panic m) \<longleftrightarrow> n < 0"
  by (auto simp: read_buff_def stream_inv_def stream_Left_def)

lemma BE_WriteBuff_cases:
  "BE_WriteBuff b s = (Some ErrTooSmall, s) \<or>
   BE_WriteBuff b s = write_fixed (length (slice_bytes b)) (slice_bytes b) s"
  by (auto simp: BE_WriteBuff_def BE_Left_def write_fixed_def)

lemma BE_WriteBuff_inv:
  "stream_inv s \<Longrightarrow> stream_inv (snd (BE_WriteBuff b s)) \<and>
     length (buff (snd (BE_WriteBuff b s))) = length (buff s)"
  using BE_WriteBuff_cases [of b s] write_fixed_inv [of s] by (metis snd_conv)

lemma BE_WriteString_inv:
  assumes "stream_inv s"
  shows "stream_inv (snd (BE_WriteString t s)) \<and>
     length (buff (snd (BE_WriteString t s))) = length (buff s)"
proof (cases "BE_WriteUint16 (of_nat (length t)) s")
  case (Pair e s1)
  then have "stream_inv s1 \<and> length (buff s1) = length (buff s)"
    using write_fixed_inv [OF assms, of 2 "BE_bytes16 (of_nat (length t))"]
    by (simp add: BE_WriteUint16_def)
  with Pair BE_WriteBuff_inv [of s1 "Some (bytes_of_string t)"] show ?thesis
    by (cases e) (simp_all add: BE_WriteString_def)
qed

lemma BE_ReadString_cases:
  assumes "stream_inv s"
  obtains r s' where "BE_ReadString s = Ret (r, s')" "stream_inv s'" "buff s' = buff s"
proof (cases "read_fixed 2 BE_Uint16 s")
  case (Pair r1 s1)
  then have s1: "stream_inv s1" "buff s1 = buff s"
    using read_fixed_inv [OF assms, of 2 BE_Uint16] by simp_all
  show thesis
  proof (cases r1)
    case (Inl e)
    with Pair s1 that show thesis by (simp add: BE_ReadString_def BE_ReadUint16_def)
  next
    case (Inr len)
    show thesis
    proof (cases "read_buff (uint len) s1")
      case (Ret p)
      obtain r2 s2 where p: "p = (r2, s2)" by (cases p)
      from s1 have "stream_inv s2" "buff s2 = buff s"
        using read_buff_inv [OF s1(1)] Ret p by simp_all
      with Ret p Pair Inr that show thesis
        by (cases r2) (simp_all add: BE_ReadString_def BE_ReadUint16_def BE_ReadBuff_def)
    next
      case (Panic m)
      then have "uint len < 0"
        using read_buff_Panic [OF s1(1)] by blast
      then show thesis by (simp add: not_less [symmetric])
    qed
  qed
qed

lemma BE_Read_cases:
  assumes "stream_inv s"
  obtains r p' s' where "BE_Read p s = Ret (r, p', s')" "stream_inv s'" "buff s' = buff s"
proof (cases "read_buff (int (length p)) s")
  case (Ret q)
  obtain r s' where q: "q = (r, s')" by (cases q)
  with Ret show thesis
    using read_buff_inv [OF assms] that by (cases r) (simp_all add: BE_Read_def BE_ReadBuff_def)
next
  case (Panic m)
  then have "int (length p) < 0"
    using read_buff_Panic [OF assms] by blast
  then show thesis by simp
qed

lemma BE_WriteString_eq:
  "BE_WriteString t s =
     (if BE_Left s < 2 then (Some ErrTooSmall, s)
      else if BE_Left s < 2 + int (length t) then
        (Some ErrTooSmall,
         s\<lparr>buff := copy_at (pos s) (buff s) (BE_bytes16 (of_nat (length t))), pos := pos s + 2\<rparr>)
      else
        (None,
         s\<lparr>buff := copy_at (pos s) (buff s) (BE_bytes16 (of_nat (length t)) @ bytes_of_string t),
           pos := pos s + 2 + length t\<rparr>))"
proof -
  have "copy_at (pos s + 2) (copy_at (pos s) (buff s) (BE_bytes16 (of_nat (length t)))) (bytes_of_string t) =
      copy_at (pos s) (buff s) (BE_bytes16 (of_nat (length t)) @ bytes_of_string t)"
    if "pos s + 2 + length t \<le> length (buff s)"
    using copy_at_copy_at [of "pos s" "BE_bytes16 (of_nat (length t))" "bytes_of_string t" "buff s"] that
    by simp
  then show ?thesis
    by (auto simp: BE_WriteString_def BE_WriteUint16_def BE_WriteBuff_Some write_fixed_def
        BE_Left_def stream_Left_def)
qed

subsection \<open>Properties\<close>

text \<open>
  C24: every method of \<open>BigEndianStreamImpl\<close> keeps the cursor inside the buffer and (except
  \<open>Reset\<close>, which installs a new one) the size of the buffer; and the only call that can
  panic is \<open>ReadBuff\<close> with a negative size.
\<close>

theorem BE_call_safe:
  assumes "stream_inv s"
  shows "(\<forall>s'. BE_call c s = Some s' \<longrightarrow> stream_inv s' \<and>
      length (buff s') = (case c of CReset b \<Rightarrow> length b | _ \<Rightarrow> length (buff s))) \<and>
    (BE_call c s = None \<longleftrightarrow> (\<exists>n. c = CReadBuff n \<and> n < 0))"
proof (cases c)
  case (CReset b)
  then show ?thesis by (simp add: BE_Reset_def stream_inv_def)
next
  case (CReadBuff n)
  show ?thesis
  proof (cases "read_buff n s")
    case (Ret q)
    then have "\<not> n < 0"
      using read_buff_Panic [OF assms, of n] by auto
    with Ret read_buff_inv [OF assms, of n "fst q" "snd q"] CReadBuff show ?thesis
      by (cases q) (simp add: BE_ReadBuff_def after_def)
  next
    case (Panic m)
    then have "n < 0"
      using read_buff_Panic [OF assms, of n] by blast
    with Panic CReadBuff show ?thesis
      by (simp add: BE_ReadBuff_def after_def)
  qed
next
  case (CRead p)
  show ?thesis
    by (rule BE_Read_cases [OF assms, of p]) (simp add: CRead after_def)
next
  case CReadString
  show ?thesis
    by (rule BE_ReadString_cases [OF assms]) (simp add: CReadString after_def)
next
  case (CWrite b)
  then show ?thesis
    using BE_WriteBuff_inv [OF assms, of b] by (simp add: BE_Write_def split_beta)
qed (simp_all add: assms stream_reads stream_writes read_fixed_inv write_fixed_inv
    BE_WriteBuff_inv BE_WriteString_inv)

theorem BE_call_safe_witness:
  "stream_inv \<lparr>pos = 1, buff = [0, 5, 7]\<rparr> \<and>
   BE_call (CReadBuff (- 1)) \<lparr>pos = 1, buff = [0, 5, 7]\<rparr> = None \<and>
   BE_call CReadUint16 \<lparr>pos = 1, buff = [0, 5, 7]\<rparr> = Some \<lparr>pos = 3, buff = [0, 5, 7]\<rparr>"
proof -
  have inv: "stream_inv \<lparr>pos = 1, buff = [0, 5, 7]\<rparr>"
    by (simp add: stream_inv_def)
  have "BE_call (CReadBuff (- 1)) \<lparr>pos = 1, buff = [0, 5, 7]\<rparr> = None"
    using BE_call_safe [OF inv, of "CReadBuff (- 1)"] by auto
  then show ?thesis
    using inv by (simp add: BE_ReadUint16_def read_fixed_def stream_Left_def)
qed

text \<open>
  C23: any sequence of bytes, integers, buffers and strings shorter than 65536 bytes that
  \<open>BigEndianStreamImpl\<close> writes without an error is read back unchanged by the matching
  sequence of reads, which ends where the writes ended.
\<close>

theorem BE_fields_roundtrip:
  assumes "\<forall>f \<in> set fs. field_ok f" and "stream_inv s"
    and "write_fields BE_write_field fs s = (None, s')"
  shows "read_fields BE_read_field (map kind_of fs) (s'\<lparr>pos := pos s\<rparr>) = Ret (Inr fs, s')"
  using assms by (intro BEs.write_read_fields) (simp_all add: stream_inv_def)

theorem BE_fields_roundtrip_witness:
  "write_fields BE_write_field [FUint16 513, FString ''ab''] \<lparr>pos = 1, buff = replicate 8 0\<rparr> =
     (None, \<lparr>pos = 7, buff = [0, 2, 1, 0, 2, 97, 98, 0]\<rparr>) \<and>
   read_fields BE_read_field [KUint16, KString] \<lparr>pos = 1, buff = [0, 2, 1, 0, 2, 97, 98, 0]\<rparr> =
     Ret (Inr [FUint16 513, FString ''ab''], \<lparr>pos = 7, buff = [0, 2, 1, 0, 2, 97, 98, 0]\<rparr>)"
proof -
  have w: "write_fields BE_write_field [FUint16 513, FString ''ab''] \<lparr>pos = 1, buff = replicate 8 0\<rparr> =
     (None, \<lparr>pos = 7, buff = [0, 2, 1, 0, 2, 97, 98, 0]\<rparr>)"
    by code_simp
  have i: "stream_inv \<lparr>pos = 1, buff = replicate 8 0\<rparr>"
    by (simp add: stream_inv_def)
  show ?thesis
    using w BE_fields_roundtrip [OF _ i w] by simp
qed

text \<open>The same round trip for \<open>LittleEndianStreamImpl\<close>.\<close>

theorem LE_fields_roundtrip:
  assumes "\<forall>f \<in> set fs. field_ok f" and "stream_inv s"
    and "write_fields LE_write_field fs s = (None, s')"
  shows "read_fields LE_read_field (map kind_of fs) (s'\<lparr>pos := pos s\<rparr>) = Ret (Inr fs, s')"
  using assms by (intro LEs.write_read_fields) (simp_all add: stream_inv_def)

theorem LE_fields_roundtrip_witness:
  "write_fields LE_write_field [FUint32 258, FBuff [9]] \<lparr>pos = 0, buff = replicate 5 0\<rparr> =
     (None, \<lparr>pos = 5, buff = [2, 1, 0, 0, 9]\<rparr>) \<and>
   read_fields LE_read_field [KUint32, KBuff 1] \<lparr>pos = 0, buff = [2, 1, 0, 0, 9]\<rparr> =
     Ret (Inr [FUint32 258, FBuff [9]], \<lparr>pos = 5, buff = [2, 1, 0, 0, 9]\<rparr>)"
proof -
  have w: "write_fields LE_write_field [FUint32 258, FBuff [9]] \<lparr>pos = 0, buff = replicate 5 0\<rparr> =
     (None, \<lparr>pos = 5, buff = [2, 1, 0, 0, 9]\<rparr>)"
    by code_simp
  have i: "stream_inv \<lparr>pos = 0, buff = replicate 5 0\<rparr>"
    by (simp add: stream_inv_def)
  show ?thesis
    using w LE_fields_roundtrip [OF _ i w] by simp
qed

text \<open>
  \<open>WriteString\<close> in every branch.  It is not atomic: when the length prefix fits and the
  text does not, the error leaves the two prefix bytes written and the cursor behind them.
\<close>

theorem BE_WriteString_behaviour:
  "BE_WriteString t s =
     (if BE_Left s < 2 then (Some ErrTooSmall, s)
      else if BE_Left s < 2 + int (length t) then
        (Some ErrTooSmall,
         s\<lparr>buff := copy_at (pos s) (buff s) (BE_bytes16 (of_nat (length t))), pos := pos s + 2\<rparr>)
      else
        (None,
         s\<lparr>buff := copy_at (pos s) (buff s) (BE_bytes16 (of_nat (length t)) @ bytes_of_string t),
           pos := pos s + 2 + length t\<rparr>))"
  by (rule BE_WriteString_eq)

text \<open>
  A string of 65536 bytes or more does not survive: the length prefix is taken modulo
  65536, and \<open>ReadString\<close> returns only that many leading bytes of what was written.
\<close>

theorem BE_WriteString_truncates:
  assumes "stream_inv s" and "BE_WriteString t s = (None, s')"
  shows "BE_ReadString (s'\<lparr>pos := pos s\<rparr>) =
    Ret (Inr (take (length t mod 65536) t), s'\<lparr>pos := pos s + 2 + length t mod 65536\<rparr>)"
proof -
  let ?e = "BE_bytes16 (of_nat (length t))" and ?n = "length t mod 65536"
  have s': "pos s + 2 + length t \<le> length (buff s)"
    "s' = s\<lparr>buff := copy_at (pos s) (buff s) (?e @ bytes_of_string t), pos := pos s + 2 + length t\<rparr>"
    using assms(2) by (auto simp: BE_WriteString_eq BE_Left_def stream_Left_def split: if_splits)
  have split: "bytes_of_string t = bytes_of_string (take ?n t) @ bytes_of_string (drop ?n t)"
    by (simp add: bytes_of_string_def flip: map_append)
  have n: "length (take ?n t) = ?n"
    by simp
  have of_n: "(of_nat (length t) :: uint16) = of_nat ?n"
    by (simp add: word_unat_eq_iff unat_of_nat)
  have "BE_ReadString (s'\<lparr>pos := pos s\<rparr>) = Ret (Inr (take ?n t),
      (s'\<lparr>pos := pos s\<rparr>)\<lparr>pos := pos (s'\<lparr>pos := pos s\<rparr>) + length (?e @ bytes_of_string (take ?n t))\<rparr>)"
    unfolding BE_ReadString_def stream_reads
    by (rule read_prefixed_ok [where r = "bytes_of_string (drop ?n t) @ drop (pos s + 2 + length t) (buff s)"])
      (use s' split n of_n in \<open>simp_all add: drop_copy_at\<close>)
  then show ?thesis
    by simp
qed

theorem BE_WriteString_truncates_witness:
  "\<exists>s'. BE_WriteString (replicate 65537 CHR ''a'') \<lparr>pos = 0, buff = replicate 65539 0\<rparr> = (None, s') \<and>
     BE_ReadString (s'\<lparr>pos := 0\<rparr>) = Ret (Inr ''a'', s'\<lparr>pos := 3\<rparr>)"
proof -
  let ?s = "\<lparr>pos = 0, buff = replicate 65539 0\<rparr> :: stream"
  let ?t = "replicate 65537 CHR ''a''"
  have i: "stream_inv ?s"
    by (simp add: stream_inv_def)
  obtain s' where w: "BE_WriteString ?t ?s = (None, s')"
    by (simp add: BE_WriteString_eq BE_Left_def stream_Left_def)
  have "BE_ReadString (s'\<lparr>pos := 0\<rparr>) = Ret (Inr (take 1 ?t), s'\<lparr>pos := 3\<rparr>)"
    using BE_WriteString_truncates [OF i w] by simp
  then show ?thesis
    using w by (intro exI [of _ s']) (simp add: take_replicate)
qed

end
