(* ===== verification/Go_Io.thy ===== *)
theory Go_Io
  imports NF_Prelude
begin

text \<open>
  The input/output layer under the packet code: the model of a \<open>net.Conn\<close> (what the
  peer sends arrives in arbitrary chunks, a write may fail after some bytes), Go's
  \<open>bufio.Reader\<close> and \<open>io.ReadFull\<close> as the source uses them, and
  \<open>writeAll\<close> of \<open>pkg/network/tcp_writer.go\<close>.  Two locales state what clients rely
  on: \<open>io_writer\<close> (bytes are accepted in order, a call without an error makes
  progress, and \<open>env\<close> is left alone) and \<open>io_reader\<close> (bytes are delivered in order, then one final error).
  Inside them \<open>writeAll\<close> and \<open>ReadFull\<close> are shown to return, and to depend on the
  byte sequence only, never on how it was cut.
\<close>

text \<open>A \<open>Write\<close> method may be a loop itself: \<open>None\<close> is a call that never returns.\<close>

type_synonym 'w writer = "bytes \<Rightarrow> 'w \<Rightarrow> ((int \<times> error option) \<times> 'w) outcome option"
type_synonym 'r reader = "nat \<Rightarrow> 'r \<Rightarrow> (bytes \<times> error option) \<times> 'r"

subsection \<open>net.Conn\<close>

text \<open>
  \<open>nc_wfail\<close> scripts the coming writes: an entry \<open>(k, e)\<close> makes that write fail with
  \<open>e\<close> after \<open>k\<close> bytes if it is longer than \<open>k\<close>.  \<open>nc_in\<close> are the chunks still to
  arrive and \<open>nc_rerr\<close> is the error every read reports afterwards (\<open>EOF\<close> when the peer
  has closed).  \<open>nc_tcp\<close> tells a \<open>*net.TCPConn\<close> from a \<open>*tls.Conn\<close>.
\<close>

record netconn =
  nc_out :: bytes
  nc_wfail :: "(nat \<times> error) list"
  nc_in :: "bytes list"
  nc_rerr :: error
  nc_tcp :: bool
  nc_raddr :: string
  nc_laddr :: string

definition net_write :: "netconn writer" where
  "net_write p c =
     (case nc_wfail c of
        [] \<Rightarrow> Some (Ret ((int (length p), None), c\<lparr>nc_out := nc_out c @ p\<rparr>))
      | (k, e) # rest \<Rightarrow>
         (if k < length p
          then Some (Ret ((int k, Some e), c\<lparr>nc_out := nc_out c @ take k p, nc_wfail := rest\<rparr>))
          else Some (Ret ((int (length p), None), c\<lparr>nc_out := nc_out c @ p, nc_wfail := rest\<rparr>))))"

definition net_read :: "netconn reader" where
  "net_read n c =
     (case nc_in c of
        [] \<Rightarrow> (([], Some (nc_rerr c)), c)
      | ch # rest \<Rightarrow>
         (if length ch \<le> n then ((ch, None), c\<lparr>nc_in := rest\<rparr>)
          else ((take n ch, None), c\<lparr>nc_in := drop n ch # rest\<rparr>)))"

subsection \<open>writeAll\<close>

text \<open>
  The loop of \<open>writeAll(w, p)\<close>; \<open>None\<close> is a loop that never returns.  A count outside
  \<open>0 .. len(p)\<close> makes the slice expression \<open>p[n:]\<close> panic.
\<close>

partial_function (option) writeAll_loop ::
  "'w writer \<Rightarrow> bytes \<Rightarrow> int \<Rightarrow> 'w \<Rightarrow> ((int \<times> error option) \<times> 'w) outcome option" where
  "writeAll_loop wr p tot w =
     (if p = [] then Some (Ret ((tot, None), w))
      else
        (case wr p w of
           None \<Rightarrow> None
         | Some (Panic m) \<Rightarrow> Some (Panic m)
         | Some (Ret ((n, err), w')) \<Rightarrow>
            (if err \<noteq> None then Some (Ret ((tot + n, err), w'))
             else if n < 0 \<or> int (length p) < n then Some (Panic ''slice bounds out of range'')
             else writeAll_loop wr (drop (nat n) p) (tot + n) w')))"

definition writeAll :: "'w writer \<Rightarrow> bytes \<Rightarrow> 'w \<Rightarrow> ((int \<times> error option) \<times> 'w) outcome option" where
  "writeAll wr p w = writeAll_loop wr p 0 w"

subsection \<open>bufio.Reader and io.ReadFull\<close>

record 'r bufio =
  br_buf :: bytes
  br_err :: "error option"
  br_src :: 'r

definition bufio_new :: "'r \<Rightarrow> 'r bufio" where
  "bufio_new r = \<lparr>br_buf = [], br_err = None, br_src = r\<rparr>"

definition bufio_Read :: "nat \<Rightarrow> 'r reader \<Rightarrow> 'r bufio reader" where
  "bufio_Read bsize rd n b =
     (if br_buf b \<noteq> [] then ((take n (br_buf b), None), b\<lparr>br_buf := drop n (br_buf b)\<rparr>)
      else if br_err b \<noteq> None then (([], br_err b), b\<lparr>br_err := None\<rparr>)
      else if bsize \<le> n then
        (case rd n (br_src b) of ((bs, e), r') \<Rightarrow> ((bs, e), b\<lparr>br_src := r'\<rparr>))
      else
        (case rd bsize (br_src b) of ((bs, e), r') \<Rightarrow>
           if bs = [] then (([], e), b\<lparr>br_src := r'\<rparr>)
           else ((take n bs, None), b\<lparr>br_buf := drop n bs, br_err := e, br_src := r'\<rparr>)))"

text \<open>\<open>io.ReadFull(r, buf)\<close> with \<open>len(buf) = n\<close>: the bytes read so far and the error.\<close>

partial_function (option) ReadFull_loop ::
  "'r reader \<Rightarrow> nat \<Rightarrow> bytes \<Rightarrow> error option \<Rightarrow> 'r \<Rightarrow> ((bytes \<times> error option) \<times> 'r) option" where
  "ReadFull_loop rd n acc err r =
     (if length acc < n \<and> err = None then
        (case rd (n - length acc) r of ((bs, e), r') \<Rightarrow> ReadFull_loop rd n (acc @ bs) e r')
      else
        Some ((acc, if n \<le> length acc then None
                    else if acc \<noteq> [] \<and> err = Some EOF then Some ErrUnexpectedEOF
                    else err), r))"

definition ReadFull :: "'r reader \<Rightarrow> nat \<Rightarrow> 'r \<Rightarrow> ((bytes \<times> error option) \<times> 'r) option" where
  "ReadFull rd n r = ReadFull_loop rd n [] None r"

subsection \<open>The writer contract\<close>

locale io_writer =
  fixes wr :: "'w writer"
    and out :: "'w \<Rightarrow> bytes"
    and env :: "'w \<Rightarrow> 'e"
  assumes returns: "\<exists>n err w'. wr p w = Some (Ret ((n, err), w'))"
    and accepts: "wr p w = Some (Ret ((n, err), w')) \<Longrightarrow>
      0 \<le> n \<and> n \<le> int (length p) \<and> out w' = out w @ take (nat n) p \<and> env w' = env w"
    and progress: "wr p w = Some (Ret ((n, None), w')) \<Longrightarrow> p \<noteq> [] \<Longrightarrow> 0 < n"
begin

lemma writeAll_loop_correct:
  "\<exists>n err w'. writeAll_loop wr p tot w = Some (Ret ((tot + int n, err), w')) \<and>
     n \<le> length p \<and> out w' = out w @ take n p \<and> env w' = env w \<and> (err = None \<longrightarrow> n = length p)"
proof (induction "length p" arbitrary: p tot w rule: less_induct)
  case less
  show ?case
  proof (cases "p = []")
    case True
    then show ?thesis
      by (intro exI [of _ 0] exI [of _ None] exI [of _ w]) (simp add: writeAll_loop.simps)
  next
    case False
    obtain n err w1 where w1: "wr p w = Some (Ret ((n, err), w1))"
      using returns by blast
    note a = accepts [OF w1]
    show ?thesis
    proof (cases err)
      case (Some e)
      with False w1 a show ?thesis
        by (intro exI [of _ "nat n"] exI [of _ err] exI [of _ w1])
          (simp add: writeAll_loop.simps [of wr p] nat_le_iff)
    next
      case None
      with w1 False have "0 < n" using progress by blast
      then have "length (drop (nat n) p) < length p" using False by simp
      from less [OF this, of "tot + n" w1] obtain m err' w' where IH:
        "writeAll_loop wr (drop (nat n) p) (tot + n) w1 = Some (Ret ((tot + n + int m, err'), w'))"
        "m \<le> length (drop (nat n) p)" "out w' = out w1 @ take m (drop (nat n) p)"
        "env w' = env w1" "err' = None \<longrightarrow> m = length (drop (nat n) p)"
        by blast
      have "out w' = out w @ take (nat n + m) p"
        using IH(3) a by (simp add: take_add)
      moreover have "writeAll_loop wr p tot w = Some (Ret ((tot + int (nat n + m), err'), w'))"
        using False w1 None a IH(1) by (simp add: writeAll_loop.simps [of wr p] add.assoc)
      ultimately show ?thesis
        using IH(2,4,5) a
        by (intro exI [of _ "nat n + m"] exI [of _ err'] exI [of _ w']) auto
    qed
  qed
qed

text \<open>
  \<open>writeAll\<close> always returns, never panics, and reports exactly the prefix that was
  accepted; without an error that is the whole slice.
\<close>

lemma writeAll_correct:
  obtains n err w' where "writeAll wr p w = Some (Ret ((int n, err), w'))" "n \<le> length p"
    "out w' = out w @ take n p" "env w' = env w" "err = None \<Longrightarrow> n = length p"
  using writeAll_loop_correct [of p 0 w] that by (auto simp: writeAll_def)

end

interpretation net_w: io_writer net_write nc_out "\<lambda>c. (nc_in c, nc_rerr c)"
  by unfold_locales (auto simp: net_write_def split: list.splits if_splits)

subsection \<open>The reader contract\<close>

text \<open>
  \<open>pending r\<close> is what the reader will still deliver, \<open>final r\<close> the error it reports
  then; \<open>env r\<close> is the part of the state that reading leaves alone; \<open>reads r\<close>
  bounds the number of calls that can succeed.
\<close>

locale io_reader =
  fixes rd :: "'r reader"
    and ok :: "'r \<Rightarrow> bool"
    and pending :: "'r \<Rightarrow> bytes"
    and final :: "'r \<Rightarrow> error"
    and env :: "'r \<Rightarrow> 'e"
    and reads :: "'r \<Rightarrow> nat"
  assumes delivers: "ok r \<Longrightarrow> 0 < n \<Longrightarrow> rd n r = ((bs, e), r') \<Longrightarrow>
      ok r' \<and> length bs \<le> n \<and> pending r = bs @ pending r' \<and> final r' = final r \<and>
      env r' = env r"
    and fails: "ok r \<Longrightarrow> 0 < n \<Longrightarrow> rd n r = ((bs, Some x), r') \<Longrightarrow>
      bs = [] \<and> pending r = [] \<and> x = final r"
    and decreases: "ok r \<Longrightarrow> 0 < n \<Longrightarrow> rd n r = ((bs, None), r') \<Longrightarrow> reads r' < reads r"
begin

text \<open>What \<open>io.ReadFull\<close> reports when the bytes run out after \<open>got\<close>.\<close>

definition short_error :: "bytes \<Rightarrow> 'r \<Rightarrow> error" where
  "short_error got r = (if got \<noteq> [] \<and> final r = EOF then ErrUnexpectedEOF else final r)"

lemma ReadFull_loop_correct:
  assumes "ok r" and "length acc \<le> n"
  shows "\<exists>r'. ok r' \<and> final r' = final r \<and> env r' = env r \<and>
    (if n \<le> length (acc @ pending r)
     then ReadFull_loop rd n acc None r = Some ((take n (acc @ pending r), None), r') \<and>
       pending r' = drop (n - length acc) (pending r)
     else ReadFull_loop rd n acc None r =
         Some ((acc @ pending r, Some (short_error (acc @ pending r) r)), r') \<and> pending r' = [])"
  using assms
proof (induction "reads r" arbitrary: r acc rule: less_induct)
  case less
  show ?case
  proof (cases "length acc < n")
    case False
    with less.prems show ?thesis
      by (intro exI [of _ r]) (simp add: ReadFull_loop.simps)
  next
    case True
    obtain bs e r1 where r1: "rd (n - length acc) r = ((bs, e), r1)"
      by (metis surj_pair)
    with True less.prems have d: "ok r1" "length bs \<le> n - length acc" "pending r = bs @ pending r1"
      "final r1 = final r" "env r1 = env r"
      using delivers [of r "n - length acc" bs e r1] by auto
    show ?thesis
    proof (cases e)
      case None
      with r1 True less.prems have dec: "reads r1 < reads r"
        using decreases [of r "n - length acc" bs r1] by auto
      have le: "length (acc @ bs) \<le> n" using d(2) True by simp
      have step: "ReadFull_loop rd n acc None r = ReadFull_loop rd n (acc @ bs) None r1"
        using True None r1 by (simp add: ReadFull_loop.simps [of rd n acc])
      have rest: "drop (n - length acc) (pending r) = drop (n - length (acc @ bs)) (pending r1)"
        using d(2,3) by simp
      have all: "acc @ pending r = (acc @ bs) @ pending r1"
        by (simp add: d(3))
      have err: "short_error x r = short_error x r1" for x
        by (simp add: short_error_def d(4))
      show ?thesis
        unfolding step rest all err d(4,5) [symmetric] by (rule less.hyps [OF dec d(1) le])
    next
      case (Some x)
      with r1 True less.prems have "bs = []" "pending r = []" "x = final r"
        using fails [of r "n - length acc" bs x r1] by auto
      with d Some r1 True show ?thesis
        by (intro exI [of _ r1])
          (auto simp: ReadFull_loop.simps [of rd n acc] ReadFull_loop.simps [of rd n acc "Some _"]
            short_error_def)
    qed
  qed
qed

text \<open>
  \<open>io.ReadFull\<close> returns, and its result is that of reading the flat byte sequence: the
  next \<open>n\<close> bytes if there are that many, else what is left with the error that stands
  for it.
\<close>

lemma ReadFull_enough:
  assumes "ok r" and "pending r = xs @ ys" and "length xs = n"
  obtains r' where "ReadFull rd n r = Some ((xs, None), r')" "ok r'" "pending r' = ys"
    "final r' = final r" "env r' = env r"
  using ReadFull_loop_correct [OF assms(1), of "[]" n] assms(2,3) that
  by (auto simp: ReadFull_def)

lemma ReadFull_short:
  assumes "ok r" and "length (pending r) < n"
  obtains r' where "ReadFull rd n r = Some ((pending r, Some (short_error (pending r) r)), r')"
    "ok r'" "pending r' = []" "final r' = final r" "env r' = env r"
  using ReadFull_loop_correct [OF assms(1), of "[]" n] assms(2) that
  by (auto simp: ReadFull_def)

end

text \<open>Buffering keeps the contract.\<close>

locale bufio_reader = io_reader +
  fixes bsize :: nat
  assumes bsize_pos: "0 < bsize"
begin

definition buf_ok :: "'a bufio \<Rightarrow> bool" where
  "buf_ok b \<longleftrightarrow> ok (br_src b) \<and> br_err b = None"

definition buf_pending :: "'a bufio \<Rightarrow> bytes" where
  "buf_pending b = br_buf b @ pending (br_src b)"

definition buf_reads :: "'a bufio \<Rightarrow> nat" where
  "buf_reads b = reads (br_src b) * Suc bsize + length (br_buf b)"

lemma bufio_step:
  assumes "buf_ok b" and "0 < n" and "bufio_Read bsize rd n b = ((bs, e), b')"
  shows "buf_ok b' \<and> length bs \<le> n \<and> buf_pending b = bs @ buf_pending b' \<and>
    final (br_src b') = final (br_src b) \<and> env (br_src b') = env (br_src b) \<and>
    (case e of None \<Rightarrow> buf_reads b' < buf_reads b
     | Some x \<Rightarrow> bs = [] \<and> buf_pending b = [] \<and> x = final (br_src b))"
proof (cases "br_buf b = []")
  case False
  with assms show ?thesis
    by (auto simp: bufio_Read_def buf_ok_def buf_pending_def buf_reads_def)
next
  case True
  define k where "k = (if bsize \<le> n then n else bsize)"
  have k: "0 < k" using assms(2) bsize_pos by (simp add: k_def)
  obtain xs e1 r1 where r1: "rd k (br_src b) = ((xs, e1), r1)"
    by (metis surj_pair)
  from assms(1) have okb: "ok (br_src b)" and eb: "br_err b = None"
    by (simp_all add: buf_ok_def)
  note d = delivers [OF okb k r1]
  show ?thesis
  proof (cases e1)
    case None
    with r1 have less: "reads r1 < reads (br_src b)"
      using decreases [OF okb k] by simp
    then have "reads r1 * Suc bsize + bsize < reads (br_src b) * Suc bsize"
      using mult_le_mono1 [of "Suc (reads r1)" "reads (br_src b)" "Suc bsize"] by simp
    with True eb None r1 d assms(2,3) less show ?thesis
      by (auto simp: bufio_Read_def buf_ok_def buf_pending_def buf_reads_def k_def split: if_splits)
  next
    case (Some x)
    with fails [OF okb k] r1 have "xs = []" "pending (br_src b) = []" "x = final (br_src b)"
      by auto
    with True eb Some r1 d assms(2,3) show ?thesis
      by (auto simp: bufio_Read_def buf_ok_def buf_pending_def k_def split: if_splits)
  qed
qed

end

sublocale bufio_reader \<subseteq> br: io_reader "bufio_Read bsize rd" buf_ok buf_pending
    "\<lambda>b. final (br_src b)" "\<lambda>b. env (br_src b)" buf_reads
proof
  fix b b' :: "'a bufio" and n bs e
  assume *: "buf_ok b" "0 < n" "bufio_Read bsize rd n b = ((bs, e), b')"
  then show "buf_ok b' \<and> length bs \<le> n \<and> buf_pending b = bs @ buf_pending b' \<and>
      final (br_src b') = final (br_src b) \<and> env (br_src b') = env (br_src b)"
    using bufio_step [OF *] by blast
next
  fix b b' :: "'a bufio" and n bs e
  assume *: "buf_ok b" "0 < n" "bufio_Read bsize rd n b = ((bs, Some e), b')"
  show "bs = [] \<and> buf_pending b = [] \<and> e = final (br_src b)"
    using bufio_step [OF *] by auto
next
  fix b b' :: "'a bufio" and n bs
  assume *: "buf_ok b" "0 < n" "bufio_Read bsize rd n b = ((bs, None), b')"
  show "buf_reads b' < buf_reads b"
    using bufio_step [OF *] by simp
qed

definition net_reads :: "netconn \<Rightarrow> nat" where
  "net_reads c = sum_list (map (\<lambda>ch. Suc (length ch)) (nc_in c))"

interpretation net_r: bufio_reader net_read "\<lambda>_. True" "\<lambda>c. concat (nc_in c)" nc_rerr nc_out net_reads 4096
  by unfold_locales (auto simp: net_read_def net_reads_def split: list.splits if_splits)

end
