(* ===== verification/Proto_Enums.thy ===== *)
theory Proto_Enums
  imports NF_Prelude
begin

text \<open>
  The enumerations of \<open>gen/base.pb.go\<close>: for each one its constants, their numbers, and the
  two generated lookup tables between numbers and names.  The locale \<open>enum_table\<close> is what
  the code relies on: the tables are inverse to each other, every constant has a name, and
  every number fits into the one-byte command fields of a packet header.
\<close>

type_synonym int32 = "32 word"
type_synonym int64 = "64 word"

datatype MachineType =
    MachineType_MT_UNIVERSAL
  | MachineType_MT_GATEWAY
  | MachineType_MT_MEDIASERVER
  | MachineType_MT_OTHER

fun MachineType_number :: "MachineType \<Rightarrow> int32" where
  "MachineType_number MachineType_MT_UNIVERSAL = 0"
| "MachineType_number MachineType_MT_GATEWAY = 1"
| "MachineType_number MachineType_MT_MEDIASERVER = 2"
| "MachineType_number MachineType_MT_OTHER = 100"

definition MachineType_name :: "int32 \<rightharpoonup> string" where
  "MachineType_name = map_of [
     (0, ''MT_UNIVERSAL''),
     (1, ''MT_GATEWAY''),
     (2, ''MT_MEDIASERVER''),
     (100, ''MT_OTHER'')]"

definition MachineType_value :: "string \<rightharpoonup> int32" where
  "MachineType_value = map_of [
     (''MT_UNIVERSAL'', 0),
     (''MT_GATEWAY'', 1),
     (''MT_MEDIASERVER'', 2),
     (''MT_OTHER'', 100)]"

datatype CMD =
    CMD_UNIVERSAL
  | CMD_SYSTEM
  | CMD_DISCOVERY
  | CMD_DATA_REPORT
  | CMD_CONFIG
  | CMD_EVENT
  | CMD_CONTROL

fun CMD_number :: "CMD \<Rightarrow> int32" where
  "CMD_number CMD_UNIVERSAL = 0"
| "CMD_number CMD_SYSTEM = 10"
| "CMD_number CMD_DISCOVERY = 20"
| "CMD_number CMD_DATA_REPORT = 30"
| "CMD_number CMD_CONFIG = 40"
| "CMD_number CMD_EVENT = 50"
| "CMD_number CMD_CONTROL = 60"

definition CMD_name :: "int32 \<rightharpoonup> string" where
  "CMD_name = map_of [
     (0, ''UNIVERSAL''),
     (10, ''SYSTEM''),
     (20, ''DISCOVERY''),
     (30, ''DATA_REPORT''),
     (40, ''CONFIG''),
     (50, ''EVENT''),
     (60, ''CONTROL'')]"

definition CMD_value :: "string \<rightharpoonup> int32" where
  "CMD_value = map_of [
     (''UNIVERSAL'', 0),
     (''SYSTEM'', 10),
     (''DISCOVERY'', 20),
     (''DATA_REPORT'', 30),
     (''CONFIG'', 40),
     (''EVENT'', 50),
     (''CONTROL'', 60)]"

datatype SCMDSystem =
    SCMDSystem_SYS_UNIVERSAL
  | SCMDSystem_PING
  | SCMDSystem_PONG

fun SCMDSystem_number :: "SCMDSystem \<Rightarrow> int32" where
  "SCMDSystem_number SCMDSystem_SYS_UNIVERSAL = 0"
| "SCMDSystem_number SCMDSystem_PING = 10"
| "SCMDSystem_number SCMDSystem_PONG = 11"

definition SCMDSystem_name :: "int32 \<rightharpoonup> string" where
  "SCMDSystem_name = map_of [
     (0, ''SYS_UNIVERSAL''),
     (10, ''PING''),
     (11, ''PONG'')]"

definition SCMDSystem_value :: "string \<rightharpoonup> int32" where
  "SCMDSystem_value = map_of [
     (''SYS_UNIVERSAL'', 0),
     (''PING'', 10),
     (''PONG'', 11)]"

datatype SCMDDisco =
    SCMDDisco_SD_UNIVERSAL
  | SCMDDisco_REGISTER
  | SCMDDisco_DEREGISTER
  | SCMDDisco_LOOKUP
  | SCMDDisco_LOOKUP_ACK

fun SCMDDisco_number :: "SCMDDisco \<Rightarrow> int32" where
  "SCMDDisco_number SCMDDisco_SD_UNIVERSAL = 0"
| "SCMDDisco_number SCMDDisco_REGISTER = 10"
| "SCMDDisco_number SCMDDisco_DEREGISTER = 11"
| "SCMDDisco_number SCMDDisco_LOOKUP = 12"
| "SCMDDisco_number SCMDDisco_LOOKUP_ACK = 13"

definition SCMDDisco_name :: "int32 \<rightharpoonup> string" where
  "SCMDDisco_name = map_of [
     (0, ''SD_UNIVERSAL''),
     (10, ''REGISTER''),
     (11, ''DEREGISTER''),
     (12, ''LOOKUP''),
     (13, ''LOOKUP_ACK'')]"

definition SCMDDisco_value :: "string \<rightharpoonup> int32" where
  "SCMDDisco_value = map_of [
     (''SD_UNIVERSAL'', 0),
     (''REGISTER'', 10),
     (''DEREGISTER'', 11),
     (''LOOKUP'', 12),
     (''LOOKUP_ACK'', 13)]"

datatype SCMDDataReport =
    SCMDDataReport_SR_UNIVERSAL
  | SCMDDataReport_MACHINE_METRIC
  | SCMDDataReport_NETWORK_METRIC
  | SCMDDataReport_STREAM_ADD
  | SCMDDataReport_STREAM_DELETE
  | SCMDDataReport_STREAM_STATUS
  | SCMDDataReport_STREAM_FAILED
  | SCMDDataReport_STREAMS_QUERY_REQ
  | SCMDDataReport_STREAMS_QUERY_ACK
  | SCMDDataReport_SESSION_ADD
  | SCMDDataReport_SESSION_DELETE
  | SCMDDataReport_SESSION_STATUS
  | SCMDDataReport_SESSION_FAILED
  | SCMDDataReport_SESSION_QUERY_REQ
  | SCMDDataReport_SESSION_QUERY_ACK

fun SCMDDataReport_number :: "SCMDDataReport \<Rightarrow> int32" where
  "SCMDDataReport_number SCMDDataReport_SR_UNIVERSAL = 0"
| "SCMDDataReport_number SCMDDataReport_MACHINE_METRIC = 10"
| "SCMDDataReport_number SCMDDataReport_NETWORK_METRIC = 11"
| "SCMDDataReport_number SCMDDataReport_STREAM_ADD = 20"
| "SCMDDataReport_number SCMDDataReport_STREAM_DELETE = 21"
| "SCMDDataReport_number SCMDDataReport_STREAM_STATUS = 22"
| "SCMDDataReport_number SCMDDataReport_STREAM_FAILED = 23"
| "SCMDDataReport_number SCMDDataReport_STREAMS_QUERY_REQ = 24"
| "SCMDDataReport_number SCMDDataReport_STREAMS_QUERY_ACK = 25"
| "SCMDDataReport_number SCMDDataReport_SESSION_ADD = 30"
| "SCMDDataReport_number SCMDDataReport_SESSION_DELETE = 31"
| "SCMDDataReport_number SCMDDataReport_SESSION_STATUS = 32"
| "SCMDDataReport_number SCMDDataReport_SESSION_FAILED = 33"
| "SCMDDataReport_number SCMDDataReport_SESSION_QUERY_REQ = 40"
| "SCMDDataReport_number SCMDDataReport_SESSION_QUERY_ACK = 41"

definition SCMDDataReport_name :: "int32 \<rightharpoonup> string" where
  "SCMDDataReport_name = map_of [
     (0, ''SR_UNIVERSAL''),
     (10, ''MACHINE_METRIC''),
     (11, ''NETWORK_METRIC''),
     (20, ''STREAM_ADD''),
     (21, ''STREAM_DELETE''),
     (22, ''STREAM_STATUS''),
     (23, ''STREAM_FAILED''),
     (24, ''STREAMS_QUERY_REQ''),
     (25, ''STREAMS_QUERY_ACK''),
     (30, ''SESSION_ADD''),
     (31, ''SESSION_DELETE''),
     (32, ''SESSION_STATUS''),
     (33, ''SESSION_FAILED''),
     (40, ''SESSION_QUERY_REQ''),
     (41, ''SESSION_QUERY_ACK'')]"

definition SCMDDataReport_value :: "string \<rightharpoonup> int32" where
  "SCMDDataReport_value = map_of [
     (''SR_UNIVERSAL'', 0),
     (''MACHINE_METRIC'', 10),
     (''NETWORK_METRIC'', 11),
     (''STREAM_ADD'', 20),
     (''STREAM_DELETE'', 21),
     (''STREAM_STATUS'', 22),
     (''STREAM_FAILED'', 23),
     (''STREAMS_QUERY_REQ'', 24),
     (''STREAMS_QUERY_ACK'', 25),
     (''SESSION_ADD'', 30),
     (''SESSION_DELETE'', 31),
     (''SESSION_STATUS'', 32),
     (''SESSION_FAILED'', 33),
     (''SESSION_QUERY_REQ'', 40),
     (''SESSION_QUERY_ACK'', 41)]"

datatype SCMDConfig =
    SCMDConfig_CF_UNIVERSAL
  | SCMDConfig_CF_WHITEIP_CHANGED
  | SCMDConfig_CF_LIMIT_CHANGED

fun SCMDConfig_number :: "SCMDConfig \<Rightarrow> int32" where
  "SCMDConfig_number SCMDConfig_CF_UNIVERSAL = 0"
| "SCMDConfig_number SCMDConfig_CF_WHITEIP_CHANGED = 10"
| "SCMDConfig_number SCMDConfig_CF_LIMIT_CHANGED = 20"

definition SCMDConfig_name :: "int32 \<rightharpoonup> string" where
  "SCMDConfig_name = map_of [
     (0, ''CF_UNIVERSAL''),
     (10, ''CF_WHITEIP_CHANGED''),
     (20, ''CF_LIMIT_CHANGED'')]"

definition SCMDConfig_value :: "string \<rightharpoonup> int32" where
  "SCMDConfig_value = map_of [
     (''CF_UNIVERSAL'', 0),
     (''CF_WHITEIP_CHANGED'', 10),
     (''CF_LIMIT_CHANGED'', 20)]"

datatype SCMDEvent =
    SCMDEvent_SE_UNIVERSAL
  | SCMDEvent_SE_ACCESS_DENIED
  | SCMDEvent_SE_IP_BLOCKED

fun SCMDEvent_number :: "SCMDEvent \<Rightarrow> int32" where
  "SCMDEvent_number SCMDEvent_SE_UNIVERSAL = 0"
| "SCMDEvent_number SCMDEvent_SE_ACCESS_DENIED = 10"
| "SCMDEvent_number SCMDEvent_SE_IP_BLOCKED = 20"

definition SCMDEvent_name :: "int32 \<rightharpoonup> string" where
  "SCMDEvent_name = map_of [
     (0, ''SE_UNIVERSAL''),
     (10, ''SE_ACCESS_DENIED''),
     (20, ''SE_IP_BLOCKED'')]"

definition SCMDEvent_value :: "string \<rightharpoonup> int32" where
  "SCMDEvent_value = map_of [
     (''SE_UNIVERSAL'', 0),
     (''SE_ACCESS_DENIED'', 10),
     (''SE_IP_BLOCKED'', 20)]"

datatype StreamStatus =
    StreamStatus_SS_UNIVERSAL
  | StreamStatus_SS_RUNNING
  | StreamStatus_SS_INACTIVE
  | StreamStatus_SS_ERROR
  | StreamStatus_SS_CLOSED
  | StreamStatus_SS_TIMEOUT
  | StreamStatus_SS_CANCELLED
  | StreamStatus_SS_FAILED

fun StreamStatus_number :: "StreamStatus \<Rightarrow> int32" where
  "StreamStatus_number StreamStatus_SS_UNIVERSAL = 0"
| "StreamStatus_number StreamStatus_SS_RUNNING = 1"
| "StreamStatus_number StreamStatus_SS_INACTIVE = 2"
| "StreamStatus_number StreamStatus_SS_ERROR = 3"
| "StreamStatus_number StreamStatus_SS_CLOSED = 4"
| "StreamStatus_number StreamStatus_SS_TIMEOUT = 5"
| "StreamStatus_number StreamStatus_SS_CANCELLED = 6"
| "StreamStatus_number StreamStatus_SS_FAILED = 7"

definition StreamStatus_name :: "int32 \<rightharpoonup> string" where
  "StreamStatus_name = map_of [
     (0, ''SS_UNIVERSAL''),
     (1, ''SS_RUNNING''),
     (2, ''SS_INACTIVE''),
     (3, ''SS_ERROR''),
     (4, ''SS_CLOSED''),
     (5, ''SS_TIMEOUT''),
     (6, ''SS_CANCELLED''),
     (7, ''SS_FAILED'')]"

definition StreamStatus_value :: "string \<rightharpoonup> int32" where
  "StreamStatus_value = map_of [
     (''SS_UNIVERSAL'', 0),
     (''SS_RUNNING'', 1),
     (''SS_INACTIVE'', 2),
     (''SS_ERROR'', 3),
     (''SS_CLOSED'', 4),
     (''SS_TIMEOUT'', 5),
     (''SS_CANCELLED'', 6),
     (''SS_FAILED'', 7)]"

datatype StreamCodec =
    StreamCodec_SC_UNIVERSAL
  | StreamCodec_SC_H264
  | StreamCodec_SC_H265
  | StreamCodec_SC_VP8
  | StreamCodec_SC_VP9
  | StreamCodec_SC_AV1
  | StreamCodec_SC_MPEG4A
  | StreamCodec_SC_MPEG4V
  | StreamCodec_SC_MPEG1
  | StreamCodec_SC_MPEG2
  | StreamCodec_SC_MJPEG
  | StreamCodec_SC_OPUS
  | StreamCodec_SC_AAC
  | StreamCodec_SC_SPEEX
  | StreamCodec_SC_G722
  | StreamCodec_SC_G711

fun StreamCodec_number :: "StreamCodec \<Rightarrow> int32" where
  "StreamCodec_number StreamCodec_SC_UNIVERSAL = 0"
| "StreamCodec_number StreamCodec_SC_H264 = 1"
| "StreamCodec_number StreamCodec_SC_H265 = 2"
| "StreamCodec_number StreamCodec_SC_VP8 = 3"
| "StreamCodec_number StreamCodec_SC_VP9 = 4"
| "StreamCodec_number StreamCodec_SC_AV1 = 5"
| "StreamCodec_number StreamCodec_SC_MPEG4A = 6"
| "StreamCodec_number StreamCodec_SC_MPEG4V = 7"
| "StreamCodec_number StreamCodec_SC_MPEG1 = 8"
| "StreamCodec_number StreamCodec_SC_MPEG2 = 9"
| "StreamCodec_number StreamCodec_SC_MJPEG = 10"
| "StreamCodec_number StreamCodec_SC_OPUS = 11"
| "StreamCodec_number StreamCodec_SC_AAC = 12"
| "StreamCodec_number StreamCodec_SC_SPEEX = 13"
| "StreamCodec_number StreamCodec_SC_G722 = 14"
| "StreamCodec_number StreamCodec_SC_G711 = 15"

definition StreamCodec_name :: "int32 \<rightharpoonup> string" where
  "StreamCodec_name = map_of [
     (0, ''SC_UNIVERSAL''),
     (1, ''SC_H264''),
     (2, ''SC_H265''),
     (3, ''SC_VP8''),
     (4, ''SC_VP9''),
     (5, ''SC_AV1''),
     (6, ''SC_MPEG4A''),
     (7, ''SC_MPEG4V''),
     (8, ''SC_MPEG1''),
     (9, ''SC_MPEG2''),
     (10, ''SC_MJPEG''),
     (11, ''SC_OPUS''),
     (12, ''SC_AAC''),
     (13, ''SC_SPEEX''),
     (14, ''SC_G722''),
     (15, ''SC_G711'')]"

definition StreamCodec_value :: "string \<rightharpoonup> int32" where
  "StreamCodec_value = map_of [
     (''SC_UNIVERSAL'', 0),
     (''SC_H264'', 1),
     (''SC_H265'', 2),
     (''SC_VP8'', 3),
     (''SC_VP9'', 4),
     (''SC_AV1'', 5),
     (''SC_MPEG4A'', 6),
     (''SC_MPEG4V'', 7),
     (''SC_MPEG1'', 8),
     (''SC_MPEG2'', 9),
     (''SC_MJPEG'', 10),
     (''SC_OPUS'', 11),
     (''SC_AAC'', 12),
     (''SC_SPEEX'', 13),
     (''SC_G722'', 14),
     (''SC_G711'', 15)]"

datatype StreamProtocol =
    StreamProtocol_SP_UNIVERSAL
  | StreamProtocol_SP_RTMP
  | StreamProtocol_SP_RTSP
  | StreamProtocol_SP_HLS
  | StreamProtocol_SP_HTTP_FLV
  | StreamProtocol_SP_WS_FLV
  | StreamProtocol_SP_HTTPS_FLV
  | StreamProtocol_SP_WSS_FLV
  | StreamProtocol_SP_GB28181

fun StreamProtocol_number :: "StreamProtocol \<Rightarrow> int32" where
  "StreamProtocol_number StreamProtocol_SP_UNIVERSAL = 0"
| "StreamProtocol_number StreamProtocol_SP_RTMP = 1"
| "StreamProtocol_number StreamProtocol_SP_RTSP = 2"
| "StreamProtocol_number StreamProtocol_SP_HLS = 3"
| "StreamProtocol_number StreamProtocol_SP_HTTP_FLV = 4"
| "StreamProtocol_number StreamProtocol_SP_WS_FLV = 5"
| "StreamProtocol_number StreamProtocol_SP_HTTPS_FLV = 6"
| "StreamProtocol_number StreamProtocol_SP_WSS_FLV = 7"
| "StreamProtocol_number StreamProtocol_SP_GB28181 = 8"

definition StreamProtocol_name :: "int32 \<rightharpoonup> string" where
  "StreamProtocol_name = map_of [
     (0, ''SP_UNIVERSAL''),
     (1, ''SP_RTMP''),
     (2, ''SP_RTSP''),
     (3, ''SP_HLS''),
     (4, ''SP_HTTP_FLV''),
     (5, ''SP_WS_FLV''),
     (6, ''SP_HTTPS_FLV''),
     (7, ''SP_WSS_FLV''),
     (8, ''SP_GB28181'')]"

definition StreamProtocol_value :: "string \<rightharpoonup> int32" where
  "StreamProtocol_value = map_of [
     (''SP_UNIVERSAL'', 0),
     (''SP_RTMP'', 1),
     (''SP_RTSP'', 2),
     (''SP_HLS'', 3),
     (''SP_HTTP_FLV'', 4),
     (''SP_WS_FLV'', 5),
     (''SP_HTTPS_FLV'', 6),
     (''SP_WSS_FLV'', 7),
     (''SP_GB28181'', 8)]"

subsection \<open>The contract of a generated enumeration\<close>

locale enum_table =
  fixes number :: "'e \<Rightarrow> int32"
    and name :: "int32 \<rightharpoonup> string"
    and val :: "string \<rightharpoonup> int32"
  assumes inverse: "name n = Some s \<longleftrightarrow> val s = Some n"
    and named: "name (number e) \<noteq> None"
    and small: "unat (number e) < 256"
    and number_inj: "number e = number d \<Longrightarrow> e = d"
begin

lemma constant_roundtrip: "\<exists>s. name (number e) = Some s \<and> val s = Some (number e)"
  using named [of e] inverse by blast

text \<open>The conversion \<open>uint8(c)\<close> of a constant loses nothing.\<close>

lemma uint8_inj: "(ucast (number e) :: uint8) = ucast (number d) \<longleftrightarrow> e = d"
proof
  assume "(ucast (number e) :: uint8) = ucast (number d)"
  then have "unat (ucast (number e) :: uint8) = unat (ucast (number d) :: uint8)"
    by simp
  then have "unat (number e) = unat (number d)"
    using small [of e] small [of d] by (simp add: unsigned_ucast_eq take_bit_nat_eq_self)
  then show "e = d"
    by (intro number_inj) (simp add: word_unat_eq_iff)
qed simp

end

text \<open>An association list and its transpose are inverse maps when no entry repeats.\<close>

lemma map_of_swap:
  assumes "distinct (map fst xs)" and "distinct (map snd xs)"
  shows "map_of xs a = Some b \<longleftrightarrow> map_of (map prod.swap xs) b = Some a"
proof -
  have "distinct (map fst (map prod.swap xs))"
    using assms(2) by (simp add: o_def)
  then show ?thesis
    using assms(1) by (auto simp: map_of_eq_Some_iff)
qed

interpretation MachineType: enum_table MachineType_number MachineType_name MachineType_value
proof
  show "MachineType_name n = Some s \<longleftrightarrow> MachineType_value s = Some n" for n s
    using map_of_swap [of "[
     (0, ''MT_UNIVERSAL''),
     (1, ''MT_GATEWAY''),
     (2, ''MT_MEDIASERVER''),
     (100, ''MT_OTHER'')]" n s] by (simp add: MachineType_name_def MachineType_value_def)
  show "MachineType_name (MachineType_number e) \<noteq> None" for e
    by (cases e) (simp_all add: MachineType_name_def)
  show "unat (MachineType_number e) < 256" for e
    by (cases e) simp_all
  show "MachineType_number e = MachineType_number d \<Longrightarrow> e = d" for e d
    by (cases e; cases d) simp_all
qed

interpretation CMD: enum_table CMD_number CMD_name CMD_value
proof
  show "CMD_name n = Some s \<longleftrightarrow> CMD_value s = Some n" for n s
    using map_of_swap [of "[
     (0, ''UNIVERSAL''),
     (10, ''SYSTEM''),
     (20, ''DISCOVERY''),
     (30, ''DATA_REPORT''),
     (40, ''CONFIG''),
     (50, ''EVENT''),
     (60, ''CONTROL'')]" n s] by (simp add: CMD_name_def CMD_value_def)
  show "CMD_name (CMD_number e) \<noteq> None" for e
    by (cases e) (simp_all add: CMD_name_def)
  show "unat (CMD_number e) < 256" for e
    by (cases e) simp_all
  show "CMD_number e = CMD_number d \<Longrightarrow> e = d" for e d
    by (cases e; cases d) simp_all
qed

interpretation SCMDSystem: enum_table SCMDSystem_number SCMDSystem_name SCMDSystem_value
proof
  show "SCMDSystem_name n = Some s \<longleftrightarrow> SCMDSystem_value s = Some n" for n s
    using map_of_swap [of "[
     (0, ''SYS_UNIVERSAL''),
     (10, ''PING''),
     (11, ''PONG'')]" n s] by (simp add: SCMDSystem_name_def SCMDSystem_value_def)
  show "SCMDSystem_name (SCMDSystem_number e) \<noteq> None" for e
    by (cases e) (simp_all add: SCMDSystem_name_def)
  show "unat (SCMDSystem_number e) < 256" for e
    by (cases e) simp_all
  show "SCMDSystem_number e = SCMDSystem_number d \<Longrightarrow> e = d" for e d
    by (cases e; cases d) simp_all
qed

interpretation SCMDDisco: enum_table SCMDDisco_number SCMDDisco_name SCMDDisco_value
proof
  show "SCMDDisco_name n = Some s \<longleftrightarrow> SCMDDisco_value s = Some n" for n s
    using map_of_swap [of "[
     (0, ''SD_UNIVERSAL''),
     (10, ''REGISTER''),
     (11, ''DEREGISTER''),
     (12, ''LOOKUP''),
     (13, ''LOOKUP_ACK'')]" n s] by (simp add: SCMDDisco_name_def SCMDDisco_value_def)
  show "SCMDDisco_name (SCMDDisco_number e) \<noteq> None" for e
    by (cases e) (simp_all add: SCMDDisco_name_def)
  show "unat (SCMDDisco_number e) < 256" for e
    by (cases e) simp_all
  show "SCMDDisco_number e = SCMDDisco_number d \<Longrightarrow> e = d" for e d
    by (cases e; cases d) simp_all
qed

interpretation SCMDDataReport: enum_table SCMDDataReport_number SCMDDataReport_name SCMDDataReport_value
proof
  show "SCMDDataReport_name n = Some s \<longleftrightarrow> SCMDDataReport_value s = Some n" for n s
    using map_of_swap [of "[
     (0, ''SR_UNIVERSAL''),
     (10, ''MACHINE_METRIC''),
     (11, ''NETWORK_METRIC''),
     (20, ''STREAM_ADD''),
     (21, ''STREAM_DELETE''),
     (22, ''STREAM_STATUS''),
     (23, ''STREAM_FAILED''),
     (24, ''STREAMS_QUERY_REQ''),
     (25, ''STREAMS_QUERY_ACK''),
     (30, ''SESSION_ADD''),
     (31, ''SESSION_DELETE''),
     (32, ''SESSION_STATUS''),
     (33, ''SESSION_FAILED''),
     (40, ''SESSION_QUERY_REQ''),
     (41, ''SESSION_QUERY_ACK'')]" n s] by (simp add: SCMDDataReport_name_def SCMDDataReport_value_def)
  show "SCMDDataReport_name (SCMDDataReport_number e) \<noteq> None" for e
    by (cases e) (simp_all add: SCMDDataReport_name_def)
  show "unat (SCMDDataReport_number e) < 256" for e
    by (cases e) simp_all
  show "SCMDDataReport_number e = SCMDDataReport_number d \<Longrightarrow> e = d" for e d
    by (cases e; cases d) simp_all
qed

interpretation SCMDConfig: enum_table SCMDConfig_number SCMDConfig_name SCMDConfig_value
proof
  show "SCMDConfig_name n = Some s \<longleftrightarrow> SCMDConfig_value s = Some n" for n s
    using map_of_swap [of "[
     (0, ''CF_UNIVERSAL''),
     (10, ''CF_WHITEIP_CHANGED''),
     (20, ''CF_LIMIT_CHANGED'')]" n s] by (simp add: SCMDConfig_name_def SCMDConfig_value_def)
  show "SCMDConfig_name (SCMDConfig_number e) \<noteq> None" for e
    by (cases e) (simp_all add: SCMDConfig_name_def)
  show "unat (SCMDConfig_number e) < 256" for e
    by (cases e) simp_all
  show "SCMDConfig_number e = SCMDConfig_number d \<Longrightarrow> e = d" for e d
    by (cases e; cases d) simp_all
qed

interpretation SCMDEvent: enum_table SCMDEvent_number SCMDEvent_name SCMDEvent_value
proof
  show "SCMDEvent_name n = Some s \<longleftrightarrow> SCMDEvent_value s = Some n" for n s
    using map_of_swap [of "[
     (0, ''SE_UNIVERSAL''),
     (10, ''SE_ACCESS_DENIED''),
     (20, ''SE_IP_BLOCKED'')]" n s] by (simp add: SCMDEvent_name_def SCMDEvent_value_def)
  show "SCMDEvent_name (SCMDEvent_number e) \<noteq> None" for e
    by (cases e) (simp_all add: SCMDEvent_name_def)
  show "unat (SCMDEvent_number e) < 256" for e
    by (cases e) simp_all
  show "SCMDEvent_number e = SCMDEvent_number d \<Longrightarrow> e = d" for e d
    by (cases e; cases d) simp_all
qed

interpretation StreamStatus: enum_table StreamStatus_number StreamStatus_name StreamStatus_value
proof
  show "StreamStatus_name n = Some s \<longleftrightarrow> StreamStatus_value s = Some n" for n s
    using map_of_swap [of "[
     (0, ''SS_UNIVERSAL''),
     (1, ''SS_RUNNING''),
     (2, ''SS_INACTIVE''),
     (3, ''SS_ERROR''),
     (4, ''SS_CLOSED''),
     (5, ''SS_TIMEOUT''),
     (6, ''SS_CANCELLED''),
     (7, ''SS_FAILED'')]" n s] by (simp add: StreamStatus_name_def StreamStatus_value_def)
  show "StreamStatus_name (StreamStatus_number e) \<noteq> None" for e
    by (cases e) (simp_all add: StreamStatus_name_def)
  show "unat (StreamStatus_number e) < 256" for e
    by (cases e) simp_all
  show "StreamStatus_number e = StreamStatus_number d \<Longrightarrow> e = d" for e d
    by (cases e; cases d) simp_all
qed

interpretation StreamCodec: enum_table StreamCodec_number StreamCodec_name StreamCodec_value
proof
  show "StreamCodec_name n = Some s \<longleftrightarrow> StreamCodec_value s = Some n" for n s
    using map_of_swap [of "[
     (0, ''SC_UNIVERSAL''),
     (1, ''SC_H264''),
     (2, ''SC_H265''),
     (3, ''SC_VP8''),
     (4, ''SC_VP9''),
     (5, ''SC_AV1''),
     (6, ''SC_MPEG4A''),
     (7, ''SC_MPEG4V''),
     (8, ''SC_MPEG1''),
     (9, ''SC_MPEG2''),
     (10, ''SC_MJPEG''),
     (11, ''SC_OPUS''),
     (12, ''SC_AAC''),
     (13, ''SC_SPEEX''),
     (14, ''SC_G722''),
     (15, ''SC_G711'')]" n s] by (simp add: StreamCodec_name_def StreamCodec_value_def)
  show "StreamCodec_name (StreamCodec_number e) \<noteq> None" for e
    by (cases e) (simp_all add: StreamCodec_name_def)
  show "unat (StreamCodec_number e) < 256" for e
    by (cases e) simp_all
  show "StreamCodec_number e = StreamCodec_number d \<Longrightarrow> e = d" for e d
    by (cases e; cases d) simp_all
qed

interpretation StreamProtocol: enum_table StreamProtocol_number StreamProtocol_name StreamProtocol_value
proof
  show "StreamProtocol_name n = Some s \<longleftrightarrow> StreamProtocol_value s = Some n" for n s
    using map_of_swap [of "[
     (0, ''SP_UNIVERSAL''),
     (1, ''SP_RTMP''),
     (2, ''SP_RTSP''),
     (3, ''SP_HLS''),
     (4, ''SP_HTTP_FLV''),
     (5, ''SP_WS_FLV''),
     (6, ''SP_HTTPS_FLV''),
     (7, ''SP_WSS_FLV''),
     (8, ''SP_GB28181'')]" n s] by (simp add: StreamProtocol_name_def StreamProtocol_value_def)
  show "StreamProtocol_name (StreamProtocol_number e) \<noteq> None" for e
    by (cases e) (simp_all add: StreamProtocol_name_def)
  show "unat (StreamProtocol_number e) < 256" for e
    by (cases e) simp_all
  show "StreamProtocol_number e = StreamProtocol_number d \<Longrightarrow> e = d" for e d
    by (cases e; cases d) simp_all
qed

end
