(* ===== verification/Proto_Messages.thy ===== *)
theory Proto_Messages
  imports Complex_Main Proto_Enums
begin

text \<open>
  The messages of \<open>gen/*.pb.go\<close> as records.  The protobuf runtime's own fields
  (\<open>state\<close>, \<open>sizeCache\<close>, \<open>unknownFields\<close>) are left out.  Enumeration fields are
  open in proto3, so they hold any \<open>int32\<close>.  Floating-point fields hold the exact
  rational value.  A list of message pointers may hold \<open>nil\<close>, so its elements are options.
\<close>

type_synonym float64 = rat
type_synonym float32 = rat

record Ping =
  ping_Timestamp :: int64

definition Ping_zero :: Ping where
  "Ping_zero = \<lparr>ping_Timestamp = 0\<rparr>"

record Pong =
  pong_Timestamp :: int64

definition Pong_zero :: Pong where
  "Pong_zero = \<lparr>pong_Timestamp = 0\<rparr>"

record Instance =
  inst_InstanceId :: string
  inst_InstanceName :: string
  inst_PublicIp :: string
  inst_PublicPort :: int32
  inst_PrivateIp :: string
  inst_PrivatePort :: int32
  inst_InnerIp :: string
  inst_InnerPort :: int32
  inst_Weight :: float32
  inst_Healthy :: bool
  inst_Enable :: bool
  inst_Ephemeral :: bool
  inst_Node :: int32
  inst_Extra :: "string \<rightharpoonup> string"

definition Instance_zero :: Instance where
  "Instance_zero = \<lparr>inst_InstanceId = '''',
     inst_InstanceName = '''',
     inst_PublicIp = '''',
     inst_PublicPort = 0,
     inst_PrivateIp = '''',
     inst_PrivatePort = 0,
     inst_InnerIp = '''',
     inst_InnerPort = 0,
     inst_Weight = 0,
     inst_Healthy = False,
     inst_Enable = False,
     inst_Ephemeral = False,
     inst_Node = 0,
     inst_Extra = Map.empty\<rparr>"

record Service =
  svc_Instances :: "Instance option list"
  svc_Cluster :: string
  svc_Name :: string
  svc_GroupName :: string
  svc_Valid :: bool

definition Service_zero :: Service where
  "Service_zero = \<lparr>svc_Instances = [],
     svc_Cluster = '''',
     svc_Name = '''',
     svc_GroupName = '''',
     svc_Valid = False\<rparr>"

record Deregister =
  dereg_InstanceId :: string
  dereg_InstanceName :: string
  dereg_Ip :: string
  dereg_Port :: int32
  dereg_Node :: int32

definition Deregister_zero :: Deregister where
  "Deregister_zero = \<lparr>dereg_InstanceId = '''',
     dereg_InstanceName = '''',
     dereg_Ip = '''',
     dereg_Port = 0,
     dereg_Node = 0\<rparr>"

record Lookup =
  lkp_ServiceName :: string
  lkp_Node :: int32
  lkp_Healthy :: bool

definition Lookup_zero :: Lookup where
  "Lookup_zero = \<lparr>lkp_ServiceName = '''',
     lkp_Node = 0,
     lkp_Healthy = False\<rparr>"

record LookupAck =
  ack_Services :: "Service option list"

definition LookupAck_zero :: LookupAck where
  "LookupAck_zero = \<lparr>ack_Services = []\<rparr>"

record MachineMetric =
  mm_MachineId :: string
  mm_CpuUsage :: float64
  mm_CpuCount :: int32
  mm_MemUsed :: int64
  mm_MemTotal :: int64
  mm_DiskUsed :: int64
  mm_DiskTotal :: int64
  mm_DiskReadBytes :: int64
  mm_DiskWriteBytes :: int64
  mm_DiskReadTime :: int64
  mm_DiskWriteTime :: int64
  mm_DiskReadCount :: int64
  mm_DiskWriteCount :: int64
  mm_Timestamp :: int64
  mm_Extra :: "string \<rightharpoonup> string"
  mm_InstanceId :: string
  mm_InstanceName :: string
  mm_NodeId :: string
  mm_NodeName :: string
  mm_Region :: string
  mm_NodeStatus :: string
  mm_Status :: string
  mm_NetworkIn :: int32
  mm_NetworkOut :: int32
  mm_StartTime :: int64
  mm_Version :: string

definition MachineMetric_zero :: MachineMetric where
  "MachineMetric_zero = \<lparr>mm_MachineId = '''',
     mm_CpuUsage = 0,
     mm_CpuCount = 0,
     mm_MemUsed = 0,
     mm_MemTotal = 0,
     mm_DiskUsed = 0,
     mm_DiskTotal = 0,
     mm_DiskReadBytes = 0,
     mm_DiskWriteBytes = 0,
     mm_DiskReadTime = 0,
     mm_DiskWriteTime = 0,
     mm_DiskReadCount = 0,
     mm_DiskWriteCount = 0,
     mm_Timestamp = 0,
     mm_Extra = Map.empty,
     mm_InstanceId = '''',
     mm_InstanceName = '''',
     mm_NodeId = '''',
     mm_NodeName = '''',
     mm_Region = '''',
     mm_NodeStatus = '''',
     mm_Status = '''',
     mm_NetworkIn = 0,
     mm_NetworkOut = 0,
     mm_StartTime = 0,
     mm_Version = ''''\<rparr>"

record NetworkMetric =
  nm_MachineId :: string
  nm_NodeId :: string
  nm_SourceIp :: string
  nm_DestinationIp :: string
  nm_Rtt :: int32
  nm_Jitter :: int32
  nm_PacketLoss :: float64
  nm_StatusCode :: int32
  nm_Timestamp :: int64
  nm_Extra :: "string \<rightharpoonup> string"

definition NetworkMetric_zero :: NetworkMetric where
  "NetworkMetric_zero = \<lparr>nm_MachineId = '''',
     nm_NodeId = '''',
     nm_SourceIp = '''',
     nm_DestinationIp = '''',
     nm_Rtt = 0,
     nm_Jitter = 0,
     nm_PacketLoss = 0,
     nm_StatusCode = 0,
     nm_Timestamp = 0,
     nm_Extra = Map.empty\<rparr>"

record StreamMetric =
  sm_MachineId :: string
  sm_MachineType :: int32
  sm_StreamId :: string
  sm_Status :: int32
  sm_VideoCodec :: int32
  sm_AudioCodec :: int32
  sm_Protocol :: int32
  sm_Bitrate :: int32
  sm_Width :: int32
  sm_Height :: int32
  sm_StreamPath :: string
  sm_StreamAlias :: string
  sm_Timestamp :: int64
  sm_Extra :: "string \<rightharpoonup> string"
  sm_TenantId :: string
  sm_NodeName :: string
  sm_InstanceId :: string
  sm_InstanceName :: string
  sm_Fps :: float64
  sm_PacketLoss :: float64
  sm_StartTime :: int64
  sm_Duration :: int32
  sm_AvgDelay :: int32
  sm_TotalSessionsLifetime :: int64
  sm_CurrentActiveSessions :: int32
  sm_WatermarkEnabled :: bool
  sm_NodeId :: string
  sm_DeviceId :: string

definition StreamMetric_zero :: StreamMetric where
  "StreamMetric_zero = \<lparr>sm_MachineId = '''',
     sm_MachineType = 0,
     sm_StreamId = '''',
     sm_Status = 0,
     sm_VideoCodec = 0,
     sm_AudioCodec = 0,
     sm_Protocol = 0,
     sm_Bitrate = 0,
     sm_Width = 0,
     sm_Height = 0,
     sm_StreamPath = '''',
     sm_StreamAlias = '''',
     sm_Timestamp = 0,
     sm_Extra = Map.empty,
     sm_TenantId = '''',
     sm_NodeName = '''',
     sm_InstanceId = '''',
     sm_InstanceName = '''',
     sm_Fps = 0,
     sm_PacketLoss = 0,
     sm_StartTime = 0,
     sm_Duration = 0,
     sm_AvgDelay = 0,
     sm_TotalSessionsLifetime = 0,
     sm_CurrentActiveSessions = 0,
     sm_WatermarkEnabled = False,
     sm_NodeId = '''',
     sm_DeviceId = ''''\<rparr>"

record LinkHop =
  hop_HopId :: string
  hop_HopName :: string
  hop_HopType :: string
  hop_NodeId :: string
  hop_NodeName :: string
  hop_Latency :: int32

definition LinkHop_zero :: LinkHop where
  "LinkHop_zero = \<lparr>hop_HopId = '''',
     hop_HopName = '''',
     hop_HopType = '''',
     hop_NodeId = '''',
     hop_NodeName = '''',
     hop_Latency = 0\<rparr>"

record SessionMetric =
  ss_SessionId :: string
  ss_StreamId :: string
  ss_StreamName :: string
  ss_TenantId :: string
  ss_ClientId :: string
  ss_ClientIp :: string
  ss_ClientType :: string
  ss_UserName :: string
  ss_Protocol :: int32
  ss_StartTime :: int64
  ss_PlayDuration :: int32
  ss_CurrentFps :: float64
  ss_CurrentBitrate :: int32
  ss_CurrentWidth :: int32
  ss_CurrentHeight :: int32
  ss_MachineId :: string
  ss_NodeName :: string
  ss_InstanceId :: string
  ss_InstanceName :: string
  ss_LinkHops :: "LinkHop option list"
  ss_TotalLinkLatency :: int32
  ss_Timestamp :: int64
  ss_Extra :: "string \<rightharpoonup> string"
  ss_NodeId :: string
  ss_DeviceId :: string

definition SessionMetric_zero :: SessionMetric where
  "SessionMetric_zero = \<lparr>ss_SessionId = '''',
     ss_StreamId = '''',
     ss_StreamName = '''',
     ss_TenantId = '''',
     ss_ClientId = '''',
     ss_ClientIp = '''',
     ss_ClientType = '''',
     ss_UserName = '''',
     ss_Protocol = 0,
     ss_StartTime = 0,
     ss_PlayDuration = 0,
     ss_CurrentFps = 0,
     ss_CurrentBitrate = 0,
     ss_CurrentWidth = 0,
     ss_CurrentHeight = 0,
     ss_MachineId = '''',
     ss_NodeName = '''',
     ss_InstanceId = '''',
     ss_InstanceName = '''',
     ss_LinkHops = [],
     ss_TotalLinkLatency = 0,
     ss_Timestamp = 0,
     ss_Extra = Map.empty,
     ss_NodeId = '''',
     ss_DeviceId = ''''\<rparr>"

record WhiteipChanged =
  wip_TenantId :: string
  wip_Whiteips :: "string list"

definition WhiteipChanged_zero :: WhiteipChanged where
  "WhiteipChanged_zero = \<lparr>wip_TenantId = '''',
     wip_Whiteips = []\<rparr>"

record LimitChanged =
  lim_TenantId :: string
  lim_Limit :: int32

definition LimitChanged_zero :: LimitChanged where
  "LimitChanged_zero = \<lparr>lim_TenantId = '''',
     lim_Limit = 0\<rparr>"

record AccessDeniedEvent =
  ade_UserId :: string
  ade_Ip :: string
  ade_Port :: int32
  ade_Path :: string
  ade_Timestamp :: int64
  ade_Extra :: "string \<rightharpoonup> string"

definition AccessDeniedEvent_zero :: AccessDeniedEvent where
  "AccessDeniedEvent_zero = \<lparr>ade_UserId = '''',
     ade_Ip = '''',
     ade_Port = 0,
     ade_Path = '''',
     ade_Timestamp = 0,
     ade_Extra = Map.empty\<rparr>"

record IpBlockedEvent =
  ibe_UserId :: string
  ibe_Ip :: string
  ibe_Path :: string
  ibe_Timestamp :: int64
  ibe_Extra :: "string \<rightharpoonup> string"

definition IpBlockedEvent_zero :: IpBlockedEvent where
  "IpBlockedEvent_zero = \<lparr>ibe_UserId = '''',
     ibe_Ip = '''',
     ibe_Path = '''',
     ibe_Timestamp = 0,
     ibe_Extra = Map.empty\<rparr>"

end
