(* ===== verification/Proto_Dispatch.thy ===== *)
theory Proto_Dispatch
  imports Proto_Messages Byte_Order
begin

text \<open>
  \<open>pkg/network/misc/proto.go\<close>: which message type each command and sub-command carries.
  The protobuf runtime is outside the repository: \<open>proto.Unmarshal(data, m)\<close> is a
  parameter that fills a message and may report an error, \<open>proto.Marshal(m)\<close> a parameter
  that returns bytes or an error.  What the code relies on is \<open>proto_codec_ok\<close>:
  unmarshalling keeps the Go type of the message it fills, and it restores a marshalled
  message into a fresh value of its type.
\<close>

datatype proto_message =
    MPing Ping
  | MPong Pong
  | MInstance Instance
  | MDeregister Deregister
  | MLookup Lookup
  | MLookupAck LookupAck
  | MMachineMetric MachineMetric
  | MNetworkMetric NetworkMetric
  | MStreamMetric StreamMetric
  | MSessionMetric SessionMetric
  | MWhiteipChanged WhiteipChanged
  | MLimitChanged LimitChanged
  | MAccessDeniedEvent AccessDeniedEvent
  | MIpBlockedEvent IpBlockedEvent

datatype msg_kind =
    KPing
  | KPong
  | KInstance
  | KDeregister
  | KLookup
  | KLookupAck
  | KMachineMetric
  | KNetworkMetric
  | KStreamMetric
  | KSessionMetric
  | KWhiteipChanged
  | KLimitChanged
  | KAccessDeniedEvent
  | KIpBlockedEvent

fun kind :: "proto_message \<Rightarrow> msg_kind" where
  "kind (MPing _) = KPing"
| "kind (MPong _) = KPong"
| "kind (MInstance _) = KInstance"
| "kind (MDeregister _) = KDeregister"
| "kind (MLookup _) = KLookup"
| "kind (MLookupAck _) = KLookupAck"
| "kind (MMachineMetric _) = KMachineMetric"
| "kind (MNetworkMetric _) = KNetworkMetric"
| "kind (MStreamMetric _) = KStreamMetric"
| "kind (MSessionMetric _) = KSessionMetric"
| "kind (MWhiteipChanged _) = KWhiteipChanged"
| "kind (MLimitChanged _) = KLimitChanged"
| "kind (MAccessDeniedEvent _) = KAccessDeniedEvent"
| "kind (MIpBlockedEvent _) = KIpBlockedEvent"

text \<open>\<open>&gen.T{}\<close>\<close>

fun new_message :: "msg_kind \<Rightarrow> proto_message" where
  "new_message KPing = MPing Ping_zero"
| "new_message KPong = MPong Pong_zero"
| "new_message KInstance = MInstance Instance_zero"
| "new_message KDeregister = MDeregister Deregister_zero"
| "new_message KLookup = MLookup Lookup_zero"
| "new_message KLookupAck = MLookupAck LookupAck_zero"
| "new_message KMachineMetric = MMachineMetric MachineMetric_zero"
| "new_message KNetworkMetric = MNetworkMetric NetworkMetric_zero"
| "new_message KStreamMetric = MStreamMetric StreamMetric_zero"
| "new_message KSessionMetric = MSessionMetric SessionMetric_zero"
| "new_message KWhiteipChanged = MWhiteipChanged WhiteipChanged_zero"
| "new_message KLimitChanged = MLimitChanged LimitChanged_zero"
| "new_message KAccessDeniedEvent = MAccessDeniedEvent AccessDeniedEvent_zero"
| "new_message KIpBlockedEvent = MIpBlockedEvent IpBlockedEvent_zero"

type_synonym unmarshal = "bytes \<Rightarrow> proto_message \<Rightarrow> proto_message \<times> error option"
type_synonym marshal = "proto_message \<Rightarrow> error + bytes"
type_synonym decoded = "proto_message option \<times> error option"

definition proto_codec_ok :: "marshal \<Rightarrow> unmarshal \<Rightarrow> bool" where
  "proto_codec_ok mar unm \<longleftrightarrow>
     (\<forall>d m. kind (fst (unm d m)) = kind m) \<and>
     (\<forall>m d. mar m = Inr d \<longrightarrow> unm d (new_message (kind m)) = (m, None))"

subsection \<open>Operations\<close>

text \<open>\<open>x := &gen.T{}; err = proto.Unmarshal(data, x); return x, err\<close>\<close>

definition unmarshal_new :: "unmarshal \<Rightarrow> msg_kind \<Rightarrow> bytes \<Rightarrow> decoded" where
  "unmarshal_new unm k data = (case unm data (new_message k) of (m, err) \<Rightarrow> (Some m, err))"

definition u8 :: "int32 \<Rightarrow> uint8" where
  "u8 n = ucast n"

definition UnmarshalSystem :: "unmarshal \<Rightarrow> uint8 \<Rightarrow> bytes \<Rightarrow> decoded" where
  "UnmarshalSystem unm subcmd data =
     (if subcmd = u8 (SCMDSystem_number SCMDSystem_PING) then unmarshal_new unm KPing data
      else if subcmd = u8 (SCMDSystem_number SCMDSystem_PONG) then unmarshal_new unm KPong data
      else (None, Some (ErrorString ''unknown sys subcmd'')))"

definition UnmarshalDiscovery :: "unmarshal \<Rightarrow> uint8 \<Rightarrow> bytes \<Rightarrow> decoded" where
  "UnmarshalDiscovery unm subcmd data =
     (if subcmd = u8 (SCMDDisco_number SCMDDisco_REGISTER) then unmarshal_new unm KInstance data
      else if subcmd = u8 (SCMDDisco_number SCMDDisco_DEREGISTER) then unmarshal_new unm KDeregister data
      else if subcmd = u8 (SCMDDisco_number SCMDDisco_LOOKUP) then unmarshal_new unm KLookup data
      else if subcmd = u8 (SCMDDisco_number SCMDDisco_LOOKUP_ACK) then unmarshal_new unm KLookupAck data
      else (None, Some (ErrorString ''unknown disco subcmd'')))"

definition UnmarshalDataReport :: "unmarshal \<Rightarrow> uint8 \<Rightarrow> bytes \<Rightarrow> decoded" where
  "UnmarshalDataReport unm subcmd data =
     (if subcmd = u8 (SCMDDataReport_number SCMDDataReport_MACHINE_METRIC) then unmarshal_new unm KMachineMetric data
      else if subcmd = u8 (SCMDDataReport_number SCMDDataReport_NETWORK_METRIC) then unmarshal_new unm KNetworkMetric data
      else if subcmd = u8 (SCMDDataReport_number SCMDDataReport_STREAM_ADD) then unmarshal_new unm KStreamMetric data
      else if subcmd = u8 (SCMDDataReport_number SCMDDataReport_STREAM_DELETE) then unmarshal_new unm KStreamMetric data
      else if subcmd = u8 (SCMDDataReport_number SCMDDataReport_STREAM_STATUS) then unmarshal_new unm KStreamMetric data
      else if subcmd = u8 (SCMDDataReport_number SCMDDataReport_STREAM_FAILED) then unmarshal_new unm KStreamMetric data
      else if subcmd = u8 (SCMDDataReport_number SCMDDataReport_STREAMS_QUERY_REQ) then unmarshal_new unm KStreamMetric data
      else if subcmd = u8 (SCMDDataReport_number SCMDDataReport_STREAMS_QUERY_ACK) then unmarshal_new unm KStreamMetric data
      else if subcmd = u8 (SCMDDataReport_number SCMDDataReport_SESSION_ADD) then unmarshal_new unm KSessionMetric data
      else if subcmd = u8 (SCMDDataReport_number SCMDDataReport_SESSION_DELETE) then unmarshal_new unm KSessionMetric data
      else if subcmd = u8 (SCMDDataReport_number SCMDDataReport_SESSION_STATUS) then unmarshal_new unm KSessionMetric data
      else if subcmd = u8 (SCMDDataReport_number SCMDDataReport_SESSION_FAILED) then unmarshal_new unm KSessionMetric data
      else if subcmd = u8 (SCMDDataReport_number SCMDDataReport_SESSION_QUERY_REQ) then unmarshal_new unm KSessionMetric data
      else if subcmd = u8 (SCMDDataReport_number SCMDDataReport_SESSION_QUERY_ACK) then unmarshal_new unm KSessionMetric data
      else (None, Some (ErrorString ''unknown report subcmd'')))"

definition UnmarshalConfig :: "unmarshal \<Rightarrow> uint8 \<Rightarrow> bytes \<Rightarrow> decoded" where
  "UnmarshalConfig unm subcmd data =
     (if subcmd = u8 (SCMDConfig_number SCMDConfig_CF_WHITEIP_CHANGED) then unmarshal_new unm KWhiteipChanged data
      else if subcmd = u8 (SCMDConfig_number SCMDConfig_CF_LIMIT_CHANGED) then unmarshal_new unm KLimitChanged data
      else (None, Some (ErrorString ''unknown config subcmd'')))"

definition UnmarshalEvent :: "unmarshal \<Rightarrow> uint8 \<Rightarrow> bytes \<Rightarrow> decoded" where
  "UnmarshalEvent unm subcmd data =
     (if subcmd = u8 (SCMDEvent_number SCMDEvent_SE_ACCESS_DENIED) then unmarshal_new unm KAccessDeniedEvent data
      else if subcmd = u8 (SCMDEvent_number SCMDEvent_SE_IP_BLOCKED) then unmarshal_new unm KIpBlockedEvent data
      else (None, Some (ErrorString ''unknown event subcmd'')))"

text \<open>Control messages are not implemented: a nil message and no error.\<close>

definition UnmarshalControl :: "unmarshal \<Rightarrow> uint8 \<Rightarrow> bytes \<Rightarrow> decoded" where
  "UnmarshalControl unm subcmd data = (None, None)"

definition Unbox :: "unmarshal \<Rightarrow> uint8 \<Rightarrow> uint8 \<Rightarrow> bytes \<Rightarrow> decoded" where
  "Unbox unm cmd subcmd data =
     (if cmd = u8 (CMD_number CMD_SYSTEM) then UnmarshalSystem unm subcmd data
      else if cmd = u8 (CMD_number CMD_DISCOVERY) then UnmarshalDiscovery unm subcmd data
      else if cmd = u8 (CMD_number CMD_DATA_REPORT) then UnmarshalDataReport unm subcmd data
      else if cmd = u8 (CMD_number CMD_CONFIG) then UnmarshalConfig unm subcmd data
      else if cmd = u8 (CMD_number CMD_EVENT) then UnmarshalEvent unm subcmd data
      else if cmd = u8 (CMD_number CMD_CONTROL) then UnmarshalControl unm subcmd data
      else (None, Some (ErrorString ''unknown command'')))"

subsection \<open>The wire protocol as a table\<close>

text \<open>
  The specification of the dispatch: the (command, sub-command) pairs of the protocol and the
  message type each one carries.
\<close>

definition protocol :: "((uint8 \<times> uint8) \<times> msg_kind) list" where
  "protocol =
    [((10, 10), KPing), ((10, 11), KPong),
     ((20, 10), KInstance), ((20, 11), KDeregister), ((20, 12), KLookup), ((20, 13), KLookupAck),
     ((30, 10), KMachineMetric), ((30, 11), KNetworkMetric),
     ((30, 20), KStreamMetric), ((30, 21), KStreamMetric), ((30, 22), KStreamMetric),
     ((30, 23), KStreamMetric), ((30, 24), KStreamMetric), ((30, 25), KStreamMetric),
     ((30, 30), KSessionMetric), ((30, 31), KSessionMetric), ((30, 32), KSessionMetric),
     ((30, 33), KSessionMetric), ((30, 40), KSessionMetric), ((30, 41), KSessionMetric),
     ((40, 10), KWhiteipChanged), ((40, 20), KLimitChanged),
     ((50, 10), KAccessDeniedEvent), ((50, 20), KIpBlockedEvent)]"

definition is_error :: "decoded \<Rightarrow> bool" where
  "is_error r \<longleftrightarrow> fst r = None \<and> snd r \<noteq> None"

lemmas unmarshal_defs = UnmarshalSystem_def UnmarshalDiscovery_def UnmarshalDataReport_def
  UnmarshalConfig_def UnmarshalEvent_def UnmarshalControl_def

text \<open>One lemma per command, then the whole table.\<close>

lemma UnmarshalSystem_table:
  "UnmarshalSystem unm sub data = (case map_of protocol (10, sub) of
     Some k \<Rightarrow> unmarshal_new unm k data | None \<Rightarrow> (None, Some (ErrorString ''unknown sys subcmd'')))"
  by (simp add: protocol_def UnmarshalSystem_def u8_def)

lemma UnmarshalDiscovery_table:
  "UnmarshalDiscovery unm sub data = (case map_of protocol (20, sub) of
     Some k \<Rightarrow> unmarshal_new unm k data | None \<Rightarrow> (None, Some (ErrorString ''unknown disco subcmd'')))"
  by (simp add: protocol_def UnmarshalDiscovery_def u8_def)

lemma UnmarshalDataReport_table:
  "UnmarshalDataReport unm sub data = (case map_of protocol (30, sub) of
     Some k \<Rightarrow> unmarshal_new unm k data | None \<Rightarrow> (None, Some (ErrorString ''unknown report subcmd'')))"
  by (simp add: protocol_def UnmarshalDataReport_def u8_def)

lemma UnmarshalConfig_table:
  "UnmarshalConfig unm sub data = (case map_of protocol (40, sub) of
     Some k \<Rightarrow> unmarshal_new unm k data | None \<Rightarrow> (None, Some (ErrorString ''unknown config subcmd'')))"
  by (simp add: protocol_def UnmarshalConfig_def u8_def)

lemma UnmarshalEvent_table:
  "UnmarshalEvent unm sub data = (case map_of protocol (50, sub) of
     Some k \<Rightarrow> unmarshal_new unm k data | None \<Rightarrow> (None, Some (ErrorString ''unknown event subcmd'')))"
  by (simp add: protocol_def UnmarshalEvent_def u8_def)

lemmas unmarshal_tables = UnmarshalSystem_table UnmarshalDiscovery_table
  UnmarshalDataReport_table UnmarshalConfig_table UnmarshalEvent_table

lemma protocol_other_cmd:
  "cmd \<notin> {10, 20, 30, 40, 50} \<Longrightarrow> map_of protocol (cmd, sub) = None"
  by (simp add: protocol_def)

lemma Unbox_table:
  "case map_of protocol (cmd, sub) of
     Some k \<Rightarrow> Unbox unm cmd sub data = unmarshal_new unm k data
   | None \<Rightarrow> if cmd = 60 then Unbox unm cmd sub data = (None, None) else is_error (Unbox unm cmd sub data)"
proof -
  consider "cmd = 10" | "cmd = 20" | "cmd = 30" | "cmd = 40" | "cmd = 50" | "cmd \<notin> {10, 20, 30, 40, 50}"
    by blast
  then show ?thesis
    by cases (simp_all add: Unbox_def unmarshal_tables UnmarshalControl_def u8_def is_error_def
        protocol_other_cmd split: option.splits)
qed

subsection \<open>A codec for the witnesses\<close>

text \<open>A minimal instance of the external codec: it handles \<open>Ping\<close> and refuses the rest.\<close>

definition ping_marshal :: marshal where
  "ping_marshal m = (case m of MPing p \<Rightarrow> Inr (BE_bytes64 (ping_Timestamp p)) | _ \<Rightarrow> Inl (External 0))"

definition ping_unmarshal :: unmarshal where
  "ping_unmarshal d m =
     (case m of MPing _ \<Rightarrow> (MPing \<lparr>ping_Timestamp = BE_Uint64 d\<rparr>, None) | _ \<Rightarrow> (m, Some (External 0)))"

lemma ping_codec_ok: "proto_codec_ok ping_marshal ping_unmarshal"
  by (auto simp: proto_codec_ok_def ping_marshal_def ping_unmarshal_def split: proto_message.splits)

subsection \<open>Properties\<close>

text \<open>
  C8: \<open>Unbox\<close> implements the protocol table exactly.  A pair of the table is decoded into a
  fresh message of its type; every other pair is an error with no message, except that
  \<open>CONTROL\<close> (60) yields neither a message nor an error whatever its sub-command.
\<close>

theorem Unbox_implements_protocol:
  "case map_of protocol (cmd, sub) of
     Some k \<Rightarrow> Unbox unm cmd sub data = unmarshal_new unm k data
   | None \<Rightarrow> if cmd = 60 then Unbox unm cmd sub data = (None, None) else is_error (Unbox unm cmd sub data)"
  by (rule Unbox_table)

text \<open>
  With a protobuf codec that restores what it marshals, a message sent under a command
  pair of its own type is decoded by \<open>Unbox\<close> to that same message without an error.
\<close>

theorem Unbox_roundtrip:
  assumes "proto_codec_ok mar unm" and "mar m = Inr d"
    and "map_of protocol (cmd, sub) = Some (kind m)"
  shows "Unbox unm cmd sub d = (Some m, None)"
  using assms Unbox_table [where cmd = cmd and sub = sub and unm = unm and data = d]
  by (simp add: unmarshal_new_def proto_codec_ok_def)

theorem Unbox_roundtrip_witness:
  "Unbox ping_unmarshal 10 10 (BE_bytes64 7) = (Some (MPing \<lparr>ping_Timestamp = 7\<rparr>), None)"
proof -
  have "ping_marshal (MPing \<lparr>ping_Timestamp = 7\<rparr>) = Inr (BE_bytes64 7)"
    by (simp add: ping_marshal_def)
  moreover have "map_of protocol (10, 10) = Some (kind (MPing \<lparr>ping_Timestamp = 7\<rparr>))"
    by (simp add: protocol_def)
  ultimately show ?thesis
    by (rule Unbox_roundtrip [OF ping_codec_ok])
qed



text \<open>
  The command bytes of a packet are unambiguous.  Converting a command or sub-command
  constant to the one byte of the header is injective, and the generated name tables give
  every command back from its name.
\<close>

theorem command_bytes_unambiguous:
  "(u8 (CMD_number a) = u8 (CMD_number b) \<longleftrightarrow> a = b) \<and>
   (u8 (SCMDSystem_number s) = u8 (SCMDSystem_number s') \<longleftrightarrow> s = s') \<and>
   (u8 (SCMDDisco_number d) = u8 (SCMDDisco_number d') \<longleftrightarrow> d = d') \<and>
   (u8 (SCMDDataReport_number r) = u8 (SCMDDataReport_number r') \<longleftrightarrow> r = r') \<and>
   (u8 (SCMDConfig_number c) = u8 (SCMDConfig_number c') \<longleftrightarrow> c = c') \<and>
   (u8 (SCMDEvent_number e) = u8 (SCMDEvent_number e') \<longleftrightarrow> e = e') \<and>
   (\<exists>n. CMD_name (CMD_number a) = Some n \<and> CMD_value n = Some (CMD_number a))"
  unfolding u8_def
  by (intro conjI CMD.uint8_inj SCMDSystem.uint8_inj SCMDDisco.uint8_inj SCMDDataReport.uint8_inj
      SCMDConfig.uint8_inj SCMDEvent.uint8_inj CMD.constant_roundtrip)

end
