(* ===== verification/Packet.thy ===== *)
theory Packet
  imports Go_Io Proto_Dispatch
begin

text \<open>
  Packet framing: the constants and the header of \<open>pkg/network/types.go\<close>, the writer of
  \<open>tcp_writer.go\<close> and \<open>parseHeader\<close>/\<open>ReadPacket\<close> of \<open>tcp_reader.go\<close>.
  Both sides reuse one buffer; a slice is its backing array and its length, so that stale
  bytes of earlier packets are part of the state.  The specification is \<open>frame\<close>, the
  bytes of one packet on the wire.
\<close>

subsection \<open>Constants and header (types.go)\<close>

definition Version :: uint8 where "Version = 1"
definition Flags :: uint16 where "Flags = 0"
definition Reserved :: uint8 where "Reserved = 0"
definition HeaderSize :: nat where "HeaderSize = 8"
definition defaultReadBufferSize :: nat where "defaultReadBufferSize = 4096"
definition defaultWriteBufferSize :: nat where "defaultWriteBufferSize = 4096"
definition maxPacketSize :: nat where "maxPacketSize = 65535"

record PacketHeader =
  h_Length :: uint16
  h_CMD :: uint8
  h_SubCMD :: uint8
  h_Version :: uint8
  h_Flags :: uint16
  h_Reserved :: uint8

definition ErrPacketTooLarge :: error where
  "ErrPacketTooLarge = ErrorString ''packet too large''"

subsection \<open>Slices with capacity\<close>

record slice =
  backing :: bytes
  slen :: nat

definition make_slice :: "nat \<Rightarrow> nat \<Rightarrow> slice" where
  "make_slice n c = \<lparr>backing = replicate c 0, slen = n\<rparr>"

definition slice_cap :: "slice \<Rightarrow> nat" where
  "slice_cap s = length (backing s)"

definition contents :: "slice \<Rightarrow> bytes" where
  "contents s = take (slen s) (backing s)"

text \<open>\<open>if cap(b) < n { b = make([]byte, n) } else { b = b[:n] }\<close>\<close>

definition ensure :: "nat \<Rightarrow> slice \<Rightarrow> slice" where
  "ensure n s = (if slice_cap s < n then make_slice n n else s\<lparr>slen := n\<rparr>)"

subsection \<open>Writer (tcp_writer.go)\<close>

record tcpWriter =
  w_buff :: slice

definition newWriter :: tcpWriter where
  "newWriter = \<lparr>w_buff = make_slice 0 defaultWriteBufferSize\<rparr>"

text \<open>The header stores and the \<open>copy\<close> of \<open>WritePacket\<close>, in source order.\<close>

definition fill_packet :: "uint8 \<Rightarrow> uint8 \<Rightarrow> bytes \<Rightarrow> bytes \<Rightarrow> bytes" where
  "fill_packet cmd subcmd data b0 =
     (let b1 = copy_at 0 b0 (BE_bytes16 (of_nat (length data)));
          b2 = b1[2 := cmd];
          b3 = b2[3 := subcmd];
          b4 = b3[4 := Version];
          b5 = copy_at 5 b4 (BE_bytes16 Flags);
          b6 = b5[7 := Reserved]
      in copy_at HeaderSize b6 data)"

definition tcpWriter_WritePacket ::
  "marshal \<Rightarrow> 'c writer \<Rightarrow> ('c \<Rightarrow> bool) \<Rightarrow> uint8 \<Rightarrow> uint8 \<Rightarrow> proto_message \<Rightarrow> tcpWriter \<Rightarrow> 'c option
    \<Rightarrow> (error option \<times> tcpWriter \<times> 'c option) outcome option" where
  "tcpWriter_WritePacket mar wr isClosed cmd subcmd pkt w conn =
     (case conn of
        None \<Rightarrow> Some (Ret (Some ErrNoReady, w, conn))
      | Some c \<Rightarrow>
         (if isClosed c then Some (Ret (Some ErrNoReady, w, conn))
          else (case mar pkt of
             Inl e \<Rightarrow> Some (Ret (Some e, w, conn))
           | Inr data \<Rightarrow>
              (if maxPacketSize < length data then Some (Ret (Some ErrPacketTooLarge, w, conn))
               else
                 (let need = HeaderSize + length data;
                      b = ensure need (w_buff w);
                      b' = b\<lparr>backing := fill_packet cmd subcmd data (backing b)\<rparr>
                  in (case writeAll wr (contents b') c of
                        None \<Rightarrow> None
                      | Some (Panic m) \<Rightarrow> Some (Panic m)
                      | Some (Ret ((_, err), c')) \<Rightarrow>
                          Some (Ret (err, w\<lparr>w_buff := b'\<rparr>, Some c'))))))))"

subsection \<open>Reader (tcp_reader.go)\<close>

definition parseHeader :: "bytes \<Rightarrow> PacketHeader" where
  "parseHeader buf =
     \<lparr>h_Length = BE_Uint16 (take 2 buf),
      h_CMD = buf ! 2,
      h_SubCMD = buf ! 3,
      h_Version = buf ! 4,
      h_Flags = BE_Uint16 (take 2 (drop 5 buf)),
      h_Reserved = buf ! 7\<rparr>"

record 'r tcpReader =
  r_br :: "'r bufio"
  r_buff :: slice

text \<open>The part of \<open>newReader\<close> that builds the reader; the guards are in the connection theory.\<close>

definition newReader_state :: "'r \<Rightarrow> 'r tcpReader" where
  "newReader_state conn = \<lparr>r_br = bufio_new conn, r_buff = make_slice 0 defaultReadBufferSize\<rparr>"

type_synonym 'r read_result = "((error + PacketHeader \<times> bytes option) \<times> 'r tcpReader) option"

text \<open>The second half of \<open>ReadPacket\<close>: a payload of at least one byte into the reused buffer.\<close>

definition ReadPacket_payload ::
  "'r reader \<Rightarrow> PacketHeader \<Rightarrow> nat \<Rightarrow> 'r tcpReader \<Rightarrow> 'r read_result" where
  "ReadPacket_payload rd header payloadLen r =
     (let buff = ensure payloadLen (r_buff r) in
      (case ReadFull (bufio_Read defaultReadBufferSize rd) payloadLen (r_br r) of
         None \<Rightarrow> None
       | Some ((got, err), b) \<Rightarrow>
          (let buff' = buff\<lparr>backing := copy_at 0 (backing buff) got\<rparr>;
               r' = r\<lparr>r_br := b, r_buff := buff'\<rparr>
           in (case err of
                 Some e \<Rightarrow> Some (Inl e, r')
               | None \<Rightarrow> Some (Inr (header, Some (contents buff')), r')))))"

definition tcpReader_ReadPacket ::
  "'r reader \<Rightarrow> ('r \<Rightarrow> bool) \<Rightarrow> 'r tcpReader \<Rightarrow> 'r read_result" where
  "tcpReader_ReadPacket rd isClosed r =
     (if isClosed (br_src (r_br r)) then Some (Inl ErrNoReady, r)
      else (case ReadFull (bufio_Read defaultReadBufferSize rd) HeaderSize (r_br r) of
          None \<Rightarrow> None
        | Some ((_, Some e), b) \<Rightarrow> Some (Inl e, r\<lparr>r_br := b\<rparr>)
        | Some ((hdrBuf, None), b) \<Rightarrow>
           (let header = parseHeader hdrBuf; r1 = r\<lparr>r_br := b\<rparr> in
            if (of_nat maxPacketSize :: uint16) < h_Length header then Some (Inl ErrPacketTooLarge, r1)
            else
              (let payloadLen = unat (h_Length header) in
               if payloadLen = 0 then Some (Inr (header, None), r1)
               else ReadPacket_payload rd header payloadLen r1))))"

text \<open>
  The body of \<open>loop\<close>; the deferred part that closes the connection is in the connection
  theory.  A handler that panics ends the loop (the panic is recovered there), and the state
  it left is kept.
\<close>

type_synonym 'r msg_handler = "PacketHeader \<Rightarrow> bytes option \<Rightarrow> 'r \<Rightarrow> error option outcome \<times> 'r"

partial_function (option) tcpReader_loop ::
  "'r reader \<Rightarrow> ('r \<Rightarrow> bool) \<Rightarrow> ('r \<Rightarrow> bool) \<Rightarrow> 'r msg_handler \<Rightarrow> 'r tcpReader \<Rightarrow> 'r tcpReader option" where
  "tcpReader_loop rd isClosed ctxDone handler r =
     (if ctxDone (br_src (r_br r)) then Some r
      else (case tcpReader_ReadPacket rd isClosed r of
          None \<Rightarrow> None
        | Some (Inl _, r') \<Rightarrow> Some r'
        | Some (Inr (head, payload), r') \<Rightarrow>
           (if ctxDone (br_src (r_br r')) then Some r'
            else (case handler head payload (br_src (r_br r')) of
                (Panic _, s) \<Rightarrow> Some (r'\<lparr>r_br := (r_br r')\<lparr>br_src := s\<rparr>\<rparr>)
              | (Ret _, s) \<Rightarrow>
                  tcpReader_loop rd isClosed ctxDone handler (r'\<lparr>r_br := (r_br r')\<lparr>br_src := s\<rparr>\<rparr>)))))"

subsection \<open>The wire format\<close>

definition frame :: "uint8 \<Rightarrow> uint8 \<Rightarrow> bytes \<Rightarrow> bytes" where
  "frame cmd sub d = BE_bytes16 (of_nat (length d)) @ [cmd, sub, 1] @ BE_bytes16 0 @ [0] @ d"

definition frame_header :: "uint8 \<Rightarrow> uint8 \<Rightarrow> bytes \<Rightarrow> PacketHeader" where
  "frame_header cmd sub d = \<lparr>h_Length = of_nat (length d), h_CMD = cmd, h_SubCMD = sub,
     h_Version = 1, h_Flags = 0, h_Reserved = 0\<rparr>"

definition payload :: "bytes \<Rightarrow> bytes option" where
  "payload d = (if d = [] then None else Some d)"

lemma length_frame [simp, wire_simps]: "length (frame cmd sub d) = 8 + length d"
  by (simp add: frame_def)

lemma frame_split: "frame cmd sub d = take 8 (frame cmd sub d) @ d"
  by (simp add: frame_def)

lemma slice_ensure [simp]:
  "slen (ensure n s) = n" "n \<le> length (backing (ensure n s))"
  by (auto simp: ensure_def make_slice_def slice_cap_def)

lemma fill_packet_prefix:
  assumes "8 + length data \<le> length b0"
  shows "take (8 + length data) (fill_packet cmd sub data b0) = frame cmd sub data"
proof -
  obtain x0 x1 x2 x3 x4 x5 x6 x7 b where b0: "b0 = x0 # x1 # x2 # x3 # x4 # x5 # x6 # x7 # b"
    using assms by (auto simp: Suc_le_length_iff numeral_eq_Suc)
  have "length data \<le> length b"
    using assms by (simp add: b0)
  then show ?thesis
    by (simp add: b0 fill_packet_def frame_def copy_at_def go_copy_def BE_bytes16_def
        HeaderSize_def Version_def Flags_def Reserved_def numeral_eq_Suc)
qed

lemma contents_filled:
  "contents ((ensure (8 + length d) s)\<lparr>backing := fill_packet cmd sub d (backing (ensure (8 + length d) s))\<rparr>)
    = frame cmd sub d"
  by (simp add: contents_def fill_packet_prefix)

lemma parseHeader_frame:
  "parseHeader (take 8 (frame cmd sub d)) = frame_header cmd sub d"
  by (simp add: parseHeader_def frame_def frame_header_def nth_append)

lemma not_too_large: "\<not> (of_nat maxPacketSize :: uint16) < n"
proof -
  have "(of_nat maxPacketSize :: uint16) = - 1"
    by (simp add: maxPacketSize_def)
  then show ?thesis by simp
qed

lemma unat_length16: "n \<le> 65535 \<Longrightarrow> unat (of_nat n :: uint16) = n"
  by (simp add: unat_of_nat)

subsection \<open>Writing a packet\<close>

context io_writer
begin

text \<open>
  An open connection and a marshalled message that fits: the packet is handed to the
  connection as its frame, whatever the buffer held before; an error leaves a prefix of it.
\<close>

lemma WritePacket_frame:
  assumes "\<not> isClosed c" and "mar pkt = Inr d" and "length d \<le> 65535"
  obtains err w' c' n where
    "tcpWriter_WritePacket mar wr isClosed cmd sub pkt w (Some c) = Some (Ret (err, w', Some c'))"
    "n \<le> 8 + length d" "out c' = out c @ take n (frame cmd sub d)" "env c' = env c"
    "err = None \<Longrightarrow> n = 8 + length d"
proof -
  obtain n err c' where w: "writeAll wr (frame cmd sub d) c = Some (Ret ((int n, err), c'))"
    "n \<le> length (frame cmd sub d)" "out c' = out c @ take n (frame cmd sub d)" "env c' = env c"
    "err = None \<longrightarrow> n = length (frame cmd sub d)"
    using writeAll_correct [of "frame cmd sub d" c] by metis
  show thesis
    using that [of err _ c' n] assms w
    by (simp add: tcpWriter_WritePacket_def maxPacketSize_def HeaderSize_def Let_def contents_filled)
qed

end

subsection \<open>Reading a packet\<close>

locale packet_source = bufio_reader rd ok pending final env reads defaultReadBufferSize
  for rd :: "'r reader" and ok pending final and env :: "'r \<Rightarrow> 'e" and reads +
  fixes isClosed :: "'r \<Rightarrow> bool"
  assumes open_conn: "ok r \<Longrightarrow> \<not> isClosed r"
begin

abbreviation rok :: "'r tcpReader \<Rightarrow> bool" where
  "rok r \<equiv> buf_ok (r_br r)"

abbreviation rpending :: "'r tcpReader \<Rightarrow> bytes" where
  "rpending r \<equiv> buf_pending (r_br r)"

abbreviation rfinal :: "'r tcpReader \<Rightarrow> error" where
  "rfinal r \<equiv> final (br_src (r_br r))"

abbreviation renv :: "'r tcpReader \<Rightarrow> 'e" where
  "renv r \<equiv> env (br_src (r_br r))"

lemma rok_open: "rok r \<Longrightarrow> \<not> isClosed (br_src (r_br r))"
  using open_conn by (simp add: buf_ok_def)

lemma ReadPacket_header:
  assumes "rok r" and "rpending r = take 8 (frame cmd sub d) @ ys" and "length d \<le> 65535"
  obtains b where "buf_ok b" "buf_pending b = ys" "final (br_src b) = rfinal r" "renv (r\<lparr>r_br := b\<rparr>) = renv r"
    "tcpReader_ReadPacket rd isClosed r =
      (if d = [] then Some (Inr (frame_header cmd sub d, None), r\<lparr>r_br := b\<rparr>)
       else ReadPacket_payload rd (frame_header cmd sub d) (length d) (r\<lparr>r_br := b\<rparr>))"
proof -
  obtain b where b: "ReadFull (bufio_Read defaultReadBufferSize rd) 8 (r_br r) =
      Some ((take 8 (frame cmd sub d), None), b)" "buf_ok b" "buf_pending b = ys"
      "final (br_src b) = rfinal r" "renv (r\<lparr>r_br := b\<rparr>) = renv r"
    using br.ReadFull_enough [OF assms(1,2), of 8] by auto
  have len: "unat (h_Length (frame_header cmd sub d)) = length d"
    using assms(3) by (simp add: frame_header_def unat_length16)
  have "tcpReader_ReadPacket rd isClosed r =
      (if d = [] then Some (Inr (frame_header cmd sub d, None), r\<lparr>r_br := b\<rparr>)
       else ReadPacket_payload rd (frame_header cmd sub d) (length d) (r\<lparr>r_br := b\<rparr>))"
    unfolding tcpReader_ReadPacket_def HeaderSize_def b(1) option.case prod.case Let_def
      parseHeader_frame len
    using rok_open [OF assms(1)] by (simp add: not_too_large)
  with b(2-5) show thesis by (rule that)
qed

lemma ReadPacket_payload_ok:
  assumes "rok r" and "rpending r = d @ rest"
  obtains r' where "ReadPacket_payload rd h (length d) r = Some (Inr (h, Some d), r')"
    "rok r'" "rpending r' = rest" "rfinal r' = rfinal r" "renv r' = renv r"
proof -
  obtain b where "ReadFull (bufio_Read defaultReadBufferSize rd) (length d) (r_br r) = Some ((d, None), b)"
    "buf_ok b" "buf_pending b = rest" "final (br_src b) = rfinal r" "renv (r\<lparr>r_br := b\<rparr>) = renv r"
    using br.ReadFull_enough [OF assms refl] by auto
  then show thesis
    using that by (simp add: ReadPacket_payload_def Let_def contents_def copy_at_fits)
qed

lemma ReadPacket_frame:
  assumes "rok r" and "rpending r = frame cmd sub d @ rest" and "length d \<le> 65535"
  obtains r' where
    "tcpReader_ReadPacket rd isClosed r = Some (Inr (frame_header cmd sub d, payload d), r')"
    "rok r'" "rpending r' = rest" "rfinal r' = rfinal r" "renv r' = renv r"
proof -
  have p: "rpending r = take 8 (frame cmd sub d) @ d @ rest"
    using assms(2) frame_split [of cmd sub d] by (metis append_assoc)
  obtain b where b: "buf_ok b" "buf_pending b = d @ rest" "final (br_src b) = rfinal r" "renv (r\<lparr>r_br := b\<rparr>) = renv r"
    "tcpReader_ReadPacket rd isClosed r =
      (if d = [] then Some (Inr (frame_header cmd sub d, None), r\<lparr>r_br := b\<rparr>)
       else ReadPacket_payload rd (frame_header cmd sub d) (length d) (r\<lparr>r_br := b\<rparr>))"
    using ReadPacket_header [OF assms(1) p assms(3)] .
  show thesis
  proof (cases "d = []")
    case True
    with b that [of "r\<lparr>r_br := b\<rparr>"] show thesis by (simp add: payload_def)
  next
    case False
    obtain r' where "ReadPacket_payload rd (frame_header cmd sub d) (length d) (r\<lparr>r_br := b\<rparr>) =
        Some (Inr (frame_header cmd sub d, Some d), r')" "rok r'" "rpending r' = rest"
        "rfinal r' = final (br_src b)" "renv r' = renv r"
      using ReadPacket_payload_ok [of "r\<lparr>r_br := b\<rparr>" d rest] b by auto
    with b False that show thesis by (simp add: payload_def)
  qed
qed

text \<open>At the end of the stream, and inside a frame that was cut off.\<close>

lemma ReadPacket_end:
  assumes "rok r" and "rpending r = []"
  obtains r' where "tcpReader_ReadPacket rd isClosed r = Some (Inl (rfinal r), r')"
    "rok r'" "rpending r' = []" "rfinal r' = rfinal r" "renv r' = renv r"
proof -
  obtain b where "ReadFull (bufio_Read defaultReadBufferSize rd) 8 (r_br r) =
      Some (([], Some (br.short_error [] (r_br r))), b)" "buf_ok b" "buf_pending b = []"
      "final (br_src b) = rfinal r" "renv (r\<lparr>r_br := b\<rparr>) = renv r"
    using br.ReadFull_short [OF assms(1), of 8] assms(2) by auto
  then show thesis
    using that [of "r\<lparr>r_br := b\<rparr>"] rok_open [OF assms(1)]
    by (simp add: tcpReader_ReadPacket_def HeaderSize_def br.short_error_def)
qed

lemma ReadPacket_truncated:
  assumes "rok r" and "rpending r = take k (frame cmd sub d)" and "k < 8 + length d"
    and "length d \<le> 65535"
  obtains r' where "tcpReader_ReadPacket rd isClosed r =
      Some (Inl (if k \<noteq> 0 \<and> k \<noteq> 8 \<and> rfinal r = EOF then ErrUnexpectedEOF else rfinal r), r')"
    "rok r'" "rpending r' = []"
proof (cases "k < 8")
  case True
  obtain b where "ReadFull (bufio_Read defaultReadBufferSize rd) 8 (r_br r) =
      Some ((take k (frame cmd sub d), Some (br.short_error (take k (frame cmd sub d)) (r_br r))), b)"
      "buf_ok b" "buf_pending b = []"
    using br.ReadFull_short [OF assms(1), of 8] assms(2,3) True by auto
  moreover have "take k (frame cmd sub d) = [] \<longleftrightarrow> k = 0"
    by (simp add: frame_def BE_bytes16_def)
  ultimately show thesis
    using that [of "r\<lparr>r_br := b\<rparr>"] rok_open [OF assms(1)] True
    by (auto simp: tcpReader_ReadPacket_def HeaderSize_def br.short_error_def)
next
  case False
  define p where "p = take (k - 8) d"
  have "take k (frame cmd sub d) = take 8 (frame cmd sub d) @ p"
    using False by (subst frame_split) (simp add: p_def)
  with assms obtain b where b: "buf_ok b" "buf_pending b = p" "final (br_src b) = rfinal r"
    "tcpReader_ReadPacket rd isClosed r =
      (if d = [] then Some (Inr (frame_header cmd sub d, None), r\<lparr>r_br := b\<rparr>)
       else ReadPacket_payload rd (frame_header cmd sub d) (length d) (r\<lparr>r_br := b\<rparr>))"
    using ReadPacket_header [of r cmd sub d p] by auto
  have p: "length p < length d" "d \<noteq> []" "p = [] \<longleftrightarrow> k = 8"
    using assms(3) False by (auto simp: p_def)
  obtain b' where "ReadFull (bufio_Read defaultReadBufferSize rd) (length d) b =
      Some ((p, Some (br.short_error p b)), b')" "buf_ok b'" "buf_pending b' = []"
    using br.ReadFull_short [OF b(1), of "length d"] b(2) p(1) by auto
  with b p False that show thesis
    by (auto simp: ReadPacket_payload_def Let_def br.short_error_def)
qed

end

text \<open>
  The read loop, over a handler that neither reads from the connection nor closes it:
  \<open>deliver\<close> is its effect on the environment.
\<close>

locale packet_loop = packet_source +
  fixes ctxDone :: "'a \<Rightarrow> bool"
    and handler :: "'a msg_handler"
    and deliver :: "PacketHeader \<Rightarrow> bytes option \<Rightarrow> 'b \<Rightarrow> 'b"
  assumes not_done: "ok r \<Longrightarrow> \<not> ctxDone r"
    and handles: "ok r \<Longrightarrow> \<exists>err r'. handler h p r = (Ret err, r') \<and> ok r' \<and>
      pending r' = pending r \<and> final r' = final r \<and> env r' = deliver h p (env r)"
begin

lemma loop_end:
  assumes "rok r" and "rpending r = []"
  shows "\<exists>r'. tcpReader_loop rd isClosed ctxDone handler r = Some r' \<and> rok r' \<and> rpending r' = [] \<and>
    renv r' = renv r"
proof -
  obtain r' where "tcpReader_ReadPacket rd isClosed r = Some (Inl (rfinal r), r')"
    "rok r'" "rpending r' = []" "rfinal r' = rfinal r" "renv r' = renv r"
    using ReadPacket_end [OF assms] .
  moreover have "\<not> ctxDone (br_src (r_br r))"
    using assms(1) not_done by (simp add: buf_ok_def)
  ultimately show ?thesis
    by (simp add: tcpReader_loop.simps [of rd])
qed

lemma loop_frames:
  assumes "rok r" and "rpending r = concat (map (\<lambda>(c, s, d). frame c s d) ps)"
    and "\<forall>(c, s, d) \<in> set ps. length d \<le> 65535"
  shows "\<exists>r'. tcpReader_loop rd isClosed ctxDone handler r = Some r' \<and> rok r' \<and> rpending r' = [] \<and>
    renv r' = fold (\<lambda>(c, s, d). deliver (frame_header c s d) (payload d)) ps (renv r)"
  using assms
proof (induction ps arbitrary: r)
  case Nil
  then show ?case using loop_end by simp
next
  case (Cons p ps)
  obtain c s d where p: "p = (c, s, d)" by (cases p)
  obtain r1 where r1: "tcpReader_ReadPacket rd isClosed r = Some (Inr (frame_header c s d, payload d), r1)"
    "rok r1" "rpending r1 = concat (map (\<lambda>(c, s, d). frame c s d) ps)" "renv r1 = renv r"
    using ReadPacket_frame [of r c s d "concat (map (\<lambda>(c, s, d). frame c s d) ps)"] Cons.prems p by auto
  have d: "\<not> ctxDone (br_src (r_br r))" "\<not> ctxDone (br_src (r_br r1))"
    using Cons.prems(1) r1(2) not_done by (simp_all add: buf_ok_def)
  obtain err s' where h: "handler (frame_header c s d) (payload d) (br_src (r_br r1)) = (Ret err, s')"
    "ok s'" "pending s' = pending (br_src (r_br r1))" "env s' = deliver (frame_header c s d) (payload d) (renv r1)"
    using handles [of "br_src (r_br r1)"] r1(2) unfolding buf_ok_def by blast
  define r2 where "r2 = r1\<lparr>r_br := (r_br r1)\<lparr>br_src := s'\<rparr>\<rparr>"
  have "rok r2" "rpending r2 = concat (map (\<lambda>(c, s, d). frame c s d) ps)"
    using r1(2,3) h by (simp_all add: r2_def buf_ok_def buf_pending_def)
  then obtain r' where "tcpReader_loop rd isClosed ctxDone handler r2 = Some r'" "rok r'"
    "rpending r' = []" "renv r' = fold (\<lambda>(c, s, d). deliver (frame_header c s d) (payload d)) ps (renv r2)"
    using Cons.IH [of r2] Cons.prems(3) by auto
  moreover have "tcpReader_loop rd isClosed ctxDone handler r = tcpReader_loop rd isClosed ctxDone handler r2"
    using d r1(1) h(1) by (simp add: tcpReader_loop.simps [of rd _ _ _ r] r2_def)
  ultimately show ?case
    using p h(4) r1(4) by (simp add: r2_def)
qed

end

end
