(* ===== verification/Tcp_Conn.thy ===== *)
theory Tcp_Conn
  imports Packet
begin

text \<open>
  A connection: \<open>tcpConn\<close> of \<open>pkg/network/tcp_con.go\<close> with its options and handler
  interfaces (\<open>types.go\<close>) and the goroutines it starts: the read loop
  (\<open>tcp_reader.go\<close>), the heartbeat and the reconnect loop.  The world of a connection is
  its record, the state of the application behind the event handler, and what it shares
  with its owner: the channel of closed connections, the parent context, the wait group,
  and the goroutines started so far.  Dialing, socket options and closing a socket belong
  to the operating system and are parameters; so are the callbacks of the event handler,
  which may change the whole world.
\<close>

subsection \<open>State (types.go, tcp_con.go)\<close>

type_synonym duration = int

record 'e TCPConnOptions =
  o_ID :: uint32
  o_HeartbeatInterval :: duration
  o_ReadTimeout :: duration
  o_WriteTimeout :: duration
  o_ReconnectInterval :: duration
  o_ReconnectMax :: int
  o_Handler :: "'e option"
  o_OutgoingCh :: bool
  o_ParentCtx :: bool
  o_ReaderWG :: bool

datatype chan_state = ChanNil | ChanOpen | ChanClosed

text \<open>
  Pointers that are only compared with nil are Booleans (\<open>c_reader\<close>,
  \<open>c_outgoingCh\<close>); \<open>c_closeOnce\<close> tells whether the \<open>sync.Once\<close> has run.  The field
  \<open>handler\<close> is the connection itself and never changes.
\<close>

record 'e tcpConn =
  c_conn :: "netconn option"
  c_id :: uint32
  c_remoteAddr :: string
  c_closed :: bool
  c_skipOutgoing :: bool
  c_closeOnce :: bool
  c_closeChan :: chan_state
  c_options :: "'e TCPConnOptions"
  c_event :: "'e option"
  c_reader :: bool
  c_writer :: "tcpWriter option"
  c_outgoingCh :: bool

datatype task = ReadLoop | HeartbeatLoop | ReconnectLoop | RawClose netconn

record ('e, 'h) world =
  w_conn :: "'e tcpConn"
  w_self :: nat
  w_app :: 'h
  w_outgoing :: "nat list"
  w_ctx :: "error option"
  w_wg :: int
  w_tasks :: "task list"
  w_rawclosed :: "netconn list"
  w_dials :: nat

definition outgoing_cap :: nat where "outgoing_cap = 16"

definition upd_conn :: "('e tcpConn \<Rightarrow> 'e tcpConn) \<Rightarrow> ('e, 'h) world \<Rightarrow> ('e, 'h) world" where
  "upd_conn f W = W\<lparr>w_conn := f (w_conn W)\<rparr>"

definition spawn :: "task \<Rightarrow> ('e, 'h) world \<Rightarrow> ('e, 'h) world" where
  "spawn t W = W\<lparr>w_tasks := w_tasks W @ [t]\<rparr>"

subsection \<open>Interfaces to the application and the operating system\<close>

record 's EventHandler =
  ev_OnConnect :: "'s \<Rightarrow> error option \<times> 's"
  ev_OnClose :: "'s \<Rightarrow> 's"
  ev_OnCmdSystem :: "proto_message option \<Rightarrow> 's \<Rightarrow> error option outcome \<times> 's"
  ev_OnCmdDiscovery :: "proto_message option \<Rightarrow> 's \<Rightarrow> error option outcome \<times> 's"
  ev_OnCmdDataReport :: "uint8 \<Rightarrow> proto_message option \<Rightarrow> 's \<Rightarrow> error option outcome \<times> 's"
  ev_OnCmdConfig :: "proto_message option \<Rightarrow> 's \<Rightarrow> error option outcome \<times> 's"
  ev_OnCmdEvent :: "proto_message option \<Rightarrow> 's \<Rightarrow> error option outcome \<times> 's"
  ev_OnCmdControl :: "proto_message option \<Rightarrow> 's \<Rightarrow> error option outcome \<times> 's"

type_synonym ('e, 'h) callbacks = "'e \<Rightarrow> ('e, 'h) world EventHandler"

datatype sockopt =
    NoDelay bool
  | KeepAlive bool
  | KeepAlivePeriod duration
  | ReadDeadline int
  | WriteDeadline int
  | ReuseAddr int
  | ReusePort int
  | Linger int
  | CloseWrite

record kernel =
  k_dial :: "nat \<Rightarrow> string \<Rightarrow> error + netconn"
  k_tls_dial :: "nat \<Rightarrow> string \<Rightarrow> error + netconn"
  k_setopt :: "sockopt \<Rightarrow> netconn \<Rightarrow> error option \<times> netconn"
  k_syscall :: "netconn \<Rightarrow> error option"
  k_control :: "netconn \<Rightarrow> error option"
  k_close :: "netconn \<Rightarrow> error option"
  k_now :: int

definition raw_close :: "kernel \<Rightarrow> netconn \<Rightarrow> ('e, 'h) world \<Rightarrow> error option \<times> ('e, 'h) world" where
  "raw_close K nc W = (k_close K nc, W\<lparr>w_rawclosed := w_rawclosed W @ [nc]\<rparr>)"

subsection \<open>Accessors and socket options\<close>

definition tcpConn_ID :: "('e, 'h) world \<Rightarrow> uint32" where
  "tcpConn_ID W = c_id (w_conn W)"

definition tcpConn_IsClosed :: "('e, 'h) world \<Rightarrow> bool" where
  "tcpConn_IsClosed W = c_closed (w_conn W)"

definition RemoteAddr :: "('e, 'h) world \<Rightarrow> string" where
  "RemoteAddr W = (case c_conn (w_conn W) of None \<Rightarrow> ''0.0.0.0:0'' | Some nc \<Rightarrow> nc_raddr nc)"

definition LocalAddr :: "('e, 'h) world \<Rightarrow> string" where
  "LocalAddr W = (case c_conn (w_conn W) of None \<Rightarrow> ''0.0.0.0:0'' | Some nc \<Rightarrow> nc_laddr nc)"

definition RawConn :: "('e, 'h) world \<Rightarrow> netconn option" where
  "RawConn W = c_conn (w_conn W)"

definition set_sockopt ::
  "kernel \<Rightarrow> sockopt \<Rightarrow> netconn \<Rightarrow> ('e, 'h) world \<Rightarrow> error option \<times> ('e, 'h) world" where
  "set_sockopt K opt nc W =
     (case k_setopt K opt nc of (err, nc') \<Rightarrow> (err, upd_conn (c_conn_update (\<lambda>_. Some nc')) W))"

definition SetReadDeadline :: "kernel \<Rightarrow> int \<Rightarrow> ('e, 'h) world \<Rightarrow> error option \<times> ('e, 'h) world" where
  "SetReadDeadline K t W =
     (case c_conn (w_conn W) of None \<Rightarrow> (Some ErrNoReady, W) | Some nc \<Rightarrow> set_sockopt K (ReadDeadline t) nc W)"

definition SetWriteDeadline :: "kernel \<Rightarrow> int \<Rightarrow> ('e, 'h) world \<Rightarrow> error option \<times> ('e, 'h) world" where
  "SetWriteDeadline K t W =
     (case c_conn (w_conn W) of None \<Rightarrow> (Some ErrNoReady, W) | Some nc \<Rightarrow> set_sockopt K (WriteDeadline t) nc W)"

definition SetHeartbeatInterval :: "duration \<Rightarrow> ('e, 'h) world \<Rightarrow> error option \<times> ('e, 'h) world" where
  "SetHeartbeatInterval d W =
     (case c_conn (w_conn W) of
        None \<Rightarrow> (Some ErrNoReady, W)
      | Some _ \<Rightarrow> (None, upd_conn (\<lambda>c. c\<lparr>c_options := (c_options c)\<lparr>o_HeartbeatInterval := d\<rparr>\<rparr>) W))"

text \<open>
  \<open>SetNoNagle\<close>, \<open>SetKeepAlive\<close> and \<open>SetKeepAlivePeriod\<close> assert
  \<open>c.conn.(*net.TCPConn)\<close> without the comma-ok form: any other connection panics.
\<close>

definition set_tcp_only ::
  "kernel \<Rightarrow> sockopt \<Rightarrow> ('e, 'h) world \<Rightarrow> (error option \<times> ('e, 'h) world) outcome" where
  "set_tcp_only K opt W =
     (case c_conn (w_conn W) of
        None \<Rightarrow> Ret (Some ErrNoReady, W)
      | Some nc \<Rightarrow> (if nc_tcp nc then Ret (set_sockopt K opt nc W) else Panic ''interface conversion''))"

definition SetNoNagle where
  "SetNoNagle K enable W = set_tcp_only K (NoDelay enable) W"

definition SetKeepAlive where
  "SetKeepAlive K enable W = set_tcp_only K (KeepAlive enable) W"

definition SetKeepAlivePeriod where
  "SetKeepAlivePeriod K d W = set_tcp_only K (KeepAlivePeriod d) W"

definition tcpControl :: "kernel \<Rightarrow> sockopt \<Rightarrow> ('e, 'h) world \<Rightarrow> error option \<times> ('e, 'h) world" where
  "tcpControl K opt W =
     (case c_conn (w_conn W) of
        None \<Rightarrow> (Some ErrNoReady, W)
      | Some nc \<Rightarrow>
         (if \<not> nc_tcp nc then (Some (ErrorString ''netx: connection is not *net.TCPConn''), W)
          else (case k_syscall K nc of
              Some e \<Rightarrow> (Some e, W)
            | None \<Rightarrow>
               (case k_control K nc of
                  Some e \<Rightarrow> (Some e, W)
                | None \<Rightarrow> set_sockopt K opt nc W))))"

definition SetReuseAddr :: "kernel \<Rightarrow> bool \<Rightarrow> ('e, 'h) world \<Rightarrow> error option \<times> ('e, 'h) world" where
  "SetReuseAddr K enable W = (let v = (if enable then 1 else 0) in tcpControl K (ReuseAddr v) W)"

definition SetReusePort :: "kernel \<Rightarrow> bool \<Rightarrow> ('e, 'h) world \<Rightarrow> error option \<times> ('e, 'h) world" where
  "SetReusePort K enable W = (let v = (if enable then 1 else 0) in tcpControl K (ReusePort v) W)"

subsection \<open>Reading and writing\<close>

definition tcpConn_Write :: "('e, 'h) world writer" where
  "tcpConn_Write p W =
     (case c_conn (w_conn W) of
        None \<Rightarrow> Some (Ret ((0, Some ErrClosed), W))
      | Some nc \<Rightarrow>
         (if c_closed (w_conn W) then Some (Ret ((0, Some ErrClosed), W))
          else (case writeAll net_write p nc of
              None \<Rightarrow> None
            | Some (Panic m) \<Rightarrow> Some (Panic m)
            | Some (Ret (res, nc')) \<Rightarrow> Some (Ret (res, upd_conn (c_conn_update (\<lambda>_. Some nc')) W)))))"

definition tcpConn_Read :: "('e, 'h) world reader" where
  "tcpConn_Read n W =
     (case c_conn (w_conn W) of
        None \<Rightarrow> (([], Some ErrClosed), W)
      | Some nc \<Rightarrow>
         (if c_closed (w_conn W) then (([], Some ErrClosed), W)
          else (case net_read n nc of (res, nc') \<Rightarrow> (res, upd_conn (c_conn_update (\<lambda>_. Some nc')) W))))"

definition tcpConn_WritePacket ::
  "marshal \<Rightarrow> uint8 \<Rightarrow> uint8 \<Rightarrow> proto_message \<Rightarrow> ('e, 'h) world
    \<Rightarrow> (error option \<times> ('e, 'h) world) outcome option" where
  "tcpConn_WritePacket mar cmd subcmd pkt W =
     (case c_writer (w_conn W) of
        None \<Rightarrow> Some (Panic ''invalid memory address or nil pointer dereference'')
      | Some w \<Rightarrow>
         (case tcpWriter_WritePacket mar tcpConn_Write tcpConn_IsClosed cmd subcmd pkt w (Some W) of
            None \<Rightarrow> None
          | Some (Panic m) \<Rightarrow> Some (Panic m)
          | Some (Ret (err, w', W')) \<Rightarrow>
              Some (Ret (err, upd_conn (c_writer_update (\<lambda>_. Some w')) (case W' of Some x \<Rightarrow> x | None \<Rightarrow> W)))))"

subsection \<open>Handlers\<close>

definition tcpConn_OnConnect :: "('e, 'h) callbacks \<Rightarrow> ('e, 'h) world \<Rightarrow> error option \<times> ('e, 'h) world" where
  "tcpConn_OnConnect cb W =
     (case c_event (w_conn W) of None \<Rightarrow> (None, W) | Some e \<Rightarrow> ev_OnConnect (cb e) W)"

definition tcpConn_OnClose :: "('e, 'h) callbacks \<Rightarrow> ('e, 'h) world \<Rightarrow> ('e, 'h) world" where
  "tcpConn_OnClose cb W =
     (let W1 = (case c_event (w_conn W) of None \<Rightarrow> W | Some e \<Rightarrow> ev_OnClose (cb e) W) in
      if c_outgoingCh (w_conn W1) \<and> \<not> c_skipOutgoing (w_conn W1) then
        (if length (w_outgoing W1) < outgoing_cap
         then W1\<lparr>w_outgoing := w_outgoing W1 @ [w_self W1]\<rparr> else W1)
      else W1)"

definition deliver_decoded ::
  "decoded \<Rightarrow> (proto_message option \<Rightarrow> ('e, 'h) world \<Rightarrow> error option outcome \<times> ('e, 'h) world)
    \<Rightarrow> ('e, 'h) world \<Rightarrow> error option outcome \<times> ('e, 'h) world" where
  "deliver_decoded r callback W =
     (case r of (pkt, Some e) \<Rightarrow> (Ret (Some e), W) | (pkt, None) \<Rightarrow> callback pkt W)"

definition parentCtxDone :: "('e, 'h) world \<Rightarrow> bool" where
  "parentCtxDone W \<longleftrightarrow> o_ParentCtx (c_options (w_conn W)) \<and> w_ctx W \<noteq> None"

definition tcpConn_OnMessage ::
  "unmarshal \<Rightarrow> ('e, 'h) callbacks \<Rightarrow> ('e, 'h) world msg_handler" where
  "tcpConn_OnMessage unm cb head pl W =
     (case c_event (w_conn W) of
        None \<Rightarrow> (Ret None, W)
      | Some e \<Rightarrow>
         (let data = slice_bytes pl; sub = h_SubCMD head in
          if parentCtxDone W then (Ret (w_ctx W), W)
          else if h_CMD head = u8 (CMD_number CMD_SYSTEM) then
            deliver_decoded (UnmarshalSystem unm sub data) (ev_OnCmdSystem (cb e)) W
          else if h_CMD head = u8 (CMD_number CMD_DISCOVERY) then
            deliver_decoded (UnmarshalDiscovery unm sub data) (ev_OnCmdDiscovery (cb e)) W
          else if h_CMD head = u8 (CMD_number CMD_DATA_REPORT) then
            deliver_decoded (UnmarshalDataReport unm sub data) (ev_OnCmdDataReport (cb e) sub) W
          else if h_CMD head = u8 (CMD_number CMD_CONFIG) then
            deliver_decoded (UnmarshalConfig unm sub data) (ev_OnCmdConfig (cb e)) W
          else if h_CMD head = u8 (CMD_number CMD_EVENT) then
            deliver_decoded (UnmarshalEvent unm sub data) (ev_OnCmdEvent (cb e)) W
          else if h_CMD head = u8 (CMD_number CMD_CONTROL) then
            deliver_decoded (UnmarshalControl unm sub data) (ev_OnCmdControl (cb e)) W
          else (Ret (Some (ErrorString ''unknown command'')), W)))"

subsection \<open>Opening\<close>

definition tcpConn_zero :: "'e TCPConnOptions \<Rightarrow> 'e tcpConn" where
  "tcpConn_zero opts = \<lparr>c_conn = None, c_id = o_ID opts, c_remoteAddr = '''', c_closed = False,
     c_skipOutgoing = False, c_closeOnce = False, c_closeChan = ChanNil, c_options = opts,
     c_event = o_Handler opts, c_reader = False, c_writer = None, c_outgoingCh = o_OutgoingCh opts\<rparr>"

definition NewClientConn :: "'e TCPConnOptions \<Rightarrow> 'e tcpConn" where
  "NewClientConn opts = tcpConn_zero opts"

definition newReader :: "('e, 'h) world \<Rightarrow> error option \<times> ('e, 'h) world" where
  "newReader W =
     (if c_closed (w_conn W) then (Some ErrNoReady, upd_conn (c_reader_update (\<lambda>_. False)) W)
      else
        (let W1 = (if o_ReaderWG (c_options (w_conn W)) then W\<lparr>w_wg := w_wg W + 1\<rparr> else W)
         in (None, upd_conn (c_reader_update (\<lambda>_. True)) (spawn ReadLoop W1))))"

definition initIO :: "('e, 'h) callbacks \<Rightarrow> ('e, 'h) world \<Rightarrow> error option \<times> ('e, 'h) world" where
  "initIO cb W =
     (let W1 = (if c_closeChan (w_conn W) = ChanNil
                then upd_conn (c_closeChan_update (\<lambda>_. ChanOpen)) W else W);
          W2 = upd_conn (c_writer_update (\<lambda>_. Some newWriter)) W1
      in (case c_event (w_conn W2) of
            None \<Rightarrow> (None, W2)
          | Some e \<Rightarrow>
             (case tcpConn_OnConnect cb W2 of
                (Some err, W3) \<Rightarrow> (Some err, W3)
              | (None, W3) \<Rightarrow> newReader W3)))"

definition NewServerConn ::
  "kernel \<Rightarrow> ('e, 'h) callbacks \<Rightarrow> netconn \<Rightarrow> 'e TCPConnOptions \<Rightarrow> ('e, 'h) world \<Rightarrow> error option \<times> ('e, 'h) world" where
  "NewServerConn K cb nc opts W =
     (case initIO cb (W\<lparr>w_conn := (tcpConn_zero opts)\<lparr>c_conn := Some nc\<rparr>\<rparr>) of
        (Some e, W1) \<Rightarrow> (Some e, snd (raw_close K nc W1))
      | (None, W1) \<Rightarrow> (None, W1))"

definition start_heartbeat :: "('e, 'h) world \<Rightarrow> ('e, 'h) world" where
  "start_heartbeat W =
     (if 0 < o_HeartbeatInterval (c_options (w_conn W)) then spawn HeartbeatLoop W else W)"

definition connect_with ::
  "kernel \<Rightarrow> ('e, 'h) callbacks \<Rightarrow> error + netconn \<Rightarrow> string \<Rightarrow> ('e, 'h) world \<Rightarrow> error option \<times> ('e, 'h) world" where
  "connect_with K cb dialed addr W =
     (let W0 = W\<lparr>w_dials := Suc (w_dials W)\<rparr> in
      case dialed of
        Inl e \<Rightarrow> (Some e, W0)
      | Inr nc \<Rightarrow>
         (case initIO cb (upd_conn (\<lambda>c. c\<lparr>c_conn := Some nc, c_remoteAddr := addr, c_closed := False\<rparr>) W0) of
            (Some e, W2) \<Rightarrow> (Some e, upd_conn (c_conn_update (\<lambda>_. None)) (snd (raw_close K nc W2)))
          | (None, W2) \<Rightarrow> (None, start_heartbeat W2)))"

definition tcpConn_Connect where
  "tcpConn_Connect K cb addr W = connect_with K cb (k_dial K (w_dials W) addr) addr W"

definition ConnectWithTLS where
  "ConnectWithTLS K cb addr W = connect_with K cb (k_tls_dial K (w_dials W) addr) addr W"

subsection \<open>Closing\<close>

text \<open>\<open>SetLinger(0)\<close>, \<open>CloseWrite()\<close> and the two deadlines of an abort; errors are ignored.\<close>

definition abort_socket :: "kernel \<Rightarrow> netconn \<Rightarrow> netconn" where
  "abort_socket K nc =
     (let nc1 = (if nc_tcp nc then snd (k_setopt K CloseWrite (snd (k_setopt K (Linger 0) nc))) else nc);
          nc2 = snd (k_setopt K (ReadDeadline (k_now K)) nc1)
      in snd (k_setopt K (WriteDeadline (k_now K)) nc2))"

definition wants_reconnect :: "'e tcpConn \<Rightarrow> bool" where
  "wants_reconnect c \<longleftrightarrow>
     0 < o_ReconnectInterval (c_options c) \<and> \<not> c_outgoingCh c \<and> c_remoteAddr c \<noteq> ''''"

definition tcpConn_close ::
  "kernel \<Rightarrow> ('e, 'h) callbacks \<Rightarrow> bool \<Rightarrow> ('e, 'h) world \<Rightarrow> (error option \<times> ('e, 'h) world) outcome" where
  "tcpConn_close K cb abort W =
     (if c_closeOnce (w_conn W) then Ret (None, W)
      else
        (let W0 = upd_conn (c_closeOnce_update (\<lambda>_. True)) W in
         if c_conn (w_conn W0) = None then Ret (Some ErrNoReady, W0)
         else
           (let W1 = upd_conn (c_closed_update (\<lambda>_. True)) W0 in
            if c_closeChan (w_conn W1) = ChanClosed then Panic ''close of closed channel''
            else
              (let W2 = (if c_closeChan (w_conn W1) = ChanNil then W1
                         else upd_conn (c_closeChan_update (\<lambda>_. ChanClosed)) W1);
                   W3 = tcpConn_OnClose cb W2
               in case c_conn (w_conn W3) of
                    None \<Rightarrow> Panic ''invalid memory address or nil pointer dereference''
                  | Some nc \<Rightarrow>
                     (let W4 = upd_conn (c_conn_update (\<lambda>_. None)) W3 in
                      if abort then
                        (let W5 = spawn (RawClose (abort_socket K nc)) W4
                         in Ret (None, if wants_reconnect (w_conn W5) then spawn ReconnectLoop W5 else W5))
                      else Ret (raw_close K nc W4))))))"

definition tcpConn_Close where
  "tcpConn_Close K cb W = tcpConn_close K cb False W"

definition tcpConn_abortClose where
  "tcpConn_abortClose K cb skipOutgoing W =
     tcpConn_close K cb True (if skipOutgoing then upd_conn (c_skipOutgoing_update (\<lambda>_. True)) W else W)"

subsection \<open>Goroutines\<close>

text \<open>\<open>tcpReader.loop\<close> with its deferred function.\<close>

definition reader_goroutine ::
  "kernel \<Rightarrow> unmarshal \<Rightarrow> ('e, 'h) callbacks \<Rightarrow> ('e, 'h) world tcpReader \<Rightarrow> ('e, 'h) world outcome option" where
  "reader_goroutine K unm cb r =
     (case tcpReader_loop tcpConn_Read tcpConn_IsClosed parentCtxDone (tcpConn_OnMessage unm cb) r of
        None \<Rightarrow> None
      | Some r' \<Rightarrow>
         (let W = br_src (r_br r') in
          Some (bind_outcome
            (if c_closed (w_conn W) then Ret W
             else bind_outcome (tcpConn_abortClose K cb False W) (\<lambda>(_, W1). Ret W1))
            (\<lambda>W1. Ret (if o_ReaderWG (c_options (w_conn W1)) then W1\<lparr>w_wg := w_wg W1 - 1\<rparr> else W1)))))"

definition tcpReader_Close ::
  "kernel \<Rightarrow> ('e, 'h) callbacks \<Rightarrow> bool \<Rightarrow> ('e, 'h) world \<Rightarrow> (bool \<times> ('e, 'h) world) outcome" where
  "tcpReader_Close K cb closeOnce W =
     (if closeOnce \<or> c_closed (w_conn W) then Ret (True, W)
      else bind_outcome (tcpConn_abortClose K cb False W) (\<lambda>(_, W1). Ret (True, W1)))"

text \<open>One tick of \<open>heartbeat\<close>.\<close>

definition heartbeat_tick ::
  "marshal \<Rightarrow> int64 \<Rightarrow> ('e, 'h) world \<Rightarrow> ('e, 'h) world outcome option" where
  "heartbeat_tick mar now W =
     (if c_writer (w_conn W) = None \<or> c_closed (w_conn W) then Some (Ret W)
      else (case tcpConn_WritePacket mar (u8 (CMD_number CMD_SYSTEM)) (u8 (SCMDSystem_number SCMDSystem_PING))
              (MPing (Ping_zero\<lparr>ping_Timestamp := now\<rparr>)) W of
          None \<Rightarrow> None
        | Some (Panic m) \<Rightarrow> Some (Panic m)
        | Some (Ret (_, W')) \<Rightarrow> Some (Ret W')))"

text \<open>
  The loop of \<open>reconnect\<close>: the result tells whether it reconnected.  \<open>None\<close> is a loop
  that dials forever (\<open>ReconnectMax == 0\<close>).
\<close>

definition reconnect_install :: "netconn \<Rightarrow> ('e, 'h) world \<Rightarrow> ('e, 'h) world" where
  "reconnect_install nc = upd_conn (\<lambda>c. c\<lparr>c_conn := Some nc, c_closed := False, c_closeOnce := False,
     c_closeChan := ChanOpen\<rparr>)"

definition reconnect_undo :: "kernel \<Rightarrow> netconn \<Rightarrow> ('e, 'h) world \<Rightarrow> ('e, 'h) world" where
  "reconnect_undo K nc W =
     upd_conn (\<lambda>c. c\<lparr>c_conn := None, c_closed := True\<rparr>) (snd (raw_close K nc W))"

partial_function (option) reconnect_loop ::
  "kernel \<Rightarrow> ('e, 'h) callbacks \<Rightarrow> string \<Rightarrow> int \<Rightarrow> ('e, 'h) world \<Rightarrow> (bool \<times> ('e, 'h) world) option" where
  "reconnect_loop K cb addr i W =
     (if o_ReconnectMax (c_options (w_conn W)) = 0 \<or> i < o_ReconnectMax (c_options (w_conn W)) then
        (case k_dial K (w_dials W) addr of
           Inl e \<Rightarrow> reconnect_loop K cb addr (i + 1) (W\<lparr>w_dials := Suc (w_dials W)\<rparr>)
         | Inr nc \<Rightarrow>
            (case initIO cb (reconnect_install nc (W\<lparr>w_dials := Suc (w_dials W)\<rparr>)) of
               (Some e, W2) \<Rightarrow> reconnect_loop K cb addr (i + 1) (reconnect_undo K nc W2)
             | (None, W2) \<Rightarrow> Some (True, start_heartbeat W2)))
      else Some (False, W))"

definition tcpConn_reconnect ::
  "kernel \<Rightarrow> ('e, 'h) callbacks \<Rightarrow> ('e, 'h) world \<Rightarrow> (bool \<times> ('e, 'h) world) option" where
  "tcpConn_reconnect K cb W =
     (if c_remoteAddr (w_conn W) = '''' then Some (False, W)
      else reconnect_loop K cb (c_remoteAddr (w_conn W)) 0 W)"


subsection \<open>Projections\<close>

lemma upd_conn_sel [simp]:
  "w_conn (upd_conn f W) = f (w_conn W)" "w_self (upd_conn f W) = w_self W"
  "w_app (upd_conn f W) = w_app W" "w_outgoing (upd_conn f W) = w_outgoing W"
  "w_ctx (upd_conn f W) = w_ctx W" "w_wg (upd_conn f W) = w_wg W" "w_tasks (upd_conn f W) = w_tasks W"
  "w_rawclosed (upd_conn f W) = w_rawclosed W" "w_dials (upd_conn f W) = w_dials W"
  by (simp_all add: upd_conn_def)

lemma spawn_sel [simp]:
  "w_conn (spawn t W) = w_conn W" "w_self (spawn t W) = w_self W"
  "w_app (spawn t W) = w_app W" "w_outgoing (spawn t W) = w_outgoing W"
  "w_ctx (spawn t W) = w_ctx W" "w_wg (spawn t W) = w_wg W" "w_tasks (spawn t W) = w_tasks W @ [t]"
  "w_rawclosed (spawn t W) = w_rawclosed W" "w_dials (spawn t W) = w_dials W"
  by (simp_all add: spawn_def)

lemma raw_close_sel [simp]:
  "fst (raw_close K nc W) = k_close K nc" "w_conn (snd (raw_close K nc W)) = w_conn W"
  "w_app (snd (raw_close K nc W)) = w_app W"
  "w_rawclosed (snd (raw_close K nc W)) = w_rawclosed W @ [nc]"
  "w_dials (snd (raw_close K nc W)) = w_dials W" "w_tasks (snd (raw_close K nc W)) = w_tasks W"
  by (simp_all add: raw_close_def)

lemma start_heartbeat_conn [simp]: "w_conn (start_heartbeat W) = w_conn W"
  by (simp add: start_heartbeat_def)

text \<open>The bytes the peer has been sent, the bytes still to come, and everything else.\<close>

definition sent :: "('e, 'h) world \<Rightarrow> bytes" where
  "sent W = (case c_conn (w_conn W) of None \<Rightarrow> [] | Some nc \<Rightarrow> nc_out nc)"

definition incoming :: "('e, 'h) world \<Rightarrow> bytes" where
  "incoming W = (case c_conn (w_conn W) of None \<Rightarrow> [] | Some nc \<Rightarrow> concat (nc_in nc))"

definition read_end :: "('e, 'h) world \<Rightarrow> error" where
  "read_end W = (case c_conn (w_conn W) of None \<Rightarrow> ErrClosed | Some nc \<Rightarrow> nc_rerr nc)"

definition world_reads :: "('e, 'h) world \<Rightarrow> nat" where
  "world_reads W = (case c_conn (w_conn W) of None \<Rightarrow> 0 | Some nc \<Rightarrow> net_reads nc)"

definition offline :: "('e, 'h) world \<Rightarrow> ('e, 'h) world" where
  "offline W = upd_conn (c_conn_update (\<lambda>_. None)) W"

definition reading :: "('e, 'h) world \<Rightarrow> bool" where
  "reading W \<longleftrightarrow> c_conn (w_conn W) \<noteq> None \<and> \<not> c_closed (w_conn W) \<and> \<not> parentCtxDone W"

subsection \<open>The connection as a writer\<close>

lemma tcpConn_Write_cases:
  obtains (closed) "tcpConn_Write p W = Some (Ret ((0, Some ErrClosed), W))"
    "c_conn (w_conn W) = None \<or> c_closed (w_conn W)"
  | (wrote) nc n err nc' where "c_conn (w_conn W) = Some nc" "\<not> c_closed (w_conn W)"
    "writeAll net_write p nc = Some (Ret ((int n, err), nc'))"
    "tcpConn_Write p W = Some (Ret ((int n, err), upd_conn (c_conn_update (\<lambda>_. Some nc')) W))"
    "n \<le> length p" "nc_out nc' = nc_out nc @ take n p" "err = None \<longrightarrow> n = length p"
proof (cases "c_conn (w_conn W) = None \<or> c_closed (w_conn W)")
  case True
  with closed show thesis by (auto simp: tcpConn_Write_def split: option.splits)
next
  case False
  then obtain nc where nc: "c_conn (w_conn W) = Some nc" "\<not> c_closed (w_conn W)" by auto
  obtain n err nc' where "writeAll net_write p nc = Some (Ret ((int n, err), nc'))" "n \<le> length p"
    "nc_out nc' = nc_out nc @ take n p" "err = None \<longrightarrow> n = length p"
    using net_w.writeAll_correct [of p nc] by metis
  with nc wrote show thesis by (simp add: tcpConn_Write_def)
qed

interpretation conn_w: io_writer tcpConn_Write sent "\<lambda>W. (offline W, c_conn (w_conn W) = None)"
proof
  fix p and W :: "('e, 'h) world"
  show "\<exists>n err W'. tcpConn_Write p W = Some (Ret ((n, err), W'))"
    by (cases rule: tcpConn_Write_cases [of p W]) auto
next
  fix p n err and W W' :: "('e, 'h) world"
  assume "tcpConn_Write p W = Some (Ret ((n, err), W'))"
  then show "0 \<le> n \<and> n \<le> int (length p) \<and> sent W' = sent W @ take (nat n) p \<and>
      (offline W', c_conn (w_conn W') = None) = (offline W, c_conn (w_conn W) = None)"
    by (cases rule: tcpConn_Write_cases [of p W]) (auto simp: sent_def offline_def upd_conn_def)
next
  fix p n and W W' :: "('e, 'h) world"
  assume "tcpConn_Write p W = Some (Ret ((n, None), W'))" and "p \<noteq> []"
  then show "0 < n"
    by (cases rule: tcpConn_Write_cases [of p W]) auto
qed

subsection \<open>Dispatch of a message\<close>

definition callback_of ::
  "('e, 'h) world EventHandler \<Rightarrow> uint8 \<Rightarrow> uint8 \<Rightarrow> proto_message option \<Rightarrow> ('e, 'h) world
    \<Rightarrow> error option outcome \<times> ('e, 'h) world" where
  "callback_of H cmd sub =
     (if cmd = 10 then ev_OnCmdSystem H
      else if cmd = 20 then ev_OnCmdDiscovery H
      else if cmd = 30 then ev_OnCmdDataReport H sub
      else if cmd = 40 then ev_OnCmdConfig H
      else if cmd = 50 then ev_OnCmdEvent H
      else ev_OnCmdControl H)"

lemma OnMessage_Unbox:
  assumes "c_event (w_conn W) = Some e" and "\<not> parentCtxDone W"
  shows "tcpConn_OnMessage unm cb h p W =
    deliver_decoded (Unbox unm (h_CMD h) (h_SubCMD h) (slice_bytes p)) (callback_of (cb e) (h_CMD h) (h_SubCMD h)) W"
  using assms
  by (simp add: tcpConn_OnMessage_def Unbox_def callback_of_def u8_def Let_def deliver_decoded_def)

subsection \<open>Applications that only compute\<close>

text \<open>
  A handler given by functions on the application state: it neither closes the connection
  nor reads from it.  \<open>on_cmd\<close> receives the command, the sub-command for data reports
  (the only callback that is passed it) and the message.
\<close>

record 'h app =
  on_connect :: "'h \<Rightarrow> error option \<times> 'h"
  on_close :: "'h \<Rightarrow> 'h"
  on_cmd :: "uint8 \<Rightarrow> uint8 \<Rightarrow> proto_message option \<Rightarrow> 'h \<Rightarrow> error option \<times> 'h"

definition run_cmd ::
  "'h app \<Rightarrow> uint8 \<Rightarrow> uint8 \<Rightarrow> proto_message option \<Rightarrow> ('e, 'h) world \<Rightarrow> error option outcome \<times> ('e, 'h) world" where
  "run_cmd A cmd sub pkt W = (case on_cmd A cmd sub pkt (w_app W) of (err, a) \<Rightarrow> (Ret err, W\<lparr>w_app := a\<rparr>))"

definition app_handler :: "'h app \<Rightarrow> ('e, 'h) world EventHandler" where
  "app_handler A = \<lparr>
     ev_OnConnect = (\<lambda>W. case on_connect A (w_app W) of (err, a) \<Rightarrow> (err, W\<lparr>w_app := a\<rparr>)),
     ev_OnClose = (\<lambda>W. W\<lparr>w_app := on_close A (w_app W)\<rparr>),
     ev_OnCmdSystem = run_cmd A 10 0,
     ev_OnCmdDiscovery = run_cmd A 20 0,
     ev_OnCmdDataReport = run_cmd A 30,
     ev_OnCmdConfig = run_cmd A 40 0,
     ev_OnCmdEvent = run_cmd A 50 0,
     ev_OnCmdControl = run_cmd A 60 0\<rparr>"

definition app_cb :: "('e \<Rightarrow> 'h app) \<Rightarrow> ('e, 'h) callbacks" where
  "app_cb A e = app_handler (A e)"

text \<open>What one packet does to the application.\<close>

definition app_deliver :: "unmarshal \<Rightarrow> 'h app \<Rightarrow> uint8 \<Rightarrow> uint8 \<Rightarrow> bytes \<Rightarrow> 'h \<Rightarrow> 'h" where
  "app_deliver unm A cmd sub d a =
     (case Unbox unm cmd sub d of
        (pkt, Some _) \<Rightarrow> a
      | (pkt, None) \<Rightarrow> snd (on_cmd A cmd (if cmd = 30 then sub else 0) pkt a))"

definition world_deliver ::
  "unmarshal \<Rightarrow> ('e \<Rightarrow> 'h app) \<Rightarrow> PacketHeader \<Rightarrow> bytes option \<Rightarrow> ('e, 'h) world \<Rightarrow> ('e, 'h) world" where
  "world_deliver unm A h p W =
     (case c_event (w_conn W) of
        None \<Rightarrow> W
      | Some e \<Rightarrow> W\<lparr>w_app := app_deliver unm (A e) (h_CMD h) (h_SubCMD h) (slice_bytes p) (w_app W)\<rparr>)"

lemma callback_app:
  "Unbox unm cmd sub d = (pkt, None) \<Longrightarrow>
    callback_of (app_handler A) cmd sub pkt = run_cmd A cmd (if cmd = 30 then sub else 0) pkt"
  by (auto simp: callback_of_def app_handler_def Unbox_def u8_def split: if_splits)

lemma OnMessage_app:
  assumes "\<not> parentCtxDone W"
  shows "\<exists>err. tcpConn_OnMessage unm (app_cb A) h p W = (Ret err, world_deliver unm A h p W)"
proof (cases "c_event (w_conn W)")
  case None
  then show ?thesis by (simp add: tcpConn_OnMessage_def world_deliver_def)
next
  case (Some e)
  obtain pkt err where u: "Unbox unm (h_CMD h) (h_SubCMD h) (slice_bytes p) = (pkt, err)"
    by (cases "Unbox unm (h_CMD h) (h_SubCMD h) (slice_bytes p)")
  show ?thesis
    using u Some
    by (cases err) (simp_all add: OnMessage_Unbox [OF Some assms] deliver_decoded_def world_deliver_def
        app_deliver_def app_cb_def callback_app run_cmd_def split: prod.splits)
qed

lemma world_deliver_conn [simp]:
  "w_conn (world_deliver unm A h p W) = w_conn W" "w_ctx (world_deliver unm A h p W) = w_ctx W"
  by (auto simp: world_deliver_def split: option.splits)

lemma offline_deliver: "offline (world_deliver unm A h p W) = world_deliver unm A h p (offline W)"
  by (auto simp: world_deliver_def offline_def upd_conn_def split: option.splits)

interpretation conn_l: packet_loop tcpConn_Read reading incoming read_end offline world_reads
    tcpConn_IsClosed parentCtxDone "tcpConn_OnMessage unm (app_cb A)" "world_deliver unm A"
  for unm and A :: "'e \<Rightarrow> 'h app"
proof
  fix W W' :: "('e, 'h) world" and n bs e
  assume *: "reading W" "0 < n" "tcpConn_Read n W = ((bs, e), W')"
  then obtain nc nc' where "c_conn (w_conn W) = Some nc" "net_read n nc = ((bs, e), nc')"
    "W' = upd_conn (c_conn_update (\<lambda>_. Some nc')) W"
    by (auto simp: reading_def tcpConn_Read_def split: prod.splits)
  with * show "reading W' \<and> length bs \<le> n \<and> incoming W = bs @ incoming W' \<and>
      read_end W' = read_end W \<and> offline W' = offline W"
    using net_r.delivers [of n nc bs e nc']
    by (auto simp: reading_def incoming_def read_end_def offline_def upd_conn_def parentCtxDone_def)
next
  fix W W' :: "('e, 'h) world" and n bs x
  assume "reading W" "0 < n" "tcpConn_Read n W = ((bs, Some x), W')"
  then show "bs = [] \<and> incoming W = [] \<and> x = read_end W"
    using net_r.fails [of n _ bs x]
    by (auto simp: reading_def tcpConn_Read_def incoming_def read_end_def split: prod.splits)
next
  fix W W' :: "('e, 'h) world" and n bs
  assume "reading W" "0 < n" "tcpConn_Read n W = ((bs, None), W')"
  then show "world_reads W' < world_reads W"
    using net_r.decreases [of n _ bs]
    by (auto simp: reading_def tcpConn_Read_def world_reads_def split: prod.splits)
next
  show "0 < defaultReadBufferSize" by (simp add: defaultReadBufferSize_def)
next
  fix W :: "('e, 'h) world"
  assume "reading W"
  then show "\<not> tcpConn_IsClosed W" and "\<not> parentCtxDone W"
    by (simp_all add: reading_def tcpConn_IsClosed_def)
next
  fix W :: "('e, 'h) world" and h p
  assume "reading W"
  then show "\<exists>err W'. tcpConn_OnMessage unm (app_cb A) h p W = (Ret err, W') \<and> reading W' \<and>
      incoming W' = incoming W \<and> read_end W' = read_end W \<and> offline W' = world_deliver unm A h p (offline W)"
    using OnMessage_app [of W unm A h p] offline_deliver [of unm A h p W]
    by (auto simp: reading_def incoming_def read_end_def parentCtxDone_def)
qed

end
