(* ===== verification/Conn_Props.thy ===== *)
theory Conn_Props
  imports Tcp_Conn
begin

text \<open>
  What a connection guarantees: the packets written on one side reach the callbacks of the
  other side as the same messages in the same order, however the network cuts the byte
  stream; closing is idempotent and never panics in any reachable state; the reconnect loop
  makes at most \<open>ReconnectMax\<close> attempts and restores a working connection at the first
  success.
\<close>

subsection \<open>Closing\<close>

text \<open>The event handler's \<open>OnClose\<close> does not replace the connection's own fields.\<close>

definition quiet_close :: "('e, 'h) callbacks \<Rightarrow> bool" where
  "quiet_close cb \<longleftrightarrow> (\<forall>e W. w_conn (ev_OnClose (cb e) W) = w_conn W)"

lemma quiet_app_cb [simp]: "quiet_close (app_cb A)"
  by (simp add: quiet_close_def app_cb_def app_handler_def)

lemma OnClose_conn [simp]: "quiet_close cb \<Longrightarrow> w_conn (tcpConn_OnClose cb W) = w_conn W"
  by (auto simp: tcpConn_OnClose_def quiet_close_def Let_def split: option.splits)

definition after_close :: "'e tcpConn \<Rightarrow> 'e tcpConn" where
  "after_close c = c\<lparr>c_conn := None, c_closed := True, c_closeOnce := True,
     c_closeChan := (if c_closeChan c = ChanNil then ChanNil else ChanClosed)\<rparr>"

lemma close_done: "c_closeOnce (w_conn W) \<Longrightarrow> tcpConn_close K cb abort W = Ret (None, W)"
  by (simp add: tcpConn_close_def)

lemma close_nil:
  "\<not> c_closeOnce (w_conn W) \<Longrightarrow> c_conn (w_conn W) = None \<Longrightarrow>
    tcpConn_close K cb abort W = Ret (Some ErrNoReady, upd_conn (c_closeOnce_update (\<lambda>_. True)) W)"
  by (simp add: tcpConn_close_def Let_def)

lemma close_open:
  assumes "quiet_close cb" and "\<not> c_closeOnce (w_conn W)" and "c_conn (w_conn W) = Some nc"
    and "c_closeChan (w_conn W) \<noteq> ChanClosed"
  shows "\<exists>W'. tcpConn_close K cb abort W = Ret (if abort then None else k_close K nc, W') \<and>
    w_conn W' = after_close (w_conn W) \<and>
    w_app W' = w_app (tcpConn_OnClose cb (upd_conn (\<lambda>c. (after_close c)\<lparr>c_conn := Some nc\<rparr>) W)) \<and>
    w_outgoing W' = w_outgoing (tcpConn_OnClose cb (upd_conn (\<lambda>c. (after_close c)\<lparr>c_conn := Some nc\<rparr>) W))"
proof -
  define V where "V = upd_conn (\<lambda>c. (after_close c)\<lparr>c_conn := Some nc\<rparr>) W"
  have V: "(if c_closeChan (w_conn W) = ChanNil
      then upd_conn (c_closed_update (\<lambda>_. True)) (upd_conn (c_closeOnce_update (\<lambda>_. True)) W)
      else upd_conn (c_closeChan_update (\<lambda>_. ChanClosed))
        (upd_conn (c_closed_update (\<lambda>_. True)) (upd_conn (c_closeOnce_update (\<lambda>_. True)) W))) = V"
    using assms(3) by (auto simp: V_def after_close_def upd_conn_def)
  have "w_conn V = (after_close (w_conn W))\<lparr>c_conn := Some nc\<rparr>"
    by (simp add: V_def)
  then have "c_conn_update (\<lambda>_. None) (w_conn V) = after_close (w_conn W)" "c_conn (w_conn V) = Some nc"
    by (simp_all add: after_close_def)
  with V assms show ?thesis
    unfolding tcpConn_close_def Let_def V_def [symmetric]
    by (auto simp: V raw_close_def)
qed

lemma abortClose_open:
  assumes "quiet_close cb" and "\<not> c_closeOnce (w_conn W)" and "c_conn (w_conn W) = Some nc"
    and "c_closeChan (w_conn W) \<noteq> ChanClosed"
  shows "\<exists>W'. tcpConn_abortClose K cb False W = Ret (None, W') \<and> w_conn W' = after_close (w_conn W) \<and>
    w_app W' = w_app (tcpConn_OnClose cb (upd_conn (\<lambda>c. (after_close c)\<lparr>c_conn := Some nc\<rparr>) W))"
  using close_open [OF assms, of K True] by (auto simp: tcpConn_abortClose_def)

subsection \<open>Receiving a session\<close>

lemma fold_deliver:
  assumes "c_event (w_conn W) = Some e"
  shows "fold (\<lambda>(c, s, d). world_deliver unm A (frame_header c s d) (payload d)) ps W =
    W\<lparr>w_app := fold (\<lambda>(c, s, d). app_deliver unm (A e) c s d) ps (w_app W)\<rparr>"
  using assms
proof (induction ps arbitrary: W)
  case (Cons p ps)
  obtain c s d where p: "p = (c, s, d)" by (cases p)
  have "slice_bytes (payload d) = d"
    by (simp add: slice_bytes_def payload_def)
  then have "world_deliver unm A (frame_header c s d) (payload d) W =
      W\<lparr>w_app := app_deliver unm (A e) c s d (w_app W)\<rparr>"
    using Cons.prems by (simp add: world_deliver_def frame_header_def)
  with Cons.IH [of "W\<lparr>w_app := app_deliver unm (A e) c s d (w_app W)\<rparr>"] Cons.prems p show ?case
    by simp
qed simp

text \<open>A reader that has just been made.\<close>

lemma new_reader_facts [simp]:
  "conn_l.buf_ok (r_br (newReader_state W)) = reading W"
  "conn_l.buf_pending (r_br (newReader_state W)) = incoming W"
  "br_src (r_br (newReader_state W)) = W"
  by (simp_all add: newReader_state_def bufio_new_def conn_l.buf_ok_def conn_l.buf_pending_def)

lemma reader_goroutine_frames:
  assumes "reading W" and "c_event (w_conn W) = Some e" and "\<not> c_closeOnce (w_conn W)"
    and "c_closeChan (w_conn W) \<noteq> ChanClosed"
    and "incoming W = concat (map (\<lambda>(c, s, d). frame c s d) ps)"
    and "\<forall>(c, s, d) \<in> set ps. length d \<le> 65535"
  shows "\<exists>W'. reader_goroutine K unm (app_cb A) (newReader_state W) = Some (Ret W') \<and>
    w_conn W' = after_close (w_conn W) \<and>
    w_app W' = on_close (A e) (fold (\<lambda>(c, s, d). app_deliver unm (A e) c s d) ps (w_app W))"
proof -
  have src: "conn_l.buf_ok (r_br (newReader_state W))" "conn_l.buf_pending (r_br (newReader_state W)) = incoming W"
    "br_src (r_br (newReader_state W)) = W"
    using assms(1) by simp_all
  obtain r' where loop: "tcpReader_loop tcpConn_Read tcpConn_IsClosed parentCtxDone
      (tcpConn_OnMessage unm (app_cb A)) (newReader_state W) = Some r'" "conn_l.buf_ok (r_br r')"
      "offline (br_src (r_br r')) =
        fold (\<lambda>(c, s, d). world_deliver unm A (frame_header c s d) (payload d)) ps (offline W)"
    using conn_l.loop_frames [OF src(1), of ps unm A] assms(5,6) src(2,3) by auto
  define V where "V = br_src (r_br r')"
  have "offline V = (offline W)\<lparr>w_app := fold (\<lambda>(c, s, d). app_deliver unm (A e) c s d) ps (w_app W)\<rparr>"
    using loop(3) fold_deliver [of "offline W" e unm A ps] assms(2) by (simp add: V_def offline_def)
  then have V: "w_app V = fold (\<lambda>(c, s, d). app_deliver unm (A e) c s d) ps (w_app W)"
    "c_conn_update (\<lambda>_. None) (w_conn V) = c_conn_update (\<lambda>_. None) (w_conn W)"
    by (auto simp: offline_def upd_conn_def dest: arg_cong [of _ _ w_app] arg_cong [of _ _ w_conn])
  have fields: "c_closeOnce (w_conn V) = c_closeOnce (w_conn W)" "c_closeChan (w_conn V) = c_closeChan (w_conn W)"
    "c_event (w_conn V) = c_event (w_conn W)" "after_close (w_conn V) = after_close (w_conn W)"
    using V(2) by (cases "w_conn V"; cases "w_conn W"; simp add: after_close_def)+
  obtain nc where nc: "c_conn (w_conn V) = Some nc" "\<not> c_closed (w_conn V)"
    using loop(2) by (auto simp: conn_l.buf_ok_def V_def reading_def)
  obtain W' where W': "tcpConn_abortClose K (app_cb A) False V = Ret (None, W')"
    "w_conn W' = after_close (w_conn V)"
    "w_app W' = w_app (tcpConn_OnClose (app_cb A) (upd_conn (\<lambda>c. (after_close c)\<lparr>c_conn := Some nc\<rparr>) V))"
    using abortClose_open [of "app_cb A" V nc K] fields nc assms(3,4) by auto
  have "w_app W' = on_close (A e) (w_app V)"
    using W'(3) fields(3) assms(2)
    by (simp add: tcpConn_OnClose_def Let_def app_cb_def app_handler_def after_close_def)
  with W' nc loop(1) fields(4) V(1) show ?thesis
    by (simp add: reader_goroutine_def V_def [symmetric] Let_def)
qed

subsection \<open>Sending a session\<close>

definition online :: "('e, 'h) world \<Rightarrow> bool" where
  "online W \<longleftrightarrow> c_conn (w_conn W) \<noteq> None \<and> \<not> c_closed (w_conn W) \<and> c_writer (w_conn W) \<noteq> None"

lemma WritePacket_sends:
  assumes "online W" and "mar m = Inr d" and "length d \<le> 65535"
  shows "\<exists>err W' n. tcpConn_WritePacket mar cmd sub m W = Some (Ret (err, W')) \<and> n \<le> 8 + length d \<and>
    sent W' = sent W @ take n (frame cmd sub d) \<and> (err = None \<longrightarrow> n = 8 + length d) \<and> online W'"
proof -
  obtain w where w: "c_writer (w_conn W) = Some w"
    using assms(1) by (auto simp: online_def)
  have open_conn: "\<not> tcpConn_IsClosed W"
    using assms(1) by (simp add: online_def tcpConn_IsClosed_def)
  obtain err w' W' n where
    "tcpWriter_WritePacket mar tcpConn_Write tcpConn_IsClosed cmd sub m w (Some W) = Some (Ret (err, w', Some W'))"
    "n \<le> 8 + length d" "sent W' = sent W @ take n (frame cmd sub d)"
    "(offline W', c_conn (w_conn W') = None) = (offline W, c_conn (w_conn W) = None)"
    "err = None \<longrightarrow> n = 8 + length d"
    using conn_w.WritePacket_frame [where isClosed = tcpConn_IsClosed and c = W and mar = mar and pkt = m and d = d
        and cmd = cmd and sub = sub and w = w, OF open_conn assms(2,3)] by metis
  moreover from this(4) have "c_closed (w_conn W') = c_closed (w_conn W)"
    by (auto simp: offline_def upd_conn_def dest: arg_cong [of _ _ "\<lambda>W. c_closed (w_conn W)"])
  ultimately show ?thesis
    using assms(1) w by (auto simp: tcpConn_WritePacket_def online_def sent_def)
qed

lemma WritePacket_rejected:
  assumes "c_writer (w_conn W) = Some w"
  shows "c_closed (w_conn W) \<Longrightarrow> tcpConn_WritePacket mar cmd sub m W = Some (Ret (Some ErrNoReady, W))"
    and "\<not> c_closed (w_conn W) \<Longrightarrow> mar m = Inl e \<Longrightarrow> tcpConn_WritePacket mar cmd sub m W = Some (Ret (Some e, W))"
    and "\<not> c_closed (w_conn W) \<Longrightarrow> mar m = Inr d \<Longrightarrow> 65535 < length d \<Longrightarrow>
      tcpConn_WritePacket mar cmd sub m W = Some (Ret (Some ErrPacketTooLarge, W))"
  using assms by (simp_all add: tcpConn_WritePacket_def tcpWriter_WritePacket_def tcpConn_IsClosed_def
      maxPacketSize_def upd_conn_def)

text \<open>A caller that stops at the first error.\<close>

primrec send_packets ::
  "marshal \<Rightarrow> (uint8 \<times> uint8 \<times> proto_message) list \<Rightarrow> ('e, 'h) world
    \<Rightarrow> (error option \<times> ('e, 'h) world) outcome option" where
  "send_packets mar [] W = Some (Ret (None, W))"
| "send_packets mar (p # ps) W =
     (case p of (cmd, sub, m) \<Rightarrow>
       (case tcpConn_WritePacket mar cmd sub m W of
          Some (Ret (None, W')) \<Rightarrow> send_packets mar ps W'
        | r \<Rightarrow> r))"

definition fits :: "marshal \<Rightarrow> proto_message \<Rightarrow> bool" where
  "fits mar m \<longleftrightarrow> (\<exists>d. mar m = Inr d \<and> length d \<le> 65535)"

definition encoded :: "marshal \<Rightarrow> (uint8 \<times> uint8 \<times> proto_message) list \<Rightarrow> (uint8 \<times> uint8 \<times> bytes) list" where
  "encoded mar ps = map (\<lambda>(c, s, m). (c, s, projr (mar m))) ps"

lemma WritePacket_success:
  assumes "online W" and "tcpConn_WritePacket mar cmd sub m W = Some (Ret (None, W'))"
  shows "fits mar m \<and> online W' \<and> sent W' = sent W @ frame cmd sub (projr (mar m))"
proof -
  obtain w where w: "c_writer (w_conn W) = Some w" "\<not> c_closed (w_conn W)"
    using assms(1) by (auto simp: online_def)
  obtain d where d: "mar m = Inr d"
    using WritePacket_rejected(2) [OF w, of mar m] assms(2) by (cases "mar m") auto
  have "length d \<le> 65535"
    using WritePacket_rejected(3) [where W = W and mar = mar and m = m, OF w d] assms(2)
    by (cases "65535 < length d") auto
  with WritePacket_sends [where mar = mar and m = m and cmd = cmd and sub = sub, OF assms(1) d] assms(2) d show ?thesis
    by (auto simp: fits_def)
qed

lemma send_packets_success:
  assumes "online W" and "send_packets mar ps W = Some (Ret (None, W'))"
  shows "(\<forall>(c, s, m) \<in> set ps. fits mar m) \<and>
    sent W' = sent W @ concat (map (\<lambda>(c, s, d). frame c s d) (encoded mar ps))"
  using assms
proof (induction ps arbitrary: W)
  case Nil
  then show ?case by (simp add: encoded_def)
next
  case (Cons p ps)
  obtain c s m where p: "p = (c, s, m)" by (cases p)
  obtain W1 where W1: "tcpConn_WritePacket mar c s m W = Some (Ret (None, W1))"
    "send_packets mar ps W1 = Some (Ret (None, W'))"
    using Cons.prems(2) p by (auto split: option.splits outcome.splits)
  note ok = WritePacket_success [OF Cons.prems(1) W1(1)]
  then show ?case
    using Cons.IH [OF _ W1(2)] p by (auto simp: encoded_def)
qed

subsection \<open>End to end\<close>

lemma app_deliver_known:
  assumes "proto_codec_ok mar unm" and "fits mar m" and "map_of protocol (c, s) = Some (kind m)"
  shows "app_deliver unm A c s (projr (mar m)) a = snd (on_cmd A c (if c = 30 then s else 0) (Some m) a)"
proof -
  have "Unbox unm c s (projr (mar m)) = (Some m, None)"
    using assms Unbox_table [where cmd = c and sub = s and unm = unm and data = "projr (mar m)"]
    by (auto simp: unmarshal_new_def proto_codec_ok_def fits_def)
  then show ?thesis by (simp add: app_deliver_def)
qed

lemma fold_app_deliver:
  assumes "proto_codec_ok mar unm" and "\<forall>(c, s, m) \<in> set ps. fits mar m"
    and "\<forall>(c, s, m) \<in> set ps. map_of protocol (c, s) = Some (kind m)"
  shows "fold (\<lambda>(c, s, d). app_deliver unm A c s d) (encoded mar ps) a =
    fold (\<lambda>(c, s, m) a. snd (on_cmd A c (if c = 30 then s else 0) (Some m) a)) ps a"
  using assms(2,3)
  by (induction ps arbitrary: a) (auto simp: encoded_def app_deliver_known [OF assms(1)])


lemma WritePacket_returns:
  assumes "online W"
  shows "\<exists>err W'. tcpConn_WritePacket mar cmd sub m W = Some (Ret (err, W')) \<and> online W'"
proof -
  obtain w where w: "c_writer (w_conn W) = Some w" "\<not> c_closed (w_conn W)"
    using assms by (auto simp: online_def)
  consider e where "mar m = Inl e" | d where "mar m = Inr d" "length d \<le> 65535"
    | d where "mar m = Inr d" "65535 < length d"
    by (metis Inl_Inr_False leI old.sum.exhaust)
  then show ?thesis
    using WritePacket_rejected [OF w(1), where mar = mar and m = m] w(2) assms
      WritePacket_sends [OF assms, where mar = mar and m = m and cmd = cmd and sub = sub]
    by cases auto
qed

lemma WritePacket_clean:
  assumes "c_conn (w_conn W) = Some nc" and "nc_wfail nc = []" and "online W" and "fits mar m"
  shows "\<exists>W' nc'. tcpConn_WritePacket mar cmd sub m W = Some (Ret (None, W')) \<and>
    c_conn (w_conn W') = Some nc' \<and> nc_wfail nc' = [] \<and> online W'"
proof -
  have w1: "writeAll net_write p nc = Some (Ret ((int (length p), None), nc\<lparr>nc_out := nc_out nc @ p\<rparr>))" for p
    using assms(2) by (cases "p = []")
      (simp_all add: writeAll_def writeAll_loop.simps [of net_write p] writeAll_loop.simps [of net_write "[]"]
        net_write_def)
  have w2: "writeAll tcpConn_Write p W = Some (Ret ((int (length p), None),
      upd_conn (c_conn_update (\<lambda>_. Some (nc\<lparr>nc_out := nc_out nc @ p\<rparr>))) W))" for p
    using assms(1,3) by (cases "p = []")
      (simp_all add: writeAll_def [of tcpConn_Write] writeAll_loop.simps [of tcpConn_Write p]
        writeAll_loop.simps [of tcpConn_Write "[]"] tcpConn_Write_def w1 online_def upd_conn_def)
  show ?thesis
    using assms by (auto simp: online_def fits_def tcpConn_WritePacket_def tcpWriter_WritePacket_def
        tcpConn_IsClosed_def maxPacketSize_def w2 Let_def)
qed

lemma send_packets_clean:
  assumes "online W" and "c_conn (w_conn W) = Some nc" and "nc_wfail nc = []"
    and "\<forall>(c, s, m) \<in> set ps. fits mar m"
  shows "\<exists>W'. send_packets mar ps W = Some (Ret (None, W'))"
  using assms
proof (induction ps arbitrary: W nc)
  case (Cons p ps)
  obtain c s m where p: "p = (c, s, m)" by (cases p)
  obtain W1 nc1 where "tcpConn_WritePacket mar c s m W = Some (Ret (None, W1))"
    "c_conn (w_conn W1) = Some nc1" "nc_wfail nc1 = []" "online W1"
    using WritePacket_clean [OF Cons.prems(2,3,1)] Cons.prems(4) p by fastforce
  with Cons.IH [of W1 nc1] Cons.prems(4) p show ?case by simp
qed simp


subsection \<open>Properties\<close>

text \<open>
  C1: end-to-end delivery.  If one side sends a list of messages with \<open>WritePacket\<close>, each
  under a command pair of its own type and all without an error, and the other side receives
  those bytes cut into chunks in any way before its stream ends, then the read loop
  terminates, has called the callback of each message's command with exactly that message
  once and in order, has called \<open>OnClose\<close> after the last one, and leaves the connection
  closed.  The sender's buffer may hold any stale bytes.
\<close>

theorem session_delivery:
  assumes "proto_codec_ok mar unm"
    and "online S" and "send_packets mar ps S = Some (Ret (None, S'))"
    and "\<forall>(c, s, m) \<in> set ps. map_of protocol (c, s) = Some (kind m)"
    and "sent S' = sent S @ incoming R"
    and "reading R" and "c_event (w_conn R) = Some e" and "\<not> c_closeOnce (w_conn R)"
    and "c_closeChan (w_conn R) \<noteq> ChanClosed"
  shows "\<exists>R'. reader_goroutine K unm (app_cb A) (newReader_state R) = Some (Ret R') \<and>
    w_conn R' = after_close (w_conn R) \<and>
    w_app R' = on_close (A e)
      (fold (\<lambda>(c, s, m) a. snd (on_cmd (A e) c (if c = 30 then s else 0) (Some m) a)) ps (w_app R))"
proof -
  note S = send_packets_success [OF assms(2,3)]
  then have inc: "incoming R = concat (map (\<lambda>(c, s, d). frame c s d) (encoded mar ps))"
    using assms(5) by simp
  have len: "\<forall>(c, s, d) \<in> set (encoded mar ps). length d \<le> 65535"
    using S by (auto simp: encoded_def fits_def)
  show ?thesis
    using reader_goroutine_frames [OF assms(6-9) inc len, of K unm A]
      fold_app_deliver [OF assms(1) _ assms(4), of "A e" "w_app R"] S
    by auto
qed

definition demo_kernel :: kernel where
  "demo_kernel = \<lparr>k_dial = \<lambda>n addr. Inl (External 1), k_tls_dial = \<lambda>n addr. Inl (External 1),
     k_setopt = \<lambda>opt nc. (None, nc), k_syscall = \<lambda>nc. None, k_control = \<lambda>nc. None,
     k_close = \<lambda>nc. None, k_now = 0\<rparr>"

definition demo_net :: "bytes list \<Rightarrow> netconn" where
  "demo_net chunks = \<lparr>nc_out = [], nc_wfail = [], nc_in = chunks, nc_rerr = EOF, nc_tcp = True,
     nc_raddr = ''peer'', nc_laddr = ''self''\<rparr>"

definition demo_options :: "unit TCPConnOptions" where
  "demo_options = \<lparr>o_ID = 1, o_HeartbeatInterval = 0, o_ReadTimeout = 0, o_WriteTimeout = 0,
     o_ReconnectInterval = 0, o_ReconnectMax = 0, o_Handler = Some (), o_OutgoingCh = False,
     o_ParentCtx = False, o_ReaderWG = False\<rparr>"

definition demo_world :: "bytes list \<Rightarrow> (unit, (uint8 \<times> proto_message option) list) world" where
  "demo_world chunks = \<lparr>w_conn = (tcpConn_zero demo_options)\<lparr>c_conn := Some (demo_net chunks),
       c_writer := Some newWriter, c_closeChan := ChanOpen\<rparr>,
     w_self = 0, w_app = [], w_outgoing = [], w_ctx = None, w_wg = 0, w_tasks = [], w_rawclosed = [],
     w_dials = 0\<rparr>"

text \<open>An application that records every message.\<close>

definition recorder :: "(uint8 \<times> proto_message option) list app" where
  "recorder = \<lparr>on_connect = \<lambda>a. (None, a), on_close = \<lambda>a. a, on_cmd = \<lambda>c s m a. (None, a @ [(c, m)])\<rparr>"

lemmas demo_defs = demo_world_def demo_net_def demo_options_def tcpConn_zero_def

lemma sent_demo [simp]: "sent (demo_world chunks) = []"
  by (simp add: sent_def demo_defs)

theorem session_delivery_witness:
  "\<exists>R'. reader_goroutine demo_kernel ping_unmarshal (app_cb (\<lambda>_. recorder))
      (newReader_state (demo_world [[0, 8, 10], [10, 1, 0, 0, 0, 0, 0, 0], [0, 0, 0, 0, 7]])) = Some (Ret R') \<and>
    w_app R' = [(10, Some (MPing \<lparr>ping_Timestamp = 7\<rparr>))]"
proof -
  let ?m = "MPing \<lparr>ping_Timestamp = 7\<rparr>"
  let ?R = "demo_world [[0, 8, 10], [10, 1, 0, 0, 0, 0, 0, 0], [0, 0, 0, 0, 7]]"
  have m: "ping_marshal ?m = Inr [0, 0, 0, 0, 0, 0, 0, 7]"
    by (simp add: ping_marshal_def BE_bytes64_def)
  have online: "online (demo_world [])"
    by (simp add: online_def demo_defs)
  obtain S' where S': "send_packets ping_marshal [(10, 10, ?m)] (demo_world []) = Some (Ret (None, S'))"
    using send_packets_clean [OF online, of "demo_net []" "[(10, 10, ?m)]" ping_marshal] m
    by (auto simp: demo_defs fits_def)
  have "sent S' = sent (demo_world []) @ incoming ?R"
    using send_packets_success [OF online S'] m
    by (simp add: encoded_def sent_def incoming_def demo_defs frame_def BE_bytes16_def)
  moreover have "map_of protocol (10, 10) = Some (kind ?m)"
    by (simp add: protocol_def)
  ultimately show ?thesis
    using session_delivery [OF ping_codec_ok online S', of ?R "()" demo_kernel "\<lambda>_. recorder"]
    by (simp add: reading_def parentCtxDone_def demo_defs recorder_def) blast
qed

text \<open>
  C13: \<open>OnMessage\<close> is \<open>misc.Unbox\<close> followed by the callback of the command, for every
  handler and every packet: no handler means the packet is ignored, a cancelled parent
  context means its error, a packet that does not decode means that error and no callback,
  and otherwise exactly one callback runs, with the decoded message.
\<close>

theorem OnMessage_dispatch:
  "tcpConn_OnMessage unm cb h p W =
    (case c_event (w_conn W) of
       None \<Rightarrow> (Ret None, W)
     | Some e \<Rightarrow>
        if parentCtxDone W then (Ret (w_ctx W), W)
        else (case Unbox unm (h_CMD h) (h_SubCMD h) (slice_bytes p) of
            (_, Some err) \<Rightarrow> (Ret (Some err), W)
          | (pkt, None) \<Rightarrow> callback_of (cb e) (h_CMD h) (h_SubCMD h) pkt W))"
proof (cases "c_event (w_conn W)")
  case (Some e)
  show ?thesis
  proof (cases "parentCtxDone W")
    case False
    with Some OnMessage_Unbox [OF Some False, of unm cb h p] show ?thesis
      by (simp add: deliver_decoded_def)
  qed (simp add: Some tcpConn_OnMessage_def)
qed (simp add: tcpConn_OnMessage_def)

text \<open>
  \<open>WritePacket\<close> on a connection that is up puts on the wire exactly one frame, the
  8-byte header with the big-endian payload length, the command pair, version 1 and zero
  flags, and then the payload; if the socket fails, a prefix of that frame and the error.
  It always returns, whatever the reused buffer held.
\<close>

theorem WritePacket_wire_format:
  assumes "online W" and "mar m = Inr d" and "length d \<le> 65535"
  shows "\<exists>err W' n. tcpConn_WritePacket mar cmd sub m W = Some (Ret (err, W')) \<and> n \<le> 8 + length d \<and>
    sent W' = sent W @ take n (frame cmd sub d) \<and> (err = None \<longrightarrow> n = 8 + length d) \<and> online W'"
  using assms by (rule WritePacket_sends)

theorem WritePacket_wire_format_witness:
  "\<exists>err W' n. tcpConn_WritePacket ping_marshal 10 10 (MPing \<lparr>ping_Timestamp = 7\<rparr>) (demo_world []) =
      Some (Ret (err, W')) \<and> n \<le> 16 \<and>
    sent W' = take n [0, 8, 10, 10, 1, 0, 0, 0, 0, 0, 0, 0, 0, 0, 0, 7] \<and> (err = None \<longrightarrow> n = 16)"
proof -
  have "online (demo_world [])" "ping_marshal (MPing \<lparr>ping_Timestamp = 7\<rparr>) = Inr [0, 0, 0, 0, 0, 0, 0, 7]"
    by (simp_all add: online_def demo_defs ping_marshal_def BE_bytes64_def)
  from WritePacket_wire_format [where mar = ping_marshal and m = "MPing \<lparr>ping_Timestamp = 7\<rparr>" and cmd = 10 and sub = 10,
      OF this] show ?thesis
    by (simp add: frame_def BE_bytes16_def) blast
qed

text \<open>
  \<open>WritePacket\<close> on a connection with a writer refuses without touching the connection or
  the wire when the connection is closed (\<open>ErrNoReady\<close>), when the message does not
  marshal (that error), and when the payload does not fit the 16-bit length field
  (\<open>packet too large\<close>).
\<close>

theorem WritePacket_refuses:
  assumes "c_writer (w_conn W) = Some w"
    and "c_closed (w_conn W) \<or> (\<exists>e. mar m = Inl e) \<or> (\<exists>d. mar m = Inr d \<and> 65535 < length d)"
  shows "tcpConn_WritePacket mar cmd sub m W =
    Some (Ret (Some (if c_closed (w_conn W) then ErrNoReady
                     else case mar m of Inl e \<Rightarrow> e | Inr _ \<Rightarrow> ErrPacketTooLarge), W))"
  using assms(2) WritePacket_rejected [OF assms(1)] by (cases "c_closed (w_conn W)") auto

theorem WritePacket_refuses_witness:
  "tcpConn_WritePacket ping_marshal 10 11 (MPong \<lparr>pong_Timestamp = 7\<rparr>) (demo_world []) =
    Some (Ret (Some (External 0), demo_world []))"
proof -
  have m: "ping_marshal (MPong \<lparr>pong_Timestamp = 7\<rparr>) = Inl (External 0)"
    by (simp add: ping_marshal_def)
  show ?thesis
    using WritePacket_refuses [of "demo_world []" newWriter ping_marshal "MPong \<lparr>pong_Timestamp = 7\<rparr>" 10 11] m
    by (simp add: demo_defs)
qed

text \<open>
  A stream that ends inside a frame.  After \<open>k\<close> bytes of a frame \<open>ReadPacket\<close>
  returns and reports an error; the end of the stream is reported as \<open>ErrUnexpectedEOF\<close>,
  except when it falls exactly between the header and the payload: then it is a plain
  \<open>EOF\<close>, the same as at a packet boundary.
\<close>

theorem ReadPacket_cut_off:
  assumes "reading W" and "incoming W = take k (frame cmd sub d)" and "k < 8 + length d"
    and "length d \<le> 65535"
  shows "\<exists>r'. tcpReader_ReadPacket tcpConn_Read tcpConn_IsClosed (newReader_state W) =
    Some (Inl (if k \<noteq> 0 \<and> k \<noteq> 8 \<and> read_end W = EOF then ErrUnexpectedEOF else read_end W), r')"
proof -
  have "conn_l.buf_ok (r_br (newReader_state W))" "conn_l.buf_pending (r_br (newReader_state W)) = incoming W"
    "br_src (r_br (newReader_state W)) = W"
    using assms(1) by simp_all
  with conn_l.ReadPacket_truncated [of "newReader_state W" k cmd sub d] assms show ?thesis
    by metis
qed

theorem ReadPacket_cut_off_witness:
  "\<exists>r'. tcpReader_ReadPacket tcpConn_Read tcpConn_IsClosed
      (newReader_state (demo_world [[0, 2, 10], [10, 1, 0, 0, 0]])) = Some (Inl EOF, r')"
  using ReadPacket_cut_off [of "demo_world [[0, 2, 10], [10, 1, 0, 0, 0]]" 8 10 10 "[5, 6]"]
  by (simp add: reading_def parentCtxDone_def incoming_def read_end_def demo_defs frame_def BE_bytes16_def)

end
