(* ===== verification/Conn_Lifecycle.thy ===== *)
theory Conn_Lifecycle
  imports Conn_Props
begin

text \<open>
  The life of a connection as a transition system: every operation a client, a callback or
  one of the connection's goroutines can perform is a step on the connection's world, in any
  order.  The invariant says what holds between steps, and from it follow the absence of
  panics in \<open>Close\<close> and \<open>WritePacket\<close>.  The theory also has the reconnect loop (bounded
  attempts, what a success restores) and what happens to a connection that was closed before
  it was opened.
\<close>

subsection \<open>Well-behaved callbacks\<close>

text \<open>
  A callback may write packets and change the application, but it leaves the life cycle of
  the connection to the steps below (a callback that calls \<open>Close\<close> is that step).
\<close>

definition core :: "'e tcpConn \<Rightarrow> 'e tcpConn" where
  "core c = c\<lparr>c_conn := None, c_writer := None\<rparr>"

definition same_link :: "'e tcpConn \<Rightarrow> 'e tcpConn \<Rightarrow> bool" where
  "same_link c c' \<longleftrightarrow> core c' = core c \<and> (c_conn c' = None \<longleftrightarrow> c_conn c = None) \<and>
     (c_writer c' = None \<longleftrightarrow> c_writer c = None)"

definition calm :: "('e, 'h) callbacks \<Rightarrow> bool" where
  "calm cb \<longleftrightarrow> quiet_close cb \<and>
     (\<forall>e W. same_link (w_conn W) (w_conn (snd (ev_OnConnect (cb e) W)))) \<and>
     (\<forall>e cmd sub m W. same_link (w_conn W) (w_conn (snd (callback_of (cb e) cmd sub m W))))"

lemma same_link_refl [simp]: "same_link c c"
  by (simp add: same_link_def)

lemma core_fields:
  assumes "core c' = core c"
  shows "c_closed c' = c_closed c" "c_closeOnce c' = c_closeOnce c" "c_closeChan c' = c_closeChan c"
    "c_options c' = c_options c" "c_event c' = c_event c" "c_remoteAddr c' = c_remoteAddr c"
    "c_skipOutgoing c' = c_skipOutgoing c" "c_outgoingCh c' = c_outgoingCh c" "c_id c' = c_id c"
  using assms by (cases c; cases c'; simp add: core_def)+

lemma calm_app_cb: "calm (app_cb A)"
  by (auto simp: calm_def app_cb_def app_handler_def callback_of_def run_cmd_def split: prod.splits
      intro: quiet_app_cb [unfolded app_cb_def [abs_def] app_handler_def])

subsection \<open>Steps and invariant\<close>

inductive conn_step ::
  "kernel \<Rightarrow> marshal \<Rightarrow> unmarshal \<Rightarrow> ('e, 'h) callbacks \<Rightarrow> ('e, 'h) world \<Rightarrow> ('e, 'h) world \<Rightarrow> bool"
  for K mar unm cb where
  Connect: "tcpConn_Connect K cb addr W = (err, W') \<Longrightarrow> conn_step K mar unm cb W W'"
| ConnectTLS: "ConnectWithTLS K cb addr W = (err, W') \<Longrightarrow> conn_step K mar unm cb W W'"
| Close: "tcpConn_Close K cb W = Ret (err, W') \<Longrightarrow> conn_step K mar unm cb W W'"
| AbortClose: "tcpConn_abortClose K cb skip W = Ret (err, W') \<Longrightarrow> conn_step K mar unm cb W W'"
| Send: "tcpConn_WritePacket mar cmd sub m W = Some (Ret (err, W')) \<Longrightarrow> conn_step K mar unm cb W W'"
| Tick: "heartbeat_tick mar now W = Some (Ret W') \<Longrightarrow> conn_step K mar unm cb W W'"
| Recv: "tcpConn_Read n W = (res, W') \<Longrightarrow> conn_step K mar unm cb W W'"
| Message: "tcpConn_OnMessage unm cb h p W = (res, W') \<Longrightarrow> conn_step K mar unm cb W W'"
| DialFails: "ReconnectLoop \<in> set (w_tasks W) \<Longrightarrow> k_dial K (w_dials W) addr = Inl e \<Longrightarrow>
    conn_step K mar unm cb W (W\<lparr>w_dials := Suc (w_dials W)\<rparr>)"
| ReconnectFails: "ReconnectLoop \<in> set (w_tasks W) \<Longrightarrow> k_dial K (w_dials W) addr = Inr nc \<Longrightarrow>
    initIO cb (reconnect_install nc (W\<lparr>w_dials := Suc (w_dials W)\<rparr>)) = (Some e, W') \<Longrightarrow>
    conn_step K mar unm cb W (reconnect_undo K nc W')"
| Reconnects: "ReconnectLoop \<in> set (w_tasks W) \<Longrightarrow> k_dial K (w_dials W) addr = Inr nc \<Longrightarrow>
    initIO cb (reconnect_install nc (W\<lparr>w_dials := Suc (w_dials W)\<rparr>)) = (None, W') \<Longrightarrow>
    conn_step K mar unm cb W (start_heartbeat W')"
| Environment: "w_conn W' = w_conn W \<Longrightarrow> conn_step K mar unm cb W W'"

definition conn_inv :: "'e tcpConn \<Rightarrow> bool" where
  "conn_inv c \<longleftrightarrow> (c_closeChan c = ChanClosed \<longrightarrow> c_closeOnce c) \<and>
     (c_closed c \<longrightarrow> c_conn c = None) \<and>
     (c_conn c \<noteq> None \<longrightarrow> c_writer c \<noteq> None \<and> c_closeChan c \<noteq> ChanNil)"

lemma conn_inv_link: "same_link c c' \<Longrightarrow> conn_inv c \<Longrightarrow> conn_inv c'"
  using core_fields [of c' c] by (auto simp: conn_inv_def same_link_def)

lemma calm_OnConnect: "calm cb \<Longrightarrow> tcpConn_OnConnect cb W = (err, W') \<Longrightarrow> same_link (w_conn W) (w_conn W')"
  unfolding calm_def tcpConn_OnConnect_def
  by (auto split: option.splits) (metis snd_conv)

lemma initIO_conn:
  assumes "calm cb" and "initIO cb W = (err, W')" and "c_conn (w_conn W) = Some nc"
  shows "c_conn (w_conn W') \<noteq> None \<and> c_writer (w_conn W') \<noteq> None \<and>
    c_closed (w_conn W') = c_closed (w_conn W) \<and> c_closeOnce (w_conn W') = c_closeOnce (w_conn W) \<and>
    c_options (w_conn W') = c_options (w_conn W) \<and> c_event (w_conn W') = c_event (w_conn W) \<and>
    c_id (w_conn W') = c_id (w_conn W) \<and> c_outgoingCh (w_conn W') = c_outgoingCh (w_conn W) \<and>
    c_closeChan (w_conn W') = (if c_closeChan (w_conn W) = ChanNil then ChanOpen else c_closeChan (w_conn W))"
proof -
  define V where "V = upd_conn (c_writer_update (\<lambda>_. Some newWriter))
    (if c_closeChan (w_conn W) = ChanNil then upd_conn (c_closeChan_update (\<lambda>_. ChanOpen)) W else W)"
  have V: "c_conn (w_conn V) \<noteq> None" "c_writer (w_conn V) \<noteq> None" "c_closed (w_conn V) = c_closed (w_conn W)"
    "c_closeOnce (w_conn V) = c_closeOnce (w_conn W)" "c_options (w_conn V) = c_options (w_conn W)"
    "c_event (w_conn V) = c_event (w_conn W)" "c_id (w_conn V) = c_id (w_conn W)"
    "c_outgoingCh (w_conn V) = c_outgoingCh (w_conn W)"
    "c_closeChan (w_conn V) = (if c_closeChan (w_conn W) = ChanNil then ChanOpen else c_closeChan (w_conn W))"
    using assms(3) by (simp_all add: V_def)
  have init: "(case c_event (w_conn V) of None \<Rightarrow> (None, V) | Some e \<Rightarrow>
      (case tcpConn_OnConnect cb V of (Some err, W3) \<Rightarrow> (Some err, W3) | (None, W3) \<Rightarrow> newReader W3)) = (err, W')"
    using assms(2) unfolding initIO_def Let_def V_def [symmetric] .
  show ?thesis
  proof (cases "c_event (w_conn V)")
    case None
    with init V show ?thesis by simp
  next
    case (Some e)
    obtain err1 U where U: "tcpConn_OnConnect cb V = (err1, U)"
      by (cases "tcpConn_OnConnect cb V")
    note l = calm_OnConnect [OF assms(1) U]
    have "\<exists>b. w_conn W' = (w_conn U)\<lparr>c_reader := b\<rparr>"
    proof (cases err1)
      case (Some x)
      with init U \<open>c_event (w_conn V) = Some e\<close> have "w_conn W' = (w_conn U)\<lparr>c_reader := c_reader (w_conn U)\<rparr>"
        by simp
      then show ?thesis by blast
    next
      case None
      with init U Some show ?thesis
        by (auto simp: newReader_def Let_def split: if_splits)
    qed
    then obtain b where b: "w_conn W' = (w_conn U)\<lparr>c_reader := b\<rparr>" by blast
    have link: "core (w_conn U) = core (w_conn V)" "c_conn (w_conn U) = None \<longleftrightarrow> c_conn (w_conn V) = None"
      "c_writer (w_conn U) = None \<longleftrightarrow> c_writer (w_conn V) = None"
      using l by (simp_all add: same_link_def)
    from V link(2,3) show ?thesis by (simp add: b core_fields [OF link(1)])
  qed
qed


lemma connect_inv:
  assumes "calm cb" and "connect_with K cb dl addr W = (err, W')" and "conn_inv (w_conn W)"
  shows "conn_inv (w_conn W') \<and>
    (err = None \<longrightarrow> c_conn (w_conn W') \<noteq> None \<and> \<not> c_closed (w_conn W') \<and> c_closeOnce (w_conn W') = c_closeOnce (w_conn W))"
proof (cases dl)
  case (Inl e)
  with assms show ?thesis by (auto simp: connect_with_def Let_def)
next
  case (Inr nc)
  define V where "V = upd_conn (\<lambda>c. c\<lparr>c_conn := Some nc, c_remoteAddr := addr, c_closed := False\<rparr>)
    (W\<lparr>w_dials := Suc (w_dials W)\<rparr>)"
  obtain err1 U where U: "initIO cb V = (err1, U)" by (cases "initIO cb V")
  have V: "c_conn (w_conn V) = Some nc" "\<not> c_closed (w_conn V)" "c_closeOnce (w_conn V) = c_closeOnce (w_conn W)"
    "c_closeChan (w_conn V) = c_closeChan (w_conn W)"
    by (simp_all add: V_def)
  note init = initIO_conn [OF assms(1) U V(1)]
  have W': "err = err1" "w_conn W' = (if err1 = None then w_conn U else (w_conn U)\<lparr>c_conn := None\<rparr>)"
    using U Inr assms(2) by (simp_all add: connect_with_def V_def [symmetric] split: option.splits) auto
  from init V assms(3) show ?thesis
    by (simp add: W' conn_inv_def split: if_splits)
qed

lemma close_inv:
  assumes "calm cb" and "conn_inv (w_conn W)"
  shows "\<exists>err W'. tcpConn_close K cb abort W = Ret (err, W') \<and> conn_inv (w_conn W')"
proof -
  consider "c_closeOnce (w_conn W)" | "\<not> c_closeOnce (w_conn W)" "c_conn (w_conn W) = None"
    | nc where "\<not> c_closeOnce (w_conn W)" "c_conn (w_conn W) = Some nc" by auto
  then show ?thesis
  proof cases
    case 1
    with assms(2) show ?thesis by (auto simp: close_done)
  next
    case 2
    with assms(2) show ?thesis by (auto simp: close_nil conn_inv_def)
  next
    case 3
    moreover have "c_closeChan (w_conn W) \<noteq> ChanClosed" "quiet_close cb"
      using 3 assms by (auto simp: conn_inv_def calm_def)
    ultimately show ?thesis
      using close_open [of cb W nc K abort] by (force simp: conn_inv_def after_close_def)
  qed
qed

lemma write_inv:
  assumes "conn_inv (w_conn W)" and "tcpConn_WritePacket mar cmd sub m W = Some (Ret (err, W'))"
  shows "same_link (w_conn W) (w_conn W')"
proof -
  obtain w where w: "c_writer (w_conn W) = Some w"
    using assms(2) by (cases "c_writer (w_conn W)") (auto simp: tcpConn_WritePacket_def)
  show ?thesis
  proof (cases "c_closed (w_conn W) \<or> (\<exists>e. mar m = Inl e) \<or> (\<exists>d. mar m = Inr d \<and> 65535 < length d)")
    case True
    with assms(2) WritePacket_rejected [OF w, where mar = mar and m = m] show ?thesis
      by (cases "c_closed (w_conn W)") auto
  next
    case False
    then obtain d where d: "mar m = Inr d" "length d \<le> 65535"
      by (cases "mar m") auto
    have open_conn: "\<not> tcpConn_IsClosed W"
      using False by (simp add: tcpConn_IsClosed_def)
    obtain err1 w' W1 n where
      "tcpWriter_WritePacket mar tcpConn_Write tcpConn_IsClosed cmd sub m w (Some W) = Some (Ret (err1, w', Some W1))"
      "(offline W1, c_conn (w_conn W1) = None) = (offline W, c_conn (w_conn W) = None)"
      using conn_w.WritePacket_frame [where isClosed = tcpConn_IsClosed and c = W and mar = mar and pkt = m and d = d
          and cmd = cmd and sub = sub and w = w, OF open_conn d] by metis
    moreover from this(2) have "c_conn_update (\<lambda>_. None) (w_conn W1) = c_conn_update (\<lambda>_. None) (w_conn W)"
      by (auto simp: offline_def upd_conn_def dest: arg_cong [of _ _ w_conn])
    ultimately show ?thesis
      using assms(2) w by (cases "w_conn W1"; cases "w_conn W")
        (auto simp: tcpConn_WritePacket_def same_link_def core_def)
  qed
qed

lemma read_inv: "tcpConn_Read n W = (res, W') \<Longrightarrow> same_link (w_conn W) (w_conn W')"
  by (auto simp: tcpConn_Read_def same_link_def core_def split: option.splits if_splits prod.splits)

lemma message_inv:
  assumes "calm cb" and "tcpConn_OnMessage unm cb h p W = (res, W')"
  shows "same_link (w_conn W) (w_conn W')"
proof (cases "c_event (w_conn W)")
  case (Some e)
  show ?thesis
  proof (cases "parentCtxDone W")
    case False
    have "same_link (w_conn W) (w_conn (snd (callback_of (cb e) (h_CMD h) (h_SubCMD h) m W)))" for m
      using assms(1) by (simp add: calm_def)
    with assms(2) Some show ?thesis
      by (auto simp: OnMessage_Unbox [OF Some False] deliver_decoded_def split: prod.splits option.splits)
        (metis snd_conv)
  qed (use Some assms(2) in \<open>simp add: tcpConn_OnMessage_def\<close>)
qed (use assms(2) in \<open>simp add: tcpConn_OnMessage_def\<close>)

lemma reconnect_step_inv:
  assumes "calm cb" and "initIO cb (reconnect_install nc W) = (err, W')"
  shows "c_conn (w_conn W') \<noteq> None \<and> c_writer (w_conn W') \<noteq> None \<and> \<not> c_closed (w_conn W') \<and>
    \<not> c_closeOnce (w_conn W') \<and> c_closeChan (w_conn W') = ChanOpen \<and>
    c_options (w_conn W') = c_options (w_conn W) \<and> c_event (w_conn W') = c_event (w_conn W)"
  using initIO_conn [OF assms, of nc] by (simp add: reconnect_install_def)

lemma conn_step_inv:
  assumes "calm cb" and "conn_step K mar unm cb W W'" and "conn_inv (w_conn W)"
  shows "conn_inv (w_conn W')"
  using assms(2,3)
proof cases
  case (Connect addr err)
  then show ?thesis using connect_inv [OF assms(1)] assms(3) by (auto simp: tcpConn_Connect_def)
next
  case (ConnectTLS addr err)
  then show ?thesis using connect_inv [OF assms(1)] assms(3) by (auto simp: ConnectWithTLS_def)
next
  case (Close err)
  then show ?thesis using close_inv [OF assms(1,3), of K False] by (auto simp: tcpConn_Close_def)
next
  case (AbortClose skip err)
  define V where "V = (if skip then upd_conn (c_skipOutgoing_update (\<lambda>_. True)) W else W)"
  have "conn_inv (w_conn V)" using assms(3) by (simp add: V_def conn_inv_def)
  from close_inv [OF assms(1) this, of K True] AbortClose show ?thesis
    by (auto simp: tcpConn_abortClose_def V_def)
next
  case (Send cmd sub m err)
  then show ?thesis using write_inv [OF assms(3)] conn_inv_link assms(3) by blast
next
  case (Tick now)
  then show ?thesis
    using write_inv [OF assms(3)] conn_inv_link [OF _ assms(3)] assms(3)
    by (auto simp: heartbeat_tick_def split: if_splits option.splits outcome.splits)
next
  case (Recv n res)
  then show ?thesis using read_inv conn_inv_link assms(3) by blast
next
  case (Message h p res)
  then show ?thesis using message_inv [OF assms(1)] conn_inv_link assms(3) by blast
next
  case (ReconnectFails addr nc e V)
  then show ?thesis using reconnect_step_inv [OF assms(1)]
    by (simp add: reconnect_undo_def conn_inv_def)
next
  case (Reconnects addr nc V)
  then show ?thesis using reconnect_step_inv [OF assms(1)] by (simp add: conn_inv_def)
qed (use assms(3) in auto)

interpretation conn_ts: transition_system "conn_step K mar unm cb" "\<lambda>W. calm cb \<and> conn_inv (w_conn W)"
  for K mar unm cb
  by unfold_locales (auto intro: conn_step_inv)

lemma new_conn_inv: "conn_inv (NewClientConn opts)"
  by (simp add: NewClientConn_def tcpConn_zero_def conn_inv_def)

subsection \<open>Properties of the life cycle\<close>


definition fresh_world :: "(unit, (uint8 \<times> proto_message option) list) world" where
  "fresh_world = (demo_world [])\<lparr>w_conn := NewClientConn demo_options\<rparr>"

definition dial_kernel :: kernel where
  "dial_kernel = demo_kernel\<lparr>k_dial := \<lambda>n addr. if n = 0 then Inl (External 1) else Inr (demo_net [])\<rparr>"


text \<open>
  What \<open>Close\<close> does on an open connection that was not closed before: it returns the
  socket's close error, marks the connection closed, closes the channel that stops the
  heartbeat and drops the socket, and every later \<open>Close\<close> or abort is a no-op that
  returns nil.
\<close>

theorem Close_once:
  assumes "calm cb" and "conn_inv (w_conn W)" and "c_conn (w_conn W) = Some nc" and "\<not> c_closeOnce (w_conn W)"
  shows "\<exists>W'. tcpConn_Close K cb W = Ret (k_close K nc, W') \<and> w_conn W' = after_close (w_conn W) \<and>
    tcpConn_Close K cb W' = Ret (None, W') \<and> tcpConn_abortClose K cb False W' = Ret (None, W')"
proof -
  have "quiet_close cb" "c_closeChan (w_conn W) \<noteq> ChanClosed"
    using assms by (auto simp: calm_def conn_inv_def)
  from close_open [OF this(1) assms(4,3) this(2), of K False] obtain W' where
    "tcpConn_close K cb False W = Ret (k_close K nc, W')" "w_conn W' = after_close (w_conn W)"
    by auto
  moreover from this(2) have "c_closeOnce (w_conn W')" by (simp add: after_close_def)
  ultimately show ?thesis
    using close_done [of W' K cb] by (auto simp: tcpConn_Close_def tcpConn_abortClose_def)
qed

theorem Close_once_witness:
  "\<exists>W'. tcpConn_Close demo_kernel (app_cb (\<lambda>_. recorder)) (demo_world []) = Ret (None, W') \<and>
    c_closed (w_conn W') \<and> c_closeChan (w_conn W') = ChanClosed"
  using Close_once [OF calm_app_cb, of "demo_world []" "demo_net []" demo_kernel "\<lambda>_. recorder"]
  by (auto simp: conn_inv_def demo_defs demo_kernel_def after_close_def)

text \<open>
  C38: a \<open>Close\<close> before the connection is open is not without effect: it uses up the
  \<open>sync.Once\<close>.  After a later successful \<open>Connect\<close>, \<open>Close\<close> returns nil and changes
  nothing: the socket stays open, and the same holds for a connection that is opened again
  after a regular \<open>Close\<close>.
\<close>

theorem Close_ignored_after_reopen:
  assumes "calm cb" and "conn_inv (w_conn W)" and "tcpConn_Close K cb W = Ret (err, V)"
    and "tcpConn_Connect K cb addr V = (None, W')"
  shows "tcpConn_Close K cb W' = Ret (None, W') \<and> c_conn (w_conn W') \<noteq> None \<and> \<not> c_closed (w_conn W')"
proof -
  have V: "conn_inv (w_conn V)"
    using conn_step_inv [OF assms(1) conn_step.Close [OF assms(3)] assms(2)] .
  consider "c_closeOnce (w_conn W)" | "\<not> c_closeOnce (w_conn W)" "c_conn (w_conn W) = None"
    | nc where "\<not> c_closeOnce (w_conn W)" "c_conn (w_conn W) = Some nc" by auto
  then have "c_closeOnce (w_conn V)"
  proof cases
    case 3
    moreover have "quiet_close cb" "c_closeChan (w_conn W) \<noteq> ChanClosed"
      using assms(1,2) 3 by (auto simp: calm_def conn_inv_def)
    ultimately show ?thesis
      using close_open [of cb W nc K False] assms(3) by (auto simp: tcpConn_Close_def after_close_def)
  qed (use assms(3) in \<open>auto simp: tcpConn_Close_def close_done close_nil\<close>)
  with connect_inv [OF assms(1) _ V] assms(4) show ?thesis
    by (auto simp: tcpConn_Connect_def tcpConn_Close_def close_done)
qed

theorem Close_ignored_after_reopen_witness:
  "\<exists>W'. tcpConn_Connect dial_kernel (app_cb (\<lambda>_. recorder)) ''h''
      (upd_conn (c_closeOnce_update (\<lambda>_. True)) (fresh_world\<lparr>w_dials := 1\<rparr>)) = (None, W') \<and>
    tcpConn_Close dial_kernel (app_cb (\<lambda>_. recorder)) W' = Ret (None, W') \<and> c_conn (w_conn W') \<noteq> None"
proof -
  let ?cb = "app_cb (\<lambda>_. recorder)"
  let ?W = "fresh_world\<lparr>w_dials := 1\<rparr>"
  let ?V = "upd_conn (c_closeOnce_update (\<lambda>_. True)) ?W"
  have "tcpConn_Close dial_kernel ?cb ?W = Ret (Some ErrNoReady, ?V)"
    by (simp add: tcpConn_Close_def close_nil fresh_world_def NewClientConn_def tcpConn_zero_def)
  moreover obtain W' where "tcpConn_Connect dial_kernel ?cb ''h'' ?V = (None, W')"
    by (auto simp: tcpConn_Connect_def connect_with_def initIO_def Let_def tcpConn_OnConnect_def newReader_def
        dial_kernel_def fresh_world_def NewClientConn_def demo_defs app_cb_def app_handler_def recorder_def)
  moreover have "conn_inv (w_conn ?W)"
    using new_conn_inv by (simp add: fresh_world_def)
  ultimately show ?thesis
    using Close_ignored_after_reopen [OF calm_app_cb] by blast
qed

subsection \<open>Reconnecting\<close>

lemma reconnect_loop_fails:
  assumes "\<forall>j < k. \<exists>e. k_dial K (w_dials W + j) addr = Inl e"
    and "o_ReconnectMax (c_options (w_conn W)) = 0 \<or> i + int k \<le> o_ReconnectMax (c_options (w_conn W))"
  shows "reconnect_loop K cb addr i W = reconnect_loop K cb addr (i + int k) (W\<lparr>w_dials := w_dials W + k\<rparr>)"
  using assms
proof (induction k arbitrary: i W)
  case 0
  then show ?case by simp
next
  case (Suc k)
  obtain e where "k_dial K (w_dials W) addr = Inl e"
    using Suc.prems(1) by fastforce
  then have "reconnect_loop K cb addr i W = reconnect_loop K cb addr (i + 1) (W\<lparr>w_dials := Suc (w_dials W)\<rparr>)"
    using Suc.prems(2) by (subst reconnect_loop.simps) auto
  also have "\<forall>j < k. \<exists>e. k_dial K (Suc (w_dials W) + j) addr = Inl e"
    using Suc.prems(1) by (metis Suc_less_eq add_Suc_shift)
  then have "reconnect_loop K cb addr (i + 1) (W\<lparr>w_dials := Suc (w_dials W)\<rparr>) =
      reconnect_loop K cb addr (i + 1 + int k) (W\<lparr>w_dials := Suc (w_dials W) + k\<rparr>)"
    using Suc.IH [of "W\<lparr>w_dials := Suc (w_dials W)\<rparr>" "i + 1"] Suc.prems(2) by (simp add: algebra_simps)
  finally show ?case by (simp add: algebra_simps)
qed

text \<open>
  The reconnect loop reconnects at the first dial that succeeds, if the attempts
  allowed reach it (\<open>ReconnectMax\<close> of 0 means any number): after \<open>k\<close> failed dials and a
  successful one it returns with a socket, the connection no longer marked closed, a fresh
  \<open>sync.Once\<close> and a fresh open channel, so that \<open>Close\<close> works again, and it has dialed
  exactly \<open>k + 1\<close> times.
\<close>

theorem reconnect_succeeds:
  assumes "calm cb" and "c_remoteAddr (w_conn W) = addr" and "addr \<noteq> ''''"
    and "\<forall>j < k. \<exists>e. k_dial K (w_dials W + j) addr = Inl e"
    and "k_dial K (w_dials W + k) addr = Inr nc"
    and "o_ReconnectMax (c_options (w_conn W)) = 0 \<or> int k < o_ReconnectMax (c_options (w_conn W))"
    and "initIO cb (reconnect_install nc (W\<lparr>w_dials := Suc (w_dials W + k)\<rparr>)) = (None, V)"
  shows "tcpConn_reconnect K cb W = Some (True, start_heartbeat V) \<and>
    c_conn (w_conn V) \<noteq> None \<and> \<not> c_closed (w_conn V) \<and> \<not> c_closeOnce (w_conn V) \<and> c_closeChan (w_conn V) = ChanOpen"
proof -
  have "tcpConn_reconnect K cb W = reconnect_loop K cb addr 0 W"
    using assms(2,3) by (simp add: tcpConn_reconnect_def)
  also have "\<dots> = reconnect_loop K cb addr (int k) (W\<lparr>w_dials := w_dials W + k\<rparr>)"
    using reconnect_loop_fails [of k K W addr 0 cb, OF assms(4)] assms(6) by auto
  also have "\<dots> = Some (True, start_heartbeat V)"
    using assms(5-7) by (subst reconnect_loop.simps) simp
  finally show ?thesis
    using reconnect_step_inv [OF assms(1,7)] by blast
qed

text \<open>
  The reconnect loop gives up after exactly \<open>ReconnectMax\<close> failed dials, with the
  connection as it was.
\<close>

theorem reconnect_gives_up:
  assumes "c_remoteAddr (w_conn W) = addr" and "addr \<noteq> ''''"
    and "o_ReconnectMax (c_options (w_conn W)) = int k" and "0 < k"
    and "\<forall>j < k. \<exists>e. k_dial K (w_dials W + j) addr = Inl e"
  shows "tcpConn_reconnect K cb W = Some (False, W\<lparr>w_dials := w_dials W + k\<rparr>)"
proof -
  have "tcpConn_reconnect K cb W = reconnect_loop K cb addr (int k) (W\<lparr>w_dials := w_dials W + k\<rparr>)"
    using reconnect_loop_fails [of k K W addr 0 cb] assms by (simp add: tcpConn_reconnect_def)
  then show ?thesis
    using assms(3,4) by (subst (asm) reconnect_loop.simps) simp
qed

definition dropped_world :: "int \<Rightarrow> (unit, (uint8 \<times> proto_message option) list) world" where
  "dropped_world mx = fresh_world\<lparr>w_conn := (NewClientConn (demo_options\<lparr>o_ReconnectMax := mx\<rparr>))
     \<lparr>c_remoteAddr := ''h'', c_closed := True, c_closeOnce := True, c_closeChan := ChanClosed\<rparr>\<rparr>"

theorem reconnect_succeeds_witness:
  "\<exists>V. tcpConn_reconnect dial_kernel (app_cb (\<lambda>_. recorder)) (dropped_world 2) = Some (True, V) \<and>
    c_conn (w_conn V) \<noteq> None"
proof -
  let ?cb = "app_cb (\<lambda>_. recorder)"
  obtain V where "initIO ?cb (reconnect_install (demo_net []) (dropped_world 2\<lparr>w_dials := Suc (0 + 1)\<rparr>)) = (None, V)"
    by (auto simp: initIO_def Let_def tcpConn_OnConnect_def newReader_def reconnect_install_def dropped_world_def
        fresh_world_def NewClientConn_def demo_defs app_cb_def app_handler_def recorder_def)
  then show ?thesis
    using reconnect_succeeds [OF calm_app_cb, of "dropped_world 2" "''h''" 1 dial_kernel "demo_net []" "\<lambda>_. recorder" V]
    by (force simp: dropped_world_def dial_kernel_def fresh_world_def NewClientConn_def demo_defs)
qed

theorem reconnect_gives_up_witness:
  "tcpConn_reconnect demo_kernel (app_cb (\<lambda>_. recorder)) (dropped_world 3) =
    Some (False, dropped_world 3\<lparr>w_dials := 3\<rparr>)"
  using reconnect_gives_up [of "dropped_world 3" "''h''" 3 demo_kernel "app_cb (\<lambda>_. recorder)"]
  by (simp add: dropped_world_def demo_kernel_def fresh_world_def NewClientConn_def demo_defs)

subsection \<open>\<open>Close\<close> while reconnecting\<close>

lemma abort_spawns_reconnect:
  assumes "quiet_close cb" and "\<not> c_closeOnce (w_conn W)" and "c_conn (w_conn W) = Some nc"
    and "c_closeChan (w_conn W) \<noteq> ChanClosed" and "wants_reconnect (w_conn W)"
    and "tcpConn_abortClose K cb False W = Ret (err, W')"
  shows "ReconnectLoop \<in> set (w_tasks W')"
proof -
  obtain V where "tcpConn_abortClose K cb False W = Ret (None, V)" "w_conn V = after_close (w_conn W)"
    using abortClose_open [OF assms(1-4)] by blast
  with assms(6) have "wants_reconnect (w_conn W')"
    using assms(5) by (simp add: wants_reconnect_def after_close_def)
  with assms show ?thesis
    by (auto simp: tcpConn_abortClose_def tcpConn_close_def Let_def spawn_def split: if_splits option.splits)
qed

text \<open>
  C37: \<open>Close\<close> does not end a reconnection.  When a connection with a reconnect interval is
  aborted (its read loop ended), the reconnect loop is started; a \<open>Close\<close> by the user from
  then on returns nil and changes nothing, and once a dial succeeds within the attempts
  allowed (after \<open>k\<close> failed ones) the loop installs the new socket: the connection the user
  closed is open again, with a fresh \<open>sync.Once\<close>.
\<close>

theorem Close_cannot_stop_reconnect:
  assumes "calm cb" and "conn_inv (w_conn W)" and "c_conn (w_conn W) = Some nc" and "\<not> c_closeOnce (w_conn W)"
    and "wants_reconnect (w_conn W)" and "tcpConn_abortClose K cb False W = Ret (err, U)"
    and "\<forall>j < k. \<exists>e. k_dial K (w_dials U + j) (c_remoteAddr (w_conn W)) = Inl e"
    and "k_dial K (w_dials U + k) (c_remoteAddr (w_conn W)) = Inr nc'"
    and "o_ReconnectMax (c_options (w_conn W)) = 0 \<or> int k < o_ReconnectMax (c_options (w_conn W))"
    and "initIO cb (reconnect_install nc' (U\<lparr>w_dials := Suc (w_dials U + k)\<rparr>)) = (None, V)"
  shows "ReconnectLoop \<in> set (w_tasks U) \<and> tcpConn_Close K cb U = Ret (None, U) \<and>
    tcpConn_reconnect K cb U = Some (True, start_heartbeat V) \<and>
    c_conn (w_conn V) \<noteq> None \<and> \<not> c_closed (w_conn V) \<and> \<not> c_closeOnce (w_conn V)"
proof -
  have q: "quiet_close cb" "c_closeChan (w_conn W) \<noteq> ChanClosed"
    using assms(1-4) by (auto simp: calm_def conn_inv_def)
  have U: "w_conn U = after_close (w_conn W)"
    using abortClose_open [OF q(1) assms(4,3) q(2), of K] assms(6) by auto
  have "ReconnectLoop \<in> set (w_tasks U)"
    by (rule abort_spawns_reconnect [OF q(1) assms(4,3) q(2) assms(5,6)])
  moreover have "tcpConn_Close K cb U = Ret (None, U)"
    by (simp add: tcpConn_Close_def close_done U after_close_def)
  moreover have "c_remoteAddr (w_conn U) = c_remoteAddr (w_conn W)" "c_options (w_conn U) = c_options (w_conn W)"
    "c_remoteAddr (w_conn W) \<noteq> ''''"
    using assms(5) by (simp_all add: U after_close_def wants_reconnect_def)
  ultimately show ?thesis
    using reconnect_succeeds [OF assms(1), of U "c_remoteAddr (w_conn W)" k K nc' V] assms(7-10) by simp
qed

definition live_world :: "(unit, (uint8 \<times> proto_message option) list) world" where
  "live_world = upd_conn (\<lambda>c. c\<lparr>c_remoteAddr := ''h'',
     c_options := (c_options c)\<lparr>o_ReconnectInterval := 1\<rparr>\<rparr>) (demo_world [])"

theorem Close_cannot_stop_reconnect_witness:
  "\<exists>U V. tcpConn_abortClose dial_kernel (app_cb (\<lambda>_. recorder)) False live_world = Ret (None, U) \<and>
    tcpConn_Close dial_kernel (app_cb (\<lambda>_. recorder)) U = Ret (None, U) \<and>
    tcpConn_reconnect dial_kernel (app_cb (\<lambda>_. recorder)) U = Some (True, V)"
proof -
  let ?cb = "app_cb (\<lambda>_. recorder)"
  have L: "conn_inv (w_conn live_world)" "c_conn (w_conn live_world) = Some (demo_net [])"
    "\<not> c_closeOnce (w_conn live_world)" "wants_reconnect (w_conn live_world)"
    "c_remoteAddr (w_conn live_world) = ''h''" "o_ReconnectMax (c_options (w_conn live_world)) = 0"
    by (simp_all add: live_world_def demo_defs conn_inv_def wants_reconnect_def)
  obtain U where U: "tcpConn_abortClose dial_kernel ?cb False live_world = Ret (None, U)" "w_dials U = 0"
    "w_conn U = after_close (w_conn live_world)"
    by (auto simp: tcpConn_abortClose_def tcpConn_close_def Let_def live_world_def demo_defs tcpConn_OnClose_def spawn_def
        app_cb_def app_handler_def after_close_def upd_conn_def)
  obtain V where V: "initIO ?cb (reconnect_install (demo_net []) (U\<lparr>w_dials := Suc (w_dials U + 1)\<rparr>)) = (None, V)"
    using U(3) by (auto simp: initIO_def Let_def tcpConn_OnConnect_def newReader_def reconnect_install_def live_world_def
        after_close_def demo_defs app_cb_def app_handler_def recorder_def)
  from Close_cannot_stop_reconnect [OF calm_app_cb L(1-4) U(1) _ _ _ V] L(5,6) U(1,2) show ?thesis
    by (auto simp: dial_kernel_def)
qed

end
