(* ===== verification/Tcp_Client.thy ===== *)
theory Tcp_Client
  imports Conn_Lifecycle
begin

text \<open>
  \<open>TcpClient\<close> of \<open>pkg/network/tcp_cli.go\<close>: a client owns one connection.  Its state is
  its own record and the world of the connection; \<open>Wait\<close> blocks on a context, which is
  represented by the error the context ends with.
\<close>

record 'e TcpClient =
  cl_addr :: string
  cl_event :: "'e option"
  cl_options :: "'e TCPConnOptions option"

type_synonym ('e, 'h) client = "'e TcpClient \<times> ('e, 'h) world"

text \<open>\<open>TCPConnOptions{}\<close>\<close>

definition options_zero :: "'e TCPConnOptions" where
  "options_zero = \<lparr>o_ID = 0, o_HeartbeatInterval = 0, o_ReadTimeout = 0, o_WriteTimeout = 0,
     o_ReconnectInterval = 0, o_ReconnectMax = 0, o_Handler = None, o_OutgoingCh = False,
     o_ParentCtx = False, o_ReaderWG = False\<rparr>"

definition NewTcpClient ::
  "string \<Rightarrow> 'e option \<Rightarrow> 'e TCPConnOptions option \<Rightarrow> ('e, 'h) world \<Rightarrow> ('e, 'h) client" where
  "NewTcpClient addr event options W =
     (let opts = (case options of None \<Rightarrow> options_zero | Some o' \<Rightarrow> o')\<lparr>o_Handler := event\<rparr>
      in (\<lparr>cl_addr = addr, cl_event = event, cl_options = options\<rparr>, W\<lparr>w_conn := NewClientConn opts\<rparr>))"

definition TcpClient_Connect ::
  "kernel \<Rightarrow> ('e, 'h) callbacks \<Rightarrow> ('e, 'h) client \<Rightarrow> error option \<times> ('e, 'h) client" where
  "TcpClient_Connect K cb s =
     (case s of (c, W) \<Rightarrow> (case tcpConn_Connect K cb (cl_addr c) W of (err, W') \<Rightarrow> (err, (c, W'))))"

definition TcpClient_shutdown ::
  "kernel \<Rightarrow> ('e, 'h) callbacks \<Rightarrow> error option \<Rightarrow> ('e, 'h) client \<Rightarrow> (error option \<times> ('e, 'h) client) outcome" where
  "TcpClient_shutdown K cb cause s =
     (case s of (c, W) \<Rightarrow>
        bind_outcome (tcpConn_Close K cb W) (\<lambda>(err, W').
          Ret (if err \<noteq> None \<and> err \<noteq> Some ErrClosed \<and> err \<noteq> Some ErrNoReady then err else cause, (c, W'))))"

definition TcpClient_Wait ::
  "kernel \<Rightarrow> ('e, 'h) callbacks \<Rightarrow> error \<Rightarrow> ('e, 'h) client \<Rightarrow> (error option \<times> ('e, 'h) client) outcome" where
  "TcpClient_Wait K cb ctxErr s = TcpClient_shutdown K cb (Some ctxErr) s"

definition TcpClient_Run ::
  "kernel \<Rightarrow> ('e, 'h) callbacks \<Rightarrow> error \<Rightarrow> ('e, 'h) client \<Rightarrow> (error option \<times> ('e, 'h) client) outcome" where
  "TcpClient_Run K cb ctxErr s =
     (case TcpClient_Connect K cb s of
        (Some e, s') \<Rightarrow> Ret (Some e, s')
      | (None, s') \<Rightarrow> TcpClient_Wait K cb ctxErr s')"

definition TcpClient_Close ::
  "kernel \<Rightarrow> ('e, 'h) callbacks \<Rightarrow> ('e, 'h) client \<Rightarrow> (error option \<times> ('e, 'h) client) outcome" where
  "TcpClient_Close K cb s = TcpClient_shutdown K cb None s"

definition TcpClient_IsClosed :: "('e, 'h) client \<Rightarrow> bool" where
  "TcpClient_IsClosed s = tcpConn_IsClosed (snd s)"

definition TcpClient_Write ::
  "marshal \<Rightarrow> uint8 \<Rightarrow> uint8 \<Rightarrow> proto_message \<Rightarrow> ('e, 'h) client \<Rightarrow> (error option \<times> ('e, 'h) client) outcome option" where
  "TcpClient_Write mar cmd subcmd pkt s =
     (case s of (c, W) \<Rightarrow>
       (case tcpConn_WritePacket mar cmd subcmd pkt W of
          None \<Rightarrow> None
        | Some r \<Rightarrow> Some (bind_outcome r (\<lambda>(err, W'). Ret (err, (c, W'))))))"

definition SetEventHandler :: "'e option \<Rightarrow> ('e, 'h) client \<Rightarrow> ('e, 'h) client" where
  "SetEventHandler handler s =
     (case s of (c, W) \<Rightarrow>
       (c\<lparr>cl_event := handler,
          cl_options := (case cl_options c of None \<Rightarrow> None | Some o' \<Rightarrow> Some (o'\<lparr>o_Handler := handler\<rparr>))\<rparr>,
        upd_conn (c_event_update (\<lambda>_. handler)) W))"

definition TcpClient_EventHandler :: "('e, 'h) client \<Rightarrow> 'e option" where
  "TcpClient_EventHandler s = cl_event (fst s)"

subsection \<open>Properties\<close>

text \<open>The client's handler and the connection's handler are the same one.\<close>

definition client_inv :: "('e, 'h) client \<Rightarrow> bool" where
  "client_inv s \<longleftrightarrow> cl_event (fst s) = c_event (w_conn (snd s)) \<and> conn_inv (w_conn (snd s))"

lemma client_inv_new [inv_intros]: "client_inv (NewTcpClient addr ev opts W)"
  by (simp add: client_inv_def NewTcpClient_def Let_def NewClientConn_def tcpConn_zero_def conn_inv_def)

lemma client_inv_set [inv_intros]: "client_inv s \<Longrightarrow> client_inv (SetEventHandler h s)"
  by (cases s) (simp add: client_inv_def SetEventHandler_def conn_inv_def)

lemma connect_event:
  assumes "calm cb" and "connect_with K cb dl addr W = (err, W')"
  shows "c_event (w_conn W') = c_event (w_conn W)"
proof (cases dl)
  case (Inr nc)
  define V where "V = upd_conn (\<lambda>c. c\<lparr>c_conn := Some nc, c_remoteAddr := addr, c_closed := False\<rparr>)
    (W\<lparr>w_dials := Suc (w_dials W)\<rparr>)"
  obtain err1 U where U: "initIO cb V = (err1, U)" by (cases "initIO cb V")
  have "c_conn (w_conn V) = Some nc" by (simp add: V_def)
  from initIO_conn [OF assms(1) U this] U Inr assms(2) show ?thesis
    by (cases err1) (auto simp: connect_with_def Let_def V_def)
qed (use assms(2) in \<open>auto simp: connect_with_def Let_def\<close>)

lemma client_inv_connect [inv_intros]:
  assumes "calm cb" and "client_inv s" and "TcpClient_Connect K cb s = (err, s')"
  shows "client_inv s'"
proof -
  obtain c W W' where s: "s = (c, W)" "s' = (c, W')" "tcpConn_Connect K cb (cl_addr c) W = (err, W')"
    using assms(3) by (cases s) (auto simp: TcpClient_Connect_def split: prod.splits)
  then show ?thesis
    using assms(2) connect_inv [OF assms(1)] connect_event [OF assms(1)]
    by (auto simp: client_inv_def tcpConn_Connect_def)
qed

lemma close_event:
  assumes "calm cb" and "conn_inv (w_conn W)"
  shows "\<exists>err W'. tcpConn_close K cb abort W = Ret (err, W') \<and> conn_inv (w_conn W') \<and> c_event (w_conn W') = c_event (w_conn W) \<and>
    (\<not> c_closeOnce (w_conn W) \<longrightarrow> c_conn (w_conn W') = None \<and>
      err = (case c_conn (w_conn W) of None \<Rightarrow> Some ErrNoReady | Some nc \<Rightarrow> if abort then None else k_close K nc))"
proof -
  obtain err W' where r: "tcpConn_close K cb abort W = Ret (err, W')" "conn_inv (w_conn W')"
    using close_inv [OF assms, of K abort] by blast
  consider "c_closeOnce (w_conn W)" | "\<not> c_closeOnce (w_conn W)" "c_conn (w_conn W) = None"
    | nc where "\<not> c_closeOnce (w_conn W)" "c_conn (w_conn W) = Some nc" by auto
  then show ?thesis
  proof cases
    case 3
    moreover have "quiet_close cb" "c_closeChan (w_conn W) \<noteq> ChanClosed"
      using assms 3 by (auto simp: calm_def conn_inv_def)
    ultimately show ?thesis
      using close_open [of cb W nc K abort] r by (auto simp: after_close_def)
  qed (use r in \<open>auto simp: close_done close_nil\<close>)
qed

text \<open>
  \<open>Run\<close> returns the dial or accept error when connecting fails; otherwise it blocks
  until the context ends, closes the connection (no socket is left), keeps the client's
  invariant and returns the socket's close error if there is one and the context's error if
  not.  It never panics.
\<close>

theorem TcpClient_Run_result:
  assumes "calm cb" and "client_inv s" and "\<not> c_closeOnce (w_conn (snd s))"
    and "TcpClient_Connect K cb s = (err, s')"
  shows "\<exists>r s''. TcpClient_Run K cb ctxErr s = Ret (r, s'') \<and> client_inv s'' \<and>
    (case err of Some e \<Rightarrow> r = Some e \<and> s'' = s'
     | None \<Rightarrow> c_conn (w_conn (snd s'')) = None \<and>
         (\<exists>nc. c_conn (w_conn (snd s')) = Some nc \<and>
           r = (case k_close K nc of Some e \<Rightarrow> if e = ErrClosed \<or> e = ErrNoReady then Some ctxErr else Some e
                | None \<Rightarrow> Some ctxErr)))"
proof -
  obtain c W W' where s: "s = (c, W)" "s' = (c, W')" "tcpConn_Connect K cb (cl_addr c) W = (err, W')"
    using assms(4) by (cases s) (auto simp: TcpClient_Connect_def split: prod.splits)
  note inv = client_inv_connect [OF assms(1,2,4)]
  have up: "c_conn (w_conn W') \<noteq> None" "\<not> c_closeOnce (w_conn W')" if "err = None"
    using that assms(2,3) s connect_inv [OF assms(1), of K _ "cl_addr c" W err W']
    by (auto simp: client_inv_def tcpConn_Connect_def)
  have "conn_inv (w_conn W')" using inv s by (simp add: client_inv_def)
  from close_event [OF assms(1) this, of K False] obtain x V where
    V: "tcpConn_close K cb False W' = Ret (x, V)" "conn_inv (w_conn V)" "c_event (w_conn V) = c_event (w_conn W')"
      "\<not> c_closeOnce (w_conn W') \<longrightarrow> c_conn (w_conn V) = None \<and>
        x = (case c_conn (w_conn W') of None \<Rightarrow> Some ErrNoReady | Some nc \<Rightarrow> if False then None else k_close K nc)"
    by blast
  show ?thesis
  proof (cases err)
    case (Some e)
    with inv assms(4) show ?thesis by (auto simp: TcpClient_Run_def)
  next
    case None
    with up obtain nc where nc: "c_conn (w_conn W') = Some nc" "\<not> c_closeOnce (w_conn W')" by auto
    let ?r = "case k_close K nc of Some e \<Rightarrow> if e = ErrClosed \<or> e = ErrNoReady then Some ctxErr else Some e
      | None \<Rightarrow> Some ctxErr"
    have "TcpClient_Run K cb ctxErr s = Ret (?r, (c, V))"
      using None V nc s assms(4)
      by (simp add: TcpClient_Run_def TcpClient_Wait_def TcpClient_shutdown_def tcpConn_Close_def split: option.splits)
    moreover have "client_inv (c, V)" "c_conn (w_conn V) = None"
      using V nc inv s by (simp_all add: client_inv_def)
    ultimately show ?thesis using None nc s by auto
  qed
qed

definition client_kernel :: kernel where
  "client_kernel = demo_kernel\<lparr>k_dial := \<lambda>n addr. Inr (demo_net [])\<rparr>"

definition demo_client :: "(unit, (uint8 \<times> proto_message option) list) client" where
  "demo_client = NewTcpClient ''h'' (Some ()) None fresh_world"

lemma demo_client_inv: "client_inv demo_client"
  unfolding demo_client_def by (rule client_inv_new)

theorem TcpClient_Run_result_witness:
  "\<exists>s. TcpClient_Run client_kernel (app_cb (\<lambda>_. recorder)) ContextCanceled demo_client = Ret (Some ContextCanceled, s)"
proof -
  let ?cb = "app_cb (\<lambda>_. recorder)"
  obtain s' where s': "TcpClient_Connect client_kernel ?cb demo_client = (None, s')"
    by (auto simp: TcpClient_Connect_def demo_client_def NewTcpClient_def options_zero_def Let_def
        tcpConn_Connect_def connect_with_def initIO_def tcpConn_OnConnect_def newReader_def client_kernel_def
        fresh_world_def NewClientConn_def demo_defs app_cb_def app_handler_def recorder_def)
  have "\<not> c_closeOnce (w_conn (snd demo_client))"
    by (simp add: demo_client_def NewTcpClient_def Let_def NewClientConn_def tcpConn_zero_def)
  from TcpClient_Run_result [OF calm_app_cb demo_client_inv this s', of ContextCanceled] show ?thesis
    by (auto simp: client_kernel_def demo_kernel_def)
qed

text \<open>
  Closing a client that is not connected is not an error for the caller
  (\<open>ErrNoReady\<close> is swallowed), and closing it twice is the same as closing it once.
\<close>

theorem TcpClient_Close_twice:
  assumes "calm cb" and "client_inv s"
  shows "\<exists>err s'. TcpClient_Close K cb s = Ret (err, s') \<and> TcpClient_Close K cb s' = Ret (None, s') \<and>
    (c_conn (w_conn (snd s)) = None \<longrightarrow> err = None)"
proof -
  obtain c W where s: "s = (c, W)" by (cases s)
  then have "conn_inv (w_conn W)" using assms(2) by (simp add: client_inv_def)
  from close_event [OF assms(1) this, of K False] obtain err W' where
    W': "tcpConn_close K cb False W = Ret (err, W')"
      "\<not> c_closeOnce (w_conn W) \<longrightarrow> c_conn (w_conn W) = None \<longrightarrow> err = Some ErrNoReady"
    by (auto split: option.splits)
  have "c_closeOnce (w_conn W')"
  proof (cases "c_closeOnce (w_conn W)")
    case False
    with \<open>conn_inv (w_conn W)\<close> assms(1) W'(1) close_open [of cb W _ K False] show ?thesis
      by (cases "c_conn (w_conn W)") (auto simp: close_nil conn_inv_def calm_def after_close_def)
  qed (use W'(1) in \<open>auto simp: close_done\<close>)
  with W' s show ?thesis
    by (cases "c_closeOnce (w_conn W)")
      (auto simp: TcpClient_Close_def TcpClient_shutdown_def tcpConn_Close_def close_done)
qed

theorem TcpClient_Close_twice_witness:
  "\<exists>s'. TcpClient_Close demo_kernel (app_cb (\<lambda>_. recorder)) demo_client = Ret (None, s') \<and>
    TcpClient_Close demo_kernel (app_cb (\<lambda>_. recorder)) s' = Ret (None, s')"
proof -
  have "c_conn (w_conn (snd demo_client)) = None"
    by (simp add: demo_client_def NewTcpClient_def Let_def NewClientConn_def tcpConn_zero_def)
  with TcpClient_Close_twice [OF calm_app_cb demo_client_inv, of demo_kernel "\<lambda>_. recorder"] show ?thesis
    by auto
qed

end
