(* ===== verification/Tcp_Server.thy ===== *)
theory Tcp_Server
  imports Tcp_Client
begin

text \<open>
  \<open>TcpServer\<close> of \<open>pkg/network/tcp_server.go\<close>: registering accepted connections, the
  select loop of \<open>Run\<close>, removal of closed connections through the channel
  \<open>outgoing\<close>, and shutdown.  Connections are objects in a heap, addressed by their
  position; the map \<open>conns\<close> and the channel hold addresses.  The order in which Go ranges
  over a map is not fixed, so the operations that do so take the order as an argument.
\<close>

subsection \<open>State\<close>

record ('e, 'h) TcpServer =
  s_nextID :: uint32
  s_addr :: string
  s_name :: string
  s_handler :: "'e option"
  s_ctx :: "error option"
  s_shuttingDown :: bool
  s_connWG :: int
  s_conns :: "uint32 \<rightharpoonup> nat"
  s_outgoing :: "nat list"
  s_options :: "'e TCPConnOptions option"
  s_heap :: "'e tcpConn list"
  s_app :: 'h
  s_tasks :: "(nat \<times> task) list"
  s_rawclosed :: "netconn list"

definition NewTcpServer :: "string \<Rightarrow> 'e option \<Rightarrow> 'e TCPConnOptions option \<Rightarrow> 'h \<Rightarrow> ('e, 'h) TcpServer" where
  "NewTcpServer addr handler opts app = \<lparr>s_nextID = 1, s_addr = addr, s_name = ''tcp-server'',
     s_handler = handler, s_ctx = None, s_shuttingDown = False, s_connWG = 0, s_conns = Map.empty,
     s_outgoing = [], s_options = opts, s_heap = [], s_app = app, s_tasks = [], s_rawclosed = []\<rparr>"

text \<open>The world of the connection at an address, and an operation on it as one on the server.\<close>

definition conn_world :: "nat \<Rightarrow> ('e, 'h) TcpServer \<Rightarrow> ('e, 'h) world" where
  "conn_world a S = \<lparr>w_conn = s_heap S ! a, w_self = a, w_app = s_app S, w_outgoing = s_outgoing S,
     w_ctx = s_ctx S, w_wg = s_connWG S, w_tasks = [], w_rawclosed = s_rawclosed S, w_dials = 0\<rparr>"

definition put_world :: "nat \<Rightarrow> ('e, 'h) world \<Rightarrow> ('e, 'h) TcpServer \<Rightarrow> ('e, 'h) TcpServer" where
  "put_world a W S = S\<lparr>s_heap := (s_heap S)[a := w_conn W], s_app := w_app W, s_outgoing := w_outgoing W,
     s_connWG := w_wg W, s_tasks := s_tasks S @ map (Pair a) (w_tasks W), s_rawclosed := w_rawclosed W\<rparr>"

subsection \<open>Operations\<close>

text \<open>\<open>10 * time.Second\<close>\<close>

definition ten_seconds :: duration where "ten_seconds = 10000000000"

definition conn_options :: "('e, 'h) TcpServer \<Rightarrow> uint32 \<Rightarrow> 'e TCPConnOptions" where
  "conn_options S i =
     (let opts = (case s_options S of
            None \<Rightarrow> options_zero\<lparr>o_HeartbeatInterval := ten_seconds, o_ReadTimeout := ten_seconds,
                       o_WriteTimeout := ten_seconds\<rparr>
          | Some opts' \<Rightarrow> opts')
      in opts\<lparr>o_Handler := s_handler S, o_OutgoingCh := True, o_ParentCtx := True, o_ReaderWG := True,
              o_ID := i\<rparr>)"

definition registerConn ::
  "kernel \<Rightarrow> ('e, 'h) callbacks \<Rightarrow> netconn \<Rightarrow> ('e, 'h) TcpServer \<Rightarrow> error option \<times> ('e, 'h) TcpServer" where
  "registerConn K cb nc S =
     (let i = s_nextID S + 1;
          opts = conn_options S i;
          a = length (s_heap S);
          S1 = S\<lparr>s_nextID := i, s_heap := s_heap S @ [tcpConn_zero opts]\<rparr>
      in (case NewServerConn K cb nc opts (conn_world a S1) of
            (Some e, W) \<Rightarrow> (Some e, put_world a W S1)
          | (None, W) \<Rightarrow> (let S2 = put_world a W S1 in (None, S2\<lparr>s_conns := (s_conns S2)(c_id (w_conn W) \<mapsto> a)\<rparr>))))"

definition removeConn :: "nat \<Rightarrow> ('e, 'h) TcpServer \<Rightarrow> ('e, 'h) TcpServer" where
  "removeConn a S = S\<lparr>s_conns := (s_conns S)(c_id (s_heap S ! a) := None)\<rparr>"

text \<open>The case \<open>conn := <-acceptCh\<close> of the select loop.\<close>

definition run_accept ::
  "kernel \<Rightarrow> ('e, 'h) callbacks \<Rightarrow> netconn \<Rightarrow> ('e, 'h) TcpServer \<Rightarrow> ('e, 'h) TcpServer" where
  "run_accept K cb nc S =
     (if s_shuttingDown S then S\<lparr>s_rawclosed := s_rawclosed S @ [nc]\<rparr>
      else (case registerConn K cb nc S of
          (Some _, S') \<Rightarrow> S'\<lparr>s_rawclosed := s_rawclosed S' @ [nc]\<rparr>
        | (None, S') \<Rightarrow> S'))"

text \<open>The case \<open>conn := <-s.outgoing\<close>; \<open>None\<close> when the channel is empty.\<close>

definition run_outgoing ::
  "kernel \<Rightarrow> ('e, 'h) callbacks \<Rightarrow> ('e, 'h) TcpServer \<Rightarrow> ('e, 'h) TcpServer outcome option" where
  "run_outgoing K cb S =
     (case s_outgoing S of
        [] \<Rightarrow> None
      | a # rest \<Rightarrow>
         (let S1 = removeConn a (S\<lparr>s_outgoing := rest\<rparr>) in
          if s_shuttingDown S1 then Some (Ret S1)
          else Some (bind_outcome (tcpConn_Close K cb (conn_world a S1)) (\<lambda>(_, W). Ret (put_world a W S1)))))"

definition abort_conn ::
  "kernel \<Rightarrow> ('e, 'h) callbacks \<Rightarrow> bool \<Rightarrow> nat \<Rightarrow> ('e, 'h) TcpServer \<Rightarrow> ('e, 'h) TcpServer outcome" where
  "abort_conn K cb skip a S =
     bind_outcome (tcpConn_abortClose K cb skip (conn_world a S)) (\<lambda>(_, W). Ret (put_world a W S))"

text \<open>The goroutine of \<open>closeConns\<close> over the snapshot of the map.\<close>

fun abort_all ::
  "kernel \<Rightarrow> ('e, 'h) callbacks \<Rightarrow> nat list \<Rightarrow> ('e, 'h) TcpServer \<Rightarrow> ('e, 'h) TcpServer outcome" where
  "abort_all K cb [] S = Ret S"
| "abort_all K cb (a # as) S = bind_outcome (abort_conn K cb True a S) (abort_all K cb as)"

definition closeConns ::
  "kernel \<Rightarrow> ('e, 'h) callbacks \<Rightarrow> nat list \<Rightarrow> ('e, 'h) TcpServer \<Rightarrow> ('e, 'h) TcpServer outcome" where
  "closeConns K cb order S = abort_all K cb order (S\<lparr>s_conns := Map.empty\<rparr>)"

function drainOutgoing :: "('e, 'h) TcpServer \<Rightarrow> ('e, 'h) TcpServer" where
  "drainOutgoing S =
     (case s_outgoing S of [] \<Rightarrow> S | a # rest \<Rightarrow> drainOutgoing (removeConn a (S\<lparr>s_outgoing := rest\<rparr>)))"
  by pat_completeness auto

termination drainOutgoing
  by (relation "measure (\<lambda>S. length (s_outgoing S))") (auto simp: removeConn_def)

declare drainOutgoing.simps [simp del]

text \<open>
  \<open>shutdown\<close>: waiting for the read loops (\<open>waitConns\<close>) ends by itself or by its time-out
  and changes nothing.
\<close>

definition shutdown ::
  "kernel \<Rightarrow> ('e, 'h) callbacks \<Rightarrow> nat list \<Rightarrow> ('e, 'h) TcpServer \<Rightarrow> ('e, 'h) TcpServer outcome" where
  "shutdown K cb order S =
     (if s_shuttingDown S then Ret S
      else bind_outcome (closeConns K cb order (S\<lparr>s_shuttingDown := True\<rparr>)) (\<lambda>S1. Ret (drainOutgoing S1)))"

definition Stop :: "('e, 'h) TcpServer \<Rightarrow> ('e, 'h) TcpServer" where
  "Stop S = S\<lparr>s_ctx := Some ContextCanceled\<rparr>"

text \<open>The case \<open>err := <-acceptErr\<close>: the result of \<open>Run\<close> with the final state.\<close>

definition run_acceptErr ::
  "kernel \<Rightarrow> ('e, 'h) callbacks \<Rightarrow> error option \<Rightarrow> error \<Rightarrow> nat list \<Rightarrow> ('e, 'h) TcpServer
    \<Rightarrow> (error option \<times> ('e, 'h) TcpServer) outcome" where
  "run_acceptErr K cb err netErrClosed order S =
     (if s_ctx S \<noteq> None \<or> s_shuttingDown S then bind_outcome (shutdown K cb order S) (\<lambda>S1. Ret (None, S1))
      else if err \<noteq> None \<and> err \<noteq> Some netErrClosed then Ret (err, S)
      else Ret (None, S))"

subsection \<open>Invariant\<close>

text \<open>
  Registered connections are live objects filed under their own ID; a queued connection has
  already been closed; every connection object satisfies the connection invariant, reports
  to the server's channel, and holds no socket once it has been closed.
\<close>

definition sconn_inv :: "'e tcpConn \<Rightarrow> bool" where
  "sconn_inv c \<longleftrightarrow> conn_inv c \<and> c_outgoingCh c \<and> (c_closeOnce c \<longrightarrow> c_conn c = None)"

definition server_inv :: "('e, 'h) TcpServer \<Rightarrow> bool" where
  "server_inv S \<longleftrightarrow>
     (\<forall>i a. s_conns S i = Some a \<longrightarrow> a < length (s_heap S) \<and> c_id (s_heap S ! a) = i) \<and>
     (\<forall>a \<in> set (s_outgoing S). a < length (s_heap S) \<and> c_closeOnce (s_heap S ! a)) \<and>
     length (s_outgoing S) \<le> outgoing_cap \<and>
     (\<forall>c \<in> set (s_heap S). sconn_inv c)"

lemma conn_world_sel [simp]:
  "w_conn (conn_world a S) = s_heap S ! a" "w_self (conn_world a S) = a" "w_app (conn_world a S) = s_app S"
  "w_outgoing (conn_world a S) = s_outgoing S" "w_ctx (conn_world a S) = s_ctx S"
  by (simp_all add: conn_world_def)

lemma put_world_sel [simp]:
  "s_heap (put_world a W S) = (s_heap S)[a := w_conn W]" "s_conns (put_world a W S) = s_conns S"
  "s_outgoing (put_world a W S) = w_outgoing W" "s_shuttingDown (put_world a W S) = s_shuttingDown S"
  "s_nextID (put_world a W S) = s_nextID S" "s_ctx (put_world a W S) = s_ctx S"
  "s_handler (put_world a W S) = s_handler S" "s_options (put_world a W S) = s_options S"
  by (simp_all add: put_world_def)

lemma removeConn_sel [simp]:
  "s_heap (removeConn a S) = s_heap S" "s_outgoing (removeConn a S) = s_outgoing S"
  "s_shuttingDown (removeConn a S) = s_shuttingDown S" "s_nextID (removeConn a S) = s_nextID S"
  "s_conns (removeConn a S) = (s_conns S)(c_id (s_heap S ! a) := None)"
  by (simp_all add: removeConn_def)

lemma NewTcpServer_inv [inv_intros]: "server_inv (NewTcpServer addr h opts app)"
  by (simp add: server_inv_def NewTcpServer_def)

lemma removeConn_inv [inv_intros]: "server_inv S \<Longrightarrow> server_inv (removeConn a S)"
  by (auto simp: server_inv_def split: if_splits)

text \<open>Event callbacks have no access to the server's channel.\<close>

definition local_cb :: "('e, 'h) callbacks \<Rightarrow> bool" where
  "local_cb cb \<longleftrightarrow> calm cb \<and>
     (\<forall>e W. w_outgoing (ev_OnClose (cb e) W) = w_outgoing W \<and> w_self (ev_OnClose (cb e) W) = w_self W) \<and>
     (\<forall>e W. w_outgoing (snd (ev_OnConnect (cb e) W)) = w_outgoing W)"

lemma local_app_cb: "local_cb (app_cb A)"
  unfolding local_cb_def using calm_app_cb
  by (auto simp: app_cb_def app_handler_def split: prod.splits)

text \<open>When closing hands the connection to the channel.\<close>

definition announces :: "('e, 'h) world \<Rightarrow> bool" where
  "announces W \<longleftrightarrow> \<not> c_closeOnce (w_conn W) \<and> c_conn (w_conn W) \<noteq> None \<and> c_outgoingCh (w_conn W) \<and>
     \<not> c_skipOutgoing (w_conn W) \<and> length (w_outgoing W) < outgoing_cap"

lemma close_effect:
  assumes "local_cb cb" and "sconn_inv (w_conn W)"
  shows "\<exists>err W'. tcpConn_close K cb abort W = Ret (err, W') \<and> sconn_inv (w_conn W') \<and>
    c_id (w_conn W') = c_id (w_conn W) \<and> c_closeOnce (w_conn W') \<and>
    (c_closeOnce (w_conn W) \<longrightarrow> W' = W) \<and>
    w_outgoing W' = (if announces W then w_outgoing W @ [w_self W] else w_outgoing W)"
proof -
  have cb: "calm cb" "quiet_close cb" using assms(1) by (auto simp: local_cb_def calm_def)
  consider "c_closeOnce (w_conn W)" | "\<not> c_closeOnce (w_conn W)" "c_conn (w_conn W) = None"
    | nc where "\<not> c_closeOnce (w_conn W)" "c_conn (w_conn W) = Some nc" by auto
  then show ?thesis
  proof cases
    case 3
    then have chan: "c_closeChan (w_conn W) \<noteq> ChanClosed" using assms(2) by (auto simp: conn_inv_def sconn_inv_def)
    have "w_outgoing (tcpConn_OnClose cb (upd_conn (\<lambda>c. (after_close c)\<lparr>c_conn := Some nc\<rparr>) W)) =
        (if announces W then w_outgoing W @ [w_self W] else w_outgoing W)"
      using assms(1) cb(2) 3
      by (auto simp: tcpConn_OnClose_def local_cb_def quiet_close_def Let_def announces_def after_close_def
          split: option.splits)
    with close_open [OF cb(2) 3 chan, of K abort] close_inv [OF cb(1), of W K abort] assms(2) 3 show ?thesis
      by (auto simp: after_close_def sconn_inv_def)
  qed (use assms(2) in \<open>auto simp: close_done close_nil announces_def conn_inv_def sconn_inv_def\<close>)
qed

lemma put_close_inv:
  assumes "server_inv S" and "a < length (s_heap S)"
    and "sconn_inv (w_conn W)" and "c_id (w_conn W) = c_id (s_heap S ! a)" and "c_closeOnce (w_conn W)"
    and "w_outgoing W = (if announces (conn_world a S) then s_outgoing S @ [a] else s_outgoing S)"
  shows "server_inv (put_world a W S)"
  unfolding server_inv_def
proof (intro conjI allI impI ballI)
  fix i b
  assume "s_conns (put_world a W S) i = Some b"
  with assms show "b < length (s_heap (put_world a W S))" "c_id (s_heap (put_world a W S) ! b) = i"
    by (auto simp: server_inv_def nth_list_update)
next
  fix b
  assume "b \<in> set (s_outgoing (put_world a W S))"
  then have "b = a \<or> b \<in> set (s_outgoing S)" using assms(6) by (auto split: if_splits)
  with assms show "b < length (s_heap (put_world a W S))" "c_closeOnce (s_heap (put_world a W S) ! b)"
    by (auto simp: server_inv_def nth_list_update)
next
  show "length (s_outgoing (put_world a W S)) \<le> outgoing_cap"
    using assms(1,6) by (auto simp: server_inv_def announces_def)
next
  fix c
  assume "c \<in> set (s_heap (put_world a W S))"
  with assms(1,3) set_update_subset_insert [of "s_heap S" a "w_conn W"] show "sconn_inv c"
    by (auto simp: server_inv_def)
qed

lemma heap_inv: "server_inv S \<Longrightarrow> a < length (s_heap S) \<Longrightarrow> sconn_inv (s_heap S ! a)"
  by (simp add: server_inv_def)

lemma heap_update_inv:
  assumes "server_inv S" and "a < length (s_heap S)" and "sconn_inv c"
    and "c_id c = c_id (s_heap S ! a)" and "c_closeOnce (s_heap S ! a) \<Longrightarrow> c_closeOnce c"
  shows "server_inv (S\<lparr>s_heap := (s_heap S)[a := c]\<rparr>)"
  using assms set_update_subset_insert [of "s_heap S" a c]
  unfolding server_inv_def by (auto simp: nth_list_update)

lemma close_in_server:
  assumes "local_cb cb" and "server_inv S" and "a < length (s_heap S)"
  shows "\<exists>err W. tcpConn_close K cb abort (conn_world a S) = Ret (err, W) \<and> server_inv (put_world a W S) \<and>
    c_id (w_conn W) = c_id (s_heap S ! a) \<and> c_closeOnce (w_conn W) \<and>
    w_outgoing W = (if announces (conn_world a S) then s_outgoing S @ [a] else s_outgoing S)"
proof -
  have "sconn_inv (w_conn (conn_world a S))" using heap_inv [OF assms(2,3)] by simp
  from close_effect [OF assms(1) this, of K abort] obtain err W where
    W: "tcpConn_close K cb abort (conn_world a S) = Ret (err, W)" "sconn_inv (w_conn W)"
    "c_id (w_conn W) = c_id (s_heap S ! a)" "c_closeOnce (w_conn W)"
    "w_outgoing W = (if announces (conn_world a S) then s_outgoing S @ [a] else s_outgoing S)"
    by (elim exE conjE) simp
  have "server_inv (put_world a W S)"
    by (rule put_close_inv [OF assms(2,3) W(2-5)])
  with W show ?thesis by (intro exI conjI)
qed

text \<open>Handling a queued connection only removes it: its second \<open>Close\<close> is a no-op.\<close>

lemma put_conn_world: "put_world a (conn_world a S) S = S"
  by (simp add: put_world_def conn_world_def)

lemma run_outgoing_step:
  assumes "server_inv S" and "s_outgoing S = a # rest"
  shows "run_outgoing K cb S = Some (Ret (removeConn a (S\<lparr>s_outgoing := rest\<rparr>)))"
proof -
  have "c_closeOnce (s_heap S ! a)" using assms by (auto simp: server_inv_def)
  then show ?thesis
    using assms(2) by (simp add: run_outgoing_def Let_def tcpConn_Close_def close_done put_conn_world)
qed

lemma outgoing_tail_inv: "server_inv S \<Longrightarrow> s_outgoing S = a # rest \<Longrightarrow> server_inv (removeConn a (S\<lparr>s_outgoing := rest\<rparr>))"
  by (intro removeConn_inv) (auto simp: server_inv_def)

lemma abort_conn_effect:
  assumes "local_cb cb" and "server_inv S" and "a < length (s_heap S)"
  shows "\<exists>S'. abort_conn K cb skip a S = Ret S' \<and> server_inv S' \<and> s_conns S' = s_conns S \<and>
    s_shuttingDown S' = s_shuttingDown S \<and>
    length (s_heap S') = length (s_heap S) \<and> (\<forall>b. b \<noteq> a \<longrightarrow> s_heap S' ! b = s_heap S ! b) \<and>
    c_id (s_heap S' ! a) = c_id (s_heap S ! a) \<and> c_closeOnce (s_heap S' ! a) \<and>
    s_outgoing S' = (if \<not> skip \<and> announces (conn_world a S) then s_outgoing S @ [a] else s_outgoing S)"
proof -
  define T where "T = (if skip then S\<lparr>s_heap := (s_heap S)[a := (s_heap S ! a)\<lparr>c_skipOutgoing := True\<rparr>]\<rparr> else S)"
  have world: "(if skip then upd_conn (c_skipOutgoing_update (\<lambda>_. True)) (conn_world a S) else conn_world a S) = conn_world a T"
    using assms(3) by (simp add: T_def conn_world_def upd_conn_def)
  have T: "server_inv T" "a < length (s_heap T)"
    using assms(2,3) heap_update_inv [OF assms(2,3), of "(s_heap S ! a)\<lparr>c_skipOutgoing := True\<rparr>"]
      heap_inv [OF assms(2,3)]
    by (auto simp: T_def conn_inv_def sconn_inv_def)
  have put: "put_world a W T = put_world a W S" for W
    by (simp add: T_def put_world_def)
  obtain err W where W: "tcpConn_close K cb True (conn_world a T) = Ret (err, W)" "server_inv (put_world a W T)"
    "c_id (w_conn W) = c_id (s_heap T ! a)" "c_closeOnce (w_conn W)"
    "w_outgoing W = (if announces (conn_world a T) then s_outgoing T @ [a] else s_outgoing T)"
    using close_in_server [OF assms(1) T, of K True] by (elim exE conjE)
  have "abort_conn K cb skip a S = Ret (put_world a W S)"
    using W(1) by (simp add: abort_conn_def tcpConn_abortClose_def world)
  moreover have "announces (conn_world a T) \<longleftrightarrow> \<not> skip \<and> announces (conn_world a S)" "s_outgoing T = s_outgoing S"
    "c_id (s_heap T ! a) = c_id (s_heap S ! a)" "c_closeOnce (s_heap T ! a) = c_closeOnce (s_heap S ! a)"
    using assms(3) by (simp_all add: T_def announces_def)
  ultimately show ?thesis
    using W assms(3) by (intro exI [of _ "put_world a W S"]) (simp add: put)
qed

lemma initIO_outgoing:
  assumes "local_cb cb" and "initIO cb W = (err, W')"
  shows "w_outgoing W' = w_outgoing W"
proof -
  have "w_outgoing (snd (tcpConn_OnConnect cb V)) = w_outgoing V" for V
    using assms(1) by (auto simp: local_cb_def tcpConn_OnConnect_def split: option.splits)
  moreover have "w_outgoing (snd (newReader V)) = w_outgoing V" for V :: "('a, 'b) world"
    by (simp add: newReader_def Let_def)
  ultimately show ?thesis
    using assms(2) unfolding initIO_def Let_def
    by (auto split: option.splits prod.splits if_splits) (metis snd_conv upd_conn_sel(4))+
qed

lemma register_ok:
  assumes "local_cb cb" and "server_inv S" and "registerConn K cb nc S = (err, S')"
  shows "server_inv S' \<and> s_nextID S' = s_nextID S + 1 \<and>
    s_conns S' = (case err of None \<Rightarrow> (s_conns S)(s_nextID S + 1 \<mapsto> length (s_heap S)) | Some _ \<Rightarrow> s_conns S) \<and>
    s_outgoing S' = s_outgoing S \<and> s_shuttingDown S' = s_shuttingDown S \<and>
    (err = None \<longrightarrow> length (s_heap S') = Suc (length (s_heap S)) \<and>
      c_conn (s_heap S' ! length (s_heap S)) \<noteq> None \<and> \<not> c_closed (s_heap S' ! length (s_heap S)) \<and>
      c_id (s_heap S' ! length (s_heap S)) = s_nextID S + 1)"
proof -
  let ?a = "length (s_heap S)" and ?i = "s_nextID S + 1"
  let ?opts = "conn_options S ?i"
  define S1 where "S1 = S\<lparr>s_nextID := ?i, s_heap := s_heap S @ [tcpConn_zero ?opts]\<rparr>"
  define W0 where "W0 = conn_world ?a S1\<lparr>w_conn := (tcpConn_zero ?opts)\<lparr>c_conn := Some nc\<rparr>\<rparr>"
  obtain e W where W: "initIO cb W0 = (e, W)" by (cases "initIO cb W0")
  have cb: "calm cb" using assms(1) by (simp add: local_cb_def)
  have "c_conn (w_conn W0) = Some nc" by (simp add: W0_def)
  note init = initIO_conn [OF cb W this]
  have id: "c_id (w_conn W) = ?i"
    using init by (simp add: W0_def tcpConn_zero_def conn_options_def Let_def)
  have inv: "sconn_inv (w_conn W)"
    using init by (simp add: W0_def tcpConn_zero_def conn_inv_def sconn_inv_def conn_options_def Let_def)
  have out: "w_outgoing W = s_outgoing S"
    using initIO_outgoing [OF assms(1) W] by (simp add: W0_def S1_def)
  have put: "server_inv (put_world ?a V S1)" if "w_conn V = w_conn W" "w_outgoing V = w_outgoing W" for V
    using assms(2) inv out that
    by (auto simp: server_inv_def S1_def nth_append list_update_append intro: less_SucI)
  have reg: "registerConn K cb nc S = (case e of
      Some x \<Rightarrow> (Some x, put_world ?a (snd (raw_close K nc W)) S1)
    | None \<Rightarrow> (None, (put_world ?a W S1)\<lparr>s_conns := (s_conns S1)(?i \<mapsto> ?a)\<rparr>))"
    by (simp add: registerConn_def Let_def NewServerConn_def S1_def [symmetric] W0_def [symmetric] W id split: option.splits)
  show ?thesis
  proof (cases e)
    case (Some x)
    with reg assms(3) put [of "snd (raw_close K nc W)"] out show ?thesis
      by (auto simp: S1_def raw_close_def)
  next
    case None
    have "server_inv ((put_world ?a W S1)\<lparr>s_conns := (s_conns S1)(?i \<mapsto> ?a)\<rparr>)"
      using put [of W] assms(2) id
      by (auto simp: server_inv_def S1_def nth_append list_update_append intro: less_SucI split: if_splits)
    with None reg assms(3) out init id show ?thesis
      by (auto simp: S1_def W0_def tcpConn_zero_def nth_append list_update_append)
  qed
qed

subsection \<open>The select loop\<close>

text \<open>
  What can happen to a running server: a connection is accepted, a closed connection is
  taken from the channel, a read loop ends and aborts its connection (or the application
  closes it), the server is stopped, or it shuts down.
\<close>

inductive server_step ::
  "kernel \<Rightarrow> ('e, 'h) callbacks \<Rightarrow> ('e, 'h) TcpServer \<Rightarrow> ('e, 'h) TcpServer \<Rightarrow> bool"
  for K cb where
  Accept: "server_step K cb S (run_accept K cb nc S)"
| Reap: "run_outgoing K cb S = Some (Ret S') \<Longrightarrow> server_step K cb S S'"
| Abort: "a < length (s_heap S) \<Longrightarrow> abort_conn K cb False a S = Ret S' \<Longrightarrow> server_step K cb S S'"
| UserClose: "a < length (s_heap S) \<Longrightarrow> tcpConn_Close K cb (conn_world a S) = Ret (err, W) \<Longrightarrow>
    server_step K cb S (put_world a W S)"
| Stopped: "server_step K cb S (Stop S)"
| Shutdown: "shutdown K cb order S = Ret S' \<Longrightarrow> set order = ran (s_conns S) \<Longrightarrow> server_step K cb S S'"

lemma conns_in_heap: "server_inv S \<Longrightarrow> a \<in> ran (s_conns S) \<Longrightarrow> a < length (s_heap S)"
  by (auto simp: server_inv_def ran_def)

lemma abort_all_effect:
  assumes "local_cb cb" and "server_inv S" and "\<forall>a \<in> set as. a < length (s_heap S)"
  shows "\<exists>S'. abort_all K cb as S = Ret S' \<and> server_inv S' \<and> s_conns S' = s_conns S \<and>
    s_outgoing S' = s_outgoing S \<and> s_shuttingDown S' = s_shuttingDown S \<and> length (s_heap S') = length (s_heap S) \<and>
    (\<forall>a. c_closeOnce (s_heap S ! a) \<longrightarrow> c_closeOnce (s_heap S' ! a)) \<and>
    (\<forall>a \<in> set as. c_closeOnce (s_heap S' ! a))"
  using assms(2,3)
proof (induction as arbitrary: S)
  case Nil
  then show ?case by auto
next
  case (Cons a as)
  obtain S1 where S1: "abort_conn K cb True a S = Ret S1" "server_inv S1" "s_conns S1 = s_conns S"
    "s_shuttingDown S1 = s_shuttingDown S" "length (s_heap S1) = length (s_heap S)"
    "\<forall>b. b \<noteq> a \<longrightarrow> s_heap S1 ! b = s_heap S ! b" "c_closeOnce (s_heap S1 ! a)" "s_outgoing S1 = s_outgoing S"
    using abort_conn_effect [OF assms(1) Cons.prems(1), of a K True] Cons.prems(2) by auto
  have "\<forall>b. c_closeOnce (s_heap S ! b) \<longrightarrow> c_closeOnce (s_heap S1 ! b)"
    using S1(6,7) by metis
  with Cons.IH [OF S1(2)] S1 Cons.prems(2) show ?case by auto
qed

lemma drainOutgoing_effect:
  assumes "server_inv S"
  shows "server_inv (drainOutgoing S) \<and> s_outgoing (drainOutgoing S) = [] \<and>
    s_heap (drainOutgoing S) = s_heap S \<and> s_shuttingDown (drainOutgoing S) = s_shuttingDown S \<and>
    s_conns (drainOutgoing S) = s_conns S |` (- (\<lambda>a. c_id (s_heap S ! a)) ` set (s_outgoing S))"
  using assms
proof (induction S rule: drainOutgoing.induct)
  case (1 S)
  show ?case
  proof (cases "s_outgoing S")
    case Nil
    with 1 show ?thesis by (simp add: drainOutgoing.simps [of S])
  next
    case (Cons a rest)
    have step: "drainOutgoing S = drainOutgoing (removeConn a (S\<lparr>s_outgoing := rest\<rparr>))"
      by (simp add: drainOutgoing.simps [of S] Cons)
    from 1(1) [OF Cons outgoing_tail_inv [OF 1(2) Cons]] show ?thesis
      unfolding step by (auto simp: Cons restrict_map_def fun_eq_iff)
  qed
qed

lemma shutdown_effect:
  assumes "local_cb cb" and "server_inv S" and "set order = ran (s_conns S)" and "\<not> s_shuttingDown S"
  shows "\<exists>S'. shutdown K cb order S = Ret S' \<and> server_inv S' \<and> s_shuttingDown S' \<and> s_conns S' = Map.empty \<and>
    s_outgoing S' = [] \<and> (\<forall>a \<in> ran (s_conns S). c_closeOnce (s_heap S' ! a) \<and> c_conn (s_heap S' ! a) = None)"
proof -
  define T where "T = S\<lparr>s_shuttingDown := True, s_conns := Map.empty\<rparr>"
  have T: "server_inv T" "\<forall>a \<in> set order. a < length (s_heap T)"
    using assms(2,3) conns_in_heap [OF assms(2)] by (auto simp: T_def server_inv_def)
  obtain S1 where S1: "abort_all K cb order T = Ret S1" "server_inv S1" "s_conns S1 = Map.empty"
    "s_shuttingDown S1" "length (s_heap S1) = length (s_heap T)" "\<forall>a \<in> set order. c_closeOnce (s_heap S1 ! a)"
    using abort_all_effect [OF assms(1) T, of K] by (auto simp: T_def)
  have "shutdown K cb order S = Ret (drainOutgoing S1)"
    using assms(4) S1(1) by (simp add: shutdown_def closeConns_def T_def)
  moreover have "\<forall>a \<in> set order. c_conn (s_heap S1 ! a) = None"
    using S1(5,6) T(2) heap_inv [OF S1(2)] by (simp add: sconn_inv_def)
  ultimately show ?thesis
    using drainOutgoing_effect [OF S1(2)] S1(3,4,6) assms(3) by auto
qed

lemma closed_log_inv: "server_inv (S\<lparr>s_rawclosed := l\<rparr>) = server_inv S"
  by (simp add: server_inv_def)

lemma run_accept_inv [inv_intros]: "local_cb cb \<Longrightarrow> server_inv S \<Longrightarrow> server_inv (run_accept K cb nc S)"
  using register_ok [of cb S K nc]
  by (cases "registerConn K cb nc S") (simp add: run_accept_def closed_log_inv split: option.splits)

lemma server_step_inv:
  assumes "local_cb cb" and "server_step K cb S S'" and "server_inv S"
  shows "server_inv S'"
  using assms(2)
proof cases
  case (Accept nc)
  then show ?thesis using run_accept_inv [OF assms(1,3)] by simp
next
  case Reap
  then show ?thesis
    using run_outgoing_step [OF assms(3)] outgoing_tail_inv [OF assms(3)]
    by (cases "s_outgoing S") (auto simp: run_outgoing_def)
next
  case (Abort a)
  then show ?thesis using abort_conn_effect [OF assms(1,3), of a K False] by auto
next
  case (UserClose a err W)
  then show ?thesis using close_in_server [OF assms(1,3), of a K False] by (auto simp: tcpConn_Close_def)
next
  case Stopped
  then show ?thesis using assms(3) by (simp add: server_inv_def Stop_def)
next
  case (Shutdown order)
  then show ?thesis
    using shutdown_effect [OF assms(1,3) Shutdown(2), of K] assms(3)
    by (cases "s_shuttingDown S") (auto simp: shutdown_def)
qed

interpretation server_ts: transition_system "server_step K cb" "\<lambda>S. local_cb cb \<and> server_inv S" for K cb
  by unfold_locales (auto intro: server_step_inv)

subsection \<open>Properties\<close>

text \<open>
  C4: in every state a server can reach, each registered connection is a live object filed
  under its own ID, the channel never holds more than its 16 entries, every queued
  connection has been closed and so handling it removes its ID from the table and does
  nothing else, and closing any connection of the server succeeds without a panic.
\<close>

theorem server_reachable_safe:
  assumes "local_cb cb" and "(server_step K cb)\<^sup>*\<^sup>* (NewTcpServer addr h opts app) S"
  shows "(\<forall>i a. s_conns S i = Some a \<longrightarrow> a < length (s_heap S) \<and> c_id (s_heap S ! a) = i) \<and>
    length (s_outgoing S) \<le> 16 \<and>
    (\<forall>a rest. s_outgoing S = a # rest \<longrightarrow>
      run_outgoing K cb S = Some (Ret (removeConn a (S\<lparr>s_outgoing := rest\<rparr>)))) \<and>
    (\<forall>a < length (s_heap S). \<exists>S'. abort_conn K cb skip a S = Ret S')"
proof -
  have inv: "server_inv S"
    using server_ts.steps_inv [OF assms(2)] assms(1) NewTcpServer_inv [of addr h opts app] by simp
  with run_outgoing_step [OF inv] abort_conn_effect [OF assms(1) inv, of _ K skip] show ?thesis
    unfolding server_inv_def outgoing_cap_def by blast
qed

definition demo_server :: "(unit, (uint8 \<times> proto_message option) list) TcpServer" where
  "demo_server = NewTcpServer '':1'' (Some ()) None []"

theorem server_reachable_safe_witness:
  "\<exists>S'. abort_conn demo_kernel (app_cb (\<lambda>_. recorder)) False 0
      (run_accept demo_kernel (app_cb (\<lambda>_. recorder)) (demo_net []) demo_server) = Ret S'"
proof -
  let ?cb = "app_cb (\<lambda>_. recorder)"
  let ?S = "run_accept demo_kernel ?cb (demo_net []) demo_server"
  have "server_step demo_kernel ?cb demo_server ?S" by (rule server_step.Accept)
  then have "(server_step demo_kernel ?cb)\<^sup>*\<^sup>* demo_server ?S" by (rule r_into_rtranclp)
  moreover have "0 < length (s_heap ?S)"
    by (simp add: run_accept_def registerConn_def Let_def demo_server_def NewTcpServer_def put_world_def
        split: prod.splits option.splits)
  ultimately show ?thesis
    using server_reachable_safe [OF local_app_cb, of demo_kernel "\<lambda>_. recorder" "'':1''" "Some ()" None "[]" ?S False]
    by (simp add: demo_server_def)
qed

text \<open>
  Registering an accepted connection.  The ID is the successor of the last one (modulo
  \<open>2^32\<close>; the first one is 2), on success the table gains exactly that entry and the new
  object is open and carries that ID, and on a refusal by \<open>OnConnect\<close> the table is
  unchanged.
\<close>

theorem registerConn_result:
  assumes "local_cb cb" and "server_inv S" and "registerConn K cb nc S = (err, S')"
  shows "server_inv S' \<and> s_nextID S' = s_nextID S + 1 \<and>
    s_conns S' = (case err of None \<Rightarrow> (s_conns S)(s_nextID S + 1 \<mapsto> length (s_heap S)) | Some _ \<Rightarrow> s_conns S) \<and>
    (err = None \<longrightarrow> c_conn (s_heap S' ! length (s_heap S)) \<noteq> None \<and> \<not> c_closed (s_heap S' ! length (s_heap S)) \<and>
      c_id (s_heap S' ! length (s_heap S)) = s_nextID S + 1)"
  using register_ok [OF assms] by simp

theorem registerConn_result_witness:
  "\<exists>S'. registerConn demo_kernel (app_cb (\<lambda>_. recorder)) (demo_net []) demo_server = (None, S') \<and>
    s_conns S' = [2 \<mapsto> 0]"
proof -
  let ?cb = "app_cb (\<lambda>_. recorder)"
  obtain S' where S': "registerConn demo_kernel ?cb (demo_net []) demo_server = (None, S')"
    by (auto simp: registerConn_def Let_def demo_server_def NewTcpServer_def conn_options_def options_zero_def
        NewServerConn_def initIO_def tcpConn_OnConnect_def newReader_def tcpConn_zero_def
        app_cb_def app_handler_def recorder_def upd_conn_def spawn_def conn_world_def)
  have "server_inv demo_server"
    unfolding demo_server_def by (rule NewTcpServer_inv)
  from registerConn_result [OF local_app_cb this S'] S' show ?thesis
    by (simp add: demo_server_def NewTcpServer_def)
qed

text \<open>
  C31: a closed connection leaves the table.  If the read loop of a registered open
  connection ends while the channel has room, the connection is queued, and after the select
  loop has handled the queue its ID is no longer registered, the table is otherwise only
  smaller by the other queued connections, and the queue is empty.
\<close>

fun run_queue ::
  "kernel \<Rightarrow> ('e, 'h) callbacks \<Rightarrow> nat \<Rightarrow> ('e, 'h) TcpServer \<Rightarrow> ('e, 'h) TcpServer outcome" where
  "run_queue K cb 0 S = Ret S"
| "run_queue K cb (Suc n) S =
     (case run_outgoing K cb S of None \<Rightarrow> Ret S | Some r \<Rightarrow> bind_outcome r (run_queue K cb n))"

lemma run_queue_drains:
  "server_inv S \<Longrightarrow> run_queue K cb (length (s_outgoing S)) S = Ret (drainOutgoing S)"
proof (induction "s_outgoing S" arbitrary: S)
  case Nil
  then show ?case by (simp add: drainOutgoing.simps [of S])
next
  case (Cons a rest)
  note q = Cons.hyps(2) [symmetric]
  have "rest = s_outgoing (removeConn a (S\<lparr>s_outgoing := rest\<rparr>))" by simp
  from Cons.hyps(1) [OF this outgoing_tail_inv [OF Cons.prems q]] show ?case
    by (simp add: q run_outgoing_step [OF Cons.prems q] drainOutgoing.simps [of S])
qed

theorem closed_conn_is_reaped:
  assumes "local_cb cb" and "server_inv S" and "s_conns S i = Some a"
    and "\<not> c_closeOnce (s_heap S ! a)" and "c_conn (s_heap S ! a) \<noteq> None" and "\<not> c_skipOutgoing (s_heap S ! a)"
    and "length (s_outgoing S) < 16"
  shows "\<exists>S1 S2. abort_conn K cb False a S = Ret S1 \<and> s_outgoing S1 = s_outgoing S @ [a] \<and>
    run_queue K cb (length (s_outgoing S) + 1) S1 = Ret S2 \<and> s_outgoing S2 = [] \<and> s_conns S2 i = None \<and>
    (\<forall>j. s_conns S2 j = None \<longleftrightarrow> s_conns S j = None \<or> (\<exists>b \<in> set (s_outgoing S1). c_id (s_heap S1 ! b) = j))"
proof -
  have a: "a < length (s_heap S)" "c_id (s_heap S ! a) = i"
    using assms(2,3) by (auto simp: server_inv_def)
  have "announces (conn_world a S)"
    using assms(4-7) heap_inv [OF assms(2) a(1)] by (simp add: announces_def sconn_inv_def outgoing_cap_def)
  then obtain S1 where S1: "abort_conn K cb False a S = Ret S1" "server_inv S1" "s_conns S1 = s_conns S"
    "c_id (s_heap S1 ! a) = i" "s_outgoing S1 = s_outgoing S @ [a]"
    using abort_conn_effect [OF assms(1,2) a(1), of K False] a(2) by auto
  then have len: "length (s_outgoing S1) = length (s_outgoing S) + 1" by simp
  show ?thesis
    using S1 run_queue_drains [OF S1(2), of K cb, unfolded len] drainOutgoing_effect [OF S1(2)]
    by (auto simp: restrict_map_def)
qed

text \<open>A server with one open connection and one closed one, and \<open>n\<close> entries in the channel.\<close>

definition demo_conn :: "uint32 \<Rightarrow> unit tcpConn" where
  "demo_conn i = (tcpConn_zero (options_zero\<lparr>o_ID := i, o_OutgoingCh := True\<rparr>))\<lparr>c_conn := Some (demo_net []),
     c_writer := Some newWriter, c_closeChan := ChanOpen\<rparr>"

definition busy_server :: "nat \<Rightarrow> (unit, (uint8 \<times> proto_message option) list) TcpServer" where
  "busy_server n = demo_server\<lparr>s_nextID := 3, s_conns := [2 \<mapsto> 0, 3 \<mapsto> 1],
     s_heap := [demo_conn 2, after_close (demo_conn 3)], s_outgoing := replicate n 1\<rparr>"

lemmas busy_defs = busy_server_def demo_server_def NewTcpServer_def demo_conn_def after_close_def
  tcpConn_zero_def options_zero_def

lemma busy_server_inv: "n \<le> 16 \<Longrightarrow> server_inv (busy_server n)"
  by (auto simp: server_inv_def sconn_inv_def conn_inv_def busy_defs outgoing_cap_def nth_Cons split: if_splits nat.splits)

theorem closed_conn_is_reaped_witness:
  "\<exists>S1 S2. abort_conn demo_kernel (app_cb (\<lambda>_. recorder)) False 0 (busy_server 3) = Ret S1 \<and>
    run_queue demo_kernel (app_cb (\<lambda>_. recorder)) 4 S1 = Ret S2 \<and> s_outgoing S2 = [] \<and> s_conns S2 2 = None"
proof -
  have "s_conns (busy_server 3) 2 = Some 0" "\<not> c_closeOnce (s_heap (busy_server 3) ! 0)"
    "c_conn (s_heap (busy_server 3) ! 0) \<noteq> None" "\<not> c_skipOutgoing (s_heap (busy_server 3) ! 0)"
    "length (s_outgoing (busy_server 3)) < 16"
    by (simp_all add: busy_defs)
  from closed_conn_is_reaped [OF local_app_cb busy_server_inv this, of demo_kernel "\<lambda>_. recorder"]
  show ?thesis by (auto simp: busy_server_def)
qed

text \<open>
  A connection that closes while the channel is full is not queued: after its close
  the table still maps its ID to it although its socket is gone, and handling the whole
  queue does not remove it unless another queued connection has the same ID.
\<close>

theorem closed_conn_leaks_when_full:
  assumes "local_cb cb" and "server_inv S" and "s_conns S i = Some a"
    and "\<not> c_closeOnce (s_heap S ! a)" and "length (s_outgoing S) = 16"
    and "\<forall>b \<in> set (s_outgoing S). c_id (s_heap S ! b) \<noteq> i"
  shows "\<exists>S1 S2. abort_conn K cb False a S = Ret S1 \<and> c_conn (s_heap S1 ! a) = None \<and>
    run_queue K cb 16 S1 = Ret S2 \<and> s_outgoing S2 = [] \<and> s_conns S2 i = Some a"
proof -
  have a: "a < length (s_heap S)" "c_id (s_heap S ! a) = i"
    using assms(2,3) by (auto simp: server_inv_def)
  have "\<not> announces (conn_world a S)"
    using assms(5) by (simp add: announces_def outgoing_cap_def)
  then obtain S1 where S1: "abort_conn K cb False a S = Ret S1" "server_inv S1" "s_conns S1 = s_conns S"
    "length (s_heap S1) = length (s_heap S)" "\<forall>b. b \<noteq> a \<longrightarrow> s_heap S1 ! b = s_heap S ! b"
    "c_closeOnce (s_heap S1 ! a)" "s_outgoing S1 = s_outgoing S"
    using abort_conn_effect [OF assms(1,2) a(1), of K False] by auto
  have "c_conn (s_heap S1 ! a) = None"
    using heap_inv [OF S1(2), of a] S1(4,6) a(1) by (simp add: sconn_inv_def)
  moreover have "a \<notin> set (s_outgoing S)" using assms(6) a(2) by auto
  then have "\<forall>b \<in> set (s_outgoing S1). c_id (s_heap S1 ! b) \<noteq> i"
    using S1(5,7) assms(6) by metis
  then have "s_conns (drainOutgoing S1) i = Some a"
    using drainOutgoing_effect [OF S1(2)] S1(3) assms(3) by (auto simp: restrict_map_def)
  ultimately show ?thesis
    using S1 run_queue_drains [OF S1(2), of K cb] drainOutgoing_effect [OF S1(2)] assms(5) by auto
qed

theorem closed_conn_leaks_when_full_witness:
  "\<exists>S1 S2. abort_conn demo_kernel (app_cb (\<lambda>_. recorder)) False 0 (busy_server 16) = Ret S1 \<and>
    c_conn (s_heap S1 ! 0) = None \<and>
    run_queue demo_kernel (app_cb (\<lambda>_. recorder)) 16 S1 = Ret S2 \<and> s_outgoing S2 = [] \<and> s_conns S2 2 = Some 0"
proof -
  have "s_conns (busy_server 16) 2 = Some 0" "\<not> c_closeOnce (s_heap (busy_server 16) ! 0)"
    "length (s_outgoing (busy_server 16)) = 16"
    "\<forall>b \<in> set (s_outgoing (busy_server 16)). c_id (s_heap (busy_server 16) ! b) \<noteq> 2"
    by (simp_all add: busy_defs)
  from closed_conn_leaks_when_full [OF local_app_cb busy_server_inv this, of demo_kernel "\<lambda>_. recorder"]
  show ?thesis by simp
qed

text \<open>
  Shutdown.  Whatever order the map is traversed in, every registered connection is
  closed and holds no socket, the table and the channel are empty, the server is marked as
  shutting down, and a second shutdown changes nothing.
\<close>

theorem shutdown_closes_all:
  assumes "local_cb cb" and "server_inv S" and "set order = ran (s_conns S)" and "\<not> s_shuttingDown S"
  shows "\<exists>S'. shutdown K cb order S = Ret S' \<and> s_conns S' = Map.empty \<and> s_outgoing S' = [] \<and>
    (\<forall>a \<in> ran (s_conns S). c_closeOnce (s_heap S' ! a) \<and> c_conn (s_heap S' ! a) = None) \<and>
    shutdown K cb order' S' = Ret S'"
  using shutdown_effect [OF assms, of K] by (auto simp: shutdown_def [of _ _ order'])

theorem shutdown_closes_all_witness:
  "\<exists>S'. shutdown demo_kernel (app_cb (\<lambda>_. recorder)) [1, 0] (busy_server 3) = Ret S' \<and> s_conns S' = Map.empty \<and>
    c_conn (s_heap S' ! 0) = None"
proof -
  have "set [1, 0] = ran (s_conns (busy_server 3))" "\<not> s_shuttingDown (busy_server 3)"
    "0 \<in> ran (s_conns (busy_server 3))"
    by (auto simp: busy_defs ran_def intro: exI [of _ "3 :: uint32"])
  with shutdown_closes_all [OF local_app_cb busy_server_inv, of 3 "[1, 0]" demo_kernel "\<lambda>_. recorder" "[]"]
  show ?thesis by auto
qed

end
