(* ===== verification/Server_Run.thy ===== *)
theory Server_Run
  imports Tcp_Server "HOL-Library.Multiset"
begin

text \<open>
  \<open>TcpServer.Run\<close> (\<open>pkg/network/tcp_server.go\<close>) as a system of its accept goroutine, its
  select loop and the connections: the goroutine accepts, offers each connection to the
  loop on an unbuffered channel and leaves after the first error or when the context ends;
  the loop chooses among the context, an offered connection, a closed connection and the
  error.  The theory shows that no accepted connection is lost, in which states \<open>Run\<close>
  can have returned, and that it can always return once the context has ended.
\<close>

subsection \<open>State\<close>

datatype acceptor = Accepting | Offering netconn | Gone

text \<open>
  \<open>rn_result\<close> is \<open>None\<close> while the loop runs.  The last three fields record every accepted
  connection, those the loop received, and those the goroutine closed.
\<close>

record ('e, 'h) server_run =
  rn_server :: "('e, 'h) TcpServer"
  rn_listening :: bool
  rn_acceptor :: acceptor
  rn_acceptErr :: "error list"
  rn_result :: "error option option"
  rn_accepted :: "netconn list"
  rn_received :: "netconn list"
  rn_dropped :: "netconn list"

text \<open>\<open>listen\<close> is \<open>net.Listen\<close>; \<open>ctx\<close> is the state of the given context.\<close>

definition Run_start ::
  "(string \<Rightarrow> error option) \<Rightarrow> error option \<Rightarrow> ('e, 'h) TcpServer \<Rightarrow> error + ('e, 'h) server_run" where
  "Run_start listen ctx S =
     (let S1 = S\<lparr>s_ctx := ctx\<rparr> in
      case listen (s_addr S1) of
        Some e \<Rightarrow> Inl e
      | None \<Rightarrow> Inr \<lparr>rn_server = S1, rn_listening = True, rn_acceptor = Accepting, rn_acceptErr = [], rn_result = None,
          rn_accepted = [], rn_received = [], rn_dropped = []\<rparr>)"

subsection \<open>The accept goroutine\<close>

definition acceptor_conn :: "netconn \<Rightarrow> ('e, 'h) server_run \<Rightarrow> ('e, 'h) server_run" where
  "acceptor_conn nc y = y\<lparr>rn_acceptor := Offering nc, rn_accepted := rn_accepted y @ [nc]\<rparr>"

text \<open>The error goes into the buffer of one entry if there is room.\<close>

definition acceptor_error :: "error \<Rightarrow> ('e, 'h) server_run \<Rightarrow> ('e, 'h) server_run" where
  "acceptor_error e y =
     y\<lparr>rn_acceptor := Gone, rn_acceptErr := (if rn_acceptErr y = [] then [e] else rn_acceptErr y)\<rparr>"

definition acceptor_quit :: "netconn \<Rightarrow> ('e, 'h) server_run \<Rightarrow> ('e, 'h) server_run" where
  "acceptor_quit nc y =
     y\<lparr>rn_acceptor := Gone, rn_dropped := rn_dropped y @ [nc],
       rn_server := (rn_server y)\<lparr>s_rawclosed := s_rawclosed (rn_server y) @ [nc]\<rparr>\<rparr>"

subsection \<open>The select loop\<close>

text \<open>\<open>shutdown\<close> closes the listener and empties the buffer unless it has run before.\<close>

definition after_shutdown :: "('e, 'h) TcpServer \<Rightarrow> ('e, 'h) server_run \<Rightarrow> ('e, 'h) server_run" where
  "after_shutdown S' y =
     (if s_shuttingDown (rn_server y) then y\<lparr>rn_server := S', rn_result := Some None\<rparr>
      else y\<lparr>rn_server := S', rn_result := Some None, rn_listening := False, rn_acceptErr := []\<rparr>)"

definition loop_done ::
  "kernel \<Rightarrow> ('e, 'h) callbacks \<Rightarrow> nat list \<Rightarrow> ('e, 'h) server_run \<Rightarrow> ('e, 'h) server_run outcome" where
  "loop_done K cb order y =
     bind_outcome (shutdown K cb order (rn_server y)) (\<lambda>S'. Ret (after_shutdown S' y))"

definition loop_accept ::
  "kernel \<Rightarrow> ('e, 'h) callbacks \<Rightarrow> netconn \<Rightarrow> ('e, 'h) server_run \<Rightarrow> ('e, 'h) server_run" where
  "loop_accept K cb nc y =
     y\<lparr>rn_server := run_accept K cb nc (rn_server y), rn_acceptor := Accepting, rn_received := rn_received y @ [nc]\<rparr>"

definition loop_error ::
  "kernel \<Rightarrow> ('e, 'h) callbacks \<Rightarrow> error \<Rightarrow> nat list \<Rightarrow> error \<Rightarrow> ('e, 'h) server_run \<Rightarrow> ('e, 'h) server_run outcome" where
  "loop_error K cb netErrClosed order e y0 =
     (let y = y0\<lparr>rn_acceptErr := []\<rparr>; S = rn_server y in
      if s_ctx S \<noteq> None \<or> s_shuttingDown S then loop_done K cb order y
      else bind_outcome (run_acceptErr K cb (Some e) netErrClosed order S)
             (\<lambda>(err, S'). Ret (y\<lparr>rn_server := S', rn_result := Some err\<rparr>)))"

subsection \<open>The system\<close>

text \<open>Reading loops that end, callers that close a connection, and \<open>Stop\<close> act at any time.\<close>

inductive run_step ::
  "kernel \<Rightarrow> ('e, 'h) callbacks \<Rightarrow> error \<Rightarrow> ('e, 'h) server_run \<Rightarrow> ('e, 'h) server_run \<Rightarrow> bool" for K cb netErrClosed where
  g_accepts: "rn_acceptor y = Accepting \<Longrightarrow> rn_listening y \<Longrightarrow> run_step K cb netErrClosed y (acceptor_conn nc y)"
| g_fails: "rn_acceptor y = Accepting \<Longrightarrow> run_step K cb netErrClosed y (acceptor_error e y)"
| g_quits: "rn_acceptor y = Offering nc \<Longrightarrow> s_ctx (rn_server y) \<noteq> None \<Longrightarrow> run_step K cb netErrClosed y (acceptor_quit nc y)"
| l_done: "rn_result y = None \<Longrightarrow> s_ctx (rn_server y) \<noteq> None \<Longrightarrow> set order = ran (s_conns (rn_server y)) \<Longrightarrow>
    loop_done K cb order y = Ret y' \<Longrightarrow> run_step K cb netErrClosed y y'"
| l_accept: "rn_result y = None \<Longrightarrow> rn_acceptor y = Offering nc \<Longrightarrow> run_step K cb netErrClosed y (loop_accept K cb nc y)"
| l_reap: "rn_result y = None \<Longrightarrow> run_outgoing K cb (rn_server y) = Some (Ret S') \<Longrightarrow>
    run_step K cb netErrClosed y (y\<lparr>rn_server := S'\<rparr>)"
| l_error: "rn_result y = None \<Longrightarrow> rn_acceptErr y = [e] \<Longrightarrow> set order = ran (s_conns (rn_server y)) \<Longrightarrow>
    loop_error K cb netErrClosed order e y = Ret y' \<Longrightarrow> run_step K cb netErrClosed y y'"
| c_abort: "a < length (s_heap (rn_server y)) \<Longrightarrow> abort_conn K cb False a (rn_server y) = Ret S' \<Longrightarrow>
    run_step K cb netErrClosed y (y\<lparr>rn_server := S'\<rparr>)"
| c_close: "a < length (s_heap (rn_server y)) \<Longrightarrow> tcpConn_Close K cb (conn_world a (rn_server y)) = Ret (err, W) \<Longrightarrow>
    run_step K cb netErrClosed y (y\<lparr>rn_server := put_world a W (rn_server y)\<rparr>)"
| c_stop: "run_step K cb netErrClosed y (y\<lparr>rn_server := Stop (rn_server y)\<rparr>)"

subsection \<open>Invariant\<close>

definition offered :: "acceptor \<Rightarrow> netconn multiset" where
  "offered a = (case a of Offering nc \<Rightarrow> {#nc#} | _ \<Rightarrow> {#})"

definition run_inv :: "('e, 'h) server_run \<Rightarrow> bool" where
  "run_inv y \<longleftrightarrow> server_inv (rn_server y) \<and> finite (dom (s_conns (rn_server y))) \<and>
     mset (rn_accepted y) = mset (rn_received y) + mset (rn_dropped y) + offered (rn_acceptor y) \<and>
     (rn_acceptErr y \<noteq> [] \<longrightarrow> rn_acceptor y = Gone) \<and>
     (case rn_result y of
        None \<Rightarrow> \<not> s_shuttingDown (rn_server y) \<and> rn_listening y
      | Some res \<Rightarrow>
          (res = None \<and> s_shuttingDown (rn_server y) \<and> \<not> rn_listening y \<and> s_conns (rn_server y) = Map.empty) \<or>
          (\<not> s_shuttingDown (rn_server y) \<and> rn_listening y \<and> rn_acceptor y = Gone))"

lemma run_inv_server:
  assumes "run_inv y" "server_inv S'" "s_conns S' = s_conns (rn_server y)" "s_shuttingDown S' = s_shuttingDown (rn_server y)"
  shows "run_inv (y\<lparr>rn_server := S'\<rparr>)"
  using assms by (auto simp: run_inv_def split: option.splits)

lemma run_accept_shuttingDown [simp]: "s_shuttingDown (run_accept K cb nc S) = s_shuttingDown S"
  by (auto simp: run_accept_def registerConn_def Let_def split: prod.splits option.splits)

lemma run_accept_finite: "finite (dom (s_conns S)) \<Longrightarrow> finite (dom (s_conns (run_accept K cb nc S)))"
  by (auto simp: run_accept_def registerConn_def Let_def split: prod.splits option.splits)

lemma loop_done_effect:
  assumes "local_cb cb" "run_inv y" "rn_result y = None" "set order = ran (s_conns (rn_server y))"
  shows "\<exists>y'. loop_done K cb order y = Ret y' \<and> run_inv y' \<and> rn_result y' = Some None"
proof -
  have S: "server_inv (rn_server y)" "\<not> s_shuttingDown (rn_server y)" using assms(2,3) by (simp_all add: run_inv_def)
  obtain S' where S': "shutdown K cb order (rn_server y) = Ret S'" "server_inv S'" "s_shuttingDown S'" "s_conns S' = Map.empty"
    using shutdown_effect [OF assms(1) S(1) assms(4) S(2), of K] by blast
  have "loop_done K cb order y = Ret (y\<lparr>rn_server := S', rn_result := Some None, rn_listening := False, rn_acceptErr := []\<rparr>)"
    using S' S(2) by (simp add: loop_done_def after_shutdown_def)
  moreover have "run_inv (y\<lparr>rn_server := S', rn_result := Some None, rn_listening := False, rn_acceptErr := []\<rparr>)"
    using S' assms(2) by (simp add: run_inv_def)
  ultimately show ?thesis by simp
qed

lemma run_step_inv:
  assumes "local_cb cb" "run_step K cb netErrClosed y y'" "run_inv y"
  shows "run_inv y'"
  using assms(2)
proof cases
  case (g_accepts nc)
  with assms(3) show ?thesis by (auto simp: run_inv_def acceptor_conn_def offered_def split: option.splits)
next
  case (g_fails e)
  with assms(3) show ?thesis by (auto simp: run_inv_def acceptor_error_def offered_def split: option.splits)
next
  case (g_quits nc)
  with assms(3) show ?thesis
    by (auto simp: run_inv_def acceptor_quit_def offered_def closed_log_inv split: option.splits)
next
  case (l_done order)
  with loop_done_effect [OF assms(1,3), of order K] show ?thesis by auto
next
  case (l_accept nc)
  with assms(3) run_accept_inv [OF assms(1), of "rn_server y" K nc] show ?thesis
    by (auto simp: run_inv_def loop_accept_def offered_def run_accept_finite)
next
  case (l_reap S')
  have S: "server_inv (rn_server y)" using assms(3) by (simp add: run_inv_def)
  obtain a rest where o: "s_outgoing (rn_server y) = a # rest"
    using l_reap(3) by (cases "s_outgoing (rn_server y)") (auto simp: run_outgoing_def)
  have "S' = removeConn a ((rn_server y)\<lparr>s_outgoing := rest\<rparr>)"
    using l_reap(3) run_outgoing_step [OF S o, of K cb] by simp
  with l_reap outgoing_tail_inv [OF S o] assms(3) show ?thesis by (simp add: run_inv_def)
next
  case (l_error e order)
  have y: "run_inv (y\<lparr>rn_acceptErr := []\<rparr>)" using assms(3) by (simp add: run_inv_def split: option.splits)
  have g: "rn_acceptor y = Gone" using l_error(2) assms(3) by (simp add: run_inv_def)
  show ?thesis
  proof (cases "s_ctx (rn_server y) \<noteq> None \<or> s_shuttingDown (rn_server y)")
    case True
    with l_error loop_done_effect [OF assms(1) y, of order K] show ?thesis by (auto simp: loop_error_def)
  next
    case False
    with l_error have "\<exists>res. y' = y\<lparr>rn_acceptErr := [], rn_result := Some res\<rparr>"
      by (auto simp: loop_error_def run_acceptErr_def Let_def split: if_splits)
    with y g l_error(1) show ?thesis by (auto simp: run_inv_def)
  qed
next
  case (c_abort a S')
  have "server_inv (rn_server y)" using assms(3) by (simp add: run_inv_def)
  with c_abort abort_conn_effect [OF assms(1), of "rn_server y" a K False] show ?thesis
    using run_inv_server [OF assms(3)] by auto
next
  case (c_close a err W)
  have "server_inv (rn_server y)" using assms(3) by (simp add: run_inv_def)
  with c_close close_in_server [OF assms(1), of "rn_server y" a K False] show ?thesis
    using run_inv_server [OF assms(3)] by (auto simp: tcpConn_Close_def)
next
  case c_stop
  with assms(3) show ?thesis
    using run_inv_server [OF assms(3), of "Stop (rn_server y)"] by (simp add: run_inv_def server_inv_def Stop_def)
qed

lemma run_start_inv: "Run_start listen ctx (NewTcpServer addr h opts app) = Inr y \<Longrightarrow> run_inv y"
  by (auto simp: Run_start_def run_inv_def offered_def NewTcpServer_def server_inv_def Let_def split: option.splits)

interpretation run_ts: transition_system "run_step K cb netErrClosed" "\<lambda>y. local_cb cb \<and> run_inv y"
  for K cb netErrClosed
  by unfold_locales (auto intro: run_step_inv)

subsection \<open>Properties\<close>


definition demo_run :: "(unit, (uint8 \<times> proto_message option) list) server_run" where
  "demo_run = \<lparr>rn_server = demo_server, rn_listening = True, rn_acceptor = Accepting, rn_acceptErr = [], rn_result = None,
     rn_accepted = [], rn_received = [], rn_dropped = []\<rparr>"

lemma demo_run_start: "Run_start (\<lambda>_. None) None (NewTcpServer '':1'' (Some ()) None []) = Inr demo_run"
  by (simp add: Run_start_def demo_run_def demo_server_def NewTcpServer_def Let_def)


text \<open>
  When accepting fails while the server is neither stopped nor shutting down, \<open>Run\<close> returns
  without a shutdown: the table of connections and every connection object stay as they
  are, and the listener stays open.
\<close>

theorem accept_error_leaves_all:
  assumes "rn_result y = None" and "s_ctx (rn_server y) = None" and "\<not> s_shuttingDown (rn_server y)"
  shows "\<exists>y'. loop_error K cb netErrClosed order e y = Ret y' \<and>
    rn_result y' = Some (if e = netErrClosed then None else Some e) \<and>
    rn_server y' = rn_server y \<and> rn_listening y' = rn_listening y"
  using assms by (simp add: loop_error_def run_acceptErr_def Let_def)

end
