(* ===== verification/Shutdown_Timing.thy ===== *)
theory Shutdown_Timing
  imports Tcp_Server
begin

text \<open>
  The time a server takes to shut down (\<open>closeConns\<close> and \<open>waitConns\<close> of
  \<open>pkg/network/tcp_server.go\<close> with their time-outs).  \<open>Tcp_Server\<close> has the effect of a
  shutdown whose calls all return; here every \<open>abortClose\<close> and every read loop takes a time
  of its own or never ends, because an event handler may block in \<open>OnClose\<close>.
\<close>

subsection \<open>Waiting with a limit\<close>

definition defaultShutdownWait :: duration where
  "defaultShutdownWait = 5000000000"

definition closeConnsTimeout :: duration where
  "closeConnsTimeout = 2000000000"

text \<open>
  The calls of the closing goroutine run one after the other.  \<open>None\<close> is a call that does
  not return.  \<open>closed_by\<close> counts those that have returned at the limit, \<open>finish\<close> is the
  time at which the goroutine closes its channel.
\<close>

fun closed_by :: "duration \<Rightarrow> duration \<Rightarrow> duration option list \<Rightarrow> nat" where
  "closed_by limit used [] = 0"
| "closed_by limit used (None # ds) = 0"
| "closed_by limit used (Some d # ds) = (if used + d \<le> limit then Suc (closed_by limit (used + d) ds) else 0)"

fun finish :: "duration \<Rightarrow> duration option list \<Rightarrow> duration option" where
  "finish used [] = Some used"
| "finish used (None # ds) = None"
| "finish used (Some d # ds) = finish (used + d) ds"

text \<open>The \<open>select\<close> on the channel and \<open>time.After\<close>.\<close>

definition select_after :: "duration \<Rightarrow> duration option \<Rightarrow> duration" where
  "select_after limit t = (case t of None \<Rightarrow> limit | Some u \<Rightarrow> min u limit)"

text \<open>
  \<open>closeConns\<close>: the time it takes, the connections its goroutine still has to close when it
  returns, and the state at that moment.
\<close>

definition closeConns_timed ::
  "kernel \<Rightarrow> ('e, 'h) callbacks \<Rightarrow> nat list \<Rightarrow> duration option list \<Rightarrow> ('e, 'h) TcpServer
    \<Rightarrow> (duration \<times> nat list \<times> ('e, 'h) TcpServer) outcome" where
  "closeConns_timed K cb order ds S =
     (let n = closed_by closeConnsTimeout 0 ds in
      bind_outcome (abort_all K cb (take n order) (S\<lparr>s_conns := Map.empty\<rparr>))
        (\<lambda>S1. Ret (select_after closeConnsTimeout (finish 0 ds), drop n order, S1)))"

text \<open>\<open>connWG.Wait\<close> returns when the last read loop has ended.\<close>

fun wg_wait :: "duration option list \<Rightarrow> duration option" where
  "wg_wait [] = Some 0"
| "wg_wait (None # rs) = None"
| "wg_wait (Some r # rs) = map_option (max r) (wg_wait rs)"

definition waitConns :: "duration option list \<Rightarrow> duration" where
  "waitConns readers = select_after defaultShutdownWait (wg_wait readers)"

definition shutdown_timed ::
  "kernel \<Rightarrow> ('e, 'h) callbacks \<Rightarrow> nat list \<Rightarrow> duration option list \<Rightarrow> duration option list \<Rightarrow> ('e, 'h) TcpServer
    \<Rightarrow> (duration \<times> nat list \<times> ('e, 'h) TcpServer) outcome" where
  "shutdown_timed K cb order ds readers S =
     (if s_shuttingDown S then Ret (0, [], S)
      else bind_outcome (closeConns_timed K cb order ds (S\<lparr>s_shuttingDown := True\<rparr>))
        (\<lambda>(t, rest, S1). Ret (t + waitConns readers, rest, drainOutgoing S1)))"

subsection \<open>Times\<close>

definition passing :: "duration option list \<Rightarrow> bool" where
  "passing ds \<longleftrightarrow> (\<forall>d. Some d \<in> set ds \<longrightarrow> 0 \<le> d)"

lemma passing_simps [simp]:
  "passing []" "passing (None # ds) = passing ds" "passing (Some d # ds) \<longleftrightarrow> 0 \<le> d \<and> passing ds"
  by (auto simp: passing_def)

lemma finish_later: "passing ds \<Longrightarrow> finish used ds = Some u \<Longrightarrow> used \<le> u"
  by (induction used ds rule: finish.induct) auto

lemma closed_by_all:
  "passing ds \<Longrightarrow> used \<le> limit \<Longrightarrow>
    length ds \<le> closed_by limit used ds \<longleftrightarrow> (\<exists>u \<le> limit. finish used ds = Some u)"
  by (induction limit used ds rule: closed_by.induct) (auto dest: finish_later)

lemma wg_wait_nonneg: "wg_wait rs = Some t \<Longrightarrow> 0 \<le> t"
  by (induction rs arbitrary: t rule: wg_wait.induct) (auto simp: le_max_iff_disj)

lemma select_after_bounds: "0 \<le> limit \<Longrightarrow> (\<And>u. t = Some u \<Longrightarrow> 0 \<le> u) \<Longrightarrow> select_after limit t \<in> {0..limit}"
  by (cases t) (simp_all add: select_after_def)

subsection \<open>The rest of the closing goroutine\<close>

text \<open>
  Closing a connection that does not report to the channel commutes with emptying the
  channel, so it does not matter whether \<open>shutdown\<close> has drained the channel when the
  goroutine goes on after the time-out.
\<close>

lemma outgoing_commute:
  "upd_conn f (W\<lparr>w_outgoing := q\<rparr>) = (upd_conn f W)\<lparr>w_outgoing := q\<rparr>"
  "spawn t (W\<lparr>w_outgoing := q\<rparr>) = (spawn t W)\<lparr>w_outgoing := q\<rparr>"
  "raw_close K nc (W\<lparr>w_outgoing := q\<rparr>) = (fst (raw_close K nc W), (snd (raw_close K nc W))\<lparr>w_outgoing := q\<rparr>)"
  by (simp_all add: upd_conn_def spawn_def raw_close_def)

lemma OnClose_outgoing:
  assumes "c_skipOutgoing (w_conn W)"
  shows "tcpConn_OnClose (app_cb A) (W\<lparr>w_outgoing := q\<rparr>) = (tcpConn_OnClose (app_cb A) W)\<lparr>w_outgoing := q\<rparr>"
  using assms by (simp add: tcpConn_OnClose_def app_cb_def app_handler_def Let_def split: option.split)

text \<open>\<open>close\<close> of an open connection in two parts: the flags before the callback, the socket after it.\<close>

definition close_flags :: "('e, 'h) world \<Rightarrow> ('e, 'h) world" where
  "close_flags W =
     (let W1 = upd_conn (c_closed_update (\<lambda>_. True)) (upd_conn (c_closeOnce_update (\<lambda>_. True)) W) in
      if c_closeChan (w_conn W1) = ChanNil then W1 else upd_conn (c_closeChan_update (\<lambda>_. ChanClosed)) W1)"

definition close_socket :: "kernel \<Rightarrow> bool \<Rightarrow> ('e, 'h) world \<Rightarrow> (error option \<times> ('e, 'h) world) outcome" where
  "close_socket K abort W =
     (case c_conn (w_conn W) of
        None \<Rightarrow> Panic ''invalid memory address or nil pointer dereference''
      | Some nc \<Rightarrow>
         (let W4 = upd_conn (c_conn_update (\<lambda>_. None)) W in
          if abort then
            (let W5 = spawn (RawClose (abort_socket K nc)) W4
             in Ret (None, if wants_reconnect (w_conn W5) then spawn ReconnectLoop W5 else W5))
          else Ret (raw_close K nc W4)))"

lemma close_parts:
  assumes "\<not> c_closeOnce (w_conn W)" and "c_conn (w_conn W) = Some nc" and "c_closeChan (w_conn W) \<noteq> ChanClosed"
  shows "tcpConn_close K cb abort W = close_socket K abort (tcpConn_OnClose cb (close_flags W))"
  using assms by (simp add: tcpConn_close_def close_socket_def close_flags_def Let_def)

lemma close_flags_outgoing: "close_flags (W\<lparr>w_outgoing := q\<rparr>) = (close_flags W)\<lparr>w_outgoing := q\<rparr>"
  by (simp add: close_flags_def Let_def outgoing_commute)

lemma close_socket_outgoing:
  "close_socket K abort (W\<lparr>w_outgoing := q\<rparr>) =
    bind_outcome (close_socket K abort W) (\<lambda>(e, W'). Ret (e, W'\<lparr>w_outgoing := q\<rparr>))"
  by (cases "c_conn (w_conn W)"; cases abort) (simp_all add: close_socket_def Let_def outgoing_commute split_def)

lemma close_outgoing:
  assumes "c_skipOutgoing (w_conn W)"
  shows "tcpConn_close K (app_cb A) abort (W\<lparr>w_outgoing := q\<rparr>) =
    bind_outcome (tcpConn_close K (app_cb A) abort W) (\<lambda>(e, W'). Ret (e, W'\<lparr>w_outgoing := q\<rparr>))"
proof (cases "c_closeOnce (w_conn W) \<or> c_conn (w_conn W) = None \<or> c_closeChan (w_conn W) = ChanClosed")
  case True
  then show ?thesis by (auto simp: tcpConn_close_def Let_def outgoing_commute)
next
  case False
  then obtain nc where nc: "c_conn (w_conn W) = Some nc" by auto
  have "c_skipOutgoing (w_conn (close_flags W))" using assms by (simp add: close_flags_def Let_def)
  with False nc show ?thesis
    by (simp add: close_parts [of _ nc] close_flags_outgoing OnClose_outgoing close_socket_outgoing)
qed

lemma abort_conn_outgoing:
  "abort_conn K (app_cb A) True a (S\<lparr>s_outgoing := q\<rparr>) =
    bind_outcome (abort_conn K (app_cb A) True a S) (\<lambda>S'. Ret (S'\<lparr>s_outgoing := q\<rparr>))"
proof -
  let ?W = "upd_conn (c_skipOutgoing_update (\<lambda>_. True)) (conn_world a S)"
  have w: "upd_conn (c_skipOutgoing_update (\<lambda>_. True)) (conn_world a (S\<lparr>s_outgoing := q\<rparr>)) = ?W\<lparr>w_outgoing := q\<rparr>"
    by (simp add: upd_conn_def conn_world_def)
  have "c_skipOutgoing (w_conn ?W)" by (simp add: upd_conn_def)
  from close_outgoing [OF this, of K A True q] show ?thesis
    by (cases "tcpConn_close K (app_cb A) True ?W") (auto simp: abort_conn_def tcpConn_abortClose_def w put_world_def split: prod.splits)
qed

lemma abort_all_outgoing:
  "abort_all K (app_cb A) as (S\<lparr>s_outgoing := q\<rparr>) =
    bind_outcome (abort_all K (app_cb A) as S) (\<lambda>S'. Ret (S'\<lparr>s_outgoing := q\<rparr>))"
proof (induction as arbitrary: S)
  case (Cons a as)
  show ?case
    by (cases "abort_conn K (app_cb A) True a S") (simp_all add: abort_conn_outgoing Cons.IH)
qed simp

lemma abort_all_append: "abort_all K cb (as @ bs) S = bind_outcome (abort_all K cb as S) (abort_all K cb bs)"
proof (induction as arbitrary: S)
  case (Cons a as)
  show ?case by (cases "abort_conn K cb True a S") (simp_all add: Cons.IH)
qed simp

lemma drain_empty: "s_conns S = Map.empty \<Longrightarrow> drainOutgoing S = S\<lparr>s_outgoing := []\<rparr>"
proof (induction S rule: drainOutgoing.induct)
  case (1 S)
  show ?case
  proof (cases "s_outgoing S")
    case (Cons a rest)
    have "removeConn a (S\<lparr>s_outgoing := rest\<rparr>) = S\<lparr>s_outgoing := rest\<rparr>"
      using 1(2) by (simp add: removeConn_def fun_upd_idem)
    with 1(1) [OF Cons] 1(2) Cons show ?thesis by (simp add: drainOutgoing.simps [of S])
  qed (simp add: drainOutgoing.simps [of S])
qed

lemma closing_in_parts:
  assumes "server_inv S" and "\<forall>a \<in> set (as @ bs). a < length (s_heap S)" and "s_conns S = Map.empty"
  shows "\<exists>S1. abort_all K (app_cb A) as S = Ret S1 \<and> s_conns S1 = Map.empty \<and>
    (\<forall>a \<in> set as. c_closeOnce (s_heap S1 ! a) \<and> c_conn (s_heap S1 ! a) = None) \<and>
    abort_all K (app_cb A) bs (drainOutgoing S1) =
      bind_outcome (abort_all K (app_cb A) (as @ bs) S) (\<lambda>S2. Ret (drainOutgoing S2))"
proof -
  obtain S1 where S1: "abort_all K (app_cb A) as S = Ret S1" "server_inv S1" "s_conns S1 = Map.empty"
    "length (s_heap S1) = length (s_heap S)" "\<forall>a \<in> set as. c_closeOnce (s_heap S1 ! a)"
    using abort_all_effect [OF local_app_cb assms(1), of as K A] assms(2,3) by auto
  obtain S2 where S2: "abort_all K (app_cb A) bs S1 = Ret S2" "s_conns S2 = Map.empty"
    using abort_all_effect [OF local_app_cb S1(2), of bs K A] assms(2) S1(3,4) by auto
  have "abort_all K (app_cb A) bs (drainOutgoing S1) = Ret (drainOutgoing S2)"
    using S2 abort_all_outgoing [of K A bs "[]" S1] by (simp add: drain_empty S1(3))
  moreover have "\<forall>a \<in> set as. c_conn (s_heap S1 ! a) = None"
    using S1(4,5) assms(2) heap_inv [OF S1(2)] by (simp add: sconn_inv_def)
  ultimately show ?thesis using S1 S2 by (simp add: abort_all_append)
qed

lemma shutdown_timed_returns:
  assumes "shutdown_timed K cb order ds readers S = Ret (t, rest, S')" and "\<not> s_shuttingDown S"
  shows "t = select_after closeConnsTimeout (finish 0 ds) + waitConns readers \<and> rest = drop (closed_by closeConnsTimeout 0 ds) order"
  using assms
  by (cases "abort_all K cb (take (closed_by closeConnsTimeout 0 ds) order) (S\<lparr>s_shuttingDown := True, s_conns := Map.empty\<rparr>)")
    (auto simp: shutdown_timed_def closeConns_timed_def Let_def)

subsection \<open>Properties\<close>

text \<open>
  C10: a shutdown always returns, after at most seven seconds, even when handlers or read loops
  never return.  When it returns the table and the channel are empty and the connections whose
  closing returned within the first two seconds are closed and hold no socket; all are, exactly
  if closing them takes no longer than that.  The remaining ones are left to the goroutine, and
  if their handlers return after all, the server ends in the state of a shutdown without a
  time-out.
\<close>

theorem shutdown_in_time:
  assumes "server_inv S" and "set order = ran (s_conns S)" and "\<not> s_shuttingDown S"
    and "length ds = length order" and "passing ds"
  shows "\<exists>t rest S'. shutdown_timed K (app_cb A) order ds readers S = Ret (t, rest, S') \<and> 0 \<le> t \<and> t \<le> 7000000000 \<and>
    s_conns S' = Map.empty \<and> s_outgoing S' = [] \<and>
    (\<exists>closed. order = closed @ rest \<and> (\<forall>a \<in> set closed. c_closeOnce (s_heap S' ! a) \<and> c_conn (s_heap S' ! a) = None)) \<and>
    (rest = [] \<longleftrightarrow> (\<exists>u \<le> 2000000000. finish 0 ds = Some u)) \<and>
    abort_all K (app_cb A) rest S' = shutdown K (app_cb A) order S"
proof -
  define T where "T = S\<lparr>s_shuttingDown := True, s_conns := Map.empty\<rparr>"
  define n where "n = closed_by closeConnsTimeout 0 ds"
  have T: "server_inv T" "\<forall>a \<in> set (take n order @ drop n order). a < length (s_heap T)" "s_conns T = Map.empty"
    using assms(1,2) conns_in_heap [OF assms(1)] by (auto simp: T_def server_inv_def)
  from closing_in_parts [OF this, of K A] obtain S1 where
    S1: "abort_all K (app_cb A) (take n order) T = Ret S1" "s_conns S1 = Map.empty"
    "\<forall>a \<in> set (take n order). c_closeOnce (s_heap S1 ! a) \<and> c_conn (s_heap S1 ! a) = None"
    "abort_all K (app_cb A) (drop n order) (drainOutgoing S1) =
      bind_outcome (abort_all K (app_cb A) order T) (\<lambda>S2. Ret (drainOutgoing S2))"
    by auto
  let ?t = "select_after closeConnsTimeout (finish 0 ds)"
  have run: "shutdown_timed K (app_cb A) order ds readers S = Ret (?t + waitConns readers, drop n order, drainOutgoing S1)"
    using assms(3) S1(1) by (simp add: shutdown_timed_def closeConns_timed_def n_def [symmetric] T_def)
  have "?t \<in> {0..2000000000}" "waitConns readers \<in> {0..5000000000}"
    using select_after_bounds [of closeConnsTimeout "finish 0 ds"] finish_later [OF assms(5)]
      select_after_bounds [of defaultShutdownWait "wg_wait readers"] wg_wait_nonneg [of readers]
    by (simp_all add: closeConnsTimeout_def defaultShutdownWait_def waitConns_def)
  moreover have "drop n order = [] \<longleftrightarrow> (\<exists>u \<le> 2000000000. finish 0 ds = Some u)"
    using closed_by_all [OF assms(5), of 0 closeConnsTimeout] assms(4) by (simp add: n_def closeConnsTimeout_def)
  moreover have "shutdown K (app_cb A) order S = abort_all K (app_cb A) (drop n order) (drainOutgoing S1)"
    using assms(3) S1(4) by (simp add: shutdown_def closeConns_def T_def)
  moreover have "order = take n order @ drop n order" by simp
  ultimately show ?thesis
    using run S1(2,3) by (intro exI [of _ "?t + waitConns readers"] exI [of _ "drop n order"] exI [of _ "drainOutgoing S1"])
      (auto simp: drain_empty intro!: exI [of _ "take n order"])
qed

text \<open>One handler returns after a second, the other one blocks, and so does a read loop.\<close>

theorem shutdown_in_time_witness:
  "\<exists>t S'. shutdown_timed demo_kernel (app_cb (\<lambda>_. recorder)) [0, 1] [Some 1000000000, None] [Some 3, None] (busy_server 3) =
      Ret (t, [1], S') \<and> t = 7000000000 \<and> c_conn (s_heap S' ! 0) = None \<and>
    abort_all demo_kernel (app_cb (\<lambda>_. recorder)) [1] S' = shutdown demo_kernel (app_cb (\<lambda>_. recorder)) [0, 1] (busy_server 3)"
proof -
  let ?cb = "app_cb (\<lambda>_. recorder)" and ?ds = "[Some 1000000000, None]"
  have b: "set [0, 1] = ran (s_conns (busy_server 3))" "\<not> s_shuttingDown (busy_server 3)"
    by (auto simp: busy_defs ran_def split: if_splits intro: exI [of _ "2 :: uint32"] exI [of _ "3 :: uint32"])
  from shutdown_in_time [OF busy_server_inv b, of ?ds demo_kernel "\<lambda>_. recorder" "[Some 3, None]"]
  obtain t rest S' where r: "shutdown_timed demo_kernel ?cb [0, 1] ?ds [Some 3, None] (busy_server 3) = Ret (t, rest, S')"
    "\<exists>closed. [0, 1] = closed @ rest \<and> (\<forall>a \<in> set closed. c_closeOnce (s_heap S' ! a) \<and> c_conn (s_heap S' ! a) = None)"
    "abort_all demo_kernel ?cb rest S' = shutdown demo_kernel ?cb [0, 1] (busy_server 3)"
    by auto
  have "rest = [1] \<and> t = 7000000000"
    using shutdown_timed_returns [OF r(1) b(2)]
    by (simp add: closeConnsTimeout_def defaultShutdownWait_def waitConns_def select_after_def)
  with r show ?thesis by auto
qed

end
