(* ===== verification/Conn_Writers.thy ===== *)
theory Conn_Writers
  imports Packet
begin

text \<open>
  Concurrent writers of one connection.  \<open>WritePacket\<close> is called by the user's goroutines, by
  the callbacks of the read loop and by the heartbeat; \<open>tcpConn.Write\<close> may be called as
  well.  The calls run interleaved here, one shared access at a time: the two mutexes
  (\<open>tcpWriter.mu\<close> and \<open>tcpConn.writeMu\<close>), the buffer of the writer, the fields \<open>conn\<close>,
  \<open>closed\<close> and \<open>writer\<close> of the connection, and the writes of the socket, while
  \<open>Connect\<close>, \<open>close\<close> and \<open>reconnect\<close> replace those fields.  A socket and a writer are
  numbers, in the order in which they were created, because a call may still hold the writer
  of an earlier session.
\<close>

subsection \<open>Calls and program counters\<close>

datatype wcall =
    CallPacket uint8 uint8 proto_message
  | CallWrite bytes

text \<open>
  The slice that \<open>tcpConn.Write\<close> got: \<open>w.buff[off:]\<close> of writer \<open>g\<close>, which aliases the shared
  buffer, or bytes that belong to the caller.
\<close>

datatype src = SrcBuf nat nat | SrcOwn bytes

datatype wpc =
    P_check nat
  | P_lock nat bytes
  | P_size nat bytes
  | P_store nat bytes nat
  | P_send nat nat
  | W_check src
  | W_lock src
  | W_conn src
  | W_raw src nat nat
  | W_unlock src nat "error option"
  | W_panic src
  | P_unlock nat "error option"
  | P_panic nat
  | Finished "error option"
  | Crashed

record wshared =
  s_conn :: "nat option"
  s_closed :: bool
  s_writer :: nat
  s_bufs :: "nat \<Rightarrow> slice"
  s_mus :: "nat \<Rightarrow> nat option"
  s_writeMu :: "nat option"
  s_wires :: "nat \<Rightarrow> bytes"
  s_socks :: nat
  s_writers :: nat
  s_dropped :: bool
  s_log :: "(nat \<times> nat \<times> wcall \<times> nat \<times> error option) list"

text \<open>
  \<open>s_wires\<close> holds the bytes each socket accepted.  \<open>s_dropped\<close> (the field \<open>conn\<close> was set to
  nil) and \<open>s_log\<close> (socket, call, arguments, number of bytes and error of each finished
  \<open>writeAll\<close> on a socket) only record what happened; no step reads them.
\<close>

definition fresh_buf :: slice where
  "fresh_buf = w_buff newWriter"

definition winit :: wshared where
  "winit = \<lparr>s_conn = Some 0, s_closed = False, s_writer = 0, s_bufs = (\<lambda>_. fresh_buf),
     s_mus = (\<lambda>_. None), s_writeMu = None, s_wires = (\<lambda>_. []), s_socks = 1, s_writers = 1,
     s_dropped = False, s_log = []\<rparr>"

subsection \<open>The steps of a call\<close>

text \<open>The stores of \<open>WritePacket\<close> (lines 50 to 56), one by one.\<close>

definition packet_store :: "nat \<Rightarrow> uint8 \<Rightarrow> uint8 \<Rightarrow> bytes \<Rightarrow> bytes \<Rightarrow> bytes" where
  "packet_store k cmd sub data b =
     (if k = 0 then copy_at 0 b (BE_bytes16 (of_nat (length data)))
      else if k = 1 then b[2 := cmd]
      else if k = 2 then b[3 := sub]
      else if k = 3 then b[4 := Version]
      else if k = 4 then copy_at 5 b (BE_bytes16 Flags)
      else if k = 5 then b[7 := Reserved]
      else copy_at HeaderSize b data)"

definition set_buf :: "nat \<Rightarrow> slice \<Rightarrow> wshared \<Rightarrow> wshared" where
  "set_buf g b S = S\<lparr>s_bufs := (s_bufs S)(g := b)\<rparr>"

definition set_mu :: "nat \<Rightarrow> nat option \<Rightarrow> wshared \<Rightarrow> wshared" where
  "set_mu g m S = S\<lparr>s_mus := (s_mus S)(g := m)\<rparr>"

fun read_src :: "wshared \<Rightarrow> src \<Rightarrow> bytes" where
  "read_src S (SrcBuf g off) = drop off (contents (s_bufs S g))"
| "read_src S (SrcOwn p) = p"

text \<open>What the caller of \<open>tcpConn.Write\<close> does with its result, and with its panic.\<close>

fun write_return :: "src \<Rightarrow> nat \<Rightarrow> error option \<Rightarrow> wpc" where
  "write_return (SrcOwn p) n err = Finished err"
| "write_return (SrcBuf g off) n (Some e) = P_unlock g (Some e)"
| "write_return (SrcBuf g off) n None = P_send g (off + n)"

fun write_panic :: "src \<Rightarrow> wpc" where
  "write_panic (SrcOwn p) = Crashed"
| "write_panic (SrcBuf g off) = P_panic g"

text \<open>
  \<open>tcpWriter.WritePacket\<close>: the checks and the marshalling before the lock, the lock, the
  buffer, the stores, the loop of \<open>writeAll\<close> on the connection, the deferred unlock.
\<close>

fun packet_step ::
  "marshal \<Rightarrow> nat \<Rightarrow> uint8 \<Rightarrow> uint8 \<Rightarrow> proto_message \<Rightarrow> wpc \<Rightarrow> wshared \<Rightarrow> (wpc \<times> wshared) option" where
  "packet_step mar t cmd sub pkt (P_check g) S =
     (if s_closed S then Some (Finished (Some ErrNoReady), S)
      else (case mar pkt of
          Inl e \<Rightarrow> Some (Finished (Some e), S)
        | Inr data \<Rightarrow>
            if maxPacketSize < length data then Some (Finished (Some ErrPacketTooLarge), S)
            else Some (P_lock g data, S)))"
| "packet_step mar t cmd sub pkt (P_lock g data) S =
     (if s_mus S g = None then Some (P_size g data, set_mu g (Some t) S) else None)"
| "packet_step mar t cmd sub pkt (P_size g data) S =
     Some (P_store g data 0, set_buf g (ensure (HeaderSize + length data) (s_bufs S g)) S)"
| "packet_step mar t cmd sub pkt (P_store g data k) S =
     (if k < 7 then
        Some (P_store g data (Suc k),
          set_buf g ((s_bufs S g)\<lparr>backing := packet_store k cmd sub data (backing (s_bufs S g))\<rparr>) S)
      else Some (P_send g 0, S))"
| "packet_step mar t cmd sub pkt (P_send g off) S =
     (if off < length (contents (s_bufs S g)) then Some (W_check (SrcBuf g off), S)
      else Some (P_unlock g None, S))"
| "packet_step mar t cmd sub pkt (P_unlock g err) S = Some (Finished err, set_mu g None S)"
| "packet_step mar t cmd sub pkt (P_panic g) S = Some (Crashed, set_mu g None S)"
| "packet_step mar t cmd sub pkt _ S = None"

text \<open>
  \<open>tcpConn.Write\<close> and the \<open>writeAll\<close> it runs on the socket.  The answer \<open>(n, err)\<close> of the
  socket's \<open>Write\<close> comes from outside; by its contract it wrote \<open>n\<close> of the bytes it got.
  \<open>c.conn\<close> is read again after the lock: a nil interface there makes the call panic, unless
  there is nothing to write.
\<close>

fun write_step ::
  "nat \<Rightarrow> wcall \<Rightarrow> nat \<Rightarrow> error option \<Rightarrow> wpc \<Rightarrow> wshared \<Rightarrow> (wpc \<times> wshared) option" where
  "write_step t call n err (W_check p) S =
     (if s_conn S = None \<or> s_closed S then Some (write_return p 0 (Some ErrClosed), S)
      else Some (W_lock p, S))"
| "write_step t call n err (W_lock p) S =
     (if s_writeMu S = None then Some (W_conn p, S\<lparr>s_writeMu := Some t\<rparr>) else None)"
| "write_step t call n err (W_conn p) S =
     (case s_conn S of
        Some s \<Rightarrow> Some (W_raw p s 0, S)
      | None \<Rightarrow>
          if read_src S p = [] then Some (W_unlock p 0 None, S) else Some (W_panic p, S))"
| "write_step t call n err (W_raw p s off) S =
     (let rest = drop off (read_src S p) in
      if rest = [] then
        Some (W_unlock p off None, S\<lparr>s_log := s_log S @ [(s, t, call, off, None)]\<rparr>)
      else if length rest < n then None
      else
        (let S' = S\<lparr>s_wires := (s_wires S)(s := s_wires S s @ take n rest)\<rparr> in
         case err of
           None \<Rightarrow> Some (W_raw p s (off + n), S')
         | Some e \<Rightarrow>
             Some (W_unlock p (off + n) err,
               S'\<lparr>s_log := s_log S @ [(s, t, call, off + n, err)]\<rparr>)))"
| "write_step t call n err (W_unlock p k e) S = Some (write_return p k e, S\<lparr>s_writeMu := None\<rparr>)"
| "write_step t call n err (W_panic p) S = Some (write_panic p, S\<lparr>s_writeMu := None\<rparr>)"
| "write_step t call n err _ S = None"

text \<open>One step of call \<open>t\<close>; \<open>None\<close> when it waits for a mutex or is over.\<close>

definition go_step ::
  "marshal \<Rightarrow> nat \<Rightarrow> wcall \<Rightarrow> nat \<Rightarrow> error option \<Rightarrow> wpc \<Rightarrow> wshared \<Rightarrow> (wpc \<times> wshared) option" where
  "go_step mar t call n err pc S =
     (case write_step t call n err pc S of
        Some r \<Rightarrow> Some r
      | None \<Rightarrow>
         (case call of
            CallPacket cmd sub pkt \<Rightarrow> packet_step mar t cmd sub pkt pc S
          | CallWrite p \<Rightarrow> None))"

subsection \<open>The connection around them\<close>

type_synonym wstate = "wshared \<times> (nat \<rightharpoonup> wcall \<times> wpc)"

datatype wact =
    Call nat wcall
  | Run nat nat "error option"
  | CloseFlag
  | CloseConn
  | ConnectSock
  | ReconnectSock
  | InitWriter
  | InitFailed

text \<open>
  \<open>Call\<close> starts a call, which for a packet reads \<open>c.writer\<close>.  \<open>CloseFlag\<close> and
  \<open>CloseConn\<close> are the two stores of \<open>close\<close>.  \<open>ConnectSock\<close> is the store of \<open>Connect\<close>,
  \<open>ReconnectSock\<close> that of \<open>reconnect\<close> (under \<open>writeMu\<close>), \<open>InitWriter\<close> that of \<open>initIO\<close>
  and \<open>InitFailed\<close> the way back when it fails.
\<close>

fun new_sock :: "wshared \<Rightarrow> wshared" where
  "new_sock S = S\<lparr>s_conn := Some (s_socks S), s_closed := False, s_socks := Suc (s_socks S)\<rparr>"

fun act_step :: "marshal \<Rightarrow> wact \<Rightarrow> wstate \<Rightarrow> wstate option" where
  "act_step mar (Call t call) (S, T) =
     (if T t = None then
        Some (S, T(t \<mapsto> (call, case call of
          CallPacket _ _ _ \<Rightarrow> P_check (s_writer S)
        | CallWrite p \<Rightarrow> W_check (SrcOwn p))))
      else None)"
| "act_step mar (Run t n err) (S, T) =
     (case T t of
        None \<Rightarrow> None
      | Some (call, pc) \<Rightarrow>
         (case go_step mar t call n err pc S of
            None \<Rightarrow> None
          | Some (pc', S') \<Rightarrow> Some (S', T(t \<mapsto> (call, pc')))))"
| "act_step mar CloseFlag (S, T) = (if s_conn S = None then None else Some (S\<lparr>s_closed := True\<rparr>, T))"
| "act_step mar CloseConn (S, T) =
     (if s_closed S then Some (S\<lparr>s_conn := None, s_dropped := True\<rparr>, T) else None)"
| "act_step mar ConnectSock (S, T) = Some (new_sock S, T)"
| "act_step mar ReconnectSock (S, T) = (if s_writeMu S = None then Some (new_sock S, T) else None)"
| "act_step mar InitWriter (S, T) =
     Some (S\<lparr>s_writer := s_writers S, s_bufs := (s_bufs S)(s_writers S := fresh_buf),
       s_writers := Suc (s_writers S)\<rparr>, T)"
| "act_step mar InitFailed (S, T) = Some (S\<lparr>s_conn := None, s_dropped := True\<rparr>, T)"

abbreviation run_acts :: "marshal \<Rightarrow> wact list \<Rightarrow> wstate \<Rightarrow> wstate option" where
  "run_acts mar \<equiv> run_actions (act_step mar)"

subsection \<open>What the calls owe\<close>

text \<open>The bytes a call is to put on the wire, and the calls whose packet can be sent at all.\<close>

definition unit_bytes :: "marshal \<Rightarrow> wcall \<Rightarrow> bytes" where
  "unit_bytes mar call = (case call of
       CallPacket cmd sub pkt \<Rightarrow> (case mar pkt of Inr d \<Rightarrow> frame cmd sub d | Inl _ \<Rightarrow> [])
     | CallWrite p \<Rightarrow> p)"

definition marshals :: "marshal \<Rightarrow> wcall \<Rightarrow> bytes \<Rightarrow> bool" where
  "marshals mar call d = (case call of
       CallPacket cmd sub pkt \<Rightarrow> mar pkt = Inr d \<and> length d \<le> maxPacketSize
     | CallWrite p \<Rightarrow> False)"

definition sendable :: "marshal \<Rightarrow> wcall \<Rightarrow> bool" where
  "sendable mar call = (case call of
       CallPacket cmd sub pkt \<Rightarrow> (case mar pkt of Inr d \<Rightarrow> length d \<le> maxPacketSize | Inl _ \<Rightarrow> False)
     | CallWrite p \<Rightarrow> True)"

fun is_packet :: "wcall \<Rightarrow> bool" where
  "is_packet (CallPacket cmd sub pkt) = True"
| "is_packet (CallWrite p) = False"

definition logged :: "wshared \<Rightarrow> nat \<Rightarrow> bool" where
  "logged S t = (t \<in> (\<lambda>e. fst (snd e)) ` set (s_log S))"

text \<open>All bytes of the call went to one socket, as one entry of the log.\<close>

definition delivered :: "marshal \<Rightarrow> wshared \<Rightarrow> nat \<Rightarrow> wcall \<Rightarrow> bool" where
  "delivered mar S t call =
     (unit_bytes mar call = [] \<or> (\<exists>s. (s, t, call, length (unit_bytes mar call), None) \<in> set (s_log S)))"

text \<open>The mutexes a program counter holds.\<close>

fun src_mu :: "src \<Rightarrow> nat option" where
  "src_mu (SrcBuf g off) = Some g"
| "src_mu (SrcOwn p) = None"

fun mu_of :: "wpc \<Rightarrow> nat option" where
  "mu_of (P_size g d) = Some g"
| "mu_of (P_store g d k) = Some g"
| "mu_of (P_send g off) = Some g"
| "mu_of (P_unlock g err) = Some g"
| "mu_of (P_panic g) = Some g"
| "mu_of (W_check p) = src_mu p"
| "mu_of (W_lock p) = src_mu p"
| "mu_of (W_conn p) = src_mu p"
| "mu_of (W_raw p s off) = src_mu p"
| "mu_of (W_unlock p n err) = src_mu p"
| "mu_of (W_panic p) = src_mu p"
| "mu_of _ = None"

fun holds_writeMu :: "wpc \<Rightarrow> bool" where
  "holds_writeMu (W_conn p) = True"
| "holds_writeMu (W_raw p s off) = True"
| "holds_writeMu (W_unlock p n err) = True"
| "holds_writeMu (W_panic p) = True"
| "holds_writeMu _ = False"

subsection \<open>The invariant\<close>

fun stores :: "nat \<Rightarrow> wcall \<Rightarrow> bytes \<Rightarrow> bytes \<Rightarrow> bytes" where
  "stores 0 call d b = b"
| "stores (Suc k) call d b = (case call of
     CallPacket cmd sub pkt \<Rightarrow> packet_store k cmd sub d (stores k call d b)
   | CallWrite p \<Rightarrow> b)"

fun src_ok :: "marshal \<Rightarrow> wshared \<Rightarrow> wcall \<Rightarrow> src \<Rightarrow> bool" where
  "src_ok mar S call (SrcOwn p) = (call = CallWrite p)"
| "src_ok mar S call (SrcBuf g off) =
     (g < s_writers S \<and> off = 0 \<and> is_packet call \<and> sendable mar call \<and>
      contents (s_bufs S g) = unit_bytes mar call)"

fun pc_ok :: "marshal \<Rightarrow> wshared \<Rightarrow> nat \<Rightarrow> wcall \<Rightarrow> wpc \<Rightarrow> bool" where
  "pc_ok mar S t call (P_check g) = (g < s_writers S \<and> is_packet call \<and> \<not> logged S t)"
| "pc_ok mar S t call (P_lock g d) = (g < s_writers S \<and> marshals mar call d \<and> \<not> logged S t)"
| "pc_ok mar S t call (P_size g d) = (g < s_writers S \<and> marshals mar call d \<and> \<not> logged S t)"
| "pc_ok mar S t call (P_store g d k) =
     (g < s_writers S \<and> marshals mar call d \<and> \<not> logged S t \<and> k \<le> 7 \<and> slen (s_bufs S g) = 8 + length d \<and>
      (\<exists>b. 8 + length d \<le> length b \<and> backing (s_bufs S g) = stores k call d b))"
| "pc_ok mar S t call (P_send g off) =
     (g < s_writers S \<and> is_packet call \<and> sendable mar call \<and> contents (s_bufs S g) = unit_bytes mar call \<and>
      (off = 0 \<and> \<not> logged S t \<or> off = length (unit_bytes mar call) \<and> delivered mar S t call))"
| "pc_ok mar S t call (W_check p) = (src_ok mar S call p \<and> \<not> logged S t)"
| "pc_ok mar S t call (W_lock p) = (src_ok mar S call p \<and> \<not> logged S t)"
| "pc_ok mar S t call (W_conn p) = (src_ok mar S call p \<and> \<not> logged S t)"
| "pc_ok mar S t call (W_raw p s off) =
     (src_ok mar S call p \<and> \<not> logged S t \<and> off \<le> length (unit_bytes mar call))"
| "pc_ok mar S t call (W_unlock p n err) =
     (src_ok mar S call p \<and> (err = None \<longrightarrow> n = length (unit_bytes mar call) \<and> delivered mar S t call))"
| "pc_ok mar S t call (W_panic p) = (src_ok mar S call p \<and> s_dropped S)"
| "pc_ok mar S t call (P_unlock g err) = (g < s_writers S \<and> is_packet call \<and> (err = None \<longrightarrow> delivered mar S t call))"
| "pc_ok mar S t call (P_panic g) = (g < s_writers S \<and> is_packet call \<and> s_dropped S)"
| "pc_ok mar S t call (Finished err) = (err = None \<longrightarrow> delivered mar S t call)"
| "pc_ok mar S t call Crashed = s_dropped S"

definition threads_ok :: "marshal \<Rightarrow> wstate \<Rightarrow> bool" where
  "threads_ok mar st = (\<forall>t call pc. snd st t = Some (call, pc) \<longrightarrow> pc_ok mar (fst st) t call pc)"

definition locks_ok :: "wstate \<Rightarrow> bool" where
  "locks_ok st =
     ((\<forall>g t. s_mus (fst st) g = Some t \<longleftrightarrow> (\<exists>call pc. snd st t = Some (call, pc) \<and> mu_of pc = Some g)) \<and>
      (\<forall>t. s_writeMu (fst st) = Some t \<longleftrightarrow> (\<exists>call pc. snd st t = Some (call, pc) \<and> holds_writeMu pc)))"

text \<open>The entries of one socket, and the bytes of an entry that were accepted.\<close>

definition sock_log :: "wshared \<Rightarrow> nat \<Rightarrow> (nat \<times> nat \<times> wcall \<times> nat \<times> error option) list" where
  "sock_log S s = filter (\<lambda>e. fst e = s) (s_log S)"

fun taken :: "marshal \<Rightarrow> nat \<times> nat \<times> wcall \<times> nat \<times> error option \<Rightarrow> bytes" where
  "taken mar (s, t, call, n, err) = take n (unit_bytes mar call)"

text \<open>The part of a unit that the holder of \<open>writeMu\<close> has written so far.\<close>

definition in_flight :: "marshal \<Rightarrow> wstate \<Rightarrow> nat \<Rightarrow> bytes" where
  "in_flight mar st s = (case s_writeMu (fst st) of
       None \<Rightarrow> []
     | Some t \<Rightarrow> (case snd st t of
         Some (call, W_raw p s' off) \<Rightarrow> if s' = s then take off (unit_bytes mar call) else []
       | _ \<Rightarrow> []))"

definition wires_ok :: "marshal \<Rightarrow> wstate \<Rightarrow> bool" where
  "wires_ok mar st =
     (\<forall>s. s_wires (fst st) s = concat (map (taken mar) (sock_log (fst st) s)) @ in_flight mar st s)"

fun entry_ok :: "marshal \<Rightarrow> nat \<times> nat \<times> wcall \<times> nat \<times> error option \<Rightarrow> bool" where
  "entry_ok mar (s, t, call, n, err) =
     (sendable mar call \<and> n \<le> length (unit_bytes mar call) \<and> (err = None \<longrightarrow> n = length (unit_bytes mar call)))"

definition log_ok :: "marshal \<Rightarrow> wshared \<Rightarrow> bool" where
  "log_ok mar S = (distinct (map (\<lambda>e. fst (snd e)) (s_log S)) \<and> list_all (entry_ok mar) (s_log S))"

definition conn_ok :: "wshared \<Rightarrow> bool" where
  "conn_ok S = ((s_conn S = None \<longrightarrow> s_dropped S) \<and> s_writer S < s_writers S)"

definition winv :: "marshal \<Rightarrow> wstate \<Rightarrow> bool" where
  "winv mar st \<longleftrightarrow> threads_ok mar st \<and> locks_ok st \<and> wires_ok mar st \<and>
     log_ok mar (fst st) \<and> conn_ok (fst st) \<and> (\<forall>t. snd st t = None \<longrightarrow> \<not> logged (fst st) t)"

lemma winv_init: "winv mar (winit, Map.empty)"
  by (simp add: winv_def winit_def threads_ok_def locks_ok_def wires_ok_def log_ok_def conn_ok_def
      sock_log_def in_flight_def logged_def)

subsection \<open>The buffer\<close>

lemma stores_fill: "stores 7 (CallPacket cmd sub pkt) d b = fill_packet cmd sub d b"
  by (simp add: numeral_eq_Suc packet_store_def fill_packet_def)

lemma stores_frame:
  assumes "slen b = 8 + length d" and "8 + length d \<le> length b0"
    and "backing b = stores 7 call d b0" and "marshals mar call d"
  shows "contents b = unit_bytes mar call"
  using assms
  by (cases call) (auto simp: contents_def stores_fill fill_packet_prefix marshals_def unit_bytes_def)

lemma marshals_packet: "marshals mar call d \<Longrightarrow> is_packet call \<and> sendable mar call"
  by (cases call) (auto simp: marshals_def sendable_def)

lemma src_bytes: "src_ok mar S call p \<Longrightarrow> read_src S p = unit_bytes mar call"
  by (cases p) (auto simp: unit_bytes_def)

lemma src_sendable: "src_ok mar S call p \<Longrightarrow> sendable mar call"
  by (cases p) (auto simp: sendable_def)

lemma unit_nonempty: "is_packet call \<Longrightarrow> sendable mar call \<Longrightarrow> unit_bytes mar call \<noteq> []"
  by (cases call)
     (auto simp: sendable_def unit_bytes_def frame_def BE_bytes16_def split: sum.splits)

subsection \<open>Steps of a call keep the invariant\<close>

lemma go_step_cases:
  assumes "go_step mar t call n err pc S = Some r"
  obtains "write_step t call n err pc S = Some r"
  | cmd sub pkt where "call = CallPacket cmd sub pkt" "packet_step mar t cmd sub pkt pc S = Some r"
  using assms by (auto simp: go_step_def split: option.splits wcall.splits)

lemma logged_simps [simp]:
  "logged (S\<lparr>s_writeMu := m\<rparr>) t = logged S t"
  "logged (S\<lparr>s_wires := w\<rparr>) t = logged S t"
  "logged (S\<lparr>s_log := s_log S @ [(s, t', c, k, e)]\<rparr>) t = (t = t' \<or> logged S t)"
  "logged (S\<lparr>s_wires := w, s_log := s_log S @ [(s, t', c, k, e)]\<rparr>) t = (t = t' \<or> logged S t)"
  "logged (set_mu g m S) t = logged S t"
  "logged (set_buf g b S) t = logged S t"
  by (auto simp: logged_def set_mu_def set_buf_def)

lemma delivered_simps [simp]:
  "delivered mar (S\<lparr>s_writeMu := m\<rparr>) t c = delivered mar S t c"
  "delivered mar (set_mu g m S) t c = delivered mar S t c"
  by (auto simp: delivered_def set_mu_def)

lemma src_ok_simps [simp]:
  "src_ok mar (S\<lparr>s_writeMu := m\<rparr>) c p = src_ok mar S c p"
  "src_ok mar (S\<lparr>s_wires := w\<rparr>) c p = src_ok mar S c p"
  "src_ok mar (S\<lparr>s_log := l\<rparr>) c p = src_ok mar S c p"
  "src_ok mar (set_mu g m S) c p = src_ok mar S c p"
  by (cases p; simp add: set_mu_def)+

lemma write_return_ok:
  assumes "src_ok mar S call p"
    and "err = None \<longrightarrow> n = length (unit_bytes mar call) \<and> delivered mar S t call"
  shows "pc_ok mar S t call (write_return p n err)"
  using assms by (cases p; cases err) auto

lemma write_step_pc_ok:
  assumes "write_step t call n err pc S = Some (pc', S')" and "pc_ok mar S t call pc" and "conn_ok S"
  shows "pc_ok mar S' t call pc'"
proof (cases pc)
  case (W_check p)
  with assms show ?thesis
    using write_return_ok [of mar S call p "Some ErrClosed" 0 t] by (auto split: if_splits)
next
  case (W_conn p)
  with assms src_bytes [of mar S call p] show ?thesis
    by (auto simp: conn_ok_def delivered_def split: if_splits option.splits)
next
  case (W_raw p s off)
  with assms src_bytes [of mar S call p] show ?thesis
    by (auto simp: Let_def delivered_def split: if_splits option.splits)
next
  case (W_unlock p k e)
  with assms show ?thesis
    using write_return_ok [of mar "S\<lparr>s_writeMu := None\<rparr>" call p e k t] by auto
next
  case (W_panic p)
  with assms show ?thesis by (cases p) auto
qed (use assms in \<open>auto split: if_splits\<close>)

lemma packet_step_pc_ok:
  assumes "packet_step mar t cmd sub pkt pc S = Some (pc', S')"
    and "pc_ok mar S t (CallPacket cmd sub pkt) pc"
  shows "pc_ok mar S' t (CallPacket cmd sub pkt) pc'"
proof (cases pc)
  case (P_check g)
  with assms show ?thesis
    by (auto simp: marshals_def split: if_splits sum.splits)
next
  case (P_lock g d)
  with assms show ?thesis by (auto simp: set_mu_def logged_def split: if_splits)
next
  case (P_size g d)
  with assms show ?thesis
    by (auto simp: set_buf_def HeaderSize_def logged_def intro!: exI [of _ "backing (ensure (8 + length d) (s_bufs S g))"])
next
  case (P_store g d k)
  with assms show ?thesis
    using stores_frame [of "s_bufs S g" d _ "CallPacket cmd sub pkt" mar] marshals_packet
    by (fastforce simp: set_buf_def logged_def split: if_splits)
next
  case (P_send g off)
  with assms unit_nonempty [of "CallPacket cmd sub pkt" mar] show ?thesis
    by (auto split: if_splits)
qed (use assms in \<open>auto simp: set_mu_def delivered_def\<close>)

text \<open>What a step of one call leaves alone.\<close>

lemma write_return_mu [simp]:
  "mu_of (write_return p n err) = src_mu p" "\<not> holds_writeMu (write_return p n err)"
  by (cases p; cases err; simp)+

lemma write_panic_mu [simp]:
  "mu_of (write_panic p) = src_mu p" "\<not> holds_writeMu (write_panic p)"
  by (cases p; simp)+

lemma write_step_frame:
  assumes "write_step t call n err pc S = Some (pc', S')"
  shows "s_bufs S' = s_bufs S" "s_mus S' = s_mus S" "s_writers S' = s_writers S"
    "s_writer S' = s_writer S" "s_conn S' = s_conn S" "s_dropped S' = s_dropped S"
    "mu_of pc' = mu_of pc"
  using assms by (cases pc; auto simp: Let_def split: if_splits option.splits)+

lemma packet_step_frame:
  assumes "packet_step mar t cmd sub pkt pc S = Some (pc', S')"
  shows "\<forall>g. mu_of pc \<noteq> Some g \<longrightarrow> s_bufs S' g = s_bufs S g" "s_writers S' = s_writers S"
    "s_writer S' = s_writer S" "s_conn S' = s_conn S" "s_dropped S' = s_dropped S"
    "s_writeMu S' = s_writeMu S" "s_log S' = s_log S" "s_wires S' = s_wires S"
    "\<not> holds_writeMu pc" "\<not> holds_writeMu pc'"
  using assms by (cases pc; auto simp: set_buf_def set_mu_def split: if_splits sum.splits)+

lemma write_step_writeMu:
  assumes "write_step t call n err pc S = Some (pc', S')"
  shows "if holds_writeMu pc' \<and> \<not> holds_writeMu pc then s_writeMu S = None \<and> s_writeMu S' = Some t
         else if holds_writeMu pc \<and> \<not> holds_writeMu pc' then s_writeMu S' = None
         else s_writeMu S' = s_writeMu S"
  using assms by (cases pc) (auto simp: Let_def split: if_splits option.splits)

lemma packet_step_mus:
  assumes "packet_step mar t cmd sub pkt pc S = Some (pc', S')"
  shows "if mu_of pc' = mu_of pc then s_mus S' = s_mus S
         else (case mu_of pc of
             None \<Rightarrow> (\<exists>g. mu_of pc' = Some g \<and> s_mus S g = None \<and> s_mus S' = (s_mus S)(g \<mapsto> t))
           | Some g \<Rightarrow> mu_of pc' = None \<and> s_mus S' = (s_mus S)(g := None))"
  using assms by (cases pc) (auto simp: set_buf_def set_mu_def split: if_splits sum.splits)

lemma locks_mu:
  "locks_ok (S, T) \<Longrightarrow> s_mus S g = Some t \<longleftrightarrow> (\<exists>c q. T t = Some (c, q) \<and> mu_of q = Some g)"
  by (simp add: locks_ok_def)

lemma locks_writeMu:
  "locks_ok (S, T) \<Longrightarrow> s_writeMu S = Some t \<longleftrightarrow> (\<exists>c q. T t = Some (c, q) \<and> holds_writeMu q)"
  by (simp add: locks_ok_def)

lemma locks_ok_run:
  assumes "locks_ok (S, T)" and "T t = Some (call, pc)" and "go_step mar t call n err pc S = Some (pc', S')"
  shows "locks_ok (S', T(t \<mapsto> (call, pc')))"
  using assms(3)
proof (cases rule: go_step_cases)
  note m = locks_mu [OF assms(1)] and w = locks_writeMu [OF assms(1)]
  case 1
  have "s_mus S' g = Some t' \<longleftrightarrow> (\<exists>c q. (T(t \<mapsto> (call, pc'))) t' = Some (c, q) \<and> mu_of q = Some g)" for g t'
    using m [of g t'] write_step_frame [OF 1] assms(2) by auto
  moreover have "s_writeMu S' = Some t' \<longleftrightarrow> (\<exists>c q. (T(t \<mapsto> (call, pc'))) t' = Some (c, q) \<and> holds_writeMu q)" for t'
    using w [of t'] w [of t] write_step_writeMu [OF 1] assms(2) by (auto split: if_splits)
  ultimately show ?thesis by (simp add: locks_ok_def)
next
  note m = locks_mu [OF assms(1)] and w = locks_writeMu [OF assms(1)]
  case (2 cmd sub pkt)
  have "s_mus S' g = Some t' \<longleftrightarrow> (\<exists>c q. (T(t \<mapsto> (call, pc'))) t' = Some (c, q) \<and> mu_of q = Some g)" for g t'
    using m [of g t'] m [of g t] packet_step_mus [OF 2(2)] assms(2) by (auto split: if_splits option.splits)
  moreover have "s_writeMu S' = Some t' \<longleftrightarrow> (\<exists>c q. (T(t \<mapsto> (call, pc'))) t' = Some (c, q) \<and> holds_writeMu q)" for t'
    using w [of t'] packet_step_frame [OF 2(2)] assms(2) by auto
  ultimately show ?thesis by (simp add: locks_ok_def)
qed

text \<open>
  The other calls: what they rely on is the buffer of the writer they have locked, and the
  log only grows by entries of the call that moves.
\<close>

lemma pc_ok_other:
  assumes "pc_ok mar S t call pc"
    and "\<forall>g < s_writers S. mu_of pc = Some g \<longrightarrow> s_bufs S' g = s_bufs S g"
    and "s_writers S \<le> s_writers S'" and "s_dropped S \<longrightarrow> s_dropped S'"
    and "s_log S' = s_log S \<or> (\<exists>e. s_log S' = s_log S @ [e] \<and> fst (snd e) \<noteq> t)"
  shows "pc_ok mar S' t call pc"
proof -
  have l: "logged S' t = logged S t" and d: "delivered mar S t call \<Longrightarrow> delivered mar S' t call"
    using assms(5) by (auto simp: logged_def delivered_def)
  have p: "src_ok mar S call p \<Longrightarrow> src_ok mar S' call p" if "src_mu p = mu_of pc" for p
    using that assms(2,3) by (cases p) auto
  show ?thesis
    using assms l d by (cases pc) (auto simp: p)
qed

lemma write_step_log:
  assumes "write_step t call n err pc S = Some (pc', S')"
  shows "s_log S' = s_log S \<or> (\<exists>s k e. s_log S' = s_log S @ [(s, t, call, k, e)])"
  using assms by (cases pc) (auto simp: Let_def split: if_splits option.splits)

lemma go_step_log:
  assumes "go_step mar t call n err pc S = Some (pc', S')"
  shows "s_log S' = s_log S \<or> (\<exists>s k e. s_log S' = s_log S @ [(s, t, call, k, e)])"
  using assms by (cases rule: go_step_cases) (auto dest: write_step_log packet_step_frame)

lemma go_step_logged:
  "go_step mar t call n err pc S = Some (pc', S') \<Longrightarrow> logged S' t' \<Longrightarrow> t' = t \<or> logged S t'"
  by (drule go_step_log) (auto simp: logged_def)

lemma go_step_shared:
  assumes "go_step mar t call n err pc S = Some (pc', S')"
  shows "\<forall>g. mu_of pc \<noteq> Some g \<longrightarrow> s_bufs S' g = s_bufs S g" "s_writers S' = s_writers S"
    "s_writer S' = s_writer S" "s_conn S' = s_conn S" "s_dropped S' = s_dropped S"
  using assms by (cases rule: go_step_cases; simp add: write_step_frame packet_step_frame)+

lemma threads_okD: "threads_ok mar (S, T) \<Longrightarrow> T t = Some (call, pc) \<Longrightarrow> pc_ok mar S t call pc"
  by (simp add: threads_ok_def)

lemma threads_ok_run:
  assumes inv: "threads_ok mar (S, T)" "locks_ok (S, T)" "conn_ok S"
    and t: "T t = Some (call, pc)" and step: "go_step mar t call n err pc S = Some (pc', S')"
  shows "threads_ok mar (S', T(t \<mapsto> (call, pc')))"
proof -
  have own: "pc_ok mar S' t call pc'"
    using inv t step write_step_pc_ok packet_step_pc_ok
    by (auto simp: threads_ok_def elim!: go_step_cases)
  have "pc_ok mar S' t' c q" if "T t' = Some (c, q)" "t' \<noteq> t" for t' c q
  proof (rule pc_ok_other)
    show "pc_ok mar S t' c q"
      using inv(1) that by (simp add: threads_ok_def)
    show "\<forall>g < s_writers S. mu_of q = Some g \<longrightarrow> s_bufs S' g = s_bufs S g"
      using go_step_shared(1) [OF step] locks_mu [OF inv(2)] that t by (metis option.inject)
  qed (use go_step_shared [OF step] go_step_log [OF step] that in auto)
  with own show ?thesis by (simp add: threads_ok_def)
qed

text \<open>The log and the wires.\<close>

lemma sock_log_add:
  "s_log S' = s_log S @ [(s, t, c, k, e)] \<Longrightarrow>
    sock_log S' s' = sock_log S s' @ (if s' = s then [(s, t, c, k, e)] else [])"
  by (simp add: sock_log_def)

lemma in_flight_none: "s_writeMu S = None \<Longrightarrow> in_flight mar (S, T) s = []"
  by (simp add: in_flight_def)

lemma in_flight_of:
  "s_writeMu S = Some t \<Longrightarrow> T t = Some (call, pc) \<Longrightarrow>
    in_flight mar (S, T) s = (case pc of W_raw p s' off \<Rightarrow> if s' = s then take off (unit_bytes mar call) else [] | _ \<Rightarrow> [])"
  by (simp add: in_flight_def)

lemma in_flight_other:
  "s_writeMu S' = s_writeMu S \<Longrightarrow> s_writeMu S \<noteq> Some t \<Longrightarrow>
    in_flight mar (S', T(t \<mapsto> x)) s = in_flight mar (S, T) s"
  by (auto simp: in_flight_def split: option.splits)


lemma wires_ok_raw:
  assumes wires: "wires_ok mar (S, T)" and mu: "s_writeMu S = Some t" and t: "T t = Some (call, W_raw p s off)"
    and p: "src_ok mar S call p" and off: "off \<le> length (unit_bytes mar call)"
    and step: "write_step t call n err (W_raw p s off) S = Some (pc', S')"
  shows "wires_ok mar (S', T(t \<mapsto> (call, pc')))"
proof -
  let ?u = "unit_bytes mar call"
  let ?L = "\<lambda>s'. concat (map (taken mar) (sock_log S s'))"
  have w: "s_wires S s' = ?L s' @ (if s' = s then take off ?u else [])" for s'
    using wires in_flight_of [of S t T call "W_raw p s off" mar s'] mu t by (auto simp: wires_ok_def)
  consider "drop off ?u = []" "pc' = W_unlock p off None" "s_wires S' = s_wires S"
      "s_log S' = s_log S @ [(s, t, call, off, None)]"
    | "n \<le> length (drop off ?u)" "err = None" "pc' = W_raw p s (off + n)" "s_log S' = s_log S"
      "s_wires S' = (s_wires S)(s := s_wires S s @ take n (drop off ?u))"
    | e where "n \<le> length (drop off ?u)" "err = Some e" "pc' = W_unlock p (off + n) err"
      "s_log S' = s_log S @ [(s, t, call, off + n, err)]"
      "s_wires S' = (s_wires S)(s := s_wires S s @ take n (drop off ?u))"
    using step src_bytes [OF p] by (auto simp: Let_def split: if_splits option.splits)
  moreover have mu': "s_writeMu S' = Some t"
    using step mu by (auto simp: Let_def split: if_splits option.splits)
  moreover have "in_flight mar (S', T(t \<mapsto> (call, pc'))) s' =
      (case pc' of W_raw p s'' off \<Rightarrow> if s'' = s' then take off ?u else [] | _ \<Rightarrow> [])" for s'
    using mu' by (simp add: in_flight_of)
  moreover have "sock_log S' s' = sock_log S s'" if "s_log S' = s_log S" for s'
    using that by (simp add: sock_log_def)
  ultimately show ?thesis
    by cases (auto simp: wires_ok_def w take_add sock_log_add)
qed

lemma wires_ok_run:
  assumes inv: "wires_ok mar (S, T)" "threads_ok mar (S, T)" "locks_ok (S, T)"
    and t: "T t = Some (call, pc)" and step: "go_step mar t call n err pc S = Some (pc', S')"
  shows "wires_ok mar (S', T(t \<mapsto> (call, pc')))"
proof (cases "\<exists>p s off. pc = W_raw p s off")
  case True
  then obtain p s off where pc: "pc = W_raw p s off" by blast
  have "write_step t call n err pc S = Some (pc', S')"
    using step by (cases rule: go_step_cases) (auto simp: pc)
  moreover have "s_writeMu S = Some t"
    using locks_writeMu [OF inv(3)] t pc by auto
  moreover have "pc_ok mar S t call (W_raw p s off)"
    using threads_okD [OF inv(2) t] pc by simp
  ultimately show ?thesis
    using wires_ok_raw [OF inv(1)] t pc by auto
next
  case False
  have keep: "s_wires S' = s_wires S" "s_log S' = s_log S"
    using step False
    by (cases rule: go_step_cases; cases pc; auto simp: set_mu_def set_buf_def split: if_splits option.splits sum.splits)+
  have hold: "holds_writeMu pc \<Longrightarrow> s_writeMu S = Some t"
    and free: "\<not> holds_writeMu pc \<Longrightarrow> s_writeMu S \<noteq> Some t"
    using locks_writeMu [OF inv(3), of t] t by auto
  have "in_flight mar (S', T(t \<mapsto> (call, pc'))) s = in_flight mar (S, T) s" for s
    using step
  proof (cases rule: go_step_cases)
    case 1
    note w = write_step_writeMu [OF 1]
    show ?thesis
    proof (cases "holds_writeMu pc")
      case True
      with hold have "in_flight mar (S, T) s = []"
        using False in_flight_of [of S t T call pc mar s] t by (auto split: wpc.splits)
      moreover have "in_flight mar (S', T(t \<mapsto> (call, pc'))) s = []"
        using 1 True False hold by (cases pc) (auto simp: in_flight_def split: if_splits option.splits)
      ultimately show ?thesis by simp
    next
      case False
      with 1 free in_flight_other [of S' S t mar T "(call, pc')" s] show ?thesis
        by (cases pc) (auto simp: in_flight_def split: if_splits)
    qed
  next
    case (2 cmd sub pkt)
    with free packet_step_frame [OF 2(2)] show ?thesis
      by (intro in_flight_other) auto
  qed
  with inv(1) keep show ?thesis by (simp add: wires_ok_def sock_log_def)
qed

lemma log_ok_run:
  assumes inv: "log_ok mar S" "threads_ok mar (S, T)"
    and t: "T t = Some (call, pc)" and step: "go_step mar t call n err pc S = Some (pc', S')"
  shows "log_ok mar S'"
  using step
proof (cases rule: go_step_cases)
  case 1
  show ?thesis
  proof (cases "\<exists>p s off. pc = W_raw p s off")
    case True
    then obtain p s off where pc: "pc = W_raw p s off" by blast
    then have "src_ok mar S call p" "\<not> logged S t" "off \<le> length (unit_bytes mar call)"
      using threads_okD [OF inv(2) t] by auto
    with 1 inv(1) src_bytes [of mar S call p] src_sendable [of mar S call p] show ?thesis
      by (auto simp: pc log_ok_def logged_def Let_def split: if_splits option.splits)
  next
    case False
    with 1 have "s_log S' = s_log S"
      by (cases pc) (auto split: if_splits option.splits)
    with inv(1) show ?thesis by (simp add: log_ok_def)
  qed
next
  case (2 cmd sub pkt)
  with inv(1) packet_step_frame [OF 2(2)] show ?thesis by (simp add: log_ok_def)
qed

lemma winv_run:
  assumes "winv mar (S, T)" and "T t = Some (call, pc)" and "go_step mar t call n err pc S = Some (pc', S')"
  shows "winv mar (S', T(t \<mapsto> (call, pc')))"
proof -
  have "conn_ok S'"
    using assms go_step_shared [OF assms(3)] by (simp add: winv_def conn_ok_def)
  moreover have "\<forall>t'. (T(t \<mapsto> (call, pc'))) t' = None \<longrightarrow> \<not> logged S' t'"
    using assms(1) go_step_logged [OF assms(3)] by (auto simp: winv_def)
  ultimately show ?thesis
    using assms threads_ok_run [of mar S T t call pc n err pc' S'] locks_ok_run [of S T t call pc mar n err pc' S']
      wires_ok_run [of mar S T t call pc n err pc' S'] log_ok_run [of mar S T t call pc n err pc' S']
    by (auto simp: winv_def)
qed

subsection \<open>Every action keeps the invariant\<close>

lemma winv_shared:
  assumes "winv mar (S, T)" and "s_log S' = s_log S" and "s_wires S' = s_wires S"
    and "s_mus S' = s_mus S" and "s_writeMu S' = s_writeMu S" and "s_writers S \<le> s_writers S'"
    and "s_dropped S \<longrightarrow> s_dropped S'" and "\<forall>g < s_writers S. s_bufs S' g = s_bufs S g" and "conn_ok S'"
  shows "winv mar (S', T)"
proof -
  have "threads_ok mar (S', T)"
    using assms pc_ok_other [of mar S] by (auto simp: winv_def threads_ok_def)
  moreover have "in_flight mar (S', T) = in_flight mar (S, T)"
    using assms(5) by (simp add: in_flight_def fun_eq_iff split: option.split)
  moreover have "sock_log S' = sock_log S" "logged S' = logged S"
    using assms by (auto simp: sock_log_def logged_def fun_eq_iff)
  ultimately show ?thesis
    using assms by (simp add: winv_def locks_ok_def wires_ok_def log_ok_def)
qed

lemma winv_call:
  assumes "winv mar (S, T)" and "T t = None" and "pc_ok mar S t call pc"
    and "mu_of pc = None" and "\<not> holds_writeMu pc"
  shows "winv mar (S, T(t \<mapsto> (call, pc)))"
proof -
  have "s_writeMu S \<noteq> Some t"
    using assms(1,2) by (auto simp: winv_def locks_ok_def)
  then have "in_flight mar (S, T(t \<mapsto> (call, pc))) = in_flight mar (S, T)"
    by (auto simp: fun_eq_iff intro: in_flight_other)
  moreover have "locks_ok (S, T(t \<mapsto> (call, pc)))"
    using assms by (fastforce simp: winv_def locks_ok_def)
  ultimately show ?thesis
    using assms by (auto simp: winv_def threads_ok_def wires_ok_def)
qed

lemma winv_act:
  assumes "winv mar st" and "act_step mar a st = Some st'"
  shows "winv mar st'"
proof -
  obtain S T where st: "st = (S, T)" by force
  have c: "conn_ok S" using assms(1) by (simp add: st winv_def)
  show ?thesis
  proof (cases a)
    case (Call t call)
    then have t: "T t = None"
      using assms(2) by (simp add: st split: if_splits)
    then have "\<not> logged S t"
      using assms(1) by (simp add: st winv_def)
    with Call t assms c show ?thesis
      by (cases call) (auto simp: st conn_ok_def intro!: winv_call)
  next
    case (Run t n err)
    with assms winv_run [of mar S T t] show ?thesis
      by (auto simp: st split: option.splits prod.splits)
  qed (use assms c in \<open>auto simp: st conn_ok_def intro!: winv_shared [of mar S T] split: if_splits\<close>)
qed

interpretation writers_ts: action_system "act_step mar" "winv mar" for mar
  by unfold_locales (rule winv_act)

subsection \<open>No deadlock\<close>

definition ended :: "wpc \<Rightarrow> bool" where
  "ended pc = (case pc of Finished _ \<Rightarrow> True | Crashed \<Rightarrow> True | _ \<Rightarrow> False)"

text \<open>
  A call is stopped only by the mutex it waits for: holding \<open>writeMu\<close> it can always go on,
  and holding \<open>mu\<close> it waits at most for \<open>writeMu\<close>.
\<close>

lemma writeMu_holder_moves:
  "holds_writeMu pc \<Longrightarrow> go_step mar t call 0 None pc S \<noteq> None"
  by (cases pc) (auto simp: go_step_def Let_def split: option.splits)

lemma call_moves:
  assumes "pc_ok mar S t call pc" and "\<not> ended pc"
    and "s_writeMu S = None" and "mu_of pc = None \<longrightarrow> s_mus S = (\<lambda>_. None)"
  shows "go_step mar t call 0 None pc S \<noteq> None"
proof (cases "holds_writeMu pc")
  case True
  then show ?thesis by (rule writeMu_holder_moves)
next
  case False
  with assms show ?thesis
    by (cases pc; cases call)
       (auto simp: go_step_def ended_def marshals_def split: sum.splits)
qed

lemma some_call_moves:
  assumes inv: "winv mar (S, T)" and t: "T t = Some (call, pc)" and "\<not> ended pc"
  shows "\<exists>t' c q. T t' = Some (c, q) \<and> go_step mar t' c 0 None q S \<noteq> None"
proof -
  have locks: "locks_ok (S, T)" and threads: "threads_ok mar (S, T)"
    using inv by (simp_all add: winv_def)
  consider t' where "s_writeMu S = Some t'" | g t' where "s_writeMu S = None" "s_mus S g = Some t'"
    | "s_writeMu S = None" "s_mus S = (\<lambda>_. None)"
    by (metis not_Some_eq ext)
  then show ?thesis
  proof cases
    case 1
    then show ?thesis using locks_writeMu [OF locks] writeMu_holder_moves by blast
  next
    case (2 g t')
    then obtain c q where q: "T t' = Some (c, q)" "mu_of q = Some g"
      using locks_mu [OF locks] by blast
    moreover have "\<not> ended q" using q(2) by (cases q) (auto simp: ended_def)
    ultimately have "go_step mar t' c 0 None q S \<noteq> None"
      using call_moves [OF threads_okD [OF threads q(1)]] 2 by simp
    with q show ?thesis by blast
  next
    case 3
    then show ?thesis using call_moves [OF threads_okD [OF threads t] assms(3)] t by blast
  qed
qed

text \<open>
  How far a call is from its end when the socket takes everything it is given, and the number
  of bytes it offers to the socket in its next step.
\<close>

fun rank :: "marshal \<Rightarrow> wcall \<Rightarrow> wpc \<Rightarrow> nat" where
  "rank mar call (P_check g) = 21"
| "rank mar call (P_lock g d) = 20"
| "rank mar call (P_size g d) = 19"
| "rank mar call (P_store g d k) = 18 - k"
| "rank mar call (P_send g off) = (if off = 0 then 10 else 3)"
| "rank mar call (W_check p) = 9"
| "rank mar call (W_lock p) = 8"
| "rank mar call (W_conn p) = 7"
| "rank mar call (W_raw p s off) = (if off < length (unit_bytes mar call) then 6 else 5)"
| "rank mar call (W_unlock p n err) = 4"
| "rank mar call (W_panic p) = 4"
| "rank mar call (P_unlock g err) = 2"
| "rank mar call (P_panic g) = 2"
| "rank mar call (Finished err) = 0"
| "rank mar call Crashed = 0"

fun write_size :: "marshal \<Rightarrow> wcall \<Rightarrow> wpc \<Rightarrow> nat" where
  "write_size mar call (W_raw p s off) = length (unit_bytes mar call) - off"
| "write_size mar call _ = 0"

lemma step_offered:
  assumes "pc_ok mar S t call pc" and "go_step mar t call 0 None pc S \<noteq> None"
  shows "go_step mar t call (write_size mar call pc) None pc S \<noteq> None"
proof (cases pc)
  case (W_raw p s off)
  with assms(1) show ?thesis by (auto simp: go_step_def Let_def src_bytes)
qed (use assms in simp_all)

lemma step_ranks_down:
  assumes "pc_ok mar S t call pc" and "go_step mar t call (write_size mar call pc) None pc S = Some (pc', S')"
  shows "rank mar call pc' < rank mar call pc"
  using assms(2)
proof (cases rule: go_step_cases)
  case 1
  show ?thesis
  proof (cases pc)
    case (W_unlock p n err)
    then show ?thesis
      using 1 assms(1) unit_nonempty [of call mar] by (cases p; cases err) auto
  next
    case (W_raw p s off)
    then show ?thesis using 1 assms(1) by (auto simp: Let_def src_bytes split: if_splits)
  next
    case (W_check p)
    then show ?thesis using 1 by (cases p) (auto split: if_splits)
  next
    case (W_panic p)
    then show ?thesis using 1 by (cases p) auto
  qed (use 1 in \<open>auto split: if_splits option.splits\<close>)
next
  case (2 cmd sub pkt)
  then show ?thesis
    using assms(1) by (cases pc) (auto split: if_splits sum.splits)
qed

definition total_rank :: "marshal \<Rightarrow> (nat \<rightharpoonup> wcall \<times> wpc) \<Rightarrow> nat" where
  "total_rank mar T = (\<Sum>t \<in> dom T. case T t of None \<Rightarrow> 0 | Some (call, pc) \<Rightarrow> rank mar call pc)"

lemma total_rank_down:
  assumes "finite (dom T)" and "T t = Some (call, pc)" and "rank mar call pc' < rank mar call pc"
  shows "total_rank mar (T(t \<mapsto> (call, pc'))) < total_rank mar T"
proof -
  have t: "t \<in> dom T" using assms(2) by blast
  then have d: "dom (T(t \<mapsto> (call, pc'))) = dom T" by auto
  have "(\<Sum>x \<in> dom T - {t}. case (T(t \<mapsto> (call, pc'))) x of None \<Rightarrow> 0 | Some (call, pc) \<Rightarrow> rank mar call pc) =
      (\<Sum>x \<in> dom T - {t}. case T x of None \<Rightarrow> 0 | Some (call, pc) \<Rightarrow> rank mar call pc)"
    by (rule sum.cong) auto
  with assms(2,3) show ?thesis
    unfolding total_rank_def d sum.remove [OF assms(1) t] by simp
qed

lemma run_acts_finite:
  "run_acts mar as (S, T) = Some (S', T') \<Longrightarrow> finite (dom T) \<Longrightarrow> finite (dom T')"
proof (induction as arbitrary: S T)
  case (Cons a as)
  then obtain S1 T1 where "act_step mar a (S, T) = Some (S1, T1)" "run_acts mar as (S1, T1) = Some (S', T')"
    by (auto split: option.splits)
  moreover from this(1) Cons.prems(2) have "finite (dom T1)"
    by (cases a) (auto split: if_splits option.splits prod.splits)
  ultimately show ?case using Cons.IH by blast
qed simp

lemma calls_can_end:
  assumes "winv mar (S, T)" and "finite (dom T)"
  shows "\<exists>bs S' T'. (\<forall>a \<in> set bs. \<exists>t n. a = Run t n None) \<and> run_acts mar bs (S, T) = Some (S', T') \<and> dom T' = dom T \<and>
    (\<forall>t call pc. T' t = Some (call, pc) \<longrightarrow> ended pc)"
  using assms
proof (induction "total_rank mar T" arbitrary: S T rule: less_induct)
  case less
  show ?case
  proof (cases "\<forall>t call pc. T t = Some (call, pc) \<longrightarrow> ended pc")
    case True
    then show ?thesis by (intro exI [of _ "[]"] exI [of _ S] exI [of _ T]) simp
  next
    case False
    then obtain t call pc where "T t = Some (call, pc)" "go_step mar t call 0 None pc S \<noteq> None"
      using some_call_moves [OF less.prems(1)] by blast
    moreover have ok: "pc_ok mar S t call pc"
      using threads_okD [of mar S T t] less.prems(1) calculation(1) by (simp add: winv_def)
    ultimately obtain pc' S1 where t: "T t = Some (call, pc)"
      and g: "go_step mar t call (write_size mar call pc) None pc S = Some (pc', S1)"
      using step_offered by fastforce
    let ?a = "Run t (write_size mar call pc) None" and ?T1 = "T(t \<mapsto> (call, pc'))"
    have a: "act_step mar ?a (S, T) = Some (S1, ?T1)" using t g by simp
    have "total_rank mar ?T1 < total_rank mar T"
      by (rule total_rank_down [OF less.prems(2) t step_ranks_down [OF ok g]])
    moreover have "winv mar (S1, ?T1)" by (rule winv_act [OF less.prems(1) a])
    moreover have "finite (dom ?T1)" using less.prems(2) by simp
    ultimately obtain bs S' T' where "\<forall>a \<in> set bs. \<exists>t n. a = Run t n None" "run_acts mar bs (S1, ?T1) = Some (S', T')"
      "dom T' = dom ?T1" "\<forall>t call pc. T' t = Some (call, pc) \<longrightarrow> ended pc"
      using less.hyps by blast
    with a t show ?thesis by (intro exI [of _ "?a # bs"] exI [of _ S'] exI [of _ T']) auto
  qed
qed

subsection \<open>A call that runs alone\<close>

text \<open>Up to the socket, a packet call that finds everything free only touches the writer.\<close>

definition only_writer :: "wshared \<Rightarrow> wshared \<Rightarrow> bool" where
  "only_writer S S' \<longleftrightarrow> s_conn S' = s_conn S \<and> s_closed S' = s_closed S \<and> s_writer S' = s_writer S \<and>
     s_writeMu S' = s_writeMu S \<and> s_wires S' = s_wires S \<and> s_log S' = s_log S"

abbreviation runs :: "nat \<Rightarrow> nat \<Rightarrow> wact list" where
  "runs k t \<equiv> replicate k (Run t 0 None)"

lemma runs_unfold:
  "runs 2 t = [Run t 0 None, Run t 0 None]" "runs 3 t = Run t 0 None # runs 2 t"
  "runs 13 t = runs 3 t @ runs 8 t @ runs 2 t"
  by (simp_all add: numeral_eq_Suc)

lemma run_stores:
  assumes "T t = Some (CallPacket cmd sub pkt, P_store g d k)" and "k \<le> 7"
  shows "\<exists>S'. run_acts mar (runs (8 - k) t) (S, T) = Some (S', T(t \<mapsto> (CallPacket cmd sub pkt, P_send g 0))) \<and>
    only_writer S S' \<and> s_mus S' = s_mus S"
  using assms
proof (induction "7 - k" arbitrary: k S T)
  case 0
  then show ?case by (simp add: go_step_def only_writer_def fun_eq_iff)
next
  case (Suc j)
  define S1 where "S1 = set_buf g ((s_bufs S g)\<lparr>backing := packet_store k cmd sub d (backing (s_bufs S g))\<rparr>) S"
  have n: "8 - k = Suc (8 - Suc k)" "k < 7" "j = 7 - Suc k" using Suc by auto
  obtain S' where "run_acts mar (runs (8 - Suc k) t) (S1, T(t \<mapsto> (CallPacket cmd sub pkt, P_store g d (Suc k)))) =
      Some (S', T(t \<mapsto> (CallPacket cmd sub pkt, P_send g 0)))" "only_writer S1 S'" "s_mus S' = s_mus S1"
    using Suc.hyps(1) [of "Suc k" "T(t \<mapsto> (CallPacket cmd sub pkt, P_store g d (Suc k)))" S1] n by auto
  with n Suc.prems show ?case
    by (auto simp: go_step_def S1_def only_writer_def set_buf_def)
qed

lemma run_to_socket:
  assumes inv: "winv mar (S, T)" and t: "T t = None" and mu: "s_mus S (s_writer S) = None"
    and conn: "s_conn S = Some s" "\<not> s_closed S" and d: "mar pkt = Inr d" "length d \<le> 65535"
  shows "\<exists>S'. run_acts mar (Call t (CallPacket cmd sub pkt) # runs 13 t) (S, T) =
      Some (S', T(t \<mapsto> (CallPacket cmd sub pkt, W_lock (SrcBuf (s_writer S) 0)))) \<and>
    only_writer S S' \<and> s_mus S' = (s_mus S)(s_writer S \<mapsto> t)"
proof -
  let ?c = "CallPacket cmd sub pkt" and ?g = "s_writer S"
  define S2 where "S2 = set_buf ?g (ensure (HeaderSize + length d) (s_bufs S ?g)) (set_mu ?g (Some t) S)"
  have a: "run_acts mar (Call t ?c # runs 3 t) (S, T) = Some (S2, T(t \<mapsto> (?c, P_store ?g d 0)))"
    using t mu conn d by (simp add: runs_unfold(1,2) go_step_def maxPacketSize_def S2_def set_mu_def)
  obtain S3 where b: "run_acts mar (runs 8 t) (S2, T(t \<mapsto> (?c, P_store ?g d 0))) = Some (S3, T(t \<mapsto> (?c, P_send ?g 0)))"
      "only_writer S2 S3" "s_mus S3 = s_mus S2"
    using run_stores [of "T(t \<mapsto> (?c, P_store ?g d 0))" t cmd sub pkt ?g d 0 mar S2] by auto
  have "winv mar (S3, T(t \<mapsto> (?c, P_send ?g 0)))"
    using writers_ts.run_inv [OF b(1) writers_ts.run_inv [OF a inv]] .
  then have "pc_ok mar S3 t ?c (P_send ?g 0)"
    using threads_okD [of mar S3 "T(t \<mapsto> (?c, P_send ?g 0))" t] by (simp add: winv_def)
  then have "0 < length (contents (s_bufs S3 ?g))"
    using unit_nonempty [of ?c mar] by auto
  moreover have eff: "only_writer S S3" "s_mus S3 = (s_mus S)(?g \<mapsto> t)"
    using b(2,3) by (simp_all add: S2_def set_buf_def set_mu_def only_writer_def)
  ultimately have "run_acts mar (runs 2 t) (S3, T(t \<mapsto> (?c, P_send ?g 0))) =
      Some (S3, T(t \<mapsto> (?c, W_lock (SrcBuf ?g 0))))"
    using conn by (simp add: runs_unfold(1) go_step_def only_writer_def)
  moreover have "Call t ?c # runs 13 t = (Call t ?c # runs 3 t) @ runs 8 t @ runs 2 t"
    by (simp add: runs_unfold(3))
  ultimately have "run_acts mar (Call t ?c # runs 13 t) (S, T) = Some (S3, T(t \<mapsto> (?c, W_lock (SrcBuf ?g 0))))"
    using run_actions_append [OF a] run_actions_append [OF b(1)] by (simp only:)
  with eff show ?thesis by blast
qed

text \<open>On the socket: a write that fails after \<open>k\<close> bytes, and one that takes everything.\<close>

definition fail_acts :: "nat \<Rightarrow> nat \<Rightarrow> error \<Rightarrow> wact list" where
  "fail_acts t k e = [Run t 0 None, Run t 0 None, Run t k (Some e), Run t 0 None, Run t 0 None]"

definition write_acts :: "nat \<Rightarrow> nat \<Rightarrow> wact list" where
  "write_acts t n = [Run t 0 None, Run t 0 None, Run t n None, Run t 0 None, Run t 0 None,
     Run t 0 None, Run t 0 None]"

lemma run_socket:
  assumes inv: "winv mar (S, T)" and t: "T t = Some (CallPacket cmd sub pkt, W_lock (SrcBuf g 0))"
    and free: "s_writeMu S = None" "s_conn S = Some s" and d: "mar pkt = Inr d"
    and k: "k \<le> 8 + length d"
  shows "\<exists>S'. run_acts mar (fail_acts t k e) (S, T) =
      Some (S', T(t \<mapsto> (CallPacket cmd sub pkt, Finished (Some e)))) \<and>
    s_wires S' = (s_wires S)(s := s_wires S s @ take k (frame cmd sub d)) \<and>
    s_mus S' = (s_mus S)(g := None) \<and> s_writeMu S' = None \<and> s_conn S' = s_conn S \<and>
    s_closed S' = s_closed S \<and> s_writer S' = s_writer S"
    (is "?fails")
    and "\<exists>S'. run_acts mar (write_acts t (8 + length d)) (S, T) =
      Some (S', T(t \<mapsto> (CallPacket cmd sub pkt, Finished None))) \<and>
    s_wires S' = (s_wires S)(s := s_wires S s @ frame cmd sub d) \<and>
    s_mus S' = (s_mus S)(g := None) \<and> s_writeMu S' = None \<and> s_conn S' = s_conn S \<and>
    s_closed S' = s_closed S \<and> s_writer S' = s_writer S"
    (is "?writes")
proof -
  have "pc_ok mar S t (CallPacket cmd sub pkt) (W_lock (SrcBuf g 0))"
    using inv t threads_okD [of mar S T t] by (simp add: winv_def)
  then have b: "contents (s_bufs S g) = frame cmd sub d"
    using d by (simp add: unit_bytes_def)
  have f: "frame cmd sub d \<noteq> []" "drop (8 + length d) (frame cmd sub d) = []"
    by (auto simp: frame_def)
  show ?fails
    using t free k b f(1) by (simp add: fail_acts_def go_step_def Let_def set_mu_def fun_eq_iff)
  show ?writes
    using t free b f by (simp add: write_acts_def go_step_def Let_def set_mu_def fun_eq_iff)
qed

subsection \<open>Properties\<close>

lemma taken_complete:
  "list_all (entry_ok mar) es \<Longrightarrow> \<forall>e \<in> set es. snd (snd (snd (snd e))) = None \<Longrightarrow>
    map (taken mar) es = map (\<lambda>e. unit_bytes mar (fst (snd (snd e)))) es"
  by (induction es) auto

lemma in_flight_prefix:
  "\<exists>part. in_flight mar (S, T) s = part \<and> (part \<noteq> [] \<longrightarrow>
    (\<exists>t call pc k. s_writeMu S = Some t \<and> T t = Some (call, pc) \<and> part = take k (unit_bytes mar call)))"
  by (auto simp: in_flight_def split: option.splits wpc.splits)

text \<open>
  C6: packets of concurrent callers never mix.  Take any interleaving of any number of calls
  of \<open>WritePacket\<close> and \<open>Write\<close> with closing, connecting and reconnecting.  The bytes each
  socket accepted are those of the finished calls, one after the other in the order in which
  they held \<open>writeMu\<close>, then a prefix of what the present holder writes.  No call appears
  twice; a write that reported no error is there in full, so on a socket on which no write
  failed the stream consists of whole frames; a call that returned nil has all its bytes on
  one socket; and a call can only crash after the connection was dropped.
\<close>

theorem writers_never_mix:
  assumes "run_acts mar as (winit, Map.empty) = Some (S, T)"
  shows "(\<forall>s. \<exists>part. s_wires S s = concat (map (taken mar) (sock_log S s)) @ part \<and>
      (part \<noteq> [] \<longrightarrow> (\<exists>t call pc k. s_writeMu S = Some t \<and> T t = Some (call, pc) \<and>
        part = take k (unit_bytes mar call))) \<and>
      ((\<forall>e \<in> set (sock_log S s). snd (snd (snd (snd e))) = None) \<longrightarrow>
        s_wires S s = concat (map (\<lambda>e. unit_bytes mar (fst (snd (snd e)))) (sock_log S s)) @ part)) \<and>
    distinct (map (\<lambda>e. fst (snd e)) (s_log S)) \<and>
    (\<forall>t call. T t = Some (call, Finished None) \<longrightarrow> delivered mar S t call) \<and>
    (\<forall>t call. T t = Some (call, Crashed) \<longrightarrow> s_dropped S)"
proof -
  have inv: "winv mar (S, T)" by (rule writers_ts.run_inv [OF assms winv_init])
  have w: "s_wires S s = concat (map (taken mar) (sock_log S s)) @ in_flight mar (S, T) s" for s
    using inv by (simp add: winv_def wires_ok_def)
  have "list_all (entry_ok mar) (sock_log S s)" for s
    using inv by (auto simp: winv_def log_ok_def sock_log_def list_all_iff)
  note complete = taken_complete [OF this]
  have calls: "T t = Some (call, pc) \<Longrightarrow> pc_ok mar S t call pc" for t call pc
    using inv threads_okD by (auto simp: winv_def)
  have "\<forall>t call. T t = Some (call, Finished None) \<longrightarrow> delivered mar S t call"
    "\<forall>t call. T t = Some (call, Crashed) \<longrightarrow> s_dropped S"
    using calls by force+
  moreover have "distinct (map (\<lambda>e. fst (snd e)) (s_log S))"
    using inv by (simp add: winv_def log_ok_def)
  ultimately show ?thesis
    using w complete in_flight_prefix [of mar S T] by metis
qed

definition demo_acts :: "wact list" where
  "demo_acts = [Call 0 (CallWrite [1, 2]), Call 1 (CallWrite [3]), Run 0 0 None, Run 1 0 None,
     Run 0 0 None, Run 0 0 None, Run 0 1 None, Run 0 1 None, Run 0 0 None, Run 0 0 None,
     Run 1 0 None, Run 1 0 None, Run 1 1 None]"

lemma demo_acts_run:
  obtains S T where "run_acts (\<lambda>_. Inr []) demo_acts (winit, Map.empty) = Some (S, T)"
    "s_wires S 0 = [1, 2, 3]" "T 0 = Some (CallWrite [1, 2], Finished None)"
    "T 1 = Some (CallWrite [3], W_raw (SrcOwn [3]) 0 1)"
  by (simp add: demo_acts_def winit_def go_step_def Let_def)

theorem writers_never_mix_witness:
  "\<exists>S T. run_acts (\<lambda>_. Inr []) demo_acts (winit, Map.empty) = Some (S, T) \<and>
    s_wires S 0 = [1, 2, 3] \<and> delivered (\<lambda>_. Inr []) S 0 (CallWrite [1, 2])"
proof -
  obtain S T where "run_acts (\<lambda>_. Inr []) demo_acts (winit, Map.empty) = Some (S, T)"
    "s_wires S 0 = [1, 2, 3]" "T 0 = Some (CallWrite [1, 2], Finished None)"
    using demo_acts_run .
  with writers_never_mix [of "\<lambda>_. Inr []" demo_acts S T] show ?thesis by blast
qed

text \<open>
  C11: the two mutexes cannot deadlock.  From every state of every interleaving all calls under
  way can be run to their ends by steps of their own, on a socket that takes what it is given:
  no call waits for a mutex that is never released.
\<close>

theorem writers_not_stuck:
  assumes "run_acts mar as (winit, Map.empty) = Some (S, T)"
  shows "\<exists>bs S' T'. (\<forall>a \<in> set bs. \<exists>t n. a = Run t n None) \<and> run_acts mar bs (S, T) = Some (S', T') \<and> dom T' = dom T \<and>
    (\<forall>t call pc. T' t = Some (call, pc) \<longrightarrow> ended pc)"
  by (rule calls_can_end [OF writers_ts.run_inv [OF assms winv_init] run_acts_finite [OF assms]]) simp

theorem writers_not_stuck_witness:
  "\<exists>bs S T S' T'. run_acts (\<lambda>_. Inr []) demo_acts (winit, Map.empty) = Some (S, T) \<and>
    T 1 = Some (CallWrite [3], W_raw (SrcOwn [3]) 0 1) \<and>
    run_acts (\<lambda>_. Inr []) bs (S, T) = Some (S', T') \<and> (\<forall>call pc. T' 1 = Some (call, pc) \<longrightarrow> ended pc)"
proof -
  obtain S T where r: "run_acts (\<lambda>_. Inr []) demo_acts (winit, Map.empty) = Some (S, T)"
    "T 1 = Some (CallWrite [3], W_raw (SrcOwn [3]) 0 1)"
    using demo_acts_run .
  from writers_not_stuck [OF r(1)] r show ?thesis by blast
qed

text \<open>
  C31: \<open>Write\<close> looks at \<open>c.conn\<close> before it takes \<open>writeMu\<close> and again after, and \<open>close\<close>
  sets it to nil without that mutex.  For every packet that can be sent there is an
  interleaving of one \<open>WritePacket\<close> with one \<open>close\<close> of an open connection in which the
  call panics (in the heartbeat goroutine nothing recovers it), with nothing on the wire.
\<close>

definition race_acts :: "wcall \<Rightarrow> wact list" where
  "race_acts call = (Call 0 call # runs 13 0) @ [CloseFlag, CloseConn] @ runs 2 0 @ runs 2 0"

theorem write_close_race:
  assumes "mar pkt = Inr d" and "length d \<le> 65535"
  shows "\<exists>S T. run_acts mar (race_acts (CallPacket cmd sub pkt)) (winit, Map.empty) = Some (S, T) \<and>
    T 0 = Some (CallPacket cmd sub pkt, Crashed) \<and> s_wires S 0 = []"
proof -
  let ?c = "CallPacket cmd sub pkt" and ?g = "s_writer winit"
  obtain S where S: "run_acts mar (Call 0 ?c # runs 13 0) (winit, Map.empty) =
      Some (S, [0 \<mapsto> (?c, W_lock (SrcBuf ?g 0))])" "only_writer winit S"
    using run_to_socket [OF winv_init, where t = 0 and s = 0] assms
    by (force simp: winit_def)
  have "winv mar (S, [0 \<mapsto> (?c, W_lock (SrcBuf ?g 0))])"
    by (rule writers_ts.run_inv [OF S(1) winv_init])
  then have "contents (s_bufs S ?g) = frame cmd sub d"
    using assms(1) threads_okD [of mar S "[0 \<mapsto> (?c, W_lock (SrcBuf ?g 0))]" 0 ?c]
    by (simp add: winv_def unit_bytes_def)
  moreover have "frame cmd sub d \<noteq> []" by (simp add: frame_def)
  ultimately show ?thesis
    using S(2) unfolding race_acts_def run_actions_append [OF S(1)]
    by (simp add: runs_unfold go_step_def only_writer_def winit_def set_mu_def)
qed

theorem write_close_race_witness:
  "\<exists>S T. run_acts (\<lambda>_. Inr [7]) (race_acts (CallPacket 1 1 (MPing Ping_zero))) (winit, Map.empty) = Some (S, T) \<and>
    T 0 = Some (CallPacket 1 1 (MPing Ping_zero), Crashed) \<and> s_wires S 0 = []"
  by (rule write_close_race [where d = "[7]"]) simp_all

text \<open>
  C32: a write that fails part way leaves the connection usable.  After \<open>WritePacket\<close> returned
  an error with \<open>k\<close> bytes of its frame written (a write deadline that passed), the connection
  is not closed, and the next packet is sent right behind the cut-off frame.
\<close>

definition partial_acts :: "wcall \<Rightarrow> nat \<Rightarrow> error \<Rightarrow> wcall \<Rightarrow> nat \<Rightarrow> wact list" where
  "partial_acts c1 k e c2 n =
     (Call 0 c1 # runs 13 0) @ fail_acts 0 k e @ (Call 1 c2 # runs 13 1) @ write_acts 1 n"

theorem failed_write_desync:
  assumes "mar pkt = Inr d" and "length d \<le> 65535" and "mar pkt' = Inr d'" and "length d' \<le> 65535"
    and "k \<le> 8 + length d"
  shows "\<exists>S T. run_acts mar (partial_acts (CallPacket cmd sub pkt) k e (CallPacket cmd' sub' pkt') (8 + length d'))
      (winit, Map.empty) = Some (S, T) \<and>
    T 0 = Some (CallPacket cmd sub pkt, Finished (Some e)) \<and>
    T 1 = Some (CallPacket cmd' sub' pkt', Finished None) \<and> \<not> s_closed S \<and>
    s_wires S 0 = take k (frame cmd sub d) @ frame cmd' sub' d'"
proof -
  let ?c = "CallPacket cmd sub pkt" and ?c' = "CallPacket cmd' sub' pkt'" and ?g = "0 :: nat"
  obtain S1 where S1: "run_acts mar (Call 0 ?c # runs 13 0) (winit, Map.empty) =
      Some (S1, [0 \<mapsto> (?c, W_lock (SrcBuf ?g 0))])" "only_writer winit S1" "s_mus S1 = [0 \<mapsto> 0]"
    using run_to_socket [OF winv_init, where t = 0 and s = 0] assms(1,2)
    by (force simp: winit_def)
  have i1: "winv mar (S1, [0 \<mapsto> (?c, W_lock (SrcBuf ?g 0))])"
    by (rule writers_ts.run_inv [OF S1(1) winv_init])
  obtain S2 where S2: "run_acts mar (fail_acts 0 k e) (S1, [0 \<mapsto> (?c, W_lock (SrcBuf ?g 0))]) = Some (S2, [0 \<mapsto> (?c, Finished (Some e))])"
      "s_wires S2 = (\<lambda>_. [])(0 := take k (frame cmd sub d))" "s_mus S2 = Map.empty" "s_writeMu S2 = None"
      "s_conn S2 = Some 0" "\<not> s_closed S2" "s_writer S2 = 0"
    using run_socket(1) [OF i1, of 0 cmd sub pkt ?g 0 d k e] assms(1,5) S1(2,3)
    by (auto simp: only_writer_def winit_def)
  have i2: "winv mar (S2, [0 \<mapsto> (?c, Finished (Some e))])"
    by (rule writers_ts.run_inv [OF S2(1) i1])
  obtain S3 where S3: "run_acts mar (Call 1 ?c' # runs 13 1) (S2, [0 \<mapsto> (?c, Finished (Some e))]) =
      Some (S3, [0 \<mapsto> (?c, Finished (Some e)), 1 \<mapsto> (?c', W_lock (SrcBuf ?g 0))])" "only_writer S2 S3"
    using run_to_socket [OF i2, of 1 0 pkt' d' cmd' sub'] assms(3,4) S2 by auto
  have i3: "winv mar (S3, [0 \<mapsto> (?c, Finished (Some e)), 1 \<mapsto> (?c', W_lock (SrcBuf ?g 0))])"
    by (rule writers_ts.run_inv [OF S3(1) i2])
  show ?thesis
    using run_socket(2) [OF i3, of 1 cmd' sub' pkt' ?g 0 d' 0] assms(3) S2 S3(2)
    unfolding partial_acts_def run_actions_append [OF S1(1)] run_actions_append [OF S2(1)] run_actions_append [OF S3(1)]
    by (auto simp: only_writer_def)
qed

theorem failed_write_desync_witness:
  "\<exists>S T. run_acts (\<lambda>_. Inr [7]) (partial_acts (CallPacket 1 1 (MPing Ping_zero)) 3 ErrTimeout
      (CallPacket 1 2 (MPing Ping_zero)) (8 + length [7 :: uint8])) (winit, Map.empty) = Some (S, T) \<and>
    T 0 = Some (CallPacket 1 1 (MPing Ping_zero), Finished (Some ErrTimeout)) \<and>
    T 1 = Some (CallPacket 1 2 (MPing Ping_zero), Finished None) \<and> \<not> s_closed S \<and>
    s_wires S 0 = take 3 (frame 1 1 [7]) @ frame 1 2 [7]"
  by (rule failed_write_desync [where d = "[7]" and d' = "[7]"]) simp_all

end
