(* ===== verification/Caches.thy ===== *)
theory Caches
  imports NF_Prelude
begin

text \<open>
  The in-process caches of \<open>pkg/util/cache\<close>: the LRU cache (\<open>lru.go\<close>), a map into the
  elements of a doubly linked list, and the cache with expiry (\<open>inmem.go\<close>).  Elements of
  the list are addresses into a heap of entries, as in the source.  The specification of the
  LRU cache is an association list, most recently used entry first; the locale
  \<open>kv_cache\<close> is what a user of the interface relies on: a cache may forget, but what it
  returns is the last value stored.
\<close>

type_synonym 'v any = "'v option"
type_synonym time = int

subsection \<open>The LRU cache\<close>

record 'v lruEntry =
  e_key :: string
  e_value :: "'v any"

record 'v lruCache =
  lc_cache :: "string \<rightharpoonup> nat"
  lc_ll :: "nat list"
  lc_elems :: "nat \<Rightarrow> 'v lruEntry"
  lc_next :: nat
  lc_limit :: nat
  lc_closed :: bool

definition defaultLRULimit :: nat where "defaultLRULimit = 1024"

definition NewLRUCache :: "int \<Rightarrow> 'v lruCache" where
  "NewLRUCache limit = \<lparr>lc_cache = Map.empty, lc_ll = [],
     lc_elems = (\<lambda>_. \<lparr>e_key = '''', e_value = None\<rparr>), lc_next = 0,
     lc_limit = (if limit \<le> 0 then defaultLRULimit else nat limit), lc_closed = False\<rparr>"

text \<open>\<open>container/list\<close>: \<open>MoveToFront\<close>, \<open>Remove\<close>, \<open>Back\<close>.\<close>

definition move_to_front :: "nat \<Rightarrow> nat list \<Rightarrow> nat list" where
  "move_to_front e l = e # remove1 e l"

definition lruCache_removeElementLocked :: "nat \<Rightarrow> 'v lruCache \<Rightarrow> 'v lruCache" where
  "lruCache_removeElementLocked e c =
     c\<lparr>lc_ll := remove1 e (lc_ll c), lc_cache := (lc_cache c)(e_key (lc_elems c e) := None)\<rparr>"

definition lruCache_removeOldestLocked :: "'v lruCache \<Rightarrow> 'v lruCache" where
  "lruCache_removeOldestLocked c =
     (if lc_ll c = [] then c else lruCache_removeElementLocked (last (lc_ll c)) c)"

function lruCache_evict :: "'v lruCache \<Rightarrow> 'v lruCache" where
  "lruCache_evict c =
     (if lc_limit c < length (lc_ll c) then lruCache_evict (lruCache_removeOldestLocked c) else c)"
  by pat_completeness auto

termination lruCache_evict
proof (relation "measure (\<lambda>c. length (lc_ll c))")
  fix c :: "'v lruCache"
  assume "lc_limit c < length (lc_ll c)"
  then have "lc_ll c \<noteq> []" by auto
  then show "(lruCache_removeOldestLocked c, c) \<in> measure (\<lambda>c. length (lc_ll c))"
    by (auto simp: lruCache_removeOldestLocked_def lruCache_removeElementLocked_def length_remove1)
qed simp

declare lruCache_evict.simps [simp del]

definition lruCache_Get :: "string \<Rightarrow> 'v lruCache \<Rightarrow> 'v any \<times> 'v lruCache" where
  "lruCache_Get key c =
     (if lc_closed c then (None, c)
      else (case lc_cache c key of
          None \<Rightarrow> (None, c)
        | Some e \<Rightarrow> (e_value (lc_elems c e), c\<lparr>lc_ll := move_to_front e (lc_ll c)\<rparr>)))"

definition lruCache_Set :: "string \<Rightarrow> 'v any \<Rightarrow> 'v lruCache \<Rightarrow> 'v lruCache" where
  "lruCache_Set key val c =
     (if lc_closed c then c
      else (case lc_cache c key of
          Some e \<Rightarrow> c\<lparr>lc_ll := move_to_front e (lc_ll c),
                     lc_elems := (lc_elems c)(e := (lc_elems c e)\<lparr>e_value := val\<rparr>)\<rparr>
        | None \<Rightarrow>
           lruCache_evict
             (c\<lparr>lc_ll := lc_next c # lc_ll c,
                lc_elems := (lc_elems c)(lc_next c := \<lparr>e_key = key, e_value = val\<rparr>),
                lc_next := Suc (lc_next c),
                lc_cache := (lc_cache c)(key \<mapsto> lc_next c)\<rparr>)))"

definition lruCache_Delete :: "string \<Rightarrow> 'v lruCache \<Rightarrow> 'v lruCache" where
  "lruCache_Delete key c =
     (if lc_closed c then c
      else (case lc_cache c key of None \<Rightarrow> c | Some e \<Rightarrow> lruCache_removeElementLocked e c))"

definition lruCache_Close :: "'v lruCache \<Rightarrow> 'v lruCache" where
  "lruCache_Close c =
     (if lc_closed c then c else c\<lparr>lc_closed := True, lc_cache := Map.empty, lc_ll := []\<rparr>)"

definition lruCache_Length :: "'v lruCache \<Rightarrow> nat" where
  "lruCache_Length c = length (lc_ll c)"

subsection \<open>The cache with expiry\<close>

text \<open>Times are nanoseconds; \<open>0\<close> is the zero \<open>time.Time\<close>.\<close>

record 'v itemWithTTL =
  it_value :: "'v any"
  it_expiration :: time

record 'v inMemCache =
  im_cache :: "string \<rightharpoonup> 'v itemWithTTL"
  im_closed :: bool

definition defaultTTL :: time where "defaultTTL = 24 * 3600 * 1000000000"

definition NewInMemCache :: "'v inMemCache" where
  "NewInMemCache = \<lparr>im_cache = Map.empty, im_closed = False\<rparr>"

definition expired :: "time \<Rightarrow> 'v itemWithTTL \<Rightarrow> bool" where
  "expired now it \<longleftrightarrow> it_expiration it \<noteq> 0 \<and> it_expiration it < now"

definition inMemCache_Delete :: "string \<Rightarrow> 'v inMemCache \<Rightarrow> 'v inMemCache" where
  "inMemCache_Delete key c = c\<lparr>im_cache := (im_cache c)(key := None)\<rparr>"

definition inMemCache_Get :: "time \<Rightarrow> string \<Rightarrow> 'v inMemCache \<Rightarrow> 'v any \<times> 'v inMemCache" where
  "inMemCache_Get now key c =
     (case im_cache c key of
        None \<Rightarrow> (None, c)
      | Some it \<Rightarrow> (if expired now it then (None, inMemCache_Delete key c) else (it_value it, c)))"

definition inMemCache_SetWithTTL :: "time \<Rightarrow> string \<Rightarrow> 'v any \<Rightarrow> time \<Rightarrow> 'v inMemCache \<Rightarrow> 'v inMemCache" where
  "inMemCache_SetWithTTL now key val ttl c =
     (if im_closed c then c
      else c\<lparr>im_cache := (im_cache c)(key \<mapsto> \<lparr>it_value = val, it_expiration = now + ttl\<rparr>)\<rparr>)"

definition inMemCache_Set :: "time \<Rightarrow> string \<Rightarrow> 'v any \<Rightarrow> 'v inMemCache \<Rightarrow> 'v inMemCache" where
  "inMemCache_Set now key val c = inMemCache_SetWithTTL now key val defaultTTL c"

text \<open>One tick of \<open>periodicCleanup\<close>.\<close>

definition cleanup_tick :: "time \<Rightarrow> 'v inMemCache \<Rightarrow> 'v inMemCache" where
  "cleanup_tick now c =
     c\<lparr>im_cache := (\<lambda>key. case im_cache c key of
         None \<Rightarrow> None | Some it \<Rightarrow> if expired now it then None else Some it)\<rparr>"

definition inMemCache_Close :: "'v inMemCache \<Rightarrow> 'v inMemCache" where
  "inMemCache_Close c = (if im_closed c then c else c\<lparr>im_closed := True, im_cache := Map.empty\<rparr>)"

definition inMemCache_Length :: "'v inMemCache \<Rightarrow> nat" where
  "inMemCache_Length c = card (dom (im_cache c))"

subsection \<open>LRU: invariant and abstraction\<close>

text \<open>The map and the list describe the same elements; the list is bounded; closing empties it.\<close>

definition lru_core :: "'v lruCache \<Rightarrow> bool" where
  "lru_core c \<longleftrightarrow> distinct (lc_ll c) \<and> (\<forall>e \<in> set (lc_ll c). e < lc_next c) \<and>
     (\<forall>k e. lc_cache c k = Some e \<longleftrightarrow> e \<in> set (lc_ll c) \<and> e_key (lc_elems c e) = k)"

definition lru_inv :: "'v lruCache \<Rightarrow> bool" where
  "lru_inv c \<longleftrightarrow> lru_core c \<and> 0 < lc_limit c \<and> length (lc_ll c) \<le> lc_limit c \<and>
     (lc_closed c \<longrightarrow> lc_ll c = [])"

definition entry :: "'v lruCache \<Rightarrow> nat \<Rightarrow> string \<times> 'v any" where
  "entry c e = (e_key (lc_elems c e), e_value (lc_elems c e))"

definition lru_abs :: "'v lruCache \<Rightarrow> (string \<times> 'v any) list" where
  "lru_abs c = map (entry c) (lc_ll c)"

text \<open>The specification: a bounded list of distinct keys in order of use.\<close>

definition without :: "string \<Rightarrow> (string \<times> 'v any) list \<Rightarrow> (string \<times> 'v any) list" where
  "without k l = filter (\<lambda>p. fst p \<noteq> k) l"

definition spec_get :: "string \<Rightarrow> (string \<times> 'v any) list \<Rightarrow> 'v any \<times> (string \<times> 'v any) list" where
  "spec_get k l = (case map_of l k of None \<Rightarrow> (None, l) | Some v \<Rightarrow> (v, (k, v) # without k l))"

definition spec_set :: "nat \<Rightarrow> string \<Rightarrow> 'v any \<Rightarrow> (string \<times> 'v any) list \<Rightarrow> (string \<times> 'v any) list" where
  "spec_set n k v l = take n ((k, v) # without k l)"

lemma lru_keys:
  assumes "lru_core c" and "e \<in> set (lc_ll c)" and "d \<in> set (lc_ll c)"
    and "e_key (lc_elems c e) = e_key (lc_elems c d)"
  shows "e = d"
  using assms unfolding lru_core_def by (metis option.inject)

lemma without_abs:
  assumes "lru_core c" and "e \<in> set (lc_ll c)"
  shows "without (e_key (lc_elems c e)) (lru_abs c) = map (entry c) (remove1 e (lc_ll c))"
proof -
  have "filter (\<lambda>d. e_key (lc_elems c d) \<noteq> e_key (lc_elems c e)) (lc_ll c) = filter (\<lambda>d. d \<noteq> e) (lc_ll c)"
    using lru_keys [OF assms(1) assms(2)] by (intro filter_cong) metis+
  moreover have "filter (\<lambda>d. d \<noteq> e) (lc_ll c) = remove1 e (lc_ll c)"
    using assms(1) by (simp add: lru_core_def distinct_remove1_removeAll removeAll_filter_not_eq eq_commute [of e])
  ultimately show ?thesis
    by (simp add: without_def lru_abs_def entry_def filter_map o_def)
qed

lemma map_of_abs:
  assumes "lru_core c"
  shows "map_of (lru_abs c) k = map_option (\<lambda>e. e_value (lc_elems c e)) (lc_cache c k)"
proof -
  have "map_of (map (entry c) l) k = map_option (\<lambda>e. e_value (lc_elems c e)) (lc_cache c k)"
    if "\<forall>e. lc_cache c k = Some e \<longleftrightarrow> e \<in> set l \<and> e_key (lc_elems c e) = k" for l
    using that
  proof (induction l)
    case Nil
    then show ?case by (cases "lc_cache c k") auto
  next
    case (Cons d l)
    show ?case
    proof (cases "e_key (lc_elems c d) = k")
      case True
      then have "lc_cache c k = Some d" using Cons.prems by simp
      with True show ?thesis by (simp add: entry_def)
    next
      case False
      with Cons show ?thesis by (auto simp: entry_def)
    qed
  qed
  with assms show ?thesis unfolding lru_abs_def by (simp add: lru_core_def)
qed

lemma without_absent: "map_of l k = None \<Longrightarrow> without k l = l"
  by (auto simp: without_def map_of_eq_None_iff filter_id_conv image_def)

lemma removeElement_core:
  assumes "lru_core c" and "e \<in> set (lc_ll c)"
  shows "lru_core (lruCache_removeElementLocked e c)"
  using assms lru_keys [OF assms(1) _ assms(2)]
  by (auto simp: lru_core_def lruCache_removeElementLocked_def)

lemma removeElement_abs:
  assumes "lru_core c" and "e \<in> set (lc_ll c)"
  shows "lru_abs (lruCache_removeElementLocked e c) = without (e_key (lc_elems c e)) (lru_abs c)"
  unfolding without_abs [OF assms] by (simp add: lru_abs_def entry_def lruCache_removeElementLocked_def)

lemma move_to_front_core:
  "lru_core c \<Longrightarrow> e \<in> set (lc_ll c) \<Longrightarrow> lru_core (c\<lparr>lc_ll := move_to_front e (lc_ll c)\<rparr>)"
  by (auto simp: lru_core_def move_to_front_def)

lemma length_move_to_front: "e \<in> set l \<Longrightarrow> length (move_to_front e l) = length l"
  using length_pos_if_in_set [of e l] by (simp add: move_to_front_def length_remove1)

lemma removeOldest_effect:
  assumes "lru_core c" and "lc_ll c \<noteq> []"
  shows "lru_core (lruCache_removeOldestLocked c) \<and> lc_ll (lruCache_removeOldestLocked c) = butlast (lc_ll c) \<and>
    lc_elems (lruCache_removeOldestLocked c) = lc_elems c \<and> lc_limit (lruCache_removeOldestLocked c) = lc_limit c \<and>
    lc_closed (lruCache_removeOldestLocked c) = lc_closed c"
proof -
  have "remove1 (last (lc_ll c)) (lc_ll c) = butlast (lc_ll c)"
    using assms append_butlast_last_id [of "lc_ll c"]
    by (metis distinct_append distinct_butlast lru_core_def not_distinct_conv_prefix remove1_append
        remove1.simps(2) append_Nil2)
  with assms removeElement_core [OF assms(1) last_in_set [OF assms(2)]] show ?thesis
    by (simp add: lruCache_removeOldestLocked_def) (simp add: lruCache_removeElementLocked_def)
qed

lemma evict_effect:
  assumes "lru_core c"
  shows "lru_core (lruCache_evict c) \<and> lc_ll (lruCache_evict c) = take (lc_limit c) (lc_ll c) \<and>
    lc_elems (lruCache_evict c) = lc_elems c \<and> lc_limit (lruCache_evict c) = lc_limit c \<and>
    lc_closed (lruCache_evict c) = lc_closed c"
  using assms
proof (induction c rule: lruCache_evict.induct)
  case (1 c)
  show ?case
  proof (cases "lc_limit c < length (lc_ll c)")
    case False
    with 1(2) show ?thesis by (simp add: lruCache_evict.simps [of c])
  next
    case True
    then have ne: "lc_ll c \<noteq> []" by auto
    note r = removeOldest_effect [OF 1(2) ne]
    have "take (lc_limit c) (butlast (lc_ll c)) = take (lc_limit c) (lc_ll c)"
      using True by (simp add: butlast_conv_take)
    with 1(1) [OF True] r True show ?thesis by (simp add: lruCache_evict.simps [of c])
  qed
qed

subsection \<open>LRU: the operations refine the specification\<close>

lemma New_inv [simp]: "lru_inv (NewLRUCache n)" "lru_abs (NewLRUCache n) = []"
  by (simp_all add: lru_inv_def lru_core_def lru_abs_def NewLRUCache_def defaultLRULimit_def)

lemma New_limit: "lc_limit (NewLRUCache n) = (if n \<le> 0 then 1024 else nat n)"
  by (simp add: NewLRUCache_def defaultLRULimit_def)

lemma Get_effect:
  assumes "lru_inv c" and "\<not> lc_closed c" and "lruCache_Get k c = (v, c')"
  shows "lru_inv c' \<and> (v, lru_abs c') = spec_get k (lru_abs c) \<and> lc_limit c' = lc_limit c \<and> \<not> lc_closed c'"
proof (cases "lc_cache c k")
  case None
  with assms map_of_abs [of c k] show ?thesis
    by (auto simp: lruCache_Get_def spec_get_def lru_inv_def)
next
  case (Some e)
  have core: "lru_core c" and e: "e \<in> set (lc_ll c)" "e_key (lc_elems c e) = k"
    using assms(1) Some by (auto simp: lru_inv_def lru_core_def)
  have "lru_abs (c\<lparr>lc_ll := move_to_front e (lc_ll c)\<rparr>) = entry c e # without k (lru_abs c)"
    using without_abs [OF core e(1)] e(2) by (simp add: lru_abs_def entry_def move_to_front_def)
  moreover have "map_of (lru_abs c) k = Some (e_value (lc_elems c e))"
    using map_of_abs [OF core, of k] Some by simp
  ultimately show ?thesis
    using assms Some e move_to_front_core [OF core e(1)] length_move_to_front [OF e(1)]
    by (auto simp: lruCache_Get_def spec_get_def lru_inv_def entry_def)
qed

lemma Set_effect:
  assumes "lru_inv c" and "\<not> lc_closed c"
  shows "lru_inv (lruCache_Set k v c) \<and> lru_abs (lruCache_Set k v c) = spec_set (lc_limit c) k v (lru_abs c) \<and>
    lc_limit (lruCache_Set k v c) = lc_limit c \<and> \<not> lc_closed (lruCache_Set k v c)"
proof (cases "lc_cache c k")
  case None
  define d where "d = c\<lparr>lc_ll := lc_next c # lc_ll c,
      lc_elems := (lc_elems c)(lc_next c := \<lparr>e_key = k, e_value = v\<rparr>),
      lc_next := Suc (lc_next c), lc_cache := (lc_cache c)(k \<mapsto> lc_next c)\<rparr>"
  have core: "lru_core c" using assms(1) by (simp add: lru_inv_def)
  have new: "lc_next c \<notin> set (lc_ll c)" using core by (auto simp: lru_core_def)
  have "\<forall>e \<in> set (lc_ll c). e_key (lc_elems c e) \<noteq> k"
    using core None unfolding lru_core_def by (metis option.distinct(1))
  then have "lru_core d"
    using core None new by (auto simp: lru_core_def d_def less_Suc_eq)
  from evict_effect [OF this] have ev: "lru_core (lruCache_evict d)"
    "lc_ll (lruCache_evict d) = take (lc_limit c) (lc_next c # lc_ll c)" "lc_elems (lruCache_evict d) = lc_elems d"
    "lc_limit (lruCache_evict d) = lc_limit c" "lc_closed (lruCache_evict d) = lc_closed c"
    by (simp_all add: d_def)
  have "map (entry d) (lc_next c # lc_ll c) = (k, v) # lru_abs c"
    using new by (auto simp: entry_def d_def lru_abs_def)
  moreover have "entry (lruCache_evict d) = entry d"
    using ev(3) by (simp add: entry_def fun_eq_iff)
  ultimately have "lru_abs (lruCache_evict d) = take (lc_limit c) ((k, v) # lru_abs c)"
    unfolding lru_abs_def ev(2) by (metis take_map)
  moreover have "without k (lru_abs c) = lru_abs c"
    using map_of_abs [OF core, of k] None by (intro without_absent) simp
  ultimately show ?thesis
    using assms None ev by (simp add: lruCache_Set_def d_def [symmetric] spec_set_def lru_inv_def)
next
  case (Some e)
  have core: "lru_core c" and e: "e \<in> set (lc_ll c)" "e_key (lc_elems c e) = k"
    using assms(1) Some by (auto simp: lru_inv_def lru_core_def)
  define d where "d = c\<lparr>lc_ll := move_to_front e (lc_ll c),
      lc_elems := (lc_elems c)(e := (lc_elems c e)\<lparr>e_value := v\<rparr>)\<rparr>"
  have "lru_core d"
    using move_to_front_core [OF core e(1)] by (simp add: lru_core_def d_def)
  moreover have "lru_abs d = (k, v) # without k (lru_abs c)"
  proof -
    have "distinct (lc_ll c)" using core by (simp add: lru_core_def)
    then have "e \<notin> set (remove1 e (lc_ll c))" by simp
    with without_abs [OF core e(1)] e(2) show ?thesis
      by (auto simp: lru_abs_def entry_def d_def move_to_front_def)
  qed
  moreover have "length (lru_abs d) \<le> lc_limit c"
    using assms(1) length_move_to_front [OF e(1)] by (simp add: lru_abs_def d_def lru_inv_def)
  ultimately show ?thesis
    using assms Some length_move_to_front [OF e(1)]
    by (simp add: lruCache_Set_def d_def [symmetric] spec_set_def lru_inv_def lru_abs_def)
      (simp add: d_def)
qed

lemma Delete_effect:
  assumes "lru_inv c" and "\<not> lc_closed c"
  shows "lru_inv (lruCache_Delete k c) \<and> lru_abs (lruCache_Delete k c) = without k (lru_abs c) \<and>
    lc_limit (lruCache_Delete k c) = lc_limit c \<and> \<not> lc_closed (lruCache_Delete k c)"
proof (cases "lc_cache c k")
  case None
  with assms map_of_abs [of c k] show ?thesis
    by (simp add: lruCache_Delete_def without_absent lru_inv_def)
next
  case (Some e)
  have core: "lru_core c" and e: "e \<in> set (lc_ll c)" "e_key (lc_elems c e) = k"
    using assms(1) Some by (auto simp: lru_inv_def lru_core_def)
  with assms Some removeElement_core [OF core e(1)] removeElement_abs [OF core e(1)] show ?thesis
    by (simp add: lruCache_Delete_def lru_inv_def)
      (auto simp: lruCache_removeElementLocked_def length_remove1)
qed

lemma closed_ops:
  "lc_closed c \<Longrightarrow> lruCache_Get k c = (None, c)" "lc_closed c \<Longrightarrow> lruCache_Set k v c = c"
  "lc_closed c \<Longrightarrow> lruCache_Delete k c = c"
  by (simp_all add: lruCache_Get_def lruCache_Set_def lruCache_Delete_def)

subsection \<open>What a cache promises\<close>

datatype 'v cache_op = OGet string | OSet string "'v any" | ODelete string

text \<open>The last value stored under each key, ignoring that a cache may forget.\<close>

fun last_stored :: "'v cache_op list \<Rightarrow> (string \<Rightarrow> 'v any) \<Rightarrow> string \<Rightarrow> 'v any" where
  "last_stored [] m = m"
| "last_stored (OGet k # ops) m = last_stored ops m"
| "last_stored (OSet k v # ops) m = last_stored ops (m(k := v))"
| "last_stored (ODelete k # ops) m = last_stored ops (m(k := None))"

text \<open>A client's calls, each at its time.\<close>

fun cache_step ::
  "(time \<Rightarrow> string \<Rightarrow> 'c \<Rightarrow> 'v any \<times> 'c) \<Rightarrow> (time \<Rightarrow> string \<Rightarrow> 'v any \<Rightarrow> 'c \<Rightarrow> 'c) \<Rightarrow> (time \<Rightarrow> string \<Rightarrow> 'c \<Rightarrow> 'c)
    \<Rightarrow> time \<Rightarrow> 'v cache_op \<Rightarrow> 'c \<Rightarrow> 'c" where
  "cache_step g s d t (OGet k) c = snd (g t k c)"
| "cache_step g s d t (OSet k v) c = s t k v c"
| "cache_step g s d t (ODelete k) c = d t k c"

fun cache_run ::
  "(time \<Rightarrow> string \<Rightarrow> 'c \<Rightarrow> 'v any \<times> 'c) \<Rightarrow> (time \<Rightarrow> string \<Rightarrow> 'v any \<Rightarrow> 'c \<Rightarrow> 'c) \<Rightarrow> (time \<Rightarrow> string \<Rightarrow> 'c \<Rightarrow> 'c)
    \<Rightarrow> (time \<times> 'v cache_op) list \<Rightarrow> 'c \<Rightarrow> 'c" where
  "cache_run g s d [] c = c"
| "cache_run g s d ((t, x) # ops) c = cache_run g s d ops (cache_step g s d t x c)"

text \<open>
  The interface as a client sees it: \<open>view now c\<close> is what a \<open>Get\<close> at time \<open>now\<close>
  returns.  A value just stored is found again, and as time passes and other operations run,
  a key keeps its value or loses it.
\<close>

locale kv_cache =
  fixes inv :: "'c \<Rightarrow> bool"
    and is_open :: "'c \<Rightarrow> bool"
    and view :: "time \<Rightarrow> 'c \<Rightarrow> string \<Rightarrow> 'v any"
    and get_op :: "time \<Rightarrow> string \<Rightarrow> 'c \<Rightarrow> 'v any \<times> 'c"
    and set_op :: "time \<Rightarrow> string \<Rightarrow> 'v any \<Rightarrow> 'c \<Rightarrow> 'c"
    and del_op :: "time \<Rightarrow> string \<Rightarrow> 'c \<Rightarrow> 'c"
  assumes get_inv: "inv c \<Longrightarrow> inv (snd (get_op t k c))"
    and set_inv: "inv c \<Longrightarrow> inv (set_op t k v c)"
    and del_inv: "inv c \<Longrightarrow> inv (del_op t k c)"
    and get_result: "inv c \<Longrightarrow> fst (get_op t k c) = view t c k"
    and get_view: "inv c \<Longrightarrow> t \<le> t' \<Longrightarrow> view t' (snd (get_op t k c)) j \<in> {view t c j, None}"
    and set_hit: "inv c \<Longrightarrow> is_open c \<Longrightarrow> view t (set_op t k v c) k = v"
    and set_view: "inv c \<Longrightarrow> t \<le> t' \<Longrightarrow> view t' (set_op t k v c) j \<in> {if j = k then v else view t c j, None}"
    and del_view: "inv c \<Longrightarrow> t \<le> t' \<Longrightarrow> view t' (del_op t k c) j \<in> {if j = k then None else view t c j, None}"
    and later: "inv c \<Longrightarrow> t \<le> t' \<Longrightarrow> view t' c j \<in> {view t c j, None}"
begin

abbreviation step_op :: "time \<Rightarrow> 'v cache_op \<Rightarrow> 'c \<Rightarrow> 'c" where
  "step_op \<equiv> cache_step get_op set_op del_op"

abbreviation run_ops :: "(time \<times> 'v cache_op) list \<Rightarrow> 'c \<Rightarrow> 'c" where
  "run_ops \<equiv> cache_run get_op set_op del_op"

lemma step_op_inv: "inv c \<Longrightarrow> inv (step_op t x c)"
  by (cases x) (simp_all add: get_inv set_inv del_inv)

lemma run_ops_inv: "inv c \<Longrightarrow> inv (run_ops ops c)"
  by (induction ops arbitrary: c) (auto simp: step_op_inv)

lemma step_op_view:
  assumes "inv c" and "t \<le> t'" and "\<forall>j. view t c j \<in> {m j, None}"
  shows "view t' (step_op t x c) j \<in> {last_stored [x] m j, None}"
proof (cases x)
  case (OGet k)
  have "view t' (snd (get_op t k c)) j \<in> {view t c j, None}" by (rule get_view [OF assms(1,2)])
  with OGet spec [OF assms(3), of j] show ?thesis by auto
next
  case (OSet k v)
  have "view t' (set_op t k v c) j \<in> {if j = k then v else view t c j, None}" by (rule set_view [OF assms(1,2)])
  with OSet spec [OF assms(3), of j] show ?thesis by (auto split: if_splits)
next
  case (ODelete k)
  have "view t' (del_op t k c) j \<in> {if j = k then None else view t c j, None}" by (rule del_view [OF assms(1,2)])
  with ODelete spec [OF assms(3), of j] show ?thesis by (auto split: if_splits)
qed

lemma last_stored_Cons: "last_stored (x # xs) m = last_stored xs (last_stored [x] m)"
  by (cases x) simp_all

text \<open>Coherence: after any operations at non-decreasing times, a hit is the last value stored.\<close>

lemma coherent:
  assumes "inv c" and "\<forall>j. view t0 c j \<in> {m j, None}" and "sorted (t0 # map fst ops @ [t])"
  shows "view t (run_ops ops c) j \<in> {last_stored (map snd ops) m j, None}"
  using assms
proof (induction ops arbitrary: c t0 m)
  case Nil
  have "view t c j \<in> {view t0 c j, None}" using Nil later [of c t0 t j] by simp
  with spec [OF Nil(2), of j] show ?case by auto
next
  case (Cons p ops)
  obtain s x where p: "p = (s, x)" by (cases p)
  have le: "t0 \<le> s" "sorted (s # map fst ops @ [t])" using Cons.prems(3) p by auto
  have 1: "\<forall>j. view s c j \<in> {m j, None}"
  proof
    fix j
    show "view s c j \<in> {m j, None}"
      using later [OF Cons.prems(1) le(1), of j] spec [OF Cons.prems(2), of j] by auto
  qed
  have 2: "\<forall>j. view s (step_op s x c) j \<in> {last_stored [x] m j, None}"
    using step_op_view [OF Cons.prems(1) order_refl 1] by blast
  from Cons.IH [OF step_op_inv [OF Cons.prems(1)] 2 le(2)] p show ?case
    unfolding p list.map snd_conv cache_run.simps by (subst last_stored_Cons) simp
qed

lemma get_coherent:
  assumes "inv c" and "\<forall>j. view t0 c j = None" and "sorted (t0 # map fst ops @ [t])"
  shows "fst (get_op t k (run_ops ops c)) \<in> {last_stored (map snd ops) (\<lambda>_. None) k, None}"
  using coherent [OF assms(1) _ assms(3), of "\<lambda>_. None" k] assms(2) get_result [OF run_ops_inv [OF assms(1)]]
  by simp

end

subsection \<open>Both caches keep the promise\<close>

definition lru_view :: "time \<Rightarrow> 'v lruCache \<Rightarrow> string \<Rightarrow> 'v any" where
  "lru_view t c k = (case map_of (lru_abs c) k of None \<Rightarrow> None | Some v \<Rightarrow> v)"

lemma lru_view_closed: "lru_inv c \<Longrightarrow> lc_closed c \<Longrightarrow> lru_view t c j = None"
  by (simp add: lru_view_def lru_inv_def lru_abs_def)

lemma map_of_without: "map_of (without k l) j = (if j = k then None else map_of l j)"
  by (induction l) (auto simp: without_def)

lemma map_of_take_sub: "distinct (map fst l) \<Longrightarrow> map_of (take n l) j \<in> {map_of l j, None}"
proof -
  assume d: "distinct (map fst l)"
  have "map_of (take n l) j = Some v \<Longrightarrow> map_of l j = Some v" for v
    using d map_of_SomeD [of "take n l" j v] set_take_subset [of n l] by auto
  then show ?thesis by (cases "map_of (take n l) j") auto
qed

lemma distinct_without: "distinct (map fst l) \<Longrightarrow> distinct (map fst (without k l))"
  by (induction l) (auto simp: without_def)

lemma distinct_abs:
  assumes "lru_inv c"
  shows "distinct (map fst (lru_abs c))"
proof -
  have core: "lru_core c" using assms by (simp add: lru_inv_def)
  have "inj_on (\<lambda>e. e_key (lc_elems c e)) (set (lc_ll c))"
    using lru_keys [OF core] by (auto simp: inj_on_def)
  with core show ?thesis
    by (simp add: lru_abs_def entry_def o_def distinct_map lru_core_def)
qed

lemma lru_set_view:
  assumes "lru_inv c"
  shows "lru_view t' (lruCache_Set k v c) j \<in> {if j = k then v else lru_view t c j, None}"
proof (cases "lc_closed c")
  case True
  with lru_view_closed [OF assms True] show ?thesis by (simp add: closed_ops)
next
  case False
  let ?l = "(k, v) # without k (lru_abs c)"
  have "fst ` set (without k (lru_abs c)) \<subseteq> - {k}" by (auto simp: without_def)
  then have "distinct (map fst ?l)"
    using distinct_without [OF distinct_abs [OF assms], of k] by auto
  from map_of_take_sub [OF this, of "lc_limit c" j] Set_effect [OF assms False, of k v] show ?thesis
    by (auto simp: lru_view_def spec_set_def map_of_without split: if_splits option.splits)
qed

interpretation lru: kv_cache lru_inv "\<lambda>c. \<not> lc_closed c" lru_view "\<lambda>t. lruCache_Get" "\<lambda>t. lruCache_Set"
  "\<lambda>t. lruCache_Delete"
proof
  fix c :: "'v lruCache" and t t' :: time and k j :: string and v :: "'v any"
  assume inv: "lru_inv c"
  obtain v' c' where g: "lruCache_Get k c = (v', c')" by (cases "lruCache_Get k c")
  have get: "lru_inv c' \<and> v' = lru_view t c k \<and> (\<forall>j. lru_view t' c' j = lru_view t c j)"
  proof (cases "lc_closed c")
    case True
    with g inv lru_view_closed [OF inv True] show ?thesis by (simp add: closed_ops)
  next
    case False
    from Get_effect [OF inv False g] show ?thesis
      by (auto simp: spec_get_def lru_view_def map_of_without split: option.splits)
  qed
  then show "lru_inv (snd (lruCache_Get k c))" "fst (lruCache_Get k c) = lru_view t c k"
    "lru_view t' (snd (lruCache_Get k c)) j \<in> {lru_view t c j, None}"
    by (simp_all add: g)
  show "lru_inv (lruCache_Set k v c)" "lru_inv (lruCache_Delete k c)"
    using Set_effect [OF inv, of k v] Delete_effect [OF inv, of k] inv
    by (cases "lc_closed c"; simp add: closed_ops)+
  show "lru_view t' (lruCache_Set k v c) j \<in> {if j = k then v else lru_view t c j, None}"
    by (rule lru_set_view [OF inv])
  show "lru_view t' (lruCache_Delete k c) j \<in> {if j = k then None else lru_view t c j, None}"
    using Delete_effect [OF inv, of k] lru_view_closed [OF inv]
    by (cases "lc_closed c") (auto simp: closed_ops lru_view_def map_of_without)
  show "lru_view t' c j \<in> {lru_view t c j, None}" by (simp add: lru_view_def)
next
  fix c :: "'v lruCache" and t :: time and k and v :: "'v any"
  assume inv: "lru_inv c" and "\<not> lc_closed c"
  then have "0 < lc_limit c" by (simp add: lru_inv_def)
  with Set_effect [OF inv \<open>\<not> lc_closed c\<close>, of k v] show "lru_view t (lruCache_Set k v c) k = v"
    by (cases "lc_limit c") (auto simp: lru_view_def spec_set_def)
qed

definition im_view :: "time \<Rightarrow> 'v inMemCache \<Rightarrow> string \<Rightarrow> 'v any" where
  "im_view t c k = (case im_cache c k of
     None \<Rightarrow> None | Some it \<Rightarrow> if expired t it then None else it_value it)"

definition im_inv :: "'v inMemCache \<Rightarrow> bool" where
  "im_inv c \<longleftrightarrow> (im_closed c \<longrightarrow> im_cache c = Map.empty)"

lemma expired_later: "expired t it \<Longrightarrow> t \<le> t' \<Longrightarrow> expired t' it"
  by (simp add: expired_def)

interpretation inmem: kv_cache im_inv "\<lambda>c. \<not> im_closed c" im_view inMemCache_Get inMemCache_Set
  "\<lambda>t. inMemCache_Delete"
  by unfold_locales
    (auto simp: im_inv_def im_view_def inMemCache_Get_def inMemCache_Set_def inMemCache_SetWithTTL_def
      inMemCache_Delete_def defaultTTL_def expired_later split: option.splits if_splits,
     auto simp: expired_def)

subsection \<open>Recency\<close>

abbreviation lru_run :: "'v cache_op list \<Rightarrow> 'v lruCache \<Rightarrow> 'v lruCache" where
  "lru_run ops \<equiv> cache_run (\<lambda>t. lruCache_Get) (\<lambda>t. lruCache_Set) (\<lambda>t. lruCache_Delete) (map (Pair 0) ops)"

fun op_key :: "'v cache_op \<Rightarrow> string" where
  "op_key (OGet k) = k"
| "op_key (OSet k v) = k"
| "op_key (ODelete k) = k"

text \<open>The entries used more recently than \<open>k\<close>.\<close>

definition before :: "string \<Rightarrow> (string \<times> 'v any) list \<Rightarrow> (string \<times> 'v any) list" where
  "before k l = takeWhile (\<lambda>p. fst p \<noteq> k) l"

lemma before_Cons: "j \<noteq> k \<Longrightarrow> before k ((j, w) # l) = (j, w) # before k l"
  by (simp add: before_def)

lemma before_without: "j \<noteq> k \<Longrightarrow> before k (without j l) = without j (before k l)"
  by (induction l) (auto simp: before_def without_def)

lemma map_of_take_before: "length (before k l) < n \<Longrightarrow> map_of (take n l) k = map_of l k"
proof (induction l arbitrary: n)
  case (Cons p l)
  then show ?case by (cases p; cases n) (auto simp: before_def)
qed simp

lemma before_take: "before k (take n l) = take n (before k l)"
  by (induction l arbitrary: n) (auto simp: before_def take_Cons split: nat.splits)

definition kept :: "string \<Rightarrow> 'v any \<Rightarrow> string set \<Rightarrow> (string \<times> 'v any) list \<Rightarrow> bool" where
  "kept k v T l \<longleftrightarrow> map_of l k = Some v \<and> fst ` set (before k l) \<subseteq> T \<and> distinct (map fst l)"

lemma kept_length: "kept k v T l \<Longrightarrow> finite T \<Longrightarrow> length (before k l) \<le> card T"
proof -
  assume a: "kept k v T l" "finite T"
  have "map fst (before k l) = takeWhile (\<lambda>x. x \<noteq> k) (map fst l)"
    by (simp add: before_def takeWhile_map o_def)
  then have "distinct (map fst (before k l))"
    using a by (simp add: kept_def distinct_takeWhile)
  then have "length (before k l) = card (fst ` set (before k l))"
    by (metis distinct_card length_map set_map)
  with a show ?thesis by (simp add: kept_def card_mono)
qed

lemma kept_step:
  assumes "lru_inv c" and "\<not> lc_closed c" and "kept k v T (lru_abs c)" and "finite T"
    and "card (insert (op_key x) T - {k}) < lc_limit c" and "k \<notin> T"
    and "op_key x = k \<longrightarrow> x = OGet k"
  shows "kept k v (insert (op_key x) T - {k}) (lru_abs (cache_step (\<lambda>t. lruCache_Get) (\<lambda>t. lruCache_Set) (\<lambda>t. lruCache_Delete) t x c))"
proof -
  let ?T = "insert (op_key x) T - {k}"
  have l: "map_of (lru_abs c) k = Some v" "fst ` set (before k (lru_abs c)) \<subseteq> T" "distinct (map fst (lru_abs c))"
    using assms(3) by (auto simp: kept_def)
  have front: "kept k v ?T ((j, w) # without j (lru_abs c))" if "j \<noteq> k" "j = op_key x" for j w
    using that l assms(6) distinct_without [OF l(3), of j]
    by (auto simp: kept_def before_Cons before_without map_of_without) (auto simp: without_def)
  show ?thesis
  proof (cases x)
    case (OGet j)
    obtain w c' where g: "lruCache_Get j c = (w, c')" by (cases "lruCache_Get j c")
    have abs: "(w, lru_abs c') = spec_get j (lru_abs c)"
      using Get_effect [OF assms(1,2) g] by blast
    show ?thesis
    proof (cases "j = k")
      case True
      with abs l distinct_without [OF l(3), of k] OGet g show ?thesis
        by (auto simp: spec_get_def kept_def before_def without_def)
    next
      case False
      show ?thesis
      proof (cases "map_of (lru_abs c) j")
        case None
        with abs l OGet g assms(6) show ?thesis by (auto simp: spec_get_def kept_def)
      next
        case (Some u)
        with abs front [OF False] OGet g show ?thesis by (simp add: spec_get_def)
      qed
    qed
  next
    case (OSet j w)
    then have j: "j \<noteq> k" using assms(7) by auto
    let ?l = "(j, w) # without j (lru_abs c)"
    have f: "kept k v ?T ?l" using front [OF j] OSet by simp
    have "length (before k ?l) < lc_limit c"
      using kept_length [OF f] assms(4,5) by simp
    then have "kept k v ?T (take (lc_limit c) ?l)"
      using f map_of_take_before [of k ?l "lc_limit c"]
      by (auto simp: kept_def before_take take_map [symmetric] simp del: take_Suc_Cons dest: in_set_takeD)
    then show ?thesis
      using Set_effect [OF assms(1,2), of j w] OSet by (simp add: spec_set_def)
  next
    case (ODelete j)
    then have j: "j \<noteq> k" using assms(7) by auto
    have "kept k v ?T (without j (lru_abs c))"
      using j l assms(6) distinct_without [OF l(3), of j]
      by (auto simp: kept_def before_without map_of_without) (auto simp: without_def)
    then show ?thesis
      using Delete_effect [OF assms(1,2), of j] ODelete by simp
  qed
qed

lemma lru_step_keeps:
  assumes "lru_inv c"
  shows "lru_inv (cache_step (\<lambda>t. lruCache_Get) (\<lambda>t. lruCache_Set) (\<lambda>t. lruCache_Delete) t x c) \<and>
    lc_limit (cache_step (\<lambda>t. lruCache_Get) (\<lambda>t. lruCache_Set) (\<lambda>t. lruCache_Delete) t x c) = lc_limit c \<and>
    lc_closed (cache_step (\<lambda>t. lruCache_Get) (\<lambda>t. lruCache_Set) (\<lambda>t. lruCache_Delete) t x c) = lc_closed c"
proof (cases "lc_closed c")
  case True
  with assms show ?thesis by (cases x) (simp_all add: closed_ops)
next
  case False
  obtain w c' where "lruCache_Get (op_key x) c = (w, c')" by (cases "lruCache_Get (op_key x) c")
  with False Get_effect [OF assms False this] Set_effect [OF assms False] Delete_effect [OF assms False]
  show ?thesis by (cases x) auto
qed

lemma lru_run_keeps: "lru_inv c \<Longrightarrow> lru_inv (lru_run ops c) \<and> lc_limit (lru_run ops c) = lc_limit c"
proof (induction ops arbitrary: c)
  case (Cons x ops)
  with lru_step_keeps [OF Cons.prems, of 0 x] show ?case by simp
qed simp

lemma kept_run:
  assumes "lru_inv c" and "\<not> lc_closed c" and "kept k v T (lru_abs c)" and "finite T" and "k \<notin> T"
    and "card (op_key ` set ops \<union> T - {k}) < lc_limit c"
    and "\<forall>x \<in> set ops. op_key x = k \<longrightarrow> x = OGet k"
  shows "map_of (lru_abs (lru_run ops c)) k = Some v"
  using assms
proof (induction ops arbitrary: c T)
  case Nil
  then show ?case by (simp add: kept_def)
next
  case (Cons x ops)
  let ?T = "insert (op_key x) T - {k}"
  have sub: "?T \<subseteq> op_key ` set (x # ops) \<union> T - {k}" "finite (op_key ` set (x # ops) \<union> T - {k})"
    using Cons.prems(4) by auto
  then have "card ?T < lc_limit c"
    using card_mono [OF sub(2,1)] Cons.prems(6) by simp
  then have step: "kept k v ?T (lru_abs (cache_step (\<lambda>t. lruCache_Get) (\<lambda>t. lruCache_Set) (\<lambda>t. lruCache_Delete) 0 x c))"
    using kept_step [OF Cons.prems(1-4) _ Cons.prems(5)] Cons.prems(7) by simp
  have "op_key ` set ops \<union> ?T - {k} = op_key ` set (x # ops) \<union> T - {k}" by auto
  then show ?case
    using Cons.IH [OF _ _ step] lru_step_keeps [OF Cons.prems(1), of 0 x] Cons.prems by simp
qed

subsection \<open>Properties\<close>

text \<open>
  C3: the LRU cache refines its specification.  On an open cache whose map and list agree,
  \<open>Get\<close> returns what the list of entries holds and moves that entry to the front,
  \<open>Set\<close> puts its entry at the front and drops the least recently used entries beyond the
  limit, \<open>Delete\<close> removes the entry, and each keeps the agreement of map and list, the
  bound and the limit.
\<close>

theorem lru_refines_spec:
  assumes "lru_inv c" and "\<not> lc_closed c"
  shows "(fst (lruCache_Get k c), lru_abs (snd (lruCache_Get k c))) = spec_get k (lru_abs c) \<and>
    lru_abs (lruCache_Set k v c) = spec_set (lc_limit c) k v (lru_abs c) \<and>
    lru_abs (lruCache_Delete k c) = without k (lru_abs c) \<and>
    lru_inv (snd (lruCache_Get k c)) \<and> lru_inv (lruCache_Set k v c) \<and> lru_inv (lruCache_Delete k c)"
proof -
  obtain w c' where g: "lruCache_Get k c = (w, c')" by (cases "lruCache_Get k c")
  show ?thesis
    using Get_effect [OF assms g] Set_effect [OF assms, of k v] Delete_effect [OF assms, of k] g by simp
qed

theorem lru_refines_spec_witness:
  "lru_abs (lruCache_Set ''a'' (Some 1) (NewLRUCache 2 :: nat lruCache)) = [(''a'', Some 1)]"
proof -
  have "\<not> lc_closed (NewLRUCache 2 :: nat lruCache)" "lc_limit (NewLRUCache 2 :: nat lruCache) = 2"
    by (simp_all add: NewLRUCache_def)
  with lru_refines_spec [of "NewLRUCache 2 :: nat lruCache" "''a''" "Some 1"] show ?thesis
    by (simp add: spec_set_def without_def)
qed

text \<open>
  The LRU cache keeps what is recently used.  After \<open>Set k v\<close> on an open cache of
  limit \<open>n\<close>, and any further calls that do not set or delete \<open>k\<close> and touch fewer than
  \<open>n\<close> other keys, \<open>Get k\<close> still returns \<open>v\<close>.
\<close>

theorem lru_keeps_recent:
  assumes "lru_inv c" and "\<not> lc_closed c"
    and "\<forall>x \<in> set ops. op_key x = k \<longrightarrow> x = OGet k"
    and "card (op_key ` set ops - {k}) < lc_limit c"
  shows "fst (lruCache_Get k (lru_run ops (lruCache_Set k v c))) = v"
proof -
  note s = Set_effect [OF assms(1,2), of k v]
  have "0 < lc_limit c" using assms(1) by (simp add: lru_inv_def)
  then obtain l where l: "lru_abs (lruCache_Set k v c) = (k, v) # l"
    using s by (cases "lc_limit c") (auto simp: spec_set_def)
  moreover have "distinct (map fst (lru_abs (lruCache_Set k v c)))"
    using s by (intro distinct_abs) simp
  ultimately have "kept k v {} (lru_abs (lruCache_Set k v c))"
    by (simp add: kept_def before_def)
  then have "map_of (lru_abs (lru_run ops (lruCache_Set k v c))) k = Some v"
    using kept_run [of "lruCache_Set k v c" k v "{}" ops] s assms(3,4) by simp
  moreover have "lru_inv (lru_run ops (lruCache_Set k v c))"
    using lru_run_keeps s by blast
  ultimately show ?thesis
    using lru.get_result [where t = 0 and k = k and c = "lru_run ops (lruCache_Set k v c)"] by (simp add: lru_view_def)
qed

theorem lru_keeps_recent_witness:
  "fst (lruCache_Get ''a'' (lru_run [OSet ''b'' (Some 2), OGet ''b'', OSet ''b'' (Some 3)]
      (lruCache_Set ''a'' (Some 1) (NewLRUCache 2 :: nat lruCache)))) = Some 1"
proof -
  have "\<not> lc_closed (NewLRUCache 2 :: nat lruCache)" "lc_limit (NewLRUCache 2 :: nat lruCache) = 2"
    by (simp_all add: NewLRUCache_def)
  with lru_keeps_recent [of "NewLRUCache 2 :: nat lruCache" "[OSet ''b'' (Some 2), OGet ''b'', OSet ''b'' (Some 3)]"
      "''a''" "Some 1"] show ?thesis
    by simp
qed

text \<open>
  The LRU cache never holds more than its limit, and never returns a value other than
  the last one stored: from a new cache, after any calls, the number of entries is at most
  the capacity (1024 when the argument is not positive), and \<open>Get\<close> returns nil or the last
  value set for that key and not deleted since.
\<close>

theorem lru_bounded_and_coherent:
  "lruCache_Length (lru_run ops (NewLRUCache n)) \<le> (if n \<le> 0 then 1024 else nat n) \<and>
   fst (lruCache_Get k (lru_run ops (NewLRUCache n))) \<in> {last_stored ops (\<lambda>_. None) k, None}"
proof -
  have inv: "lru_inv (NewLRUCache n)" "\<forall>j. lru_view 0 (NewLRUCache n) j = None"
    by (simp_all add: lru_view_def)
  note run = lru_run_keeps [OF inv(1), of ops]
  have "lruCache_Length (lru_run ops (NewLRUCache n)) \<le> (if n \<le> 0 then 1024 else nat n)"
    using run by (simp add: lru_inv_def lruCache_Length_def New_limit)
  moreover have "sorted (0 # map fst (map (Pair (0 :: time)) ops) @ [0])"
    by (auto simp: sorted_append o_def map_replicate_const)
  then have "fst (lruCache_Get k (lru_run ops (NewLRUCache n))) \<in> {last_stored (map snd (map (Pair (0 :: time)) ops)) (\<lambda>_. None) k, None}"
    by (rule lru.get_coherent [OF inv])
  ultimately show ?thesis by (simp add: o_def)
qed

text \<open>
  The cache with expiry.  After \<open>SetWithTTL\<close> at time \<open>now\<close> on an open cache, a
  \<open>Get\<close> at any time returns the value until the deadline \<open>now + ttl\<close> has passed and nil
  afterwards (a negative lifetime is already over), and an expired entry is removed by the
  \<open>Get\<close> that finds it.
\<close>

theorem inmem_expiry:
  assumes "\<not> im_closed c" and "now + ttl \<noteq> 0"
  shows "inMemCache_Get t k (inMemCache_SetWithTTL now k v ttl c) =
    (if t \<le> now + ttl then (v, inMemCache_SetWithTTL now k v ttl c)
     else (None, inMemCache_Delete k (inMemCache_SetWithTTL now k v ttl c)))"
  using assms by (auto simp: inMemCache_Get_def inMemCache_SetWithTTL_def expired_def)

theorem inmem_expiry_witness:
  "fst (inMemCache_Get 15 ''k'' (inMemCache_SetWithTTL 10 ''k'' (Some 1) 5 (NewInMemCache :: nat inMemCache))) = Some 1 \<and>
   fst (inMemCache_Get 16 ''k'' (inMemCache_SetWithTTL 10 ''k'' (Some 1) 5 (NewInMemCache :: nat inMemCache))) = None"
  using inmem_expiry [of "NewInMemCache :: nat inMemCache" 10 5 _ "''k''" "Some 1"] by (simp add: NewInMemCache_def)

text \<open>
  Coherence of the cache with expiry.  From a new cache, after any calls at
  non-decreasing times and a cleanup tick, \<open>Get\<close> returns nil or the last value set for the
  key and not deleted since; the cleanup tick is invisible to every later \<open>Get\<close>.
\<close>

theorem inmem_coherent:
  assumes "sorted (t0 # map fst ops @ [t])" and "t \<le> t'"
  shows "fst (inMemCache_Get t k (cache_run inMemCache_Get inMemCache_Set (\<lambda>t. inMemCache_Delete) ops NewInMemCache))
      \<in> {last_stored (map snd ops) (\<lambda>_. None) k, None} \<and>
    fst (inMemCache_Get t' k (cleanup_tick t c)) = fst (inMemCache_Get t' k c)"
proof (rule conjI)
  have "im_inv NewInMemCache" "\<forall>j. im_view t0 NewInMemCache j = None"
    by (simp_all add: im_inv_def NewInMemCache_def im_view_def)
  then show "fst (inMemCache_Get t k (cache_run inMemCache_Get inMemCache_Set (\<lambda>t. inMemCache_Delete) ops NewInMemCache))
      \<in> {last_stored (map snd ops) (\<lambda>_. None) k, None}"
    using assms(1) by (rule inmem.get_coherent)
  show "fst (inMemCache_Get t' k (cleanup_tick t c)) = fst (inMemCache_Get t' k c)"
    using assms(2) by (auto simp: inMemCache_Get_def cleanup_tick_def expired_def split: option.splits)
qed

theorem inmem_coherent_witness:
  "fst (inMemCache_Get 7 ''k'' (cache_run inMemCache_Get inMemCache_Set (\<lambda>t. inMemCache_Delete)
      [(1, OSet ''k'' (Some 1)), (3, OSet ''k'' (Some 2)), (3, OGet ''k'')] (NewInMemCache :: nat inMemCache)))
    \<in> {Some 2, None}"
  using inmem_coherent [of 0 "[(1, OSet ''k'' (Some (1 :: nat))), (3, OSet ''k'' (Some 2)), (3, OGet ''k'')]" 7 7 "''k''"
      "NewInMemCache :: nat inMemCache"]
  by simp

end
