(* ===== verification/Cache_Race.thy ===== *)
theory Cache_Race
  imports Caches
begin

text \<open>
  Concurrent use of the cache with expiry (\<open>pkg/util/cache/inmem.go\<close>).  \<open>Get\<close> reads the item
  under the read lock, releases it, looks at the clock, and when the item has expired calls
  \<open>Delete\<close>, which takes the write lock again; \<open>periodicCleanup\<close> reads the clock before it
  takes the lock.  \<open>SetWithTTL\<close>, \<open>Delete\<close> and \<open>Close\<close> are one critical section each.  The
  clock moves between the steps.
\<close>

subsection \<open>Steps\<close>

text \<open>
  A call of \<open>Get\<close> after its read: the check of the item (an item is never changed once it
  is stored), the \<open>Delete\<close> of an expired one, the result.
\<close>

datatype 'v gpc =
    G_check "'v itemWithTTL"
  | G_delete
  | G_done "'v any"

text \<open>
  \<open>periodicCleanup\<close> waits in its \<open>select\<close>, waits for the lock with the time it read, or has
  returned; a tick may still be taken after \<open>Close\<close>, when both cases are ready.
\<close>

datatype sweep = K_select | K_lock time | K_exit

text \<open>
  Each call of \<open>Get\<close> has its key and the time at which it began.  That time and \<open>cr_sets\<close>, the
  stores made so far with key, value and deadline, only record what happened.
\<close>

record 'v cache_state =
  cr_cache :: "'v inMemCache"
  cr_now :: time
  cr_sweep :: sweep
  cr_gets :: "nat \<rightharpoonup> string \<times> time \<times> 'v gpc"
  cr_sets :: "(string \<times> 'v any \<times> time) list"

datatype 'v cact =
    AClock time
  | AGet nat string
  | AGo nat
  | ASet string "'v any" time
  | ADelete string
  | ATick
  | ASweep
  | AExit
  | AClose

definition get_read :: "string \<Rightarrow> 'v inMemCache \<Rightarrow> 'v gpc" where
  "get_read key c = (case im_cache c key of None \<Rightarrow> G_done None | Some it \<Rightarrow> G_check it)"

fun get_go :: "time \<Rightarrow> string \<Rightarrow> 'v gpc \<Rightarrow> 'v inMemCache \<Rightarrow> ('v gpc \<times> 'v inMemCache) option" where
  "get_go now key (G_check it) c = Some (if expired now it then G_delete else G_done (it_value it), c)"
| "get_go now key G_delete c = Some (G_done None, inMemCache_Delete key c)"
| "get_go now key (G_done v) c = None"

text \<open>Run alone, the steps are \<open>inMemCache_Get\<close>.\<close>

lemma Get_steps:
  "inMemCache_Get now key c =
     (case get_read key c of
        G_done v \<Rightarrow> (v, c)
      | G_check it \<Rightarrow>
         (case get_go now key (G_check it) c of
            Some (G_done v, c1) \<Rightarrow> (v, c1)
          | Some (G_delete, c1) \<Rightarrow> (None, snd (the (get_go now key G_delete c1)))))"
  by (simp add: inMemCache_Get_def get_read_def split: option.splits)

fun cache_act :: "'v cact \<Rightarrow> 'v cache_state \<Rightarrow> 'v cache_state option" where
  "cache_act (AClock t) S = (if cr_now S \<le> t then Some (S\<lparr>cr_now := t\<rparr>) else None)"
| "cache_act (AGet i key) S =
     (case cr_gets S i of
        Some _ \<Rightarrow> None
      | None \<Rightarrow> Some (S\<lparr>cr_gets := (cr_gets S)(i \<mapsto> (key, cr_now S, get_read key (cr_cache S)))\<rparr>))"
| "cache_act (AGo i) S =
     (case cr_gets S i of
        None \<Rightarrow> None
      | Some (key, t0, pc) \<Rightarrow>
         (case get_go (cr_now S) key pc (cr_cache S) of
            None \<Rightarrow> None
          | Some (pc', c) \<Rightarrow> Some (S\<lparr>cr_cache := c, cr_gets := (cr_gets S)(i \<mapsto> (key, t0, pc'))\<rparr>)))"
| "cache_act (ASet key val ttl) S =
     Some (S\<lparr>cr_cache := inMemCache_SetWithTTL (cr_now S) key val ttl (cr_cache S),
       cr_sets := (if im_closed (cr_cache S) then cr_sets S else cr_sets S @ [(key, val, cr_now S + ttl)])\<rparr>)"
| "cache_act (ADelete key) S = Some (S\<lparr>cr_cache := inMemCache_Delete key (cr_cache S)\<rparr>)"
| "cache_act ATick S =
     (case cr_sweep S of K_select \<Rightarrow> Some (S\<lparr>cr_sweep := K_lock (cr_now S)\<rparr>) | _ \<Rightarrow> None)"
| "cache_act ASweep S =
     (case cr_sweep S of
        K_lock t \<Rightarrow> Some (S\<lparr>cr_cache := cleanup_tick t (cr_cache S), cr_sweep := K_select\<rparr>)
      | _ \<Rightarrow> None)"
| "cache_act AExit S =
     (case cr_sweep S of
        K_select \<Rightarrow> if im_closed (cr_cache S) then Some (S\<lparr>cr_sweep := K_exit\<rparr>) else None
      | _ \<Rightarrow> None)"
| "cache_act AClose S = Some (S\<lparr>cr_cache := inMemCache_Close (cr_cache S)\<rparr>)"

abbreviation cache_acts :: "'v cact list \<Rightarrow> 'v cache_state \<Rightarrow> 'v cache_state option" where
  "cache_acts \<equiv> run_actions cache_act"

definition cache_init :: "time \<Rightarrow> 'v cache_state" where
  "cache_init t = \<lparr>cr_cache = NewInMemCache, cr_now = t, cr_sweep = K_select, cr_gets = Map.empty, cr_sets = []\<rparr>"

subsection \<open>What every interleaving keeps\<close>

definition stored_item :: "(string \<times> 'v any \<times> time) list \<Rightarrow> string \<Rightarrow> 'v itemWithTTL \<Rightarrow> bool" where
  "stored_item sets key it \<longleftrightarrow> (key, it_value it, it_expiration it) \<in> set sets"

fun get_ok :: "(string \<times> 'v any \<times> time) list \<Rightarrow> string \<Rightarrow> time \<Rightarrow> 'v gpc \<Rightarrow> bool" where
  "get_ok sets key t0 (G_check it) = stored_item sets key it"
| "get_ok sets key t0 G_delete = True"
| "get_ok sets key t0 (G_done v) =
     (v = None \<or> (\<exists>it. stored_item sets key it \<and> it_value it = v \<and> \<not> expired t0 it))"

definition cache_inv :: "'v cache_state \<Rightarrow> bool" where
  "cache_inv S \<longleftrightarrow> im_inv (cr_cache S) \<and>
     (\<forall>key it. im_cache (cr_cache S) key = Some it \<longrightarrow> stored_item (cr_sets S) key it) \<and>
     (\<forall>i key t0 pc. cr_gets S i = Some (key, t0, pc) \<longrightarrow> t0 \<le> cr_now S \<and> get_ok (cr_sets S) key t0 pc) \<and>
     (\<forall>t. cr_sweep S = K_lock t \<longrightarrow> t \<le> cr_now S)"

lemma get_ok_more:
  "get_ok sets key t0 pc \<Longrightarrow> set sets \<subseteq> set sets' \<Longrightarrow> get_ok sets' key t0 pc"
  by (cases pc) (auto simp: stored_item_def)

lemma cache_inv_go:
  assumes inv: "cache_inv S" and act: "cache_act (AGo i) S = Some S'"
  shows "cache_inv S'"
proof -
  obtain key t0 pc pc' c where i: "cr_gets S i = Some (key, t0, pc)" and go: "get_go (cr_now S) key pc (cr_cache S) = Some (pc', c)"
    and S': "S' = S\<lparr>cr_cache := c, cr_gets := (cr_gets S)(i \<mapsto> (key, t0, pc'))\<rparr>"
    using act by (auto split: option.splits)
  have ok: "t0 \<le> cr_now S" "get_ok (cr_sets S) key t0 pc" using inv i by (auto simp: cache_inv_def)
  have "get_ok (cr_sets S') key t0 pc'"
  proof (cases pc)
    case (G_check it)
    with go ok have "stored_item (cr_sets S') key it" by (auto simp: S' stored_item_def)
    with G_check go expired_later [of t0 it "cr_now S"] ok show ?thesis by (auto split: if_splits)
  qed (use go in auto)
  moreover have "im_inv c" "im_cache c k = Some it \<Longrightarrow> stored_item (cr_sets S) k it" for k it
    using inv go by (cases pc; auto simp: cache_inv_def im_inv_def inMemCache_Delete_def split: if_splits)+
  ultimately show ?thesis
    using inv ok by (auto simp: cache_inv_def S' stored_item_def)
qed

lemma cache_inv_frame:
  assumes "cache_inv S" and "im_inv (cr_cache S')" and "cr_now S \<le> cr_now S'" and "set (cr_sets S) \<subseteq> set (cr_sets S')"
    and "cr_gets S' = cr_gets S" and "\<And>t. cr_sweep S' = K_lock t \<Longrightarrow> t \<le> cr_now S'"
    and "\<And>key it. im_cache (cr_cache S') key = Some it \<Longrightarrow>
      im_cache (cr_cache S) key = Some it \<or> (key, it_value it, it_expiration it) \<in> set (cr_sets S')"
  shows "cache_inv S'"
  unfolding cache_inv_def
proof (intro conjI allI impI)
  fix key it assume "im_cache (cr_cache S') key = Some it"
  with assms(1,4,7) show "stored_item (cr_sets S') key it" unfolding cache_inv_def stored_item_def by blast
next
  fix i key t0 pc assume "cr_gets S' i = Some (key, t0, pc)"
  with assms(1,5) have "t0 \<le> cr_now S" "get_ok (cr_sets S) key t0 pc" by (auto simp: cache_inv_def)
  with assms(3,4) show "t0 \<le> cr_now S'" "get_ok (cr_sets S') key t0 pc" by (auto intro: get_ok_more)
qed (use assms(2,6) in auto)

interpretation cache_ts: action_system "cache_act :: 'v cact \<Rightarrow> 'v cache_state \<Rightarrow> _" cache_inv
proof
  fix a and S S' :: "'v cache_state"
  assume inv: "cache_inv S" and act: "cache_act a S = Some S'"
  then have im: "im_inv (cr_cache S)" and sw: "\<And>t. cr_sweep S = K_lock t \<Longrightarrow> t \<le> cr_now S"
    by (auto simp: cache_inv_def)
  note frame = cache_inv_frame [OF inv] and eff = im_inv_def inMemCache_SetWithTTL_def inMemCache_Delete_def
    cleanup_tick_def inMemCache_Close_def
  show "cache_inv S'"
  proof (cases a)
    case (AGet i key)
    then show ?thesis using inv act
      by (auto simp: cache_inv_def get_read_def stored_item_def split: option.splits if_splits)
  next
    case (AGo i)
    then show ?thesis using cache_inv_go inv act by blast
  qed (use act im sw in \<open>auto simp: eff intro!: frame split: if_splits sweep.splits option.splits dest: order_trans\<close>)
qed

lemma cache_init_inv: "cache_inv (cache_init t)"
  by (simp add: cache_inv_def cache_init_def NewInMemCache_def im_inv_def)

lemma cache_acts_inv: "cache_acts as (cache_init t) = Some S \<Longrightarrow> cache_inv S"
  by (rule cache_ts.run_inv [OF _ cache_init_inv])

subsection \<open>A fresh entry stays\<close>

text \<open>
  The steps that leave the entry of \<open>key\<close> alone while its deadline \<open>d\<close> has not passed:
  everything but stores and deletes of that key and \<open>Close\<close>.
\<close>

fun leaves :: "string \<Rightarrow> time \<Rightarrow> 'v cact \<Rightarrow> bool" where
  "leaves key d (AClock t) = (t \<le> d)"
| "leaves key d (ASet k v ttl) = (k \<noteq> key)"
| "leaves key d (ADelete k) = (k \<noteq> key)"
| "leaves key d AClose = False"
| "leaves key d _ = True"

text \<open>
  The item is stored, and the calls of \<open>Get\<close> for its key are over, unless they read this
  very item; those begun since (not in \<open>old\<close>) return its value.
\<close>

definition gets_fresh :: "nat set \<Rightarrow> string \<Rightarrow> 'v itemWithTTL \<Rightarrow> (nat \<rightharpoonup> string \<times> time \<times> 'v gpc) \<Rightarrow> bool" where
  "gets_fresh old key it gets \<longleftrightarrow>
     (\<forall>i t0 pc. gets i = Some (key, t0, pc) \<longrightarrow>
        pc = G_check it \<or> pc = G_done (it_value it) \<or> i \<in> old \<and> (\<exists>v. pc = G_done v))"

definition fresh_entry :: "nat set \<Rightarrow> string \<Rightarrow> 'v itemWithTTL \<Rightarrow> 'v cache_state \<Rightarrow> bool" where
  "fresh_entry old key it S \<longleftrightarrow>
     im_cache (cr_cache S) key = Some it \<and> cr_now S \<le> it_expiration it \<and>
     (\<forall>t. cr_sweep S = K_lock t \<longrightarrow> t \<le> cr_now S) \<and> gets_fresh old key it (cr_gets S)"

lemma gets_fresh_upd:
  "gets_fresh old key it gets \<Longrightarrow> k = key \<longrightarrow> pc = G_check it \<or> pc = G_done (it_value it) \<Longrightarrow>
    gets_fresh old key it (gets(i \<mapsto> (k, t0, pc)))"
  by (auto simp: gets_fresh_def)

lemma fresh_entry_act:
  assumes "fresh_entry old key it S" and "leaves key (it_expiration it) a" and "cache_act a S = Some S'"
  shows "fresh_entry old key it S'"
proof (cases a)
  case (AGo i)
  then obtain k t0 pc pc' c where i: "cr_gets S i = Some (k, t0, pc)" and go: "get_go (cr_now S) k pc (cr_cache S) = Some (pc', c)"
    and S': "S' = S\<lparr>cr_cache := c, cr_gets := (cr_gets S)(i \<mapsto> (k, t0, pc'))\<rparr>"
    using assms(3) by (auto split: option.splits)
  have pc: "pc = G_check it \<or> (\<exists>v. pc = G_done v)" if "k = key"
    using assms(1) i that unfolding fresh_entry_def gets_fresh_def by blast
  have "im_cache c key = Some it"
    using go assms(1) pc by (cases pc) (auto simp: fresh_entry_def inMemCache_Delete_def)
  moreover have "pc' = G_done (it_value it)" if "k = key"
    using go assms(1) pc that by (auto simp: fresh_entry_def expired_def)
  ultimately show ?thesis
    using assms(1) by (auto simp: fresh_entry_def S' intro: gets_fresh_upd)
next
  case ASweep
  with assms show ?thesis
    by (auto simp: fresh_entry_def cleanup_tick_def expired_def split: sweep.splits)
next
  case (AGet i k)
  with assms(1,3) show ?thesis
    by (auto simp: fresh_entry_def get_read_def intro!: gets_fresh_upd split: option.splits)
next
  case (AClock t)
  with assms show ?thesis
    by (fastforce simp: fresh_entry_def split: if_splits)
qed (use assms in \<open>auto simp: fresh_entry_def inMemCache_SetWithTTL_def inMemCache_Delete_def split: if_splits sweep.splits\<close>)

subsection \<open>Properties\<close>

text \<open>
  Whatever \<open>Get\<close> returns is a value that was stored.  In every interleaving of \<open>Get\<close>,
  \<open>SetWithTTL\<close>, \<open>Delete\<close>, \<open>Close\<close> and the periodic cleanup, at whatever times, a value that
  \<open>Get\<close> returns was stored under its key with a deadline that had not passed when the call
  began, and a closed cache is empty.
\<close>

theorem inmem_gets_safe:
  assumes "cache_acts as (cache_init t) = Some S"
  shows "(\<forall>i k t0 w. cr_gets S i = Some (k, t0, G_done (Some w)) \<longrightarrow>
      (\<exists>it. stored_item (cr_sets S) k it \<and> it_value it = Some w \<and> \<not> expired t0 it)) \<and>
    (im_closed (cr_cache S) \<longrightarrow> inMemCache_Length (cr_cache S) = 0)"
proof
  have inv: "cache_inv S" using assms by (rule cache_acts_inv)
  then show "\<forall>i k t0 w. cr_gets S i = Some (k, t0, G_done (Some w)) \<longrightarrow>
      (\<exists>it. stored_item (cr_sets S) k it \<and> it_value it = Some w \<and> \<not> expired t0 it)"
    by (fastforce simp: cache_inv_def)
  show "im_closed (cr_cache S) \<longrightarrow> inMemCache_Length (cr_cache S) = 0"
    using inv by (auto simp: cache_inv_def im_inv_def inMemCache_Length_def)
qed

text \<open>
  C18: a value stored in the cache with expiry is found until its deadline, under concurrent
  use.  When \<open>SetWithTTL\<close> stores a value, after any history, while no \<open>Get\<close> of that key is
  under way, then through any interleaving of \<open>Get\<close>s, cleanups and operations on other keys,
  until the key is stored or deleted again or the cache is closed, at all times up to the
  deadline, the entry stays, every \<open>Get\<close> begun since then returns that value, and a \<open>Get\<close>
  begun now does.
\<close>

theorem inmem_fresh_kept:
  assumes run: "cache_acts as (cache_init t) = Some S" and "\<not> im_closed (cr_cache S)" and "0 \<le> ttl"
    and idle: "\<forall>i t0 pc. cr_gets S i = Some (key, t0, pc) \<longrightarrow> (\<exists>w. pc = G_done w)"
    and later: "cache_acts (ASet key v ttl # bs) S = Some S'" and "list_all (leaves key (cr_now S + ttl)) bs"
  shows "im_cache (cr_cache S') key = Some \<lparr>it_value = v, it_expiration = cr_now S + ttl\<rparr> \<and>
    (\<forall>i t0 w. cr_gets S i = None \<and> cr_gets S' i = Some (key, t0, G_done w) \<longrightarrow> w = v) \<and>
    (\<forall>i. cr_gets S' i = None \<longrightarrow> (\<exists>S''. cache_acts [AGet i key, AGo i] S' = Some S'' \<and>
        cr_gets S'' i = Some (key, cr_now S', G_done v)))"
proof -
  let ?it = "\<lparr>it_value = v, it_expiration = cr_now S + ttl\<rparr>"
  have inv: "cache_inv S" using run by (rule cache_acts_inv)
  obtain S1 where S1: "cache_act (ASet key v ttl) S = Some S1" "cache_acts bs S1 = Some S'"
    using later by (auto split: option.splits)
  have "fresh_entry (dom (cr_gets S)) key ?it S1"
    using S1(1) assms(2,3) idle inv by (fastforce simp: fresh_entry_def gets_fresh_def inMemCache_SetWithTTL_def cache_inv_def)
  from cache_ts.run_keeps [where Q = "fresh_entry (dom (cr_gets S)) key ?it" and P = "leaves key (it_expiration ?it)",
      OF _ S1(2) cache_ts.act_inv [OF inv S1(1)] this] assms(6)
  have "fresh_entry (dom (cr_gets S)) key ?it S'" by (simp add: fresh_entry_act)
  then show ?thesis
    by (fastforce simp: fresh_entry_def gets_fresh_def get_read_def expired_def)
qed

text \<open>Two readers, one before and one after a sweep of the cleanup.\<close>

definition busy_acts :: "nat cact list" where
  "busy_acts = [ASet ''b'' (Some 7) 1, AGet 0 ''a'', AClock 12, ATick, AClock 14, AGet 1 ''b'', AGo 1, AGo 0, ASweep, AGo 1]"

theorem inmem_fresh_kept_witness:
  "\<exists>S'. cache_acts (ASet ''a'' (Some 1) 5 # busy_acts) (cache_init 10) = Some S' \<and>
    im_cache (cr_cache S') ''a'' = Some \<lparr>it_value = Some 1, it_expiration = 15\<rparr> \<and> im_cache (cr_cache S') ''b'' = None"
proof -
  obtain S' where S': "cache_acts (ASet ''a'' (Some 1) 5 # busy_acts) (cache_init 10) = Some S'"
    "im_cache (cr_cache S') ''b'' = None"
    by (simp add: busy_acts_def cache_init_def NewInMemCache_def inMemCache_SetWithTTL_def get_read_def expired_def
        cleanup_tick_def inMemCache_Delete_def)
  have "list_all (leaves ''a'' 15) busy_acts" by (simp add: busy_acts_def)
  with inmem_fresh_kept [of "[]" 10 "cache_init 10" 5 "''a''" "Some 1" busy_acts S'] S' show ?thesis
    by (simp add: cache_init_def NewInMemCache_def)
qed

subsection \<open>A stale \<open>Get\<close>\<close>

text \<open>
  A \<open>Get\<close> finds the expired entry; before its \<open>Delete\<close>, another goroutine stores the key anew.
\<close>

definition stale_acts :: "string \<Rightarrow> 'v any \<Rightarrow> 'v any \<Rightarrow> time \<Rightarrow> time \<Rightarrow> 'v cact list" where
  "stale_acts key u v ttl t = [ASet key u 1, AClock (t + 2), AGet 0 key, AGo 0, ASet key v ttl, AGo 0, AGet 1 key]"

text \<open>
  C34: a \<open>Get\<close> that finds an expired entry can delete a fresh one.  \<open>Get\<close> releases the lock
  between its read and its \<open>Delete\<close>; for every key, value, lifetime and time there is an
  interleaving of two \<open>Get\<close>s and two \<open>SetWithTTL\<close>s, without any call of \<open>Delete\<close> or
  \<open>Close\<close> and with no cleanup, in which the second \<open>Get\<close>, begun after the second store
  has returned and at the very time of that store, finds nothing.
\<close>

theorem stale_get_drops_fresh:
  assumes "0 < t" and "0 \<le> ttl"
  shows "\<exists>S. cache_acts (stale_acts key u v ttl t) (cache_init t) = Some S \<and>
    last (cr_sets S) = (key, v, cr_now S + ttl) \<and> \<not> im_closed (cr_cache S) \<and>
    im_cache (cr_cache S) key = None \<and> cr_gets S 1 = Some (key, cr_now S, G_done None)"
  using assms
  by (simp add: stale_acts_def cache_init_def NewInMemCache_def inMemCache_SetWithTTL_def get_read_def expired_def
      inMemCache_Delete_def)

theorem stale_get_drops_fresh_witness:
  "\<exists>S. cache_acts (stale_acts ''k'' (Some 1) (Some (2 :: nat)) 1000 5) (cache_init 5) = Some S \<and>
    im_cache (cr_cache S) ''k'' = None"
  using stale_get_drops_fresh [of 5 1000 "''k''" "Some 1" "Some (2 :: nat)"] by auto

end
