(* ===== verification/Util.thy ===== *)
theory Util
  imports NF_Prelude
begin

text \<open>
  The helpers of \<open>pkg/util\<close> that carry logic: string hashing (\<open>md5.go\<close>), emptiness
  (\<open>string.go\<close>), address parsing (\<open>net.go\<close>) and the environment settings
  (\<open>env.go\<close>), together with the parts of Go's standard library they use: iteration over
  the runes of a string, \<open>strconv.Itoa\<close>/\<open>Atoi\<close> and \<open>net.SplitHostPort\<close>.
  Strings are byte strings.
\<close>

subsection \<open>Runes\<close>

definition RuneError :: nat where "RuneError = 65533"

definition cont :: "nat \<Rightarrow> nat \<Rightarrow> nat \<Rightarrow> bool" where
  "cont lo hi b \<longleftrightarrow> lo \<le> b \<and> b \<le> hi"

text \<open>
  The first rune of a non-empty byte sequence and its width, as \<open>range\<close> decodes it: a byte
  that does not start a valid UTF-8 sequence is \<open>RuneError\<close> of width one.
\<close>

fun decode_rune :: "nat list \<Rightarrow> nat \<times> nat" where
  "decode_rune bs =
     (case bs of
        [] \<Rightarrow> (RuneError, 0)
      | b0 # r \<Rightarrow>
         if b0 < 128 then (b0, 1)
         else (case r of
            [] \<Rightarrow> (RuneError, 1)
          | b1 # r1 \<Rightarrow>
             if 194 \<le> b0 \<and> b0 \<le> 223 \<and> cont 128 191 b1 then ((b0 mod 32) * 64 + b1 mod 64, 2)
             else (case r1 of
                [] \<Rightarrow> (RuneError, 1)
              | b2 # r2 \<Rightarrow>
                 if 224 \<le> b0 \<and> b0 \<le> 239 \<and>
                    cont (if b0 = 224 then 160 else 128) (if b0 = 237 then 159 else 191) b1 \<and> cont 128 191 b2
                 then ((b0 mod 16) * 4096 + (b1 mod 64) * 64 + b2 mod 64, 3)
                 else (case r2 of
                    [] \<Rightarrow> (RuneError, 1)
                  | b3 # _ \<Rightarrow>
                     if 240 \<le> b0 \<and> b0 \<le> 244 \<and>
                        cont (if b0 = 240 then 144 else 128) (if b0 = 244 then 143 else 191) b1 \<and>
                        cont 128 191 b2 \<and> cont 128 191 b3
                     then ((b0 mod 8) * 262144 + (b1 mod 64) * 4096 + (b2 mod 64) * 64 + b3 mod 64, 4)
                     else (RuneError, 1)))))"

declare decode_rune.simps [simp del]

lemma decode_rune_width: "bs \<noteq> [] \<Longrightarrow> 0 < snd (decode_rune bs)"
  by (auto simp: decode_rune.simps split: list.splits)

lemma decode_rune_ascii: "b < 128 \<Longrightarrow> decode_rune (b # bs) = (b, 1)"
  by (simp add: decode_rune.simps)

function runes :: "nat list \<Rightarrow> nat list" where
  "runes bs = (if bs = [] then [] else fst (decode_rune bs) # runes (drop (snd (decode_rune bs)) bs))"
  by pat_completeness auto

termination runes
  by (relation "measure length") (auto simp: decode_rune_width)

declare runes.simps [simp del]

lemma runes_Nil [simp]: "runes [] = []"
  by (simp add: runes.simps)

lemma runes_ascii: "b < 128 \<Longrightarrow> runes (b # bs) = b # runes bs"
  by (simp add: runes.simps [of "b # bs"] decode_rune_ascii)

lemma runes_all_ascii: "\<forall>b \<in> set bs. b < 128 \<Longrightarrow> runes bs = bs"
  by (induction bs) (auto simp: runes_ascii)

definition string_runes :: "string \<Rightarrow> nat list" where
  "string_runes s = runes (map of_char s)"

subsection \<open>Hashing (md5.go)\<close>

definition offset64 :: uint64 where "offset64 = 14695981039346656037"
definition prime64 :: uint64 where "prime64 = 1099511628211"

definition hash_step :: "uint64 \<Rightarrow> nat \<Rightarrow> uint64" where
  "hash_step h b = (h XOR of_nat b) * prime64"

text \<open>The first loop of \<open>Hash\<close>: eight bytes a turn; it returns \<open>offset\<close> and \<open>hash\<close>.\<close>

function hash_loop :: "nat list \<Rightarrow> nat \<Rightarrow> nat \<Rightarrow> uint64 \<Rightarrow> nat \<times> uint64" where
  "hash_loop s offset n h =
     (if offset < n then
        (let h = hash_step h (s ! offset);
             h = hash_step h (s ! (offset + 1));
             h = hash_step h (s ! (offset + 2));
             h = hash_step h (s ! (offset + 3));
             h = hash_step h (s ! (offset + 4));
             h = hash_step h (s ! (offset + 5));
             h = hash_step h (s ! (offset + 6));
             h = hash_step h (s ! (offset + 7))
         in hash_loop s (offset + 8) n h)
      else (offset, h))"
  by pat_completeness auto

termination hash_loop
  by (relation "measure (\<lambda>(s, offset, n, h). n - offset)") auto

declare hash_loop.simps [simp del]

text \<open>The second loop ranges over the runes of the tail.\<close>

definition Hash :: "string \<Rightarrow> uint64" where
  "Hash str =
     (let s = map of_char str; n = (length s div 8) * 8 in
      case hash_loop s 0 n offset64 of (offset, h) \<Rightarrow> foldl hash_step h (runes (drop offset s)))"

definition SimpleHash :: "string \<Rightarrow> uint64" where
  "SimpleHash str = foldl (\<lambda>sm b. sm + of_nat b) 0 (map of_char str)"

text \<open>FNV-1a over the bytes of the string.\<close>

definition FNV1a :: "string \<Rightarrow> uint64" where
  "FNV1a str = foldl hash_step offset64 (map of_char str)"

subsection \<open>Emptiness (string.go)\<close>

text \<open>\<open>unicode.IsSpace\<close>.\<close>

definition is_space :: "nat \<Rightarrow> bool" where
  "is_space r \<longleftrightarrow> 9 \<le> r \<and> r \<le> 13 \<or> r \<in> {32, 133, 160, 5760, 8232, 8233, 8239, 8287, 12288} \<or>
     8192 \<le> r \<and> r \<le> 8202"



text \<open>The runes of a string with the bytes they cover.\<close>

function rune_chunks :: "string \<Rightarrow> (nat \<times> string) list" where
  "rune_chunks s =
     (if s = [] then []
      else (fst (decode_rune (map of_char s)), take (snd (decode_rune (map of_char s))) s)
             # rune_chunks (drop (snd (decode_rune (map of_char s))) s))"
  by pat_completeness auto

termination rune_chunks
  by (relation "measure length") (auto simp: decode_rune_width)

declare rune_chunks.simps [simp del]

lemma rune_chunks_Nil [simp]: "rune_chunks [] = []"
  by (simp add: rune_chunks.simps)

lemma rune_chunks_runes: "map fst (rune_chunks s) = string_runes s"
proof (induction s rule: rune_chunks.induct)
  case (1 s)
  then show ?case
    by (cases "s = []")
      (simp_all add: rune_chunks.simps [of s] string_runes_def runes.simps [of "map of_char s"] drop_map)
qed

lemma rune_chunks_pos: "x \<in> snd ` set (rune_chunks s) \<Longrightarrow> x \<noteq> []"
proof (induction s rule: rune_chunks.induct)
  case (1 s)
  then show ?case
    using decode_rune_width [of "map of_char s"]
    by (cases "s = []") (auto simp: rune_chunks.simps [of s])
qed

definition TrimSpace :: "string \<Rightarrow> string" where
  "TrimSpace s = concat (map snd (rev (dropWhile (is_space \<circ> fst) (rev (dropWhile (is_space \<circ> fst) (rune_chunks s))))))"

text \<open>Nothing is left iff every rune is a space.\<close>

definition IsEmptyStr :: "string \<Rightarrow> bool" where
  "IsEmptyStr val \<longleftrightarrow> length (TrimSpace val) = 0"

lemma trim_Nil: "dropWhile P (rev (dropWhile P xs)) = [] \<longleftrightarrow> list_all P xs"
proof -
  have "(\<forall>x \<in> set (dropWhile P xs). P x) \<longleftrightarrow> dropWhile P xs = []"
    by (metis hd_dropWhile hd_in_set empty_iff list.set(1))
  then show ?thesis by (simp add: list_all_iff)
qed

lemma IsEmptyStr_runes: "IsEmptyStr val \<longleftrightarrow> list_all is_space (string_runes val)"
proof -
  let ?t = "dropWhile (is_space \<circ> fst) (rev (dropWhile (is_space \<circ> fst) (rune_chunks val)))"
  have sub: "set ?t \<subseteq> set (rune_chunks val)" by (auto dest!: set_dropWhileD)
  have "TrimSpace val = [] \<longleftrightarrow> ?t = []"
  proof
    assume t: "TrimSpace val = []"
    show "?t = []"
    proof (rule ccontr)
      assume "?t \<noteq> []"
      then obtain x where x: "x \<in> set ?t" by (meson list.set_sel(1))
      with sub have "snd x \<noteq> []" using rune_chunks_pos [of "snd x" val] by blast
      with x t show False by (auto simp: TrimSpace_def)
    qed
  next
    assume "?t = []"
    then show "TrimSpace val = []" by (simp only: TrimSpace_def rev.simps list.map concat.simps)
  qed
  also have "\<dots> \<longleftrightarrow> list_all is_space (map fst (rune_chunks val))"
    unfolding trim_Nil by (simp add: list_all_iff)
  finally show ?thesis by (simp add: IsEmptyStr_def rune_chunks_runes)
qed

subsection \<open>strconv\<close>

definition digit :: "nat \<Rightarrow> char" where
  "digit n = char_of (48 + n)"

fun digits :: "nat \<Rightarrow> string" where
  "digits n = (if n < 10 then [digit n] else digits (n div 10) @ [digit (n mod 10)])"

declare digits.simps [simp del]

definition Itoa :: "int \<Rightarrow> string" where
  "Itoa i = (if i < 0 then CHR ''-'' # digits (nat (- i)) else digits (nat i))"

definition is_digit :: "char \<Rightarrow> bool" where
  "is_digit c \<longleftrightarrow> 48 \<le> (of_char c :: nat) \<and> (of_char c :: nat) \<le> 57"

definition digits_value :: "string \<Rightarrow> int" where
  "digits_value s = foldl (\<lambda>a c. 10 * a + (of_char c - 48)) 0 s"

definition ErrSyntax :: error where "ErrSyntax = ErrorString ''invalid syntax''"
definition ErrRange :: error where "ErrRange = ErrorString ''value out of range''"

text \<open>\<open>strconv.Atoi\<close> on a 64-bit platform.\<close>

definition Atoi :: "string \<Rightarrow> error + int" where
  "Atoi s =
     (let neg = (s \<noteq> [] \<and> hd s = CHR ''-'');
          ds = (if s \<noteq> [] \<and> (hd s = CHR ''-'' \<or> hd s = CHR ''+'') then tl s else s);
          v = (if neg then - digits_value ds else digits_value ds)
      in if ds = [] \<or> \<not> list_all is_digit ds then Inl ErrSyntax
         else if v < - (2 ^ 63) \<or> 2 ^ 63 \<le> v then Inl ErrRange
         else Inr v)"

subsection \<open>Addresses (net.go)\<close>

text \<open>\<open>strings.Index\<close> for a byte and for a string, \<open>strings.LastIndexByte\<close>.\<close>

fun index_byte :: "char \<Rightarrow> string \<Rightarrow> nat option" where
  "index_byte c [] = None"
| "index_byte c (x # xs) = (if x = c then Some 0 else map_option Suc (index_byte c xs))"

fun index_str :: "string \<Rightarrow> string \<Rightarrow> nat option" where
  "index_str p [] = (if p = [] then Some 0 else None)"
| "index_str p (x # xs) = (if take (length p) (x # xs) = p then Some 0 else map_option Suc (index_str p xs))"

fun last_index_byte :: "char \<Rightarrow> string \<Rightarrow> nat option" where
  "last_index_byte c [] = None"
| "last_index_byte c (x # xs) =
     (case last_index_byte c xs of Some i \<Rightarrow> Some (Suc i) | None \<Rightarrow> if x = c then Some 0 else None)"

definition Contains :: "string \<Rightarrow> string \<Rightarrow> bool" where
  "Contains s p \<longleftrightarrow> index_str p s \<noteq> None"

text \<open>\<open>strings.Split(s, sep)[0]\<close>\<close>

definition Split_head :: "string \<Rightarrow> string \<Rightarrow> string" where
  "Split_head s p = (case index_str p s of None \<Rightarrow> s | Some i \<Rightarrow> take i s)"

definition TrimPrefix :: "string \<Rightarrow> string \<Rightarrow> string" where
  "TrimPrefix s p = (if take (length p) s = p then drop (length p) s else s)"

definition has_byte :: "char \<Rightarrow> string \<Rightarrow> bool" where
  "has_byte c s \<longleftrightarrow> index_byte c s \<noteq> None"

definition addrErr :: "string \<Rightarrow> error + string \<times> string" where
  "addrErr m = Inl (ErrorString m)"

definition SplitHostPort :: "string \<Rightarrow> error + string \<times> string" where
  "SplitHostPort hp =
     (case last_index_byte (CHR '':'') hp of
        None \<Rightarrow> addrErr ''missing port in address''
      | Some i \<Rightarrow>
         (if hd hp = CHR ''['' then
            (case index_byte (CHR '']'') hp of
               None \<Rightarrow> addrErr ''missing ] in address''
             | Some e \<Rightarrow>
                (if e + 1 = length hp then addrErr ''missing port in address''
                 else if e + 1 \<noteq> i then
                   (if hp ! (e + 1) = CHR '':'' then addrErr ''too many colons in address''
                    else addrErr ''missing port in address'')
                 else if has_byte (CHR ''['') (drop 1 hp) then addrErr ''unexpected [ in address''
                 else if has_byte (CHR '']'') (drop (e + 1) hp) then addrErr ''unexpected ] in address''
                 else Inr (take (e - 1) (drop 1 hp), drop (i + 1) hp)))
          else
            (if has_byte (CHR '':'') (take i hp) then addrErr ''too many colons in address''
             else if has_byte (CHR ''['') hp then addrErr ''unexpected [ in address''
             else if has_byte (CHR '']'') hp then addrErr ''unexpected ] in address''
             else Inr (take i hp, drop (i + 1) hp))))"

definition ParseProtocol :: "string \<Rightarrow> error + string" where
  "ParseProtocol addr =
     (if Contains addr ''://'' then Inr (Split_head addr ''://'') else Inl (ErrorString ''invalid address''))"

definition ParseHostAndPort :: "string \<Rightarrow> error + string \<times> int" where
  "ParseHostAndPort addr0 =
     (let addr1 = (if Contains addr0 ''://'' then TrimPrefix addr0 ''://'' else addr0);
          addr = (if Contains addr1 ''/'' then Split_head addr1 ''/'' else addr1)
      in (case SplitHostPort addr of
            Inl e \<Rightarrow> Inl e
          | Inr (host, port) \<Rightarrow> (case Atoi port of Inl e \<Rightarrow> Inl e | Inr p \<Rightarrow> Inr (host, p))))"

definition ParseHost :: "string \<Rightarrow> error + string" where
  "ParseHost addr = (case SplitHostPort addr of Inl e \<Rightarrow> Inl e | Inr (host, _) \<Rightarrow> Inr host)"

definition ParsePort :: "string \<Rightarrow> error + int" where
  "ParsePort addr = (case SplitHostPort addr of Inl e \<Rightarrow> Inl e | Inr (_, port) \<Rightarrow> Atoi port)"

subsection \<open>Environment (env.go)\<close>

text \<open>The environment is a parameter: \<open>os.Getenv\<close> gives the empty string for unset names.\<close>

definition env_int :: "int \<Rightarrow> string \<Rightarrow> int" where
  "env_int dflt val =
     (if IsEmptyStr val then dflt else (case Atoi val of Inl _ \<Rightarrow> dflt | Inr n \<Rightarrow> n))"

definition EnvHostname :: "(string \<Rightarrow> string) \<Rightarrow> string" where
  "EnvHostname getenv = getenv ''HOSTNAME''"

definition EnvNode :: "(string \<Rightarrow> string) \<Rightarrow> int" where
  "EnvNode getenv = env_int 1 (getenv ''MB_NODE'')"

definition EnvExternalIP :: "(string \<Rightarrow> string) \<Rightarrow> string" where
  "EnvExternalIP getenv = getenv ''MB_EXTERNAL_IP''"

definition EnvInternalIP :: "(string \<Rightarrow> string) \<Rightarrow> string" where
  "EnvInternalIP getenv = getenv ''MB_INTERNAL_IP''"

definition EnvExternalPort :: "(string \<Rightarrow> string) \<Rightarrow> int" where
  "EnvExternalPort getenv = env_int 0 (getenv ''MB_EXTERNAL_PORT'')"

definition EnvInternalPort :: "(string \<Rightarrow> string) \<Rightarrow> int" where
  "EnvInternalPort getenv = env_int 0 (getenv ''MB_INTERNAL_PORT'')"

definition EnvMode :: "(string \<Rightarrow> string) \<Rightarrow> string" where
  "EnvMode getenv = getenv ''MB_MODE''"

subsection \<open>Hash is FNV-1a\<close>

lemma take_8: "offset + 8 \<le> length s \<Longrightarrow>
   take 8 (drop offset s) = [s ! offset, s ! (offset + 1), s ! (offset + 2), s ! (offset + 3),
     s ! (offset + 4), s ! (offset + 5), s ! (offset + 6), s ! (offset + 7)]"
  by (simp add: take_Suc_conv_app_nth numeral_eq_Suc)

lemma hash_loop_prefix:
  assumes "n \<le> length s" and "8 dvd n - offset" and "offset \<le> n"
  shows "hash_loop s offset n h = (n, foldl hash_step h (take (n - offset) (drop offset s)))"
  using assms
proof (induction s offset n h rule: hash_loop.induct)
  case (1 s offset n h)
  show ?case
  proof (cases "offset < n")
    case False
    with 1(4) show ?thesis by (simp add: hash_loop.simps [of s n])
  next
    case True
    then have "8 \<le> n - offset" using 1(3) by (intro dvd_imp_le) auto
    then have le: "offset + 8 \<le> n" and split: "n - offset = 8 + (n - (offset + 8))" by linarith+
    have "take (n - offset) (drop offset s) = take 8 (drop offset s) @ take (n - (offset + 8)) (drop (offset + 8) s)"
      unfolding split take_add by (simp add: add.commute)
    moreover have "8 dvd n - (offset + 8)"
      using 1(3) split by (metis dvd_add_right_iff dvd_refl)
    ultimately show ?thesis
      using 1(1) [OF True refl refl refl refl refl refl refl refl] 1(2) le True
      by (simp add: hash_loop.simps [of s offset] Let_def take_8)
  qed
qed

lemma Hash_split:
  "Hash str = (let s = map of_char str; n = (length s div 8) * 8 in
     foldl hash_step (foldl hash_step offset64 (take n s)) (runes (drop n s)))"
  using hash_loop_prefix [of "length str div 8 * 8" "map of_char str" 0 offset64]
  by (simp add: Hash_def Let_def)

lemma foldl_take_drop: "foldl f (foldl f a (take n xs)) (drop n xs) = foldl f a xs"
  by (metis append_take_drop_id foldl_append)

subsection \<open>Numbers round trip\<close>

lemma of_char_digit [simp]: "n < 10 \<Longrightarrow> (of_char (digit n) :: nat) = 48 + n"
  by (simp add: digit_def)

lemma of_char_digit_int: "n < 10 \<Longrightarrow> (of_char (digit n) :: int) = 48 + int n"
  by (metis of_char_digit of_nat_of_char of_nat_add of_nat_numeral)

lemma is_digit_digit [simp]: "n < 10 \<Longrightarrow> is_digit (digit n)"
  by (simp add: is_digit_def)

lemma digits_nonempty [simp]: "digits n \<noteq> []"
  by (subst digits.simps) simp

lemma digits_are_digits: "list_all is_digit (digits n)"
proof (induction n rule: digits.induct)
  case (1 n)
  then show ?case by (subst digits.simps) simp
qed

lemma digits_value_digits: "digits_value (digits n) = int n"
proof (induction n rule: digits.induct)
  case (1 n)
  show ?case
  proof (cases "n < 10")
    case True
    then show ?thesis by (subst digits.simps) (simp add: digits_value_def of_char_digit_int)
  next
    case False
    with 1 have "digits_value (digits (n div 10)) = int (n div 10)" by simp
    with False show ?thesis
      by (subst digits.simps) (simp add: digits_value_def of_char_digit_int zdiv_int zmod_int)
  qed
qed

lemma is_digit_not_sign: "is_digit c \<Longrightarrow> c \<noteq> CHR ''-'' \<and> c \<noteq> CHR ''+'' \<and> c \<noteq> CHR '':'' \<and> c \<noteq> CHR ''/'' \<and>
    c \<noteq> CHR ''['' \<and> c \<noteq> CHR '']''"
  by (auto simp: is_digit_def)

lemma hd_digits: "is_digit (hd (digits n))"
  using digits_are_digits [of n] digits_nonempty [of n] by (cases "digits n") auto

lemma Atoi_Itoa:
  assumes "- (2 ^ 63) \<le> i" and "i < 2 ^ 63"
  shows "Atoi (Itoa i) = Inr i"
proof (cases "i < 0")
  case True
  with assms show ?thesis
    by (simp add: Atoi_def Itoa_def Let_def digits_are_digits digits_value_digits)
next
  case False
  with assms is_digit_not_sign [OF hd_digits, of "nat i"] show ?thesis
    by (simp add: Atoi_def Itoa_def Let_def digits_are_digits digits_value_digits)
qed

lemma Itoa_chars: "c \<in> set (Itoa i) \<Longrightarrow> is_digit c \<or> c = CHR ''-''"
  using digits_are_digits by (auto simp: Itoa_def list_all_iff split: if_splits)

subsection \<open>Searching\<close>

lemma index_byte_None: "index_byte c s = None \<longleftrightarrow> c \<notin> set s"
  by (induction s) auto

lemma has_byte_iff: "has_byte c s \<longleftrightarrow> c \<in> set s"
  by (simp add: has_byte_def index_byte_None)

lemma last_index_byte_append: "c \<notin> set r \<Longrightarrow> last_index_byte c (l @ c # r) = Some (length l)"
proof (induction l)
  case Nil
  then have "last_index_byte c r = None" by (induction r) auto
  then show ?case by simp
qed simp

lemma index_str_char: "index_str [c] s = index_byte c s"
  by (induction s) auto

lemma index_byte_append: "c \<notin> set l \<Longrightarrow> index_byte c (l @ c # r) = Some (length l)"
  by (induction l) auto

lemma Contains_set: "p \<noteq> [] \<Longrightarrow> Contains s p \<Longrightarrow> set p \<subseteq> set s"
proof -
  assume p: "p \<noteq> []" "Contains s p"
  have "\<exists>i. take (length p) (drop i s) = p" using p
    unfolding Contains_def
  proof (induction s)
    case (Cons x s)
    show ?case
    proof (cases "take (length p) (x # s) = p")
      case True
      then show ?thesis by (intro exI [of _ 0]) simp
    next
      case False
      with Cons obtain i where "take (length p) (drop i s) = p" by auto
      then show ?thesis by (intro exI [of _ "Suc i"]) simp
    qed
  qed simp
  then show ?thesis by (metis in_set_dropD in_set_takeD subsetI)
qed

lemma SplitHostPort_plain:
  assumes "set host \<inter> {CHR '':'', CHR ''['', CHR '']''} = {}" and "set port \<inter> {CHR '':'', CHR ''['', CHR '']''} = {}"
  shows "SplitHostPort (host @ '':'' @ port) = Inr (host, port)"
proof -
  have "last_index_byte (CHR '':'') (host @ '':'' @ port) = Some (length host)"
    using last_index_byte_append [of "CHR '':''" port host] assms by auto
  moreover have "hd (host @ '':'' @ port) \<noteq> CHR ''[''"
    using assms(1) by (cases host) auto
  ultimately show ?thesis
    using assms by (auto simp: SplitHostPort_def has_byte_iff)
qed

subsection \<open>Properties\<close>

text \<open>
  \<open>Hash\<close>, whose loop is unrolled eight times, is FNV-1a over the bytes of the string
  whenever the bytes after the last full block of eight are ASCII.
\<close>

theorem Hash_is_FNV1a:
  assumes "\<forall>c \<in> set (drop (length str div 8 * 8) str). (of_char c :: nat) < 128"
  shows "Hash str = FNV1a str"
proof -
  let ?n = "length str div 8 * 8"
  have "runes (drop ?n (map of_char str)) = drop ?n (map of_char str)"
    using assms by (intro runes_all_ascii) (auto simp: drop_map)
  then show ?thesis
    by (simp add: Hash_split Let_def FNV1a_def foldl_take_drop)
qed

theorem Hash_is_FNV1a_witness: "Hash ''service@1!'' = FNV1a ''service@1!''"
  by (rule Hash_is_FNV1a) simp

text \<open>
  \<open>Hash\<close> is not FNV-1a of the bytes in general: the tail is read rune by rune, so the
  two-byte character U+00E9 is hashed as one step with its code point, while the same
  character inside a full block of eight is hashed as its two bytes.
\<close>

theorem Hash_differs_on_non_ascii_tail:
  "Hash [char_of (195 :: nat), char_of (169 :: nat)] = hash_step offset64 233 \<and>
   Hash [char_of (195 :: nat), char_of (169 :: nat)] \<noteq> FNV1a [char_of (195 :: nat), char_of (169 :: nat)]"
proof -
  have "Hash [char_of (195 :: nat), char_of (169 :: nat)] = hash_step offset64 233"
    by (simp add: Hash_split Let_def runes.simps [of "[195, 169]"] decode_rune.simps cont_def)
  then show ?thesis
    by (simp add: FNV1a_def hash_step_def offset64_def prime64_def)
qed

text \<open>
  \<open>strconv.Atoi\<close> undoes \<open>strconv.Itoa\<close> on every 64-bit integer, so
  \<open>ParseHostAndPort\<close> returns the host and the port of every address
  \<open>host:port\<close> whose host has no colon, slash or bracket.
\<close>

theorem ParseHostAndPort_roundtrip:
  assumes "set host \<inter> {CHR '':'', CHR ''['', CHR '']'', CHR ''/''} = {}"
    and "- (2 ^ 63) \<le> port" and "port < 2 ^ 63"
  shows "ParseHostAndPort (host @ '':'' @ Itoa port) = Inr (host, port)"
proof -
  have chars: "set (Itoa port) \<inter> {CHR '':'', CHR ''['', CHR '']'', CHR ''/''} = {}"
    using Itoa_chars [of _ port] is_digit_not_sign by blast
  then have "CHR ''/'' \<notin> set (host @ '':'' @ Itoa port)" using assms(1) by auto
  then have "\<not> Contains (host @ '':'' @ Itoa port) ''://''" "\<not> Contains (host @ '':'' @ Itoa port) ''/''"
    using Contains_set by fastforce+
  moreover have "SplitHostPort (host @ '':'' @ Itoa port) = Inr (host, Itoa port)"
    using assms(1) chars by (intro SplitHostPort_plain) auto
  ultimately show ?thesis
    using Atoi_Itoa [OF assms(2,3)] by (simp add: ParseHostAndPort_def Let_def)
qed

theorem ParseHostAndPort_roundtrip_witness: "ParseHostAndPort (''db'' @ '':'' @ Itoa 5432) = Inr (''db'', 5432)"
  by (rule ParseHostAndPort_roundtrip) simp_all

text \<open>
  \<open>ParseHostAndPort\<close> fails on every address with a scheme.  It removes the separator
  only where the address starts with it, so for \<open>scheme://rest\<close> with a non-empty
  scheme without colon, slash or bracket the host part is cut at the first slash to
  \<open>scheme:\<close>, whose port is empty; the result is an error whatever follows.
\<close>

theorem ParseHostAndPort_url_fails:
  assumes "scheme \<noteq> []" and "set scheme \<inter> {CHR '':'', CHR ''['', CHR '']'', CHR ''/''} = {}"
  shows "ParseHostAndPort (scheme @ ''://'' @ rest) = Inl ErrSyntax"
proof -
  have trim: "TrimPrefix (scheme @ ''://'' @ rest) ''://'' = scheme @ ''://'' @ rest"
    using assms by (cases scheme) (auto simp: TrimPrefix_def)
  have idx: "index_str ''/'' (scheme @ ''://'' @ rest) = Some (length scheme + 1)"
    using index_byte_append [of "CHR ''/''" "scheme @ '':''" "CHR ''/'' # rest"] assms(2)
    by (simp add: index_str_char)
  then have "Split_head (scheme @ ''://'' @ rest) ''/'' = scheme @ '':''"
    "Contains (scheme @ ''://'' @ rest) ''/''"
    by (simp_all add: Split_head_def Contains_def)
  moreover have "SplitHostPort (scheme @ '':'' @ []) = Inr (scheme, [])"
    using assms(2) by (intro SplitHostPort_plain) auto
  moreover have "Atoi [] = Inl ErrSyntax" by (simp add: Atoi_def)
  ultimately show ?thesis
    using trim by (simp add: ParseHostAndPort_def Let_def)
qed

theorem ParseHostAndPort_url_fails_witness:
  "ParseHostAndPort (''tcp'' @ ''://'' @ ''localhost:9000'') = Inl ErrSyntax"
  by (rule ParseHostAndPort_url_fails) simp_all

end
