(* ===== verification/Shared_Cache.thy ===== *)
theory Shared_Cache
  imports NF_Prelude Util
begin

text \<open>
  The cache shared through a redis server (\<open>pkg/util/cache/shared.go\<close>) and the options of
  the redis client (\<open>pkg/util/redis/redis.go\<close>).  The server behind the go-redis package
  is the record \<open>redis\<close> over an abstract state, with the documented behaviour of the four
  commands the cache uses as the predicate \<open>redis_ok\<close>; \<open>encoding/gob\<close> is the record
  \<open>gob\<close> with \<open>gob_ok\<close>.  The contract of the cache is a map from keys to values
  (\<open>shared_view\<close>).
\<close>

subsection \<open>The server and the codec\<close>

text \<open>The dynamic value of an \<open>any\<close>: nil, a string, or a value of another type.\<close>

datatype any_value = AnyNil | AnyString string | AnyOther nat

record 's redis =
  rd_Ping :: "'s \<Rightarrow> error option \<times> 's"
  rd_Get :: "string \<Rightarrow> 's \<Rightarrow> (error + bytes) \<times> 's"
  rd_Set :: "string \<Rightarrow> bytes \<Rightarrow> int \<Rightarrow> 's \<Rightarrow> error option \<times> 's"
  rd_Del :: "string \<Rightarrow> 's \<Rightarrow> (error + int) \<times> 's"
  rd_Close :: "'s \<Rightarrow> error option \<times> 's"

text \<open>
  \<open>view\<close> is what the server holds at one moment.  A \<open>Get\<close> that succeeds returns the
  held bytes, \<open>redis.Nil\<close> means that the key is absent; a \<open>Set\<close> and a \<open>Del\<close> that
  succeed change exactly their key.
\<close>

definition redis_ok :: "('s \<Rightarrow> string \<Rightarrow> bytes option) \<Rightarrow> 's redis \<Rightarrow> bool" where
  "redis_ok view R \<longleftrightarrow>
     (\<forall>k s r s'. rd_Get R k s = (r, s') \<longrightarrow> view s' = view s \<and>
        (case r of Inr d \<Rightarrow> view s k = Some d | Inl e \<Rightarrow> e = RedisNil \<longrightarrow> view s k = None)) \<and>
     (\<forall>k d ttl s s'. rd_Set R k d ttl s = (None, s') \<longrightarrow> view s' = (view s)(k := Some d)) \<and>
     (\<forall>k n s s'. rd_Del R k s = (Inr n, s') \<longrightarrow> view s' = (view s)(k := None))"

record gob =
  gob_enc :: "any_value \<Rightarrow> error + bytes"
  gob_dec :: "bytes \<Rightarrow> error + any_value"

definition gob_ok :: "gob \<Rightarrow> bool" where
  "gob_ok G \<longleftrightarrow> (\<forall>v d. gob_enc G v = Inr d \<longrightarrow> gob_dec G d = Inr v)"

subsection \<open>Connection options (redis.go)\<close>

record redis_Options =
  ro_Addr :: string
  ro_Cluster :: "string list"
  ro_Password :: string
  ro_DB :: int
  ro_PoolSize :: int

text \<open>\<open>net.JoinHostPort\<close> brackets a host with a colon.\<close>

definition JoinHostPort :: "string \<Rightarrow> string \<Rightarrow> string" where
  "JoinHostPort host port =
     (if has_byte (CHR '':'') host then ''['' @ host @ '']:'' @ port else host @ '':'' @ port)"

definition NewOptionsFromHostPort :: "string \<Rightarrow> int \<Rightarrow> string \<Rightarrow> int \<Rightarrow> redis_Options" where
  "NewOptionsFromHostPort host port password poolSize =
     (let poolSize = (if poolSize \<le> 0 then 10 else poolSize) in
      \<lparr>ro_Addr = JoinHostPort host (Itoa port), ro_Cluster = [], ro_Password = password, ro_DB = 0,
       ro_PoolSize = poolSize\<rparr>)"

text \<open>\<open>strings.Split(s, ",")\<close>; \<open>strings.TrimSpace\<close> is defined on the runes of a string.\<close>

fun Split_comma :: "string \<Rightarrow> string list" where
  "Split_comma [] = [[]]"
| "Split_comma (c # cs) =
     (if c = CHR '','' then [] # Split_comma cs
      else (case Split_comma cs of [] \<Rightarrow> [[c]] | w # ws \<Rightarrow> (c # w) # ws))"

definition trim_addrs :: "string list \<Rightarrow> string list" where
  "trim_addrs addrs = filter (\<lambda>a. a \<noteq> []) (map TrimSpace addrs)"

definition NewOptionsFromCluster :: "string \<Rightarrow> string \<Rightarrow> int \<Rightarrow> redis_Options" where
  "NewOptionsFromCluster clusterAddrs password poolSize =
     (let cluster = trim_addrs (Split_comma clusterAddrs);
          poolSize = (if poolSize \<le> 0 then 10 else poolSize)
      in \<lparr>ro_Addr = [], ro_Cluster = cluster, ro_Password = password, ro_DB = 0, ro_PoolSize = poolSize\<rparr>)"

text \<open>Which client \<open>newRedisClient\<close> builds, with the addresses it is given.\<close>

datatype redis_client_kind = ClusterClient "string list" string int | SingleClient string string int int

definition newRedisClient :: "redis_Options option \<Rightarrow> error + redis_client_kind" where
  "newRedisClient opt =
     (case opt of
        None \<Rightarrow> Inl (ErrorString ''redis: options is nil'')
      | Some o' \<Rightarrow>
         (if ro_Cluster o' \<noteq> [] then
            (if ro_DB o' \<noteq> 0 then Inl (ErrorString ''redis: database selection is not supported in cluster mode'')
             else
               (let addrs = trim_addrs (ro_Cluster o') in
                if addrs = [] then Inl (ErrorString ''redis: cluster addresses are empty'')
                else Inr (ClusterClient addrs (ro_Password o') (ro_PoolSize o'))))
          else if TrimSpace (ro_Addr o') = [] then Inl (ErrorString ''redis: address is empty'')
          else Inr (SingleClient (ro_Addr o') (ro_Password o') (ro_DB o') (ro_PoolSize o'))))"

subsection \<open>The cache (shared.go)\<close>

definition sharedKeyPrefix :: string where "sharedKeyPrefix = ''netflux:cache:''"

text \<open>\<open>redis.DefaultExpiration\<close> in nanoseconds.\<close>

definition DefaultExpiration :: int where "DefaultExpiration = 600000000000"

record 's redisCache =
  sc_prefix :: string
  sc_cli :: "'s redis"

definition NewSharedCache ::
  "'s redis option \<Rightarrow> string \<Rightarrow> 's \<Rightarrow> (error + 's redisCache) \<times> 's" where
  "NewSharedCache cli prefix s =
     (case cli of
        None \<Rightarrow> (Inl (ErrorString ''redis client is nil''), s)
      | Some R \<Rightarrow>
         (case rd_Ping R s of
            (Some _, s1) \<Rightarrow> (Inl (ErrorString ''failed to ping redis server''), s1)
          | (None, s1) \<Rightarrow>
             (Inr \<lparr>sc_prefix = (if IsEmptyStr prefix then sharedKeyPrefix else prefix), sc_cli = R\<rparr>, s1)))"

definition fullKey :: "'s redisCache \<Rightarrow> string \<Rightarrow> string" where
  "fullKey c key = sc_prefix c @ key"

definition redisCache_Get :: "gob \<Rightarrow> 's redisCache \<Rightarrow> string \<Rightarrow> 's \<Rightarrow> (any_value \<times> error option) \<times> 's" where
  "redisCache_Get G c key s =
     (case rd_Get (sc_cli c) (fullKey c key) s of
        (Inl e, s1) \<Rightarrow> (if e = RedisNil then ((AnyNil, None), s1) else ((AnyNil, Some e), s1))
      | (Inr raw, s1) \<Rightarrow>
         (case gob_dec G raw of Inl e \<Rightarrow> ((AnyNil, Some e), s1) | Inr v \<Rightarrow> ((v, None), s1)))"

definition redisCache_SetWithTTL ::
  "gob \<Rightarrow> 's redisCache \<Rightarrow> string \<Rightarrow> any_value \<Rightarrow> int \<Rightarrow> 's \<Rightarrow> error option \<times> 's" where
  "redisCache_SetWithTTL G c key v ttl s =
     (case gob_enc G v of
        Inl e \<Rightarrow> (Some e, s)
      | Inr data \<Rightarrow> rd_Set (sc_cli c) (fullKey c key) data (if ttl < 0 then 0 else ttl) s)"

definition redisCache_Set :: "gob \<Rightarrow> 's redisCache \<Rightarrow> string \<Rightarrow> any_value \<Rightarrow> 's \<Rightarrow> error option \<times> 's" where
  "redisCache_Set G c key v s = redisCache_SetWithTTL G c key v DefaultExpiration s"

definition redisCache_Delete :: "'s redisCache \<Rightarrow> string \<Rightarrow> 's \<Rightarrow> error option \<times> 's" where
  "redisCache_Delete c key s =
     (case rd_Del (sc_cli c) (fullKey c key) s of (Inl e, s1) \<Rightarrow> (Some e, s1) | (Inr _, s1) \<Rightarrow> (None, s1))"

definition redisCache_Close :: "'s redisCache option \<Rightarrow> 's \<Rightarrow> error option \<times> 's" where
  "redisCache_Close c s = (case c of None \<Rightarrow> (None, s) | Some c' \<Rightarrow> rd_Close (sc_cli c') s)"

definition redisCache_Length :: "'s redisCache \<Rightarrow> int" where
  "redisCache_Length c = 0"

subsection \<open>The contract\<close>

text \<open>The map from keys to values that the cache presents; an entry that does not decode is absent.\<close>

definition shared_view :: "('s \<Rightarrow> string \<Rightarrow> bytes option) \<Rightarrow> gob \<Rightarrow> 's redisCache \<Rightarrow> 's \<Rightarrow> string \<Rightarrow> any_value option" where
  "shared_view view G c s key =
     (case view s (fullKey c key) of None \<Rightarrow> None
      | Some d \<Rightarrow> (case gob_dec G d of Inl _ \<Rightarrow> None | Inr v \<Rightarrow> Some v))"

lemma fullKey_inj [simp]: "fullKey c k = fullKey c k' \<longleftrightarrow> k = k'"
  by (simp add: fullKey_def)

lemma Get_view:
  assumes "redis_ok view (sc_cli c)" and "redisCache_Get G c k s = ((v, None), s')"
  shows "view s' = view s \<and> v = (case shared_view view G c s k of None \<Rightarrow> AnyNil | Some x \<Rightarrow> x)"
proof -
  obtain r s1 where g: "rd_Get (sc_cli c) (fullKey c k) s = (r, s1)" by (cases "rd_Get (sc_cli c) (fullKey c k) s")
  with assms(1) have law: "view s1 = view s"
    "case r of Inr d \<Rightarrow> view s (fullKey c k) = Some d | Inl e \<Rightarrow> e = RedisNil \<longrightarrow> view s (fullKey c k) = None"
    unfolding redis_ok_def by blast+
  with g assms(2) show ?thesis
    by (auto simp: redisCache_Get_def shared_view_def split: sum.splits if_splits)
qed

lemma Set_view:
  assumes "redis_ok view (sc_cli c)" and "gob_ok G" and "redisCache_Set G c k v s = (None, s')"
  shows "shared_view view G c s' = (shared_view view G c s)(k := Some v)"
proof -
  obtain d where d: "gob_enc G v = Inr d" and
    w: "rd_Set (sc_cli c) (fullKey c k) d DefaultExpiration s = (None, s')"
    using assms(3) by (auto simp: redisCache_Set_def redisCache_SetWithTTL_def DefaultExpiration_def split: sum.splits)
  have "view s' = (view s)(fullKey c k := Some d)"
    using assms(1) w unfolding redis_ok_def by blast
  moreover have "gob_dec G d = Inr v" using assms(2) d by (simp add: gob_ok_def)
  ultimately show ?thesis by (auto simp: shared_view_def)
qed

lemma Delete_view:
  assumes "redis_ok view (sc_cli c)" and "redisCache_Delete c k s = (None, s')"
  shows "shared_view view G c s' = (shared_view view G c s)(k := None)"
proof -
  obtain n where "rd_Del (sc_cli c) (fullKey c k) s = (Inr n, s')"
    using assms(2) by (auto simp: redisCache_Delete_def split: prod.splits sum.splits)
  then have "view s' = (view s)(fullKey c k := None)"
    using assms(1) unfolding redis_ok_def by blast
  then show ?thesis by (auto simp: shared_view_def)
qed

text \<open>
  C17: on a redis server that behaves as documented and a gob codec that decodes what it
  encodes, the shared cache is a map from keys to values: a \<open>Set\<close> that succeeds stores
  exactly its key, a \<open>Delete\<close> that succeeds removes exactly its key, and a \<open>Get\<close>
  without an error returns the stored value, or nil for an absent key, and changes nothing.
\<close>

theorem shared_refines_map:
  assumes "redis_ok view (sc_cli c)" and "gob_ok G"
  shows "(redisCache_Set G c k v s = (None, s') \<longrightarrow>
      shared_view view G c s' = (shared_view view G c s)(k := Some v)) \<and>
    (redisCache_Delete c k s = (None, s') \<longrightarrow>
      shared_view view G c s' = (shared_view view G c s)(k := None)) \<and>
    (redisCache_Get G c k s = ((x, None), s') \<longrightarrow> shared_view view G c s' = shared_view view G c s \<and>
      x = (case shared_view view G c s k of None \<Rightarrow> AnyNil | Some y \<Rightarrow> y))"
proof (intro conjI impI)
  show "shared_view view G c s' = (shared_view view G c s)(k := Some v)" if "redisCache_Set G c k v s = (None, s')"
    using assms that by (rule Set_view)
  show "shared_view view G c s' = (shared_view view G c s)(k := None)" if "redisCache_Delete c k s = (None, s')"
    using assms(1) that by (rule Delete_view)
  assume "redisCache_Get G c k s = ((x, None), s')"
  note g = Get_view [OF assms(1) this]
  then show "shared_view view G c s' = shared_view view G c s" by (simp add: shared_view_def fun_eq_iff)
  show "x = (case shared_view view G c s k of None \<Rightarrow> AnyNil | Some y \<Rightarrow> y)" using g by simp
qed

text \<open>A server that is a plain map, and a codec for strings.\<close>

definition map_redis :: "(string \<Rightarrow> bytes option) redis" where
  "map_redis = \<lparr>rd_Ping = (\<lambda>s. (None, s)),
     rd_Get = (\<lambda>k s. (case s k of None \<Rightarrow> Inl RedisNil | Some d \<Rightarrow> Inr d, s)),
     rd_Set = (\<lambda>k d ttl s. (None, s(k := Some d))), rd_Del = (\<lambda>k s. (Inr 1, s(k := None))),
     rd_Close = (\<lambda>s. (None, s))\<rparr>"

definition string_gob :: gob where
  "string_gob = \<lparr>gob_enc = (\<lambda>v. case v of AnyString t \<Rightarrow> Inr (bytes_of_string t) | _ \<Rightarrow> Inl (External 0)),
     gob_dec = (\<lambda>d. Inr (AnyString (string_of_bytes d)))\<rparr>"

definition demo_cache :: "(string \<Rightarrow> bytes option) redisCache" where
  "demo_cache = \<lparr>sc_prefix = ''p:'', sc_cli = map_redis\<rparr>"

lemma map_redis_ok: "redis_ok (\<lambda>s. s) map_redis"
  by (auto simp: redis_ok_def map_redis_def split: option.splits sum.splits)

lemma string_gob_ok: "gob_ok string_gob"
  by (auto simp: gob_ok_def string_gob_def split: any_value.splits)

theorem shared_refines_map_witness:
  "\<exists>s'. redisCache_Set string_gob demo_cache ''k'' (AnyString ''v'') (\<lambda>_. None) = (None, s') \<and>
     shared_view (\<lambda>s. s) string_gob demo_cache s' ''k'' = Some (AnyString ''v'') \<and>
     redisCache_Get string_gob demo_cache ''k'' s' = ((AnyString ''v'', None), s')"
proof -
  define s' where "s' = [''p:k'' \<mapsto> bytes_of_string ''v'']"
  have ok: "redis_ok (\<lambda>s. s) (sc_cli demo_cache)" by (simp add: demo_cache_def map_redis_ok)
  have set: "redisCache_Set string_gob demo_cache ''k'' (AnyString ''v'') (\<lambda>_. None) = (None, s')"
    by (auto simp: redisCache_Set_def redisCache_SetWithTTL_def string_gob_def demo_cache_def map_redis_def fullKey_def s'_def)
  have get: "redisCache_Get string_gob demo_cache ''k'' s' = ((AnyString ''v'', None), s')"
    by (simp add: redisCache_Get_def string_gob_def demo_cache_def map_redis_def fullKey_def s'_def)
  show ?thesis
    using shared_refines_map [OF ok string_gob_ok, of "''k''" "AnyString ''v''" "\<lambda>_. None" s'] set get by auto
qed

end
