(* ===== verification/Naming_Rpc.thy ===== *)
theory Naming_Rpc
  imports Tcp_Client Shared_Cache
begin

text \<open>
  The discovery client over TCP (\<open>pkg/naming/rpc_client.go\<close>): pending lookups with their
  channels, the delivery of \<open>LOOKUP_ACK\<close> packets to the waiting callers, selection of
  services and instances, the configuration items in the shared cache, and the event
  handler that forwards acknowledgements.  A lookup is two steps, the request and the wait,
  because acknowledgements arrive in between.  Writing to the connection and the cache are
  parameters over their states; the cache is the shared one (\<open>Shared_Cache\<close>).
\<close>

subsection \<open>State\<close>

datatype lookupResult = lookupResult (res_services: "Service option list") (res_err: "error option")

text \<open>
  \<open>rc_pending\<close> is the map from keys to channels, in the order it is ranged over;
  \<open>rc_chans\<close> is the buffer of each channel (capacity one).
\<close>

record rpcClient =
  rc_cli :: bool
  rc_groupName :: string
  rc_timeout :: int
  rc_pending :: "(string \<times> nat) list"
  rc_chans :: "nat \<Rightarrow> lookupResult option"
  rc_next :: nat

definition defaultLookupTimeout :: int where "defaultLookupTimeout = 5000000000"

definition rpcClient_new :: "string \<Rightarrow> rpcClient" where
  "rpcClient_new groupName = \<lparr>rc_cli = True, rc_groupName = groupName,
     rc_timeout = defaultLookupTimeout, rc_pending = [], rc_chans = (\<lambda>_. None), rc_next = 0\<rparr>"

definition ConfigCachePrefixKey :: string where "ConfigCachePrefixKey = ''mb:disco:''"

text \<open>
  The constructor returns the client and its storage; on success the TCP client's event
  handler is replaced by the wrapping one, \<open>wrap\<close> of the old handler.
\<close>

definition NewRPCDiscoveryClient ::
  "('e option \<Rightarrow> 'e) \<Rightarrow> ('e, 'h) client option \<Rightarrow> 's redis option \<Rightarrow> string \<Rightarrow> 's
    \<Rightarrow> (error + rpcClient \<times> 's redisCache) \<times> ('e, 'h) client option \<times> 's" where
  "NewRPCDiscoveryClient wrap cli redisCli groupName s =
     (case cli of
        None \<Rightarrow> (Inl (ErrorString ''tcp client is nil''), cli, s)
      | Some c \<Rightarrow>
         (if redisCli = None then (Inl (ErrorString ''redisCli is nil''), cli, s)
          else (case NewSharedCache redisCli ConfigCachePrefixKey s of
              (Inl e, s1) \<Rightarrow> (Inl e, cli, s1)
            | (Inr storage, s1) \<Rightarrow>
               (Inr (rpcClient_new groupName, storage),
                Some (SetEventHandler (Some (wrap (TcpClient_EventHandler c))) c), s1))))"

definition lookupKey :: "string \<Rightarrow> string \<Rightarrow> string" where
  "lookupKey serviceName groupName = serviceName @ ''@'' @ groupName"

text \<open>A non-blocking send: nothing happens when the buffer is full.\<close>

definition try_send :: "nat \<Rightarrow> lookupResult \<Rightarrow> rpcClient \<Rightarrow> rpcClient" where
  "try_send ch res r =
     (if rc_chans r ch = None then r\<lparr>rc_chans := (rc_chans r)(ch := Some res)\<rparr> else r)"

subsection \<open>Acknowledgements\<close>

text \<open>One key of \<open>HandleLookupAck\<close>'s inner loop, with the set \<open>delivered\<close>.\<close>

definition ack_key :: "Service option list \<Rightarrow> string \<Rightarrow> string list \<times> rpcClient \<Rightarrow> string list \<times> rpcClient" where
  "ack_key services key st =
     (case st of (delivered, r) \<Rightarrow>
        if key \<in> set delivered then (delivered, r)
        else (case map_of (rc_pending r) key of
            None \<Rightarrow> (delivered, r)
          | Some ch \<Rightarrow> (key # delivered, try_send ch (lookupResult services None) r)))"

definition ack_service ::
  "Service option list \<Rightarrow> Service option \<Rightarrow> string list \<times> rpcClient \<Rightarrow> string list \<times> rpcClient" where
  "ack_service services svc st =
     (case svc of
        None \<Rightarrow> st
      | Some s \<Rightarrow>
         fold (ack_key services)
           [lookupKey (svc_Name s) (svc_GroupName s),
            lookupKey (svc_Name s) (rc_groupName (snd st)),
            lookupKey (svc_Name s) ''''] st)"

definition HandleLookupAck :: "LookupAck option \<Rightarrow> rpcClient \<Rightarrow> rpcClient" where
  "HandleLookupAck ack r =
     (case ack of
        None \<Rightarrow> r
      | Some a \<Rightarrow>
         (let r1 = snd (fold (ack_service (ack_Services a)) (ack_Services a) ([], r)) in
          if ack_Services a = []
          then fold (\<lambda>(key, ch). try_send ch (lookupResult [] None)) (rc_pending r1) r1
          else r1))"

subsection \<open>Lookups\<close>

text \<open>
  \<open>lookup\<close> up to the write: an error, or the key and the channel the caller waits on.  The
  pending entry is removed again when the write fails.
\<close>

definition remove_pending :: "string \<Rightarrow> rpcClient \<Rightarrow> rpcClient" where
  "remove_pending key r = r\<lparr>rc_pending := filter (\<lambda>p. fst p \<noteq> key) (rc_pending r)\<rparr>"

definition lookup_group :: "string \<Rightarrow> rpcClient \<Rightarrow> string" where
  "lookup_group groupName r = (if groupName = '''' then rc_groupName r else groupName)"

type_synonym 'c packet_writer = "uint8 \<Rightarrow> uint8 \<Rightarrow> proto_message \<Rightarrow> 'c \<Rightarrow> error option \<times> 'c"

definition lookup_start ::
  "'c packet_writer \<Rightarrow> string \<Rightarrow> string \<Rightarrow> rpcClient \<times> 'c \<Rightarrow> (error + string \<times> nat) \<times> rpcClient \<times> 'c" where
  "lookup_start wr serviceName groupName0 st =
     (case st of (r, c) \<Rightarrow>
        if \<not> rc_cli r then (Inl (ErrorString ''tcp client is nil''), r, c)
        else
          (let groupName = lookup_group groupName0 r in
           case Atoi groupName of
             Inl _ \<Rightarrow> (Inl (ErrorString ''invalid group name''), r, c)
           | Inr node \<Rightarrow>
              (let key = lookupKey serviceName groupName; ch = rc_next r in
               if map_of (rc_pending r) key \<noteq> None
               then (Inl (ErrorString (''lookup already in progress: '' @ key)), r, c)
               else
                 (let r1 = r\<lparr>rc_pending := rc_pending r @ [(key, ch)],
                             rc_chans := (rc_chans r)(ch := None), rc_next := Suc ch\<rparr>;
                      pkt = MLookup (Lookup_zero\<lparr>lkp_ServiceName := serviceName, lkp_Node := word_of_int node,
                              lkp_Healthy := True\<rparr>)
                  in (case wr (u8 (CMD_number CMD_DISCOVERY)) (u8 (SCMDDisco_number SCMDDisco_LOOKUP)) pkt c of
                        (Some e, c') \<Rightarrow> (Inl e, remove_pending key r1, c')
                      | (None, c') \<Rightarrow> (Inr (key, ch), r1, c'))))))"

text \<open>
  The wait: \<open>timer\<close> tells that the timer fired and was chosen; otherwise the caller takes
  the buffered result, and \<open>None\<close> means that it still blocks.
\<close>

definition lookup_wait ::
  "bool \<Rightarrow> string \<times> nat \<Rightarrow> rpcClient \<Rightarrow> ((error + Service option list) \<times> rpcClient) option" where
  "lookup_wait timer kc r =
     (case kc of (key, ch) \<Rightarrow>
        if timer then Some (Inl (ErrorString ''lookup timeout''), remove_pending key r)
        else (case rc_chans r ch of
            None \<Rightarrow> None
          | Some res \<Rightarrow>
             Some (case res_err res of Some e \<Rightarrow> Inl e | None \<Rightarrow> Inr (res_services res),
                   remove_pending key (r\<lparr>rc_chans := (rc_chans r)(ch := None)\<rparr>))))"

text \<open>The first half of \<open>Close\<close>, under the mutex, and the whole of it.\<close>

definition rpcClient_Close :: "rpcClient \<Rightarrow> rpcClient" where
  "rpcClient_Close r =
     (let r1 = fold (\<lambda>(key, ch). try_send ch (lookupResult [] (Some (ErrorString ''rpc client closed'')))) (rc_pending r) r
      in r1\<lparr>rc_pending := []\<rparr>)"

definition rpc_Close :: "'s redisCache option \<Rightarrow> 's redis option \<Rightarrow> rpcClient \<times> 's \<Rightarrow> rpcClient \<times> 's" where
  "rpc_Close storage redisCli st =
     (case st of (r, s) \<Rightarrow>
        (let r1 = rpcClient_Close r;
             s1 = snd (redisCache_Close storage s);
             s2 = (case redisCli of None \<Rightarrow> s1 | Some R \<Rightarrow> snd (rd_Close R s1))
         in (r1, s2)))"

subsection \<open>Selection\<close>

fun find_named :: "string \<Rightarrow> Service option list \<Rightarrow> Service option" where
  "find_named name [] = None"
| "find_named name (None # ss) = find_named name ss"
| "find_named name (Some s # ss) = (if svc_Name s = name then Some s else find_named name ss)"

text \<open>What \<open>GetService\<close> makes of the result of the lookup.\<close>

definition GetService_result :: "string \<Rightarrow> error + Service option list \<Rightarrow> error + Service option" where
  "GetService_result serviceName r =
     (case r of
        Inl e \<Rightarrow> Inl e
      | Inr services \<Rightarrow>
         (case find_named serviceName services of
            Some s \<Rightarrow> Inr (Some s)
          | None \<Rightarrow> if services \<noteq> [] then Inr (hd services) else Inl (ErrorString (''service not found: '' @ serviceName))))"

fun find_usable :: "Instance option list \<Rightarrow> Instance option" where
  "find_usable [] = None"
| "find_usable (None # is) = find_usable is"
| "find_usable (Some i # is) = (if inst_Healthy i \<and> inst_Enable i then Some i else find_usable is)"

definition pickInstance :: "Service option \<Rightarrow> error + Instance option" where
  "pickInstance svc =
     (case svc of
        None \<Rightarrow> Inl (ErrorString ''service is nil'')
      | Some s \<Rightarrow>
         (if svc_Instances s = [] then Inl (ErrorString (''no instance in service '' @ svc_Name s))
          else (case find_usable (svc_Instances s) of
              Some i \<Rightarrow> Inr (Some i)
            | None \<Rightarrow> Inr (hd (svc_Instances s)))))"

definition GetServiceInstance_result :: "string \<Rightarrow> error + Service option list \<Rightarrow> error + Instance option" where
  "GetServiceInstance_result serviceName r =
     (case GetService_result serviceName r of Inl e \<Rightarrow> Inl e | Inr svc \<Rightarrow> pickInstance svc)"

definition GetServiceInstances_result :: "string \<Rightarrow> error + Service option list \<Rightarrow> error + Instance option list" where
  "GetServiceInstances_result serviceName r =
     (case GetService_result serviceName r of
        Inl e \<Rightarrow> Inl e
      | Inr None \<Rightarrow> Inl (ErrorString (''service not found: '' @ serviceName))
      | Inr (Some svc) \<Rightarrow> Inr (svc_Instances svc))"

text \<open>The queries as the interface has them; \<open>look\<close> is \<open>lookup\<close>.\<close>

type_synonym rpc_lookup = "string \<Rightarrow> string \<Rightarrow> error + Service option list"

definition rpc_GetGroupName :: "rpcClient \<Rightarrow> string" where
  "rpc_GetGroupName r = rc_groupName r"

definition GetServiceInstanceByGroup :: "rpc_lookup \<Rightarrow> string \<Rightarrow> string \<Rightarrow> error + Instance option" where
  "GetServiceInstanceByGroup look serviceName groupName =
     GetServiceInstance_result serviceName (look serviceName groupName)"

definition GetServiceInstanceByName :: "rpc_lookup \<Rightarrow> rpcClient \<Rightarrow> string \<Rightarrow> error + Instance option" where
  "GetServiceInstanceByName look r serviceName =
     GetServiceInstance_result serviceName (look serviceName (rc_groupName r))"

definition GetServiceInstancesByName :: "rpc_lookup \<Rightarrow> rpcClient \<Rightarrow> string \<Rightarrow> error + Instance option list" where
  "GetServiceInstancesByName look r serviceName =
     GetServiceInstances_result serviceName (look serviceName (rc_groupName r))"

text \<open>\<open>CancelListenConfig\<close>, \<open>ListenConfig\<close>, \<open>GetAllServices\<close> and \<open>SearchConfig\<close>.\<close>

definition rpc_unimplemented :: error where
  "rpc_unimplemented = ErrorString ''unimplemented''"

subsection \<open>Registration\<close>

definition RegisterInstance :: "'c packet_writer \<Rightarrow> Instance \<Rightarrow> rpcClient \<times> 'c \<Rightarrow> error option \<times> rpcClient \<times> 'c" where
  "RegisterInstance wr inst st =
     (case st of (r, c) \<Rightarrow>
        if \<not> rc_cli r then (Some (ErrorString ''tcp client is nil''), r, c)
        else (case wr (u8 (CMD_number CMD_DISCOVERY)) (u8 (SCMDDisco_number SCMDDisco_REGISTER)) (MInstance inst) c of
            (err, c') \<Rightarrow> (err, r, c')))"

definition deregister_node :: "string \<Rightarrow> rpcClient \<Rightarrow> int option" where
  "deregister_node groupName r =
     (case Atoi groupName of
        Inr n \<Rightarrow> Some n
      | Inl _ \<Rightarrow> (case Atoi (rc_groupName r) of Inr n \<Rightarrow> Some n | Inl _ \<Rightarrow> None))"

definition DeregisterInstance ::
  "'c packet_writer \<Rightarrow> string \<Rightarrow> string \<Rightarrow> string \<Rightarrow> uint64 \<Rightarrow> rpcClient \<times> 'c \<Rightarrow> error option \<times> rpcClient \<times> 'c" where
  "DeregisterInstance wr serviceName groupName ip port st =
     (case st of (r, c) \<Rightarrow>
        if \<not> rc_cli r then (Some (ErrorString ''tcp client is nil''), r, c)
        else (case deregister_node groupName r of
            None \<Rightarrow> (Some (ErrorString ''invalid group name''), r, c)
          | Some node \<Rightarrow>
             (case wr (u8 (CMD_number CMD_DISCOVERY)) (u8 (SCMDDisco_number SCMDDisco_DEREGISTER))
                (MDeregister (Deregister_zero\<lparr>dereg_InstanceName := serviceName, dereg_Node := word_of_int node,
                   dereg_Ip := ip, dereg_Port := ucast port\<rparr>)) c of
               (err, c') \<Rightarrow> (err, r, c'))))"

subsection \<open>Configuration items\<close>

definition rpc_GetConfig ::
  "(string \<Rightarrow> 's \<Rightarrow> (any_value \<times> error option) \<times> 's) option \<Rightarrow> string \<Rightarrow> 's \<Rightarrow> (error + string) \<times> 's" where
  "rpc_GetConfig storage dataId s =
     (case storage of
        None \<Rightarrow> (Inl (ErrorString ''storage is nil''), s)
      | Some get \<Rightarrow>
         (case get dataId s of ((data, err), s') \<Rightarrow>
            (if err \<noteq> None \<and> err \<noteq> Some RedisNil then Inl (the err)
             else (case data of
                 AnyNil \<Rightarrow> Inl (ErrorString (''no config found:'' @ dataId))
               | AnyString t \<Rightarrow> Inr t
               | AnyOther _ \<Rightarrow> Inl (ErrorString (''config type mismatch for '' @ dataId))), s')))"

definition rpc_SetConfig ::
  "(string \<Rightarrow> any_value \<Rightarrow> 's \<Rightarrow> error option \<times> 's) option \<Rightarrow> string \<Rightarrow> string \<Rightarrow> 's \<Rightarrow> error option \<times> 's" where
  "rpc_SetConfig storage dataId content s =
     (case storage of
        None \<Rightarrow> (Some (ErrorString ''storage is nil''), s)
      | Some set' \<Rightarrow> set' dataId (AnyString content) s)"

definition rpc_DeleteConfig ::
  "(string \<Rightarrow> 's \<Rightarrow> error option \<times> 's) option \<Rightarrow> string \<Rightarrow> 's \<Rightarrow> error option \<times> 's" where
  "rpc_DeleteConfig storage dataId s =
     (case storage of
        None \<Rightarrow> (Some (ErrorString ''storage is nil''), s)
      | Some del \<Rightarrow> del dataId s)"

text \<open>Listening for changes and searching are refused; nothing is sent.\<close>

definition rpc_ListenConfig :: "string \<Rightarrow> 's \<Rightarrow> error option \<times> 's" where
  "rpc_ListenConfig dataId s = (Some (ErrorString ''unimplemented''), s)"

definition rpc_CancelListenConfig :: "string \<Rightarrow> 's \<Rightarrow> error option \<times> 's" where
  "rpc_CancelListenConfig dataId s = (Some (ErrorString ''unimplemented''), s)"

definition rpc_SearchConfig :: "string \<Rightarrow> string \<Rightarrow> 's \<Rightarrow> (error + 'page) \<times> 's" where
  "rpc_SearchConfig search dataId s = (Inl (ErrorString ''unimplemented''), s)"

subsection \<open>The wrapping event handler\<close>

text \<open>\<open>lookup\<close> is \<open>HandleLookupAck\<close> on the client inside the world's application state.\<close>

definition as_LookupAck :: "proto_message option \<Rightarrow> LookupAck option" where
  "as_LookupAck pkt = (case pkt of Some (MLookupAck a) \<Rightarrow> Some a | _ \<Rightarrow> None)"

definition WrapEventHandler ::
  "'s EventHandler option \<Rightarrow> (LookupAck \<Rightarrow> 's \<Rightarrow> 's) option \<Rightarrow> 's EventHandler" where
  "WrapEventHandler inner lookup = \<lparr>
     ev_OnConnect = (\<lambda>s. case inner of None \<Rightarrow> (None, s) | Some h \<Rightarrow> ev_OnConnect h s),
     ev_OnClose = (\<lambda>s. case inner of None \<Rightarrow> s | Some h \<Rightarrow> ev_OnClose h s),
     ev_OnCmdSystem = (\<lambda>pkt s. case inner of None \<Rightarrow> (Ret None, s) | Some h \<Rightarrow> ev_OnCmdSystem h pkt s),
     ev_OnCmdDiscovery = (\<lambda>pkt s.
       let s1 = (case (as_LookupAck pkt, lookup) of (Some a, Some f) \<Rightarrow> f a s | _ \<Rightarrow> s)
       in case inner of None \<Rightarrow> (Ret None, s1) | Some h \<Rightarrow> ev_OnCmdDiscovery h pkt s1),
     ev_OnCmdDataReport = (\<lambda>sub pkt s. case inner of None \<Rightarrow> (Ret None, s) | Some h \<Rightarrow> ev_OnCmdDataReport h sub pkt s),
     ev_OnCmdConfig = (\<lambda>pkt s. case inner of None \<Rightarrow> (Ret None, s) | Some h \<Rightarrow> ev_OnCmdConfig h pkt s),
     ev_OnCmdEvent = (\<lambda>pkt s. case inner of None \<Rightarrow> (Ret None, s) | Some h \<Rightarrow> ev_OnCmdEvent h pkt s),
     ev_OnCmdControl = (\<lambda>pkt s. case inner of None \<Rightarrow> (Ret None, s) | Some h \<Rightarrow> ev_OnCmdControl h pkt s)\<rparr>"

subsection \<open>Invariant\<close>

text \<open>One waiter per key, one key per channel, and only channels that exist.\<close>

definition rpc_inv :: "rpcClient \<Rightarrow> bool" where
  "rpc_inv r \<longleftrightarrow> distinct (map fst (rc_pending r)) \<and> distinct (map snd (rc_pending r)) \<and>
     (\<forall>(k, ch) \<in> set (rc_pending r). ch < rc_next r)"

lemma try_send_sel [simp]:
  "rc_pending (try_send ch res r) = rc_pending r" "rc_groupName (try_send ch res r) = rc_groupName r"
  "rc_next (try_send ch res r) = rc_next r" "rc_cli (try_send ch res r) = rc_cli r"
  by (simp_all add: try_send_def)

lemma remove_pending_inv [inv_intros]: "rpc_inv r \<Longrightarrow> rpc_inv (remove_pending k r)"
  by (auto simp: rpc_inv_def remove_pending_def distinct_map intro: inj_on_subset)

lemma fold_try_send_sel:
  "rc_pending (fold (\<lambda>(k, ch). try_send ch res) ps r) = rc_pending r \<and>
   rc_next (fold (\<lambda>(k, ch). try_send ch res) ps r) = rc_next r"
  by (induction ps arbitrary: r) auto

lemma fold_try_send_chans:
  "rc_chans (fold (\<lambda>(k, ch). try_send ch res) ps r) c =
     (if c \<in> snd ` set ps \<and> rc_chans r c = None then Some res else rc_chans r c)"
proof (induction ps arbitrary: r)
  case (Cons p ps)
  then show ?case by (cases p) (simp add: try_send_def)
qed simp

subsection \<open>Who is woken by an acknowledgement\<close>

definition ack_keys :: "string \<Rightarrow> Service option list \<Rightarrow> string list" where
  "ack_keys g services = concat (map (\<lambda>svc. case svc of
     None \<Rightarrow> [] | Some s \<Rightarrow> [lookupKey (svc_Name s) (svc_GroupName s), lookupKey (svc_Name s) g, lookupKey (svc_Name s) '''']) services)"

text \<open>\<open>delivered\<close> only holds keys whose channel is full.\<close>

definition delivered_ok :: "string list \<Rightarrow> rpcClient \<Rightarrow> bool" where
  "delivered_ok d r \<longleftrightarrow> (\<forall>(k, ch) \<in> set (rc_pending r). k \<in> set d \<longrightarrow> rc_chans r ch \<noteq> None)"

lemma ack_key_effect:
  assumes "distinct (map fst (rc_pending r))" and "delivered_ok d r" and "ack_key S k (d, r) = (d', r')"
  shows "rc_pending r' = rc_pending r \<and> rc_groupName r' = rc_groupName r \<and> rc_next r' = rc_next r \<and> delivered_ok d' r' \<and>
    rc_chans r' = (\<lambda>ch. if (k, ch) \<in> set (rc_pending r) \<and> rc_chans r ch = None
      then Some (lookupResult S None) else rc_chans r ch)"
proof (cases "k \<in> set d \<or> map_of (rc_pending r) k = None")
  case True
  then have same: "d' = d" "r' = r"
    using assms(3) by (auto simp: ack_key_def split: option.splits if_splits)
  have "\<not> ((k, ch) \<in> set (rc_pending r) \<and> rc_chans r ch = None)" for ch
    using True assms(1,2) by (auto simp: delivered_ok_def map_of_eq_None_iff image_iff)
  with same assms(2) show ?thesis by auto
next
  case False
  then obtain ch where ch: "map_of (rc_pending r) k = Some ch" by auto
  then have iff: "(k, c) \<in> set (rc_pending r) \<longleftrightarrow> c = ch" for c
    using assms(1) by (metis map_of_eq_Some_iff option.inject)
  have "d' = k # d" "r' = try_send ch (lookupResult S None) r"
    using assms(3) False ch by (auto simp: ack_key_def)
  with iff assms(2) show ?thesis
    by (auto simp: try_send_def delivered_ok_def fun_eq_iff)
qed

lemma ack_keys_effect:
  assumes "distinct (map fst (rc_pending r))" and "delivered_ok d r" and "fold (ack_key S) ks (d, r) = (d', r')"
  shows "rc_pending r' = rc_pending r \<and> rc_groupName r' = rc_groupName r \<and> rc_next r' = rc_next r \<and> delivered_ok d' r' \<and>
    rc_chans r' = (\<lambda>ch. if (\<exists>k \<in> set ks. (k, ch) \<in> set (rc_pending r)) \<and> rc_chans r ch = None
      then Some (lookupResult S None) else rc_chans r ch)"
  using assms
proof (induction ks arbitrary: d r)
  case (Cons k ks)
  obtain d1 r1 where 1: "ack_key S k (d, r) = (d1, r1)" by (cases "ack_key S k (d, r)")
  note e = ack_key_effect [OF Cons.prems(1,2) 1]
  have "fold (ack_key S) ks (d1, r1) = (d', r')" using Cons.prems(3) 1 by simp
  from Cons.IH [OF _ _ this] e Cons.prems(1) show ?case
    by (auto simp: fun_eq_iff)
qed auto

lemma ack_services_fold:
  assumes "distinct (map fst (rc_pending r))" and "delivered_ok d r"
  shows "fold (ack_service S) ss (d, r) = fold (ack_key S) (ack_keys (rc_groupName r) ss) (d, r)"
  using assms
proof (induction ss arbitrary: d r)
  case Nil
  then show ?case by (simp add: ack_keys_def)
next
  case (Cons s ss)
  show ?case
  proof (cases s)
    case None
    with Cons show ?thesis by (simp add: ack_service_def ack_keys_def)
  next
    case (Some x)
    let ?ks = "[lookupKey (svc_Name x) (svc_GroupName x), lookupKey (svc_Name x) (rc_groupName r), lookupKey (svc_Name x) '''']"
    obtain d1 r1 where 1: "fold (ack_key S) ?ks (d, r) = (d1, r1)" by (cases "fold (ack_key S) ?ks (d, r)")
    note e = ack_keys_effect [OF Cons.prems 1]
    have "ack_service S s (d, r) = (d1, r1)" using 1 Some by (simp add: ack_service_def)
    moreover have "ack_keys (rc_groupName r) (s # ss) = ?ks @ ack_keys (rc_groupName r) ss"
      using Some by (simp add: ack_keys_def)
    ultimately show ?thesis
      using Cons.IH [of r1 d1] e Cons.prems(1) 1 by (simp del: fold_simps(2) add: fold_append)
  qed
qed

lemma HandleLookupAck_effect:
  assumes "rpc_inv r"
  shows "rc_pending (HandleLookupAck (Some a) r) = rc_pending r \<and> rc_next (HandleLookupAck (Some a) r) = rc_next r \<and>
    rc_chans (HandleLookupAck (Some a) r) = (\<lambda>ch.
      if (\<exists>k. (k, ch) \<in> set (rc_pending r) \<and> (ack_Services a = [] \<or> k \<in> set (ack_keys (rc_groupName r) (ack_Services a)))) \<and>
         rc_chans r ch = None
      then Some (lookupResult (ack_Services a) None) else rc_chans r ch)"
proof -
  have ok: "distinct (map fst (rc_pending r))" "delivered_ok [] r"
    using assms by (auto simp: rpc_inv_def delivered_ok_def)
  obtain d' r' where r': "fold (ack_key (ack_Services a)) (ack_keys (rc_groupName r) (ack_Services a)) ([], r) = (d', r')"
    by (cases "fold (ack_key (ack_Services a)) (ack_keys (rc_groupName r) (ack_Services a)) ([], r)")
  note e = ack_keys_effect [OF ok r']
  have h: "HandleLookupAck (Some a) r = (if ack_Services a = []
      then fold (\<lambda>(key, ch). try_send ch (lookupResult [] None)) (rc_pending r') r' else r')"
    using r' ack_services_fold [OF ok] by (simp add: HandleLookupAck_def Let_def)
  show ?thesis
  proof (cases "ack_Services a = []")
    case True
    with r' have "r' = r" by (simp add: ack_keys_def)
    with True h show ?thesis
      by (auto simp: fold_try_send_sel fold_try_send_chans fun_eq_iff image_iff)
  next
    case False
    with h e show ?thesis by (auto simp: fun_eq_iff)
  qed
qed

subsection \<open>Starting a lookup\<close>

lemma lookup_start_ok:
  assumes "lookup_start wr name grp (r, c) = (Inr (key, ch), r1, c1)"
  shows "key = lookupKey name (lookup_group grp r) \<and> ch = rc_next r \<and> map_of (rc_pending r) key = None \<and>
    rc_pending r1 = rc_pending r @ [(key, ch)] \<and> rc_chans r1 = (rc_chans r)(ch := None) \<and>
    rc_next r1 = Suc (rc_next r) \<and> rc_groupName r1 = rc_groupName r"
  using assms by (auto simp: lookup_start_def Let_def split: if_splits sum.splits prod.splits option.splits)

lemma lookup_start_inv [inv_intros]:
  assumes "rpc_inv r" and "lookup_start wr name grp (r, c) = (res, r1, c1)"
  shows "rpc_inv r1"
proof -
  define key where "key = lookupKey name (lookup_group grp r)"
  define r0 where "r0 = r\<lparr>rc_pending := rc_pending r @ [(key, rc_next r)],
      rc_chans := (rc_chans r)(rc_next r := None), rc_next := Suc (rc_next r)\<rparr>"
  have "rpc_inv r0" if "map_of (rc_pending r) key = None"
    using that assms(1) by (auto simp: rpc_inv_def r0_def map_of_eq_None_iff)
  moreover have "r1 \<in> {r, r0, remove_pending key r0} \<and> (r1 \<noteq> r \<longrightarrow> map_of (rc_pending r) key = None)"
    using assms(2)
    by (auto simp: lookup_start_def Let_def key_def r0_def split: if_splits sum.splits prod.splits option.splits)
  ultimately show ?thesis
    using assms(1) remove_pending_inv by auto
qed

subsection \<open>Properties\<close>

text \<open>
  A lookup gets its answer.  After a lookup request for a service and a group has been
  sent, an acknowledgement that lists a service of that name and group is delivered to the
  waiting caller: its wait returns exactly the services of the acknowledgement, \<open>GetService\<close>
  finds the service by name, and the key is free for the next lookup.
\<close>

theorem lookup_answered:
  assumes "rpc_inv r" and "lookup_start wr name grp (r, c) = (Inr (key, ch), r1, c1)"
    and "Some s \<in> set (ack_Services a)" and "svc_Name s = name" and "svc_GroupName s = lookup_group grp r"
  shows "\<exists>r2. lookup_wait False (key, ch) (HandleLookupAck (Some a) r1) = Some (Inr (ack_Services a), r2) \<and>
    rpc_inv r2 \<and> map_of (rc_pending r2) key = None \<and>
    (\<exists>s'. GetService_result name (Inr (ack_Services a)) = Inr (Some s') \<and> svc_Name s' = name)"
proof -
  note st = lookup_start_ok [OF assms(2)]
  have inv: "rpc_inv r1" by (rule lookup_start_inv [OF assms(1,2)])
  note e = HandleLookupAck_effect [OF inv, of a]
  have "(key, ch) \<in> set (rc_pending r1)" "rc_chans r1 ch = None" using st by auto
  moreover have "key \<in> set (ack_keys (rc_groupName r1) (ack_Services a))"
    using assms(3-5) st by (auto simp: ack_keys_def intro!: bexI [of _ "Some s"])
  ultimately have res: "rc_chans (HandleLookupAck (Some a) r1) ch = Some (lookupResult (ack_Services a) None)"
    using e by auto
  let ?r2 = "remove_pending key ((HandleLookupAck (Some a) r1)\<lparr>rc_chans := (rc_chans (HandleLookupAck (Some a) r1))(ch := None)\<rparr>)"
  have "rpc_inv ?r2"
    using inv e by (intro remove_pending_inv) (simp add: rpc_inv_def)
  moreover have "map_of (rc_pending ?r2) key = None"
    by (auto simp: remove_pending_def map_of_eq_None_iff)
  moreover have "\<exists>s'. find_named name ss = Some s' \<and> svc_Name s' = name" if "Some s \<in> set ss" for ss
    using that assms(4) by (induction name ss rule: find_named.induct) auto
  ultimately show ?thesis
    using res assms(3) by (fastforce simp: lookup_wait_def GetService_result_def)
qed

definition ok_writer :: "unit packet_writer" where
  "ok_writer cmd sub m c = (None, c)"

definition api_service :: "string \<Rightarrow> Service" where
  "api_service g = Service_zero\<lparr>svc_Name := ''api'', svc_GroupName := g\<rparr>"

lemma new_rpc_inv [simp]: "rpc_inv (rpcClient_new g)"
  by (simp add: rpc_inv_def rpcClient_new_def)

definition waiting :: rpcClient where
  "waiting = (rpcClient_new ''1'')\<lparr>rc_pending := [(''api@1'', 0)], rc_next := 1\<rparr>"

lemma start_demo: "lookup_start ok_writer ''api'' '''' (rpcClient_new ''1'', ()) = (Inr (''api@1'', 0), waiting, ())"
proof -
  have "Atoi ''1'' = Inr 1"
    by (simp add: Atoi_def is_digit_def digits_value_def)
  then show ?thesis
    by (simp add: lookup_start_def lookup_group_def rpcClient_new_def waiting_def lookupKey_def ok_writer_def Let_def fun_upd_idem)
qed

theorem lookup_answered_witness:
  "\<exists>r2. lookup_wait False (''api@1'', 0) (HandleLookupAck (Some \<lparr>ack_Services = [Some (api_service ''1'')]\<rparr>) waiting) =
    Some (Inr [Some (api_service ''1'')], r2)"
  using lookup_answered [OF new_rpc_inv start_demo, of "api_service ''1''" "\<lparr>ack_Services = [Some (api_service ''1'')]\<rparr>"]
  by (auto simp: api_service_def lookup_group_def rpcClient_new_def)

text \<open>
  An acknowledgement wakes nobody else.  When it lists services, a caller is touched
  only if its key is one of the keys of those services (name and group, name and the
  client's own group, name and the empty group); when it lists none, every waiting caller is
  woken with an empty result; a nil acknowledgement does nothing; and a full channel keeps
  its first result.
\<close>

theorem ack_wakes_exactly:
  assumes "rpc_inv r"
  shows "rc_pending (HandleLookupAck (Some a) r) = rc_pending r \<and>
    rc_chans (HandleLookupAck (Some a) r) = (\<lambda>ch.
      if (\<exists>k. (k, ch) \<in> set (rc_pending r) \<and> (ack_Services a = [] \<or> k \<in> set (ack_keys (rc_groupName r) (ack_Services a)))) \<and>
         rc_chans r ch = None
      then Some (lookupResult (ack_Services a) None) else rc_chans r ch) \<and>
    HandleLookupAck None r = r"
  using HandleLookupAck_effect [OF assms] by (simp add: HandleLookupAck_def)

theorem ack_wakes_exactly_witness:
  "rc_chans (HandleLookupAck (Some \<lparr>ack_Services = []\<rparr>) waiting) 0 = Some (lookupResult [] None)"
proof -
  have "rpc_inv waiting" by (simp add: rpc_inv_def waiting_def)
  from ack_wakes_exactly [OF this, of "\<lparr>ack_Services = []\<rparr>"] show ?thesis
    by (simp add: waiting_def rpcClient_new_def)
qed

text \<open>
  An answer for another group is delivered to the caller that waits for the client's
  own group.  Every service of an acknowledgement is also announced under its name and the
  client's group, so a lookup in that group returns a service of a different group.
\<close>

theorem lookup_crosses_groups:
  assumes "rpc_inv r" and "(lookupKey (svc_Name s) (rc_groupName r), ch) \<in> set (rc_pending r)" and "rc_chans r ch = None"
    and "svc_GroupName s \<noteq> rc_groupName r"
  shows "\<exists>r2. lookup_wait False (lookupKey (svc_Name s) (rc_groupName r), ch) (HandleLookupAck (Some \<lparr>ack_Services = [Some s]\<rparr>) r) =
      Some (Inr [Some s], r2) \<and>
    GetService_result (svc_Name s) (Inr [Some s]) = Inr (Some s)"
proof -
  have "rc_chans (HandleLookupAck (Some \<lparr>ack_Services = [Some s]\<rparr>) r) ch = Some (lookupResult [Some s] None)"
    using HandleLookupAck_effect [OF assms(1), of "\<lparr>ack_Services = [Some s]\<rparr>"] assms(2,3)
    by (auto simp: ack_keys_def)
  then show ?thesis
    by (simp add: lookup_wait_def GetService_result_def)
qed

theorem lookup_crosses_groups_witness:
  "\<exists>r2. lookup_wait False (''api@1'', 0) (HandleLookupAck (Some \<lparr>ack_Services = [Some (api_service ''2'')]\<rparr>) waiting) =
    Some (Inr [Some (api_service ''2'')], r2)"
proof -
  have "rpc_inv waiting" by (simp add: rpc_inv_def waiting_def)
  from lookup_crosses_groups [OF this, of "api_service ''2''" 0] show ?thesis
    by (simp add: waiting_def rpcClient_new_def api_service_def lookupKey_def)
qed

text \<open>
  \<open>Close\<close> releases every waiting caller: a caller whose channel was still empty gets
  the error \<open>rpc client closed\<close>, one that already had its answer keeps it, and no lookup
  stays pending.
\<close>

theorem rpcClient_Close_releases:
  assumes "(key, ch) \<in> set (rc_pending r)"
  shows "\<exists>res r2. lookup_wait False (key, ch) (rpcClient_Close r) = Some (res, r2) \<and> rc_pending r2 = [] \<and>
    (rc_chans r ch = None \<longrightarrow> res = Inl (ErrorString ''rpc client closed''))"
proof -
  let ?res = "lookupResult [] (Some (ErrorString ''rpc client closed''))"
  have "rc_chans (rpcClient_Close r) ch = (if rc_chans r ch = None then Some ?res else rc_chans r ch)"
    using assms by (force simp: rpcClient_Close_def Let_def fold_try_send_chans)
  moreover have "rc_pending (rpcClient_Close r) = []"
    by (simp add: rpcClient_Close_def Let_def)
  ultimately show ?thesis
    by (cases "rc_chans r ch") (auto simp: lookup_wait_def remove_pending_def)
qed

theorem rpcClient_Close_releases_witness:
  "\<exists>r2. lookup_wait False (''api@1'', 0) (rpcClient_Close waiting) = Some (Inl (ErrorString ''rpc client closed''), r2)"
  using rpcClient_Close_releases [of "''api@1''" 0 waiting] by (auto simp: waiting_def rpcClient_new_def)

text \<open>
  \<open>pickInstance\<close> prefers usable instances.  It returns a healthy and enabled instance
  whenever the service has one, the first entry of the list when it has none, and an error
  exactly for a nil service or an empty list.
\<close>

theorem pickInstance_prefers_usable:
  "case pickInstance svc of
     Inl _ \<Rightarrow> svc = None \<or> (\<exists>s. svc = Some s \<and> svc_Instances s = [])
   | Inr i \<Rightarrow> \<exists>s. svc = Some s \<and> i \<in> set (svc_Instances s) \<and>
       (if \<exists>x. Some x \<in> set (svc_Instances s) \<and> inst_Healthy x \<and> inst_Enable x
        then \<exists>x. i = Some x \<and> inst_Healthy x \<and> inst_Enable x else i = hd (svc_Instances s))"
proof (cases svc)
  case None
  then show ?thesis by (simp add: pickInstance_def)
next
  case (Some s)
  have none: "find_usable is = None \<longleftrightarrow> \<not> (\<exists>x. Some x \<in> set is \<and> inst_Healthy x \<and> inst_Enable x)" for "is"
    by (induction "is" rule: find_usable.induct) auto
  have some: "find_usable is = Some i \<Longrightarrow> Some i \<in> set is \<and> inst_Healthy i \<and> inst_Enable i" for "is" i
    by (induction "is" rule: find_usable.induct) (auto split: if_splits)
  show ?thesis
  proof (cases "find_usable (svc_Instances s)")
    case None
    with none [of "svc_Instances s"] \<open>svc = Some s\<close> show ?thesis
      by (auto simp: pickInstance_def)
  next
    case i: (Some i)
    have "svc_Instances s \<noteq> []" using i by auto
    with some [OF i] i \<open>svc = Some s\<close> show ?thesis
      by (auto simp: pickInstance_def)
  qed
qed

end
