(* ===== verification/Lookup_Race.thy ===== *)
theory Lookup_Race
  imports Naming_Rpc
begin

text \<open>
  Concurrent lookups of one discovery client (\<open>lookup\<close> of \<open>pkg/naming/rpc_client.go\<close>).  Any
  number of goroutines call \<open>lookup\<close> while the read loop hands in acknowledgements and the
  user may call \<open>Close\<close>.  A call is five steps: it registers its channel under the mutex,
  writes the request, takes its answer or times out, and deletes its key from \<open>pending\<close> in a
  deferred function, under the mutex again.  \<open>HandleLookupAck\<close> and \<open>Close\<close> hold the mutex for
  all they do with \<open>pending\<close>, so each of them is one step.
\<close>

subsection \<open>The steps of a call\<close>

type_synonym lookup_res = "error + Service option list"

text \<open>What is left of a call: the write, the receive, the deferred delete, nothing.\<close>

datatype lpc =
    L_write string nat int
  | L_wait string nat
  | L_defer string nat lookup_res
  | L_done lookup_res

text \<open>\<open>lookup\<close> up to the end of its first critical section.\<close>

definition lookup_register ::
  "string \<Rightarrow> string \<Rightarrow> rpcClient \<Rightarrow> lpc \<times> rpcClient" where
  "lookup_register serviceName groupName0 r =
     (if \<not> rc_cli r then (L_done (Inl (ErrorString ''tcp client is nil'')), r)
      else
        (let groupName = lookup_group groupName0 r in
         case Atoi groupName of
           Inl _ \<Rightarrow> (L_done (Inl (ErrorString ''invalid group name'')), r)
         | Inr node \<Rightarrow>
            (let key = lookupKey serviceName groupName; ch = rc_next r in
             if map_of (rc_pending r) key \<noteq> None
             then (L_done (Inl (ErrorString (''lookup already in progress: '' @ key))), r)
             else (L_write key ch node,
                   r\<lparr>rc_pending := rc_pending r @ [(key, ch)],
                     rc_chans := (rc_chans r)(ch := None), rc_next := Suc ch\<rparr>))))"

definition lookup_request :: "string \<Rightarrow> int \<Rightarrow> proto_message" where
  "lookup_request serviceName node =
     MLookup (Lookup_zero\<lparr>lkp_ServiceName := serviceName, lkp_Node := word_of_int node, lkp_Healthy := True\<rparr>)"

definition received :: "lookupResult \<Rightarrow> lookup_res" where
  "received res = (case res_err res of Some e \<Rightarrow> Inl e | None \<Rightarrow> Inr (res_services res))"

text \<open>
  One step of a call after its registration: \<open>werr\<close> is what \<open>cli.Write\<close> returned, \<open>timer\<close>
  tells which case of the \<open>select\<close> was taken; \<open>None\<close> when that step cannot be taken now.
\<close>

fun lookup_go :: "error option \<Rightarrow> bool \<Rightarrow> lpc \<Rightarrow> rpcClient \<Rightarrow> (lpc \<times> rpcClient) option" where
  "lookup_go werr timer (L_write key ch node) r =
     Some (case werr of Some e \<Rightarrow> L_defer key ch (Inl e) | None \<Rightarrow> L_wait key ch, r)"
| "lookup_go werr timer (L_wait key ch) r =
     (if timer then Some (L_defer key ch (Inl (ErrorString ''lookup timeout'')), r)
      else (case rc_chans r ch of
          None \<Rightarrow> None
        | Some res \<Rightarrow> Some (L_defer key ch (received res), r\<lparr>rc_chans := (rc_chans r)(ch := None)\<rparr>)))"
| "lookup_go werr timer (L_defer key ch res) r = Some (L_done res, remove_pending key r)"
| "lookup_go werr timer (L_done res) r = None"

text \<open>Run alone, the steps are \<open>lookup_start\<close> and \<open>lookup_wait\<close>.\<close>

lemma lookup_start_steps:
  "lookup_start wr name grp (r, c) =
     (case lookup_register name grp r of
        (L_write key ch node, r1) \<Rightarrow>
          (case wr (u8 (CMD_number CMD_DISCOVERY)) (u8 (SCMDDisco_number SCMDDisco_LOOKUP)) (lookup_request name node) c of
             (werr, c') \<Rightarrow>
               (case lookup_go werr False (L_write key ch node) r1 of
                  Some (L_wait k h, r2) \<Rightarrow> (Inr (k, h), r2, c')
                | Some (L_defer k h (Inl e), r2) \<Rightarrow> (Inl e, snd (the (lookup_go werr False (L_defer k h (Inl e)) r2)), c')))
      | (L_done (Inl e), r1) \<Rightarrow> (Inl e, r1, c))"
  by (simp add: lookup_start_def lookup_register_def lookup_request_def Let_def
      split: sum.splits option.splits prod.splits)

lemma lookup_wait_steps:
  "lookup_wait timer (key, ch) r =
     (case lookup_go werr timer (L_wait key ch) r of
        Some (L_defer k h res, r1) \<Rightarrow> Some (res, snd (the (lookup_go werr timer (L_defer k h res) r1)))
      | _ \<Rightarrow> None)"
  by (simp add: lookup_wait_def received_def split: option.splits)

subsection \<open>Calls, acknowledgements and \<open>Close\<close>, interleaved\<close>

text \<open>
  \<open>lk_acks\<close> (the acknowledgements handled so far), \<open>lk_closed\<close> (\<open>Close\<close> was called) and the
  position in \<open>lk_acks\<close> at which a call began only record what happened; no step reads them.
\<close>

record lookups =
  lk_r :: rpcClient
  lk_acks :: "LookupAck list"
  lk_closed :: bool
  lk_calls :: "nat \<rightharpoonup> string \<times> string \<times> nat \<times> lpc"

datatype lact =
    LBegin nat string string
  | LGo nat "error option" bool
  | LAck LookupAck
  | LClose

fun lookups_act :: "lact \<Rightarrow> lookups \<Rightarrow> lookups option" where
  "lookups_act (LBegin t name grp) S =
     (case lk_calls S t of
        Some _ \<Rightarrow> None
      | None \<Rightarrow>
         (case lookup_register name grp (lk_r S) of (pc, r) \<Rightarrow>
            Some (S\<lparr>lk_r := r, lk_calls := (lk_calls S)(t \<mapsto> (name, grp, length (lk_acks S), pc))\<rparr>)))"
| "lookups_act (LGo t werr timer) S =
     (case lk_calls S t of
        None \<Rightarrow> None
      | Some (name, grp, n, pc) \<Rightarrow>
         (case lookup_go werr timer pc (lk_r S) of
            None \<Rightarrow> None
          | Some (pc', r) \<Rightarrow>
              Some (S\<lparr>lk_r := r, lk_calls := (lk_calls S)(t \<mapsto> (name, grp, n, pc'))\<rparr>)))"
| "lookups_act (LAck a) S =
     Some (S\<lparr>lk_r := HandleLookupAck (Some a) (lk_r S), lk_acks := lk_acks S @ [a]\<rparr>)"
| "lookups_act LClose S = Some (S\<lparr>lk_r := rpcClient_Close (lk_r S), lk_closed := True\<rparr>)"

abbreviation lookups_run :: "lact list \<Rightarrow> lookups \<Rightarrow> lookups option" where
  "lookups_run \<equiv> run_actions lookups_act"

definition lookups_init :: "string \<Rightarrow> lookups" where
  "lookups_init groupName =
     \<lparr>lk_r = rpcClient_new groupName, lk_acks = [], lk_closed = False, lk_calls = Map.empty\<rparr>"

subsection \<open>What the client owes each call\<close>

text \<open>An acknowledgement answers a key; a result is one that was handed in since the call began.\<close>

definition answers :: "string \<Rightarrow> string \<Rightarrow> LookupAck \<Rightarrow> bool" where
  "answers g key a = (ack_Services a = [] \<or> key \<in> set (ack_keys g (ack_Services a)))"

definition answered_by :: "string \<Rightarrow> string \<Rightarrow> LookupAck list \<Rightarrow> Service option list \<Rightarrow> bool" where
  "answered_by g key acks services = (\<exists>a \<in> set acks. answers g key a \<and> services = ack_Services a)"

definition result_ok :: "string \<Rightarrow> string \<Rightarrow> LookupAck list \<Rightarrow> lookup_res \<Rightarrow> bool" where
  "result_ok g key acks res = (case res of Inl e \<Rightarrow> True | Inr services \<Rightarrow> answered_by g key acks services)"

lemma result_ok_Inl [simp]: "result_ok g key acks (Inl e)"
  by (simp add: result_ok_def)

fun pc_slot :: "lpc \<Rightarrow> (string \<times> nat) option" where
  "pc_slot (L_write key ch node) = Some (key, ch)"
| "pc_slot (L_wait key ch) = Some (key, ch)"
| "pc_slot (L_defer key ch res) = Some (key, ch)"
| "pc_slot (L_done res) = None"

fun pc_result :: "lpc \<Rightarrow> lookup_res option" where
  "pc_result (L_defer key ch res) = Some res"
| "pc_result (L_done res) = Some res"
| "pc_result _ = None"

definition call_key :: "string \<Rightarrow> string \<Rightarrow> string \<Rightarrow> string" where
  "call_key g name grp = lookupKey name (if grp = '''' then g else grp)"

text \<open>
  The invariant of one call: its result, or the content of its channel while it still waits,
  comes from an acknowledgement handled since the call began; as long as the client is not
  closed its entry is in \<open>pending\<close>, its channel holds no error, and an empty channel means
  that no answer came yet.
\<close>

definition chan_ok :: "rpcClient \<Rightarrow> LookupAck list \<Rightarrow> bool \<Rightarrow> string \<Rightarrow> nat \<Rightarrow> bool" where
  "chan_ok r acks shut key ch =
     (case rc_chans r ch of
        Some res \<Rightarrow> result_ok (rc_groupName r) key acks (received res) \<and> (\<not> shut \<longrightarrow> res_err res = None)
      | None \<Rightarrow> \<not> shut \<longrightarrow> (\<forall>a \<in> set acks. \<not> answers (rc_groupName r) key a))"

definition call_ok :: "rpcClient \<Rightarrow> LookupAck list \<Rightarrow> bool \<Rightarrow> string \<times> string \<times> nat \<times> lpc \<Rightarrow> bool" where
  "call_ok r acks shut c =
     (case c of (name, grp, n, pc) \<Rightarrow>
        (let g = rc_groupName r; key = call_key g name grp; since = drop n acks in
         n \<le> length acks \<and>
         (\<forall>res. pc_result pc = Some res \<longrightarrow> result_ok g key since res) \<and>
         (\<forall>k ch. pc_slot pc = Some (k, ch) \<longrightarrow>
            k = key \<and> ch < rc_next r \<and> (\<not> shut \<longrightarrow> (k, ch) \<in> set (rc_pending r)) \<and>
            (pc_result pc = None \<longrightarrow> chan_ok r since shut k ch))))"

definition slot_of :: "(nat \<rightharpoonup> string \<times> string \<times> nat \<times> lpc) \<Rightarrow> nat \<Rightarrow> (string \<times> nat) option" where
  "slot_of C t = (case C t of None \<Rightarrow> None | Some (name, grp, n, pc) \<Rightarrow> pc_slot pc)"

text \<open>No two running calls share a channel, and every entry of \<open>pending\<close> is a running call's.\<close>

definition slots_ok :: "lookups \<Rightarrow> bool" where
  "slots_ok S \<longleftrightarrow>
     (\<forall>t t' k k' ch. slot_of (lk_calls S) t = Some (k, ch) \<and> slot_of (lk_calls S) t' = Some (k', ch) \<longrightarrow> t = t') \<and>
     (\<forall>p \<in> set (rc_pending (lk_r S)). \<exists>t. slot_of (lk_calls S) t = Some p)"

definition lookups_inv :: "lookups \<Rightarrow> bool" where
  "lookups_inv S \<longleftrightarrow> rpc_inv (lk_r S) \<and> slots_ok S \<and>
     (\<forall>t c. lk_calls S t = Some c \<longrightarrow> call_ok (lk_r S) (lk_acks S) (lk_closed S) c)"

lemma lookups_invD:
  assumes "lookups_inv S"
  shows "rpc_inv (lk_r S)" and "slots_ok S"
    and "lk_calls S t = Some c \<Longrightarrow> call_ok (lk_r S) (lk_acks S) (lk_closed S) c"
  using assms unfolding lookups_inv_def by blast+

lemma slot_of_Some: "slot_of C t = Some p \<longleftrightarrow> (\<exists>name grp n pc. C t = Some (name, grp, n, pc) \<and> pc_slot pc = Some p)"
  by (auto simp: slot_of_def split: option.splits)

lemma slot_of_upd [simp]:
  "slot_of (C(t \<mapsto> (name, grp, n, pc))) t' = (if t' = t then pc_slot pc else slot_of C t')"
  by (simp add: slot_of_def)

lemma pending_slot_key:
  assumes "lookups_inv S" and "slot_of (lk_calls S) t = Some (k, ch)" and "(k', ch) \<in> set (rc_pending (lk_r S))"
  shows "k' = k"
proof -
  obtain t' where "slot_of (lk_calls S) t' = Some (k', ch)"
    using lookups_invD(2) [OF assms(1)] assms(3) by (auto simp: slots_ok_def)
  then have "t' = t" using lookups_invD(2) [OF assms(1)] assms(2) unfolding slots_ok_def by blast
  with \<open>slot_of (lk_calls S) t' = Some (k', ch)\<close> assms(2) show ?thesis by simp
qed

lemma pending_functional:
  "rpc_inv r \<Longrightarrow> (k, ch) \<in> set (rc_pending r) \<Longrightarrow> (k, ch') \<in> set (rc_pending r) \<Longrightarrow> ch' = ch"
  unfolding rpc_inv_def by (metis map_of_eq_Some_iff option.inject)

lemma fold_try_send_group [simp]:
  "rc_groupName (fold (\<lambda>(k, ch). try_send ch res) ps r) = rc_groupName r"
  by (induction ps arbitrary: r) auto

lemma HandleLookupAck_group: "rpc_inv r \<Longrightarrow> rc_groupName (HandleLookupAck (Some a) r) = rc_groupName r"
proof -
  assume inv: "rpc_inv r"
  have "distinct (map fst (rc_pending r))" "delivered_ok [] r"
    using inv by (auto simp: rpc_inv_def delivered_ok_def)
  note e = ack_keys_effect [OF this] and ss = ack_services_fold [OF this]
  obtain d r1 where r1: "fold (ack_key (ack_Services a)) (ack_keys (rc_groupName r) (ack_Services a)) ([], r) = (d, r1)"
    by (cases "fold (ack_key (ack_Services a)) (ack_keys (rc_groupName r) (ack_Services a)) ([], r)")
  with e [OF r1] show ?thesis by (simp add: HandleLookupAck_def Let_def ss)
qed

lemma Close_effect:
  "rc_pending (rpcClient_Close r) = [] \<and> rc_next (rpcClient_Close r) = rc_next r \<and>
   rc_groupName (rpcClient_Close r) = rc_groupName r \<and>
   rc_chans (rpcClient_Close r) ch =
     (if ch \<in> snd ` set (rc_pending r) \<and> rc_chans r ch = None
      then Some (lookupResult [] (Some (ErrorString ''rpc client closed''))) else rc_chans r ch)"
  using fold_try_send_sel [of "lookupResult [] (Some (ErrorString ''rpc client closed''))" "rc_pending r" r]
  by (simp add: rpcClient_Close_def Let_def fold_try_send_chans)

subsection \<open>Every step keeps the invariant\<close>

lemma lookup_register_cases:
  assumes "lookup_register name grp r = (pc, r')"
  obtains (refused) e where "pc = L_done (Inl e)" and "r' = r"
  | (registered) key node where "pc = L_write key (rc_next r) node" and "key = call_key (rc_groupName r) name grp"
      and "map_of (rc_pending r) key = None"
      and "r' = r\<lparr>rc_pending := rc_pending r @ [(key, rc_next r)],
             rc_chans := (rc_chans r)(rc_next r := None), rc_next := Suc (rc_next r)\<rparr>"
proof (cases "rc_cli r \<and> (\<exists>node. Atoi (lookup_group grp r) = Inr node) \<and>
    map_of (rc_pending r) (lookupKey name (lookup_group grp r)) = None")
  case True
  then obtain node where "Atoi (lookup_group grp r) = Inr node" by blast
  with True assms show ?thesis
    by (intro registered [of "lookupKey name (lookup_group grp r)" node])
      (simp_all add: lookup_register_def Let_def lookup_group_def call_key_def)
next
  case False
  with assms have "(\<exists>e. pc = L_done (Inl e)) \<and> r' = r"
    by (auto simp: lookup_register_def Let_def split: if_splits sum.splits)
  then show ?thesis using refused by blast
qed

lemma call_ok_frame:
  assumes "call_ok r acks shut c" and "rc_groupName r' = rc_groupName r" and "rc_next r \<le> rc_next r'"
    and "\<And>k ch. pc_slot (snd (snd (snd c))) = Some (k, ch) \<Longrightarrow> ch < rc_next r \<Longrightarrow> rc_chans r' ch = rc_chans r ch"
    and "\<And>k ch. pc_slot (snd (snd (snd c))) = Some (k, ch) \<Longrightarrow> \<not> shut \<Longrightarrow> (k, ch) \<in> set (rc_pending r) \<Longrightarrow>
      (k, ch) \<in> set (rc_pending r')"
  shows "call_ok r' acks shut c"
proof -
  have "chan_ok r' as shut k ch = chan_ok r as shut k ch" if "rc_chans r' ch = rc_chans r ch" for as k ch
    using that assms(2) by (simp add: chan_ok_def split: option.splits)
  then show ?thesis
    using assms by (cases c) (fastforce simp: call_ok_def Let_def)
qed

lemma slots_ok_cong:
  "slots_ok S \<Longrightarrow> slot_of (lk_calls S') = slot_of (lk_calls S) \<Longrightarrow> rc_pending (lk_r S') = rc_pending (lk_r S) \<Longrightarrow> slots_ok S'"
  by (simp add: slots_ok_def)

lemma inv_begin:
  assumes inv: "lookups_inv S" and act: "lookups_act (LBegin t name grp) S = Some S'"
  shows "lookups_inv S'"
proof -
  obtain pc r where pc: "lookup_register name grp (lk_r S) = (pc, r)" by (cases "lookup_register name grp (lk_r S)")
  with act have t: "lk_calls S t = None"
    and S': "S' = S\<lparr>lk_r := r, lk_calls := (lk_calls S)(t \<mapsto> (name, grp, length (lk_acks S), pc))\<rparr>"
    by (simp_all split: option.splits)
  note D = lookups_invD [OF inv]
  have slot_t: "slot_of (lk_calls S) t = None" using t by (simp add: slot_of_def)
  from pc show ?thesis
  proof (cases rule: lookup_register_cases)
    case refused
    have "slots_ok S'"
      by (rule slots_ok_cong [OF D(2)]) (auto simp: S' refused slot_t fun_eq_iff)
    moreover have "call_ok (lk_r S) (lk_acks S) (lk_closed S) (name, grp, length (lk_acks S), pc)"
      by (simp add: refused call_ok_def result_ok_def)
    ultimately show ?thesis
      using D(1,3) by (simp add: lookups_inv_def S' refused)
  next
    case (registered key node)
    have old: "ch < rc_next (lk_r S)" if "slot_of (lk_calls S) t' = Some (k, ch)" for t' k ch
      using that D(3) by (fastforce simp: slot_of_Some call_ok_def Let_def)
    have "rpc_inv r"
      using D(1) registered by (auto simp: rpc_inv_def map_of_eq_None_iff)
    moreover have "slots_ok S'"
      using D(2) old slot_t unfolding slots_ok_def
      by (auto simp: S' registered split: if_splits) (metis option.distinct(1))
    moreover have "call_ok r (lk_acks S) (lk_closed S) c" if "lk_calls S' t' = Some c" for t' c
    proof (cases "t' = t")
      case True
      with that have "c = (name, grp, length (lk_acks S), pc)" by (simp add: S')
      with registered show ?thesis by (simp add: call_ok_def Let_def chan_ok_def)
    next
      case False
      with that have "lk_calls S t' = Some c" by (simp add: S')
      then show ?thesis
        by (rule call_ok_frame [OF D(3)]) (simp_all add: registered)
    qed
    ultimately show ?thesis by (simp add: lookups_inv_def S')
  qed
qed

text \<open>A call that moves on and keeps its slot.\<close>

lemma inv_move:
  assumes inv: "lookups_inv S" and t: "lk_calls S t = Some (name, grp, n, pc)"
    and slot: "pc_slot pc' = pc_slot pc"
    and same: "rc_pending r = rc_pending (lk_r S)" "rc_next r = rc_next (lk_r S)" "rc_groupName r = rc_groupName (lk_r S)"
    and chans: "\<And>h. \<forall>k. pc_slot pc \<noteq> Some (k, h) \<Longrightarrow> rc_chans r h = rc_chans (lk_r S) h"
    and ok: "call_ok r (lk_acks S) (lk_closed S) (name, grp, n, pc')"
  shows "lookups_inv (S\<lparr>lk_r := r, lk_calls := (lk_calls S)(t \<mapsto> (name, grp, n, pc'))\<rparr>)"
proof -
  note D = lookups_invD [OF inv]
  have st: "slot_of (lk_calls S) t = pc_slot pc" using t by (simp add: slot_of_def)
  have "call_ok r (lk_acks S) (lk_closed S) c" if c: "lk_calls S t' = Some c" "t' \<noteq> t" for t' c
  proof -
    have "rc_chans r h = rc_chans (lk_r S) h" if "pc_slot (snd (snd (snd c))) = Some (k, h)" for k h
    proof (rule chans)
      show "\<forall>k'. pc_slot pc \<noteq> Some (k', h)"
        using D(2) st c that unfolding slots_ok_def by (cases c) (metis slot_of_Some snd_conv)
    qed
    with same show ?thesis by (intro call_ok_frame [OF D(3) [OF c(1)]]) auto
  qed
  moreover have "slots_ok (S\<lparr>lk_r := r, lk_calls := (lk_calls S)(t \<mapsto> (name, grp, n, pc'))\<rparr>)"
    by (rule slots_ok_cong [OF D(2)]) (auto simp: same slot st fun_eq_iff)
  moreover have "rpc_inv r" using D(1) same by (simp add: rpc_inv_def)
  ultimately show ?thesis using ok by (auto simp: lookups_inv_def)
qed

text \<open>The deferred delete: no other running call of an open client has the same key.\<close>

lemma inv_delete:
  assumes inv: "lookups_inv S" and t: "lk_calls S t = Some (name, grp, n, L_defer key ch res)"
  shows "lookups_inv (S\<lparr>lk_r := remove_pending key (lk_r S), lk_calls := (lk_calls S)(t \<mapsto> (name, grp, n, L_done res))\<rparr>)"
    (is "lookups_inv ?S'")
proof -
  note D = lookups_invD [OF inv]
  have st: "slot_of (lk_calls S) t = Some (key, ch)" using t by (simp add: slot_of_def)
  have "call_ok (lk_r ?S') (lk_acks S) (lk_closed S) c" if c: "lk_calls S t' = Some c" "t' \<noteq> t" for t' c
  proof -
    have "k \<noteq> key" if "pc_slot (snd (snd (snd c))) = Some (k, h)" "\<not> lk_closed S" for k h
    proof
      assume "k = key"
      then have "(key, h) \<in> set (rc_pending (lk_r S))" "(key, ch) \<in> set (rc_pending (lk_r S))"
        using D(3) [OF c(1)] D(3) [OF t] that by (cases c; simp add: call_ok_def Let_def)+
      then have "h = ch" using pending_functional [OF D(1)] by blast
      with that \<open>k = key\<close> c st D(2) show False
        unfolding slots_ok_def by (cases c) (metis slot_of_Some snd_conv)
    qed
    then show ?thesis
      by (intro call_ok_frame [OF D(3) [OF c(1)]]) (auto simp: remove_pending_def)
  qed
  moreover have "call_ok (lk_r ?S') (lk_acks S) (lk_closed S) (name, grp, n, L_done res)"
    using D(3) [OF t] by (simp add: call_ok_def Let_def remove_pending_def)
  moreover have "slots_ok ?S'"
    using D(2) st unfolding slots_ok_def
    by (auto simp: remove_pending_def split: if_splits) (metis prod.inject option.inject)
  moreover have "rpc_inv (lk_r ?S')" using D(1) by (simp add: remove_pending_inv)
  ultimately show ?thesis by (auto simp: lookups_inv_def)
qed

lemma inv_go:
  assumes inv: "lookups_inv S" and act: "lookups_act (LGo t werr timer) S = Some S'"
  shows "lookups_inv S'"
proof -
  obtain name grp n pc pc' r where t: "lk_calls S t = Some (name, grp, n, pc)"
    and go: "lookup_go werr timer pc (lk_r S) = Some (pc', r)"
    and S': "S' = S\<lparr>lk_r := r, lk_calls := (lk_calls S)(t \<mapsto> (name, grp, n, pc'))\<rparr>"
    using act by (auto split: option.splits)
  note ok = lookups_invD(3) [OF inv t]
  show ?thesis
  proof (cases pc)
    case (L_write key ch node)
    then show ?thesis
      unfolding S' using go ok
      by (intro inv_move [OF inv t]) (auto simp: call_ok_def Let_def split: option.splits)
  next
    case (L_wait key ch)
    then show ?thesis
      unfolding S' using go ok
      by (intro inv_move [OF inv t])
        (auto simp: call_ok_def Let_def chan_ok_def split: option.splits if_splits)
  next
    case (L_defer key ch res)
    then show ?thesis using go t inv_delete [OF inv] by (auto simp: S')
  qed (use go in simp)
qed

lemma result_ok_more: "result_ok g key acks res \<Longrightarrow> result_ok g key (acks @ [a]) res"
  by (auto simp: result_ok_def answered_by_def split: sum.splits)

lemma inv_ack:
  assumes inv: "lookups_inv S"
  shows "lookups_inv (S\<lparr>lk_r := HandleLookupAck (Some a) (lk_r S), lk_acks := lk_acks S @ [a]\<rparr>)"
    (is "lookups_inv ?S'")
proof -
  note D = lookups_invD [OF inv]
  note e = HandleLookupAck_effect [OF D(1), of a] and g = HandleLookupAck_group [OF D(1), of a]
  have "call_ok (lk_r ?S') (lk_acks ?S') (lk_closed S) c" if c: "lk_calls S t = Some c" for t c
  proof -
    obtain name grp n pc where c': "c = (name, grp, n, pc)" by (cases c)
    have chan: "chan_ok (lk_r ?S') (drop n (lk_acks S) @ [a]) (lk_closed S) k ch"
      if slot: "pc_slot pc = Some (k, ch)" and old: "chan_ok (lk_r S) (drop n (lk_acks S)) (lk_closed S) k ch"
        and pend: "\<not> lk_closed S \<longrightarrow> (k, ch) \<in> set (rc_pending (lk_r S))" for k ch
    proof (cases "rc_chans (lk_r S) ch")
      case (Some res)
      with old e g show ?thesis by (simp add: chan_ok_def result_ok_more)
    next
      case None
      have key: "k' = k" if "(k', ch) \<in> set (rc_pending (lk_r S))" for k'
        using pending_slot_key [OF inv _ that, of t k] c slot by (simp add: c' slot_of_def)
      with None old pend e g show ?thesis
        by (auto simp: chan_ok_def answers_def result_ok_def answered_by_def received_def)
    qed
    with D(3) [OF c] e g show ?thesis
      by (auto simp: c' call_ok_def Let_def intro: result_ok_more)
  qed
  moreover have "slots_ok ?S'" by (rule slots_ok_cong [OF D(2)]) (use e in auto)
  moreover have "rpc_inv (lk_r ?S')" using D(1) e by (simp add: rpc_inv_def)
  ultimately show ?thesis by (simp add: lookups_inv_def)
qed

lemma inv_close:
  assumes inv: "lookups_inv S"
  shows "lookups_inv (S\<lparr>lk_r := rpcClient_Close (lk_r S), lk_closed := True\<rparr>)"
proof -
  note D = lookups_invD [OF inv]
  have "chan_ok (rpcClient_Close (lk_r S)) as True k ch" if "chan_ok (lk_r S) as b k ch" for as b k ch
    using that Close_effect [of "lk_r S" ch]
    by (auto simp: chan_ok_def received_def split: option.splits)
  then have "call_ok (rpcClient_Close (lk_r S)) (lk_acks S) True c" if "lk_calls S t = Some c" for t c
    using D(3) [OF that] Close_effect [of "lk_r S"] by (auto simp: call_ok_def Let_def split: prod.splits)
  moreover have "rpc_inv (rpcClient_Close (lk_r S))"
    using Close_effect [of "lk_r S"] by (simp add: rpc_inv_def)
  ultimately show ?thesis
    using D(2) Close_effect [of "lk_r S"] by (simp add: lookups_inv_def slots_ok_def)
qed

interpretation lookups_ts: action_system lookups_act lookups_inv
proof
  fix S S' a assume "lookups_inv S" and "lookups_act a S = Some S'"
  then show "lookups_inv S'"
    by (cases a) (auto simp del: lookups_act.simps(1,2) intro: inv_begin inv_go inv_ack inv_close)
qed

lemma lookups_init_inv: "lookups_inv (lookups_init g)"
  by (simp add: lookups_inv_def lookups_init_def slots_ok_def slot_of_def) (simp add: rpcClient_new_def)

lemma lookups_run_inv: "lookups_run as (lookups_init g) = Some S \<Longrightarrow> lookups_inv S"
  by (rule lookups_ts.run_inv [OF _ lookups_init_inv])

lemma group_fixed:
  assumes "lookups_inv S" and a: "lookups_act a S = Some S'"
  shows "rc_groupName (lk_r S') = rc_groupName (lk_r S)"
proof (cases a)
  case (LBegin t name grp)
  with a show ?thesis
    by (auto split: option.splits prod.splits elim: lookup_register_cases)
next
  case (LGo t werr timer)
  then obtain pc pc' r where go: "lookup_go werr timer pc (lk_r S) = Some (pc', r)" and r: "lk_r S' = r"
    using a by (auto split: option.splits)
  from go show ?thesis unfolding r
    by (cases pc) (auto simp: remove_pending_def split: if_splits option.splits)
next
  case (LAck x)
  with a assms(1) show ?thesis by (auto simp: HandleLookupAck_group lookups_inv_def)
next
  case LClose
  with a Close_effect [of "lk_r S"] show ?thesis by auto
qed

lemma group_of_run:
  assumes "lookups_run as (lookups_init g) = Some S"
  shows "rc_groupName (lk_r S) = g"
  using lookups_ts.run_keeps [where Q = "\<lambda>S. rc_groupName (lk_r S) = g" and P = "\<lambda>_. True", OF _ assms lookups_init_inv]
  by (simp add: group_fixed lookups_init_def rpcClient_new_def list_all_iff)

text \<open>No call depends on another one: the write, the timer and the delete bring it to its end.\<close>

lemma lookup_can_return:
  assumes "lk_calls S t = Some (name, grp, n, pc)"
  shows "\<exists>bs S' res. set bs \<subseteq> {LGo t None True} \<and> lookups_run bs S = Some S' \<and> lk_calls S' t = Some (name, grp, n, L_done res)"
proof -
  have run: "\<exists>S' res. lookups_run (replicate k (LGo t None True)) S = Some S' \<and> lk_calls S' t = Some (name, grp, n, L_done res)"
    if "k = (case pc of L_write key ch node \<Rightarrow> 3 | L_wait key ch \<Rightarrow> 2 | L_defer key ch res \<Rightarrow> 1 | L_done res \<Rightarrow> 0)" for k
    using that assms by (cases pc) (simp_all add: numeral_3_eq_3 numeral_2_eq_2)
  from run [OF refl] show ?thesis by (metis in_set_replicate singletonI subsetI)
qed

subsection \<open>Properties\<close>

text \<open>The running calls as the entries of \<open>pending\<close> they own.\<close>

definition running_slots :: "lookups \<Rightarrow> (string \<times> nat) set" where
  "running_slots S = {p. \<exists>t. slot_of (lk_calls S) t = Some p}"

text \<open>
  C12: concurrent lookups do not disturb each other.  Whatever calls, acknowledgements,
  write errors, time-outs and \<open>Close\<close> are interleaved, a lookup that returns services
  returns exactly those of one acknowledgement that was handled after the lookup began and
  that either lists its key or lists nothing; and as long as the client was not closed,
  \<open>pending\<close> holds the entries of the running lookups and no others, no two running lookups
  have the same key, and a waiting lookup whose answer has come can take it.  A lookup can
  always run to its end by itself.
\<close>

theorem lookups_do_not_mix:
  assumes run: "lookups_run as (lookups_init g) = Some S" and t: "lk_calls S t = Some (name, grp, n, pc)"
  shows "(\<forall>services. pc = L_done (Inr services) \<longrightarrow>
      (\<exists>a \<in> set (drop n (lk_acks S)). answers g (call_key g name grp) a \<and> services = ack_Services a)) \<and>
    (\<not> lk_closed S \<longrightarrow>
      set (rc_pending (lk_r S)) = running_slots S \<and>
      (\<forall>t' p p'. slot_of (lk_calls S) t = Some p \<and> slot_of (lk_calls S) t' = Some p' \<and> fst p = fst p' \<longrightarrow> t = t') \<and>
      (\<forall>key ch a. pc = L_wait key ch \<and> a \<in> set (drop n (lk_acks S)) \<and> answers g (call_key g name grp) a \<longrightarrow>
        (\<exists>services S'. lookups_act (LGo t None False) S = Some S' \<and>
          lk_calls S' t = Some (name, grp, n, L_defer key ch (Inr services))))) \<and>
    (\<exists>bs S' res. set bs \<subseteq> {LGo t None True} \<and> lookups_run bs S = Some S' \<and>
      lk_calls S' t = Some (name, grp, n, L_done res))"
proof -
  have inv: "lookups_inv S" using run by (rule lookups_run_inv)
  note D = lookups_invD [OF inv] and g = group_of_run [OF run]
  note ok = D(3) [OF t]
  have own: "p \<in> set (rc_pending (lk_r S))" if "slot_of (lk_calls S) t' = Some p" "\<not> lk_closed S" for t' p
    using that D(3) by (cases p) (fastforce simp: slot_of_Some call_ok_def Let_def)
  have 1: "result_ok g (call_key g name grp) (drop n (lk_acks S)) res" if "pc = L_done res" for res
    using that ok g by (simp add: call_ok_def Let_def)
  have 2: "set (rc_pending (lk_r S)) = running_slots S" if "\<not> lk_closed S"
    using D(2) own that by (auto simp: running_slots_def slots_ok_def)
  have 3: "t = t'" if "\<not> lk_closed S" "slot_of (lk_calls S) t = Some p" "slot_of (lk_calls S) t' = Some p'" "fst p = fst p'" for t' p p'
  proof -
    have "p = p'" using own that pending_functional [OF D(1)] by (metis prod.collapse)
    with that D(2) show ?thesis unfolding slots_ok_def by (metis prod.collapse)
  qed
  have 4: "\<exists>services S'. lookups_act (LGo t None False) S = Some S' \<and>
      lk_calls S' t = Some (name, grp, n, L_defer key ch (Inr services))"
    if "\<not> lk_closed S" "pc = L_wait key ch" "a \<in> set (drop n (lk_acks S))" "answers g (call_key g name grp) a" for key ch a
    using that ok g t by (auto simp: call_ok_def Let_def chan_ok_def received_def split: option.splits)
  show ?thesis
    using 1 2 3 4 lookup_can_return [OF t] by (auto simp: result_ok_def answered_by_def)
qed

text \<open>
  The witness: two lookups for different services, the second one answered first.
\<close>

definition two_lookups :: "lact list" where
  "two_lookups = [LBegin 0 ''api'' '''', LBegin 1 ''db'' ''2'', LGo 0 None False, LGo 1 None False,
     LAck \<lparr>ack_Services = [Some (Service_zero\<lparr>svc_Name := ''db'', svc_GroupName := ''2''\<rparr>)]\<rparr>,
     LGo 1 None False, LGo 1 None False]"

lemma Atoi_1: "Atoi ''1'' = Inr 1" and Atoi_2: "Atoi ''2'' = Inr 2"
  by (simp_all add: Atoi_def is_digit_def digits_value_def)

lemmas lookups_eval = lookup_register_def lookup_group_def lookupKey_def HandleLookupAck_def ack_service_def ack_key_def
  try_send_def remove_pending_def rpcClient_new_def rpcClient_Close_def received_def lookups_init_def Let_def

lemma two_lookups_run:
  "\<exists>S. lookups_run two_lookups (lookups_init ''1'') = Some S \<and>
     lk_calls S 1 = Some (''db'', ''2'', 0, L_done (Inr [Some (Service_zero\<lparr>svc_Name := ''db'', svc_GroupName := ''2''\<rparr>)])) \<and>
     lk_calls S 0 = Some (''api'', '''', 0, L_wait ''api@1'' 0) \<and> \<not> lk_closed S"
  by (simp add: two_lookups_def lookups_eval Atoi_1 Atoi_2)

theorem lookups_do_not_mix_witness:
  "\<exists>S. lookups_run two_lookups (lookups_init ''1'') = Some S \<and>
     set (rc_pending (lk_r S)) = running_slots S \<and>
     (\<exists>a \<in> set (lk_acks S). answers ''1'' (call_key ''1'' ''db'' ''2'') a)"
proof -
  obtain S where S: "lookups_run two_lookups (lookups_init ''1'') = Some S" "\<not> lk_closed S"
    "lk_calls S 1 = Some (''db'', ''2'', 0, L_done (Inr [Some (Service_zero\<lparr>svc_Name := ''db'', svc_GroupName := ''2''\<rparr>)]))"
    using two_lookups_run by blast
  from lookups_do_not_mix [OF S(1,3)] S(1,2) show ?thesis by auto
qed

subsection \<open>A deferred delete that comes too late\<close>

text \<open>
  A call that has lost its entry: its channel is empty and no entry leads to it, or it has
  ended with an error.
\<close>

definition lost_call :: "nat \<Rightarrow> nat \<Rightarrow> lookups \<Rightarrow> bool" where
  "lost_call t ch S \<longleftrightarrow>
     (\<exists>name grp n pc. lk_calls S t = Some (name, grp, n, pc) \<and>
       ((\<exists>key. pc_slot pc = Some (key, ch) \<and> pc_result pc = None) \<and> ch < rc_next (lk_r S) \<and>
          ch \<notin> snd ` set (rc_pending (lk_r S)) \<and> rc_chans (lk_r S) ch = None \<or>
        (\<exists>e. pc_result pc = Some (Inl e))))"

lemma lost_call_frame:
  assumes "lost_call t ch S" and "lk_calls S' t = lk_calls S t" and "rc_next (lk_r S) \<le> rc_next (lk_r S')"
    and "\<And>k. ch < rc_next (lk_r S) \<Longrightarrow> (k, ch) \<in> set (rc_pending (lk_r S')) \<Longrightarrow> (k, ch) \<in> set (rc_pending (lk_r S))"
    and "ch < rc_next (lk_r S) \<Longrightarrow> ch \<notin> snd ` set (rc_pending (lk_r S)) \<Longrightarrow> rc_chans (lk_r S) ch = None \<Longrightarrow> rc_chans (lk_r S') ch = None"
  shows "lost_call t ch S'"
proof -
  have "ch \<notin> snd ` set (rc_pending (lk_r S'))" if "ch < rc_next (lk_r S)" "ch \<notin> snd ` set (rc_pending (lk_r S))"
    using that assms(4) by force
  with assms show ?thesis unfolding lost_call_def by fastforce
qed

lemma lost_call_go:
  assumes "lost_call t ch S" and "lookups_act (LGo t' werr timer) S = Some S'"
  shows "lost_call t ch S'"
proof -
  obtain name grp n pc pc' r where t': "lk_calls S t' = Some (name, grp, n, pc)"
    and go: "lookup_go werr timer pc (lk_r S) = Some (pc', r)"
    and S': "S' = S\<lparr>lk_r := r, lk_calls := (lk_calls S)(t' \<mapsto> (name, grp, n, pc'))\<rparr>"
    using assms(2) by (auto split: option.splits)
  show ?thesis
  proof (cases "t' = t")
    case True
    with assms(1) t' go show ?thesis
      by (cases pc) (auto simp: lost_call_def S' split: option.splits if_splits)
  next
    case False
    with go show ?thesis
      by (intro lost_call_frame [OF assms(1)]; cases pc)
        (auto simp: S' remove_pending_def split: if_splits option.splits)
  qed
qed

lemma lost_call_step:
  assumes inv: "lookups_inv S" and lost: "lost_call t ch S" and a: "lookups_act a S = Some S'"
  shows "lost_call t ch S'"
proof (cases a)
  case (LBegin t' name grp)
  then obtain pc r where t': "lk_calls S t' = None" and reg: "lookup_register name grp (lk_r S) = (pc, r)"
    and S': "S' = S\<lparr>lk_r := r, lk_calls := (lk_calls S)(t' \<mapsto> (name, grp, length (lk_acks S), pc))\<rparr>"
    using a by (auto split: option.splits prod.splits)
  have "t' \<noteq> t" using t' lost by (auto simp: lost_call_def)
  with reg show ?thesis
    by (intro lost_call_frame [OF lost]; cases rule: lookup_register_cases) (auto simp: S')
next
  case (LGo t' werr timer)
  with a show ?thesis using lost_call_go [OF lost] by blast
next
  case (LAck x)
  have "rc_chans (lk_r S') ch = rc_chans (lk_r S) ch" if "ch \<notin> snd ` set (rc_pending (lk_r S))"
    using a LAck that HandleLookupAck_effect [OF lookups_invD(1) [OF inv], of x] by (force simp: image_iff)
  with a LAck HandleLookupAck_effect [OF lookups_invD(1) [OF inv], of x] show ?thesis
    by (intro lost_call_frame [OF lost]) auto
next
  case LClose
  with a Close_effect [of "lk_r S"] show ?thesis
    by (intro lost_call_frame [OF lost]) auto
qed

interpretation lost_ts: action_system lookups_act "\<lambda>S. lookups_inv S \<and> lost_call t ch S" for t ch
  by unfold_locales (auto intro: lookups_ts.act_inv lost_call_step)

lemma lost_call_no_answer:
  assumes "lookups_inv S" and "lost_call t ch S" and "lookups_run as S = Some S'"
  shows "lk_calls S' t \<noteq> Some (name, grp, n, L_done (Inr services))"
proof -
  have "lost_call t ch S'"
    using lost_ts.run_inv [OF assms(3)] assms(1,2) by blast
  then show ?thesis by (auto simp: lost_call_def)
qed

text \<open>
  Lookup 0 is under way when the client is closed; lookup 1 for the same key begins; lookup 0
  returns and deletes \<open>pending[key]\<close>, which is lookup 1's entry; then the answer comes.
\<close>

definition close_race :: "string \<Rightarrow> string \<Rightarrow> lact list" where
  "close_race g name = [LBegin 0 name '''', LGo 0 None False, LClose, LBegin 1 name '''', LGo 0 None False,
     LGo 0 None False, LGo 1 None False,
     LAck \<lparr>ack_Services = [Some (Service_zero\<lparr>svc_Name := name, svc_GroupName := g\<rparr>)]\<rparr>]"

lemma close_race_run:
  assumes "Atoi g = Inr node"
  shows "\<exists>S. lookups_run (close_race g name) (lookups_init g) = Some S \<and>
    lk_calls S 1 = Some (name, '''', 0, L_wait (call_key g name '''') 1) \<and> lost_call 1 1 S \<and>
    lk_acks S = [\<lparr>ack_Services = [Some (Service_zero\<lparr>svc_Name := name, svc_GroupName := g\<rparr>)]\<rparr>]"
  using assms by (simp add: close_race_def lookups_eval call_key_def lost_call_def)

text \<open>
  C33: a lookup that overlaps a \<open>Close\<close> can take the answer away from the next one.  For every
  service and every client with a numeric group there is an interleaving, with one call of
  \<open>Close\<close> in it, after which a lookup begun after the \<open>Close\<close> waits although the
  acknowledgement with its service has been handled since it began, and in no continuation
  whatever does it return any services: only the timer ends it.
\<close>

theorem close_loses_lookup:
  assumes "Atoi g = Inr node"
  shows "\<exists>S n key ch a. lookups_run (close_race g name) (lookups_init g) = Some S \<and>
    lk_calls S 1 = Some (name, '''', n, L_wait key ch) \<and>
    a \<in> set (drop n (lk_acks S)) \<and> ack_Services a \<noteq> [] \<and> answers g key a \<and>
    (\<nexists>as S' services. lookups_run as S = Some S' \<and> lk_calls S' 1 = Some (name, '''', n, L_done (Inr services)))"
proof -
  obtain S where S: "lookups_run (close_race g name) (lookups_init g) = Some S"
    "lk_calls S 1 = Some (name, '''', 0, L_wait (call_key g name '''') 1)" "lost_call 1 1 S"
    "lk_acks S = [\<lparr>ack_Services = [Some (Service_zero\<lparr>svc_Name := name, svc_GroupName := g\<rparr>)]\<rparr>]"
    using close_race_run [OF assms] by blast
  moreover have "answers g (call_key g name '''') \<lparr>ack_Services = [Some (Service_zero\<lparr>svc_Name := name, svc_GroupName := g\<rparr>)]\<rparr>"
    by (simp add: answers_def ack_keys_def call_key_def)
  moreover have "\<nexists>as S' services. lookups_run as S = Some S' \<and> lk_calls S' 1 = Some (name, '''', 0, L_done (Inr services))"
    using lost_call_no_answer [OF lookups_run_inv [OF S(1)] S(3)] by blast
  ultimately show ?thesis by (intro exI [of _ S] exI [of _ 0] exI conjI) auto
qed

theorem close_loses_lookup_witness:
  "\<exists>S. lookups_run (close_race ''1'' ''api'') (lookups_init ''1'') = Some S \<and> lk_acks S \<noteq> [] \<and>
    (\<nexists>as S' services. lookups_run as S = Some S' \<and> lk_calls S' 1 = Some (''api'', '''', 0, L_done (Inr services)))"
proof -
  obtain S n key ch a where S: "lookups_run (close_race ''1'' ''api'') (lookups_init ''1'') = Some S"
    "lk_calls S 1 = Some (''api'', '''', n, L_wait key ch)" "a \<in> set (drop n (lk_acks S))"
    "\<nexists>as S' services. lookups_run as S = Some S' \<and> lk_calls S' 1 = Some (''api'', '''', n, L_done (Inr services))"
    using close_loses_lookup [OF Atoi_1, of "''api''"] by blast
  moreover have "n = 0" using close_race_run [OF Atoi_1, of "''api''"] S(1,2) by auto
  ultimately show ?thesis by auto
qed

end
