(* ===== verification/Balancer.thy ===== *)
theory Balancer
  imports Proto_Dispatch Util "HOL-Library.Multiset"
begin

text \<open>
  Choosing an instance of a service (\<open>pkg/balancer\<close>): the round-robin balancer
  (\<open>robin.go\<close>) and the balancer that remembers the choice per stream
  (\<open>compose.go\<close>).  The discovery client is an interface: its methods are the record
  \<open>DiscoClient\<close> over an abstract state, and what the balancers rely on is
  \<open>config_store_ok\<close>, that a configuration item reads back as it was set.  The JSON
  codec and \<open>Service.String\<close> are library code and parameters.
\<close>

subsection \<open>The discovery client\<close>

record 's DiscoClient =
  dc_GetGroupName :: "'s \<Rightarrow> string"
  dc_GetConfig :: "string \<Rightarrow> 's \<Rightarrow> (error + string) \<times> 's"
  dc_SetConfig :: "string \<Rightarrow> string \<Rightarrow> 's \<Rightarrow> error option \<times> 's"
  dc_GetService :: "string \<Rightarrow> string \<Rightarrow> 's \<Rightarrow> (error + Service option) \<times> 's"

record json_codec =
  json_Service :: "Service \<Rightarrow> error + string"
  unjson_Service :: "string \<Rightarrow> error + Service option"
  json_Instance :: "Instance \<Rightarrow> error + string"
  unjson_Instance :: "string \<Rightarrow> error + Instance"
  Service_String :: "Service \<Rightarrow> string"

definition config_store_ok :: "'s DiscoClient \<Rightarrow> bool" where
  "config_store_ok D \<longleftrightarrow>
     (\<forall>k v s s'. dc_SetConfig D k v s = (None, s') \<longrightarrow> fst (dc_GetConfig D k s') = Inr v)"

subsection \<open>Round robin (robin.go)\<close>

record roundRobinBalancer =
  rb_nextIndex :: nat
  rb_totalWeight :: int
  rb_groupName :: string

definition NewRoundRobinBalancer :: "'s DiscoClient \<Rightarrow> 's \<Rightarrow> roundRobinBalancer" where
  "NewRoundRobinBalancer D s = \<lparr>rb_nextIndex = 0, rb_totalWeight = 0, rb_groupName = dc_GetGroupName D s\<rparr>"

text \<open>\<open>int(f)\<close> truncates towards zero.\<close>

definition truncate :: "float32 \<Rightarrow> int" where
  "truncate f = (if 0 \<le> f then \<lfloor>f\<rfloor> else \<lceil>f\<rceil>)"

text \<open>A nil instance in the list panics when its weight is read.\<close>

fun sum_weights :: "Instance option list \<Rightarrow> int option" where
  "sum_weights [] = Some 0"
| "sum_weights (None # hs) = None"
| "sum_weights (Some h # hs) = map_option (\<lambda>w. truncate (inst_Weight h) + w) (sum_weights hs)"

definition robin_Pick ::
  "Service option \<Rightarrow> roundRobinBalancer \<Rightarrow> ((error + Instance option) \<times> roundRobinBalancer) outcome" where
  "robin_Pick service b =
     (case service of
        None \<Rightarrow> Ret (Inl (ErrorString ''no hosts available''), b)
      | Some svc \<Rightarrow>
         (if svc_Instances svc = [] then Ret (Inl (ErrorString ''no hosts available''), b)
          else (case sum_weights (svc_Instances svc) of
              None \<Rightarrow> Panic ''invalid memory address or nil pointer dereference''
            | Some w \<Rightarrow>
               (let i = (rb_nextIndex b + 1) mod length (svc_Instances svc)
                in Ret (Inr (svc_Instances svc ! i), b\<lparr>rb_totalWeight := w, rb_nextIndex := i\<rparr>)))))"

definition robin_key :: "string \<Rightarrow> int \<Rightarrow> string" where
  "robin_key serviceName nodeId = ''service_'' @ serviceName @ ''_'' @ Itoa nodeId"

text \<open>The first half of \<open>Resolve\<close>: the service, from the configuration or from discovery.\<close>

definition robin_load ::
  "'s DiscoClient \<Rightarrow> json_codec \<Rightarrow> string \<Rightarrow> int \<Rightarrow> 's \<Rightarrow> (error + Service option) \<times> 's" where
  "robin_load D J serviceName nodeId s =
     (let key = robin_key serviceName nodeId in
      case dc_GetConfig D key s of
        (Inl e, s1) \<Rightarrow> (Inl e, s1)
      | (Inr content, s1) \<Rightarrow>
         (if IsEmptyStr content then
            (case dc_GetService D serviceName (Itoa nodeId) s1 of
               (Inl e, s2) \<Rightarrow> (Inl e, s2)
             | (Inr None, s2) \<Rightarrow> (Inl (ErrorString ''service not found1''), s2)
             | (Inr (Some svc), s2) \<Rightarrow>
                (case json_Service J svc of
                   Inl e \<Rightarrow> (Inl e, s2)
                 | Inr buff \<Rightarrow>
                    (case dc_SetConfig D key buff s2 of
                       (Some e, s3) \<Rightarrow> (Inl e, s3)
                     | (None, s3) \<Rightarrow> (Inr (Some svc), s3))))
          else
            (case unjson_Service J content of
               Inl e \<Rightarrow> (Inl e, s1)
             | Inr svc \<Rightarrow> (Inr svc, s1))))"

definition robin_Resolve ::
  "'s DiscoClient \<Rightarrow> json_codec \<Rightarrow> string \<Rightarrow> string \<Rightarrow> int \<Rightarrow> 's \<times> roundRobinBalancer
    \<Rightarrow> ((error + Instance option) \<times> 's \<times> roundRobinBalancer) outcome" where
  "robin_Resolve D J serviceName streamId nodeId sb =
     (case sb of (s, b) \<Rightarrow>
       (case robin_load D J serviceName nodeId s of
          (Inl e, s1) \<Rightarrow> Ret (Inl e, s1, b)
        | (Inr None, s1) \<Rightarrow> Ret (Inl (ErrorString ''service not found2''), s1, b)
        | (Inr (Some svc), s1) \<Rightarrow>
           (case dc_SetConfig D (robin_key serviceName nodeId) (Service_String J svc) s1 of
              (Some e, s2) \<Rightarrow> Ret (Inl e, s2, b)
            | (None, s2) \<Rightarrow> bind_outcome (robin_Pick (Some svc) b) (\<lambda>(r, b'). Ret (r, s2, b')))))"

subsection \<open>Sticky choice (compose.go)\<close>

text \<open>The inner balancer's \<open>Resolve\<close> acts on the same client state.\<close>

type_synonym 's resolver = "string \<Rightarrow> string \<Rightarrow> int \<Rightarrow> 's \<Rightarrow> ((error + Instance option) \<times> 's) outcome"

definition compose_key :: "string \<Rightarrow> string \<Rightarrow> int \<Rightarrow> string" where
  "compose_key serviceName streamId nodeId =
     ''service_'' @ serviceName @ ''_'' @ streamId @ ''_'' @ Itoa nodeId"

definition json_Instance_ptr :: "json_codec \<Rightarrow> Instance option \<Rightarrow> error + string" where
  "json_Instance_ptr J i = (case i of None \<Rightarrow> Inr ''null'' | Some inst \<Rightarrow> json_Instance J inst)"

definition compose_Pick ::
  "(Service option \<Rightarrow> 'b \<Rightarrow> ((error + Instance option) \<times> 'b) outcome) \<Rightarrow> Service option \<Rightarrow> 'b
    \<Rightarrow> ((error + Instance option) \<times> 'b) outcome" where
  "compose_Pick innerPick service b = innerPick service b"

definition compose_Resolve ::
  "'s DiscoClient option \<Rightarrow> json_codec \<Rightarrow> 's resolver \<Rightarrow> string \<Rightarrow> string \<Rightarrow> int \<Rightarrow> 's
    \<Rightarrow> ((error + Instance option) \<times> 's) outcome" where
  "compose_Resolve client J inner serviceName streamId nodeId s =
     (case client of
        None \<Rightarrow> Ret (Inl (ErrorString ''discover client is not set''), s)
      | Some D \<Rightarrow>
         (let key = compose_key serviceName streamId nodeId in
          case dc_GetConfig D key s of
            (Inl e, s1) \<Rightarrow> Ret (Inl e, s1)
          | (Inr content, s1) \<Rightarrow>
             (if IsEmptyStr content then
                bind_outcome (inner serviceName streamId nodeId s1) (\<lambda>(r, s2).
                  case r of
                    Inl e \<Rightarrow> Ret (Inl e, s2)
                  | Inr inst \<Rightarrow>
                     (case json_Instance_ptr J inst of
                        Inl e \<Rightarrow> Ret (Inl e, s2)
                      | Inr buf \<Rightarrow> Ret (Inr inst, snd (dc_SetConfig D key buf s2))))
              else
                (case unjson_Instance J content of
                   Inl e \<Rightarrow> Ret (Inl e, s1)
                 | Inr inst \<Rightarrow> Ret (Inr (Some inst), s1)))))"

subsection \<open>Fairness\<close>

fun robin_picks :: "nat \<Rightarrow> Service \<Rightarrow> roundRobinBalancer \<Rightarrow> (Instance option list \<times> roundRobinBalancer) option" where
  "robin_picks 0 svc b = Some ([], b)"
| "robin_picks (Suc n) svc b =
     (case robin_Pick (Some svc) b of
        Ret (Inr i, b') \<Rightarrow> map_option (\<lambda>(is, b''). (i # is, b'')) (robin_picks n svc b')
      | _ \<Rightarrow> None)"

lemma sum_weights_some: "None \<notin> set hs \<Longrightarrow> \<exists>w. sum_weights hs = Some w"
proof (induction hs)
  case (Cons h hs)
  then show ?case by (cases h) auto
qed simp

lemma Pick_ok:
  assumes "svc_Instances svc \<noteq> []" and "None \<notin> set (svc_Instances svc)"
  shows "\<exists>b'. robin_Pick (Some svc) b =
      Ret (Inr (svc_Instances svc ! ((rb_nextIndex b + 1) mod length (svc_Instances svc))), b') \<and>
    rb_nextIndex b' = (rb_nextIndex b + 1) mod length (svc_Instances svc)"
  using assms sum_weights_some [OF assms(2)] by (auto simp: robin_Pick_def Let_def)

lemma robin_picks_nth:
  assumes "svc_Instances svc \<noteq> []" and "None \<notin> set (svc_Instances svc)"
  shows "\<exists>b'. robin_picks n svc b =
    Some (map (\<lambda>k. svc_Instances svc ! ((rb_nextIndex b + 1 + k) mod length (svc_Instances svc))) [0..<n], b')"
proof (induction n arbitrary: b)
  case (Suc n)
  let ?l = "length (svc_Instances svc)"
  obtain b1 where b1: "robin_Pick (Some svc) b = Ret (Inr (svc_Instances svc ! ((rb_nextIndex b + 1) mod ?l)), b1)"
    "rb_nextIndex b1 = (rb_nextIndex b + 1) mod ?l"
    using Pick_ok [OF assms] by blast
  obtain b' where b': "robin_picks n svc b1 =
      Some (map (\<lambda>k. svc_Instances svc ! ((rb_nextIndex b1 + 1 + k) mod ?l)) [0..<n], b')"
    using Suc.IH by blast
  have "(rb_nextIndex b1 + 1 + k) mod ?l = (rb_nextIndex b + 1 + Suc k) mod ?l" for k
    using b1(2) by (simp add: mod_Suc_eq mod_add_left_eq add.assoc)
      (metis add_Suc mod_Suc_eq mod_add_left_eq)
  moreover have "[0..<Suc n] = 0 # map Suc [0..<n]" by (simp add: map_Suc_upt upt_conv_Cons del: upt_Suc)
  ultimately show ?case
    using b1(1) b' by (simp del: upt_Suc)
qed simp

lemma rotation_mset:
  assumes "xs \<noteq> []"
  shows "mset (map (\<lambda>k. xs ! ((i + k) mod length xs)) [0..<length xs]) = mset xs"
proof -
  have "map (\<lambda>k. xs ! ((i + k) mod length xs)) [0..<length xs] = rotate i xs"
    using assms by (intro nth_equalityI) (simp_all add: nth_rotate)
  then show ?thesis
    by (simp add: rotate_drop_take) (metis append_take_drop_id mset_append union_commute)
qed

subsection \<open>Properties\<close>

text \<open>
  Round robin is fair.  From any state of the balancer, as many consecutive picks as
  the service has instances return every instance exactly as often as it is listed, in the
  cyclic order that starts after the last index; a new balancer starts at index 1.
\<close>

theorem robin_fair:
  assumes "svc_Instances svc \<noteq> []" and "None \<notin> set (svc_Instances svc)"
  shows "\<exists>picked b'. robin_picks (length (svc_Instances svc)) svc b = Some (picked, b') \<and>
    mset picked = mset (svc_Instances svc) \<and>
    (\<forall>k < length (svc_Instances svc). picked ! k =
      svc_Instances svc ! ((rb_nextIndex b + 1 + k) mod length (svc_Instances svc)))"
proof -
  let ?p = "map (\<lambda>k. svc_Instances svc ! ((rb_nextIndex b + 1 + k) mod length (svc_Instances svc)))
      [0..<length (svc_Instances svc)]"
  obtain b' where "robin_picks (length (svc_Instances svc)) svc b = Some (?p, b')"
    using robin_picks_nth [OF assms] by blast
  moreover have "mset ?p = mset (svc_Instances svc)"
    by (rule rotation_mset [OF assms(1)])
  ultimately show ?thesis by auto
qed

definition inst_named :: "string \<Rightarrow> Instance" where
  "inst_named n = Instance_zero\<lparr>inst_InstanceName := n\<rparr>"

definition demo_service :: Service where
  "demo_service = Service_zero\<lparr>svc_Name := ''api'',
     svc_Instances := [Some (inst_named ''a''), Some (inst_named ''b'')]\<rparr>"

theorem robin_fair_witness:
  "\<exists>picked b'. robin_picks 2 demo_service \<lparr>rb_nextIndex = 0, rb_totalWeight = 0, rb_groupName = ''1''\<rparr> = Some (picked, b') \<and>
    picked ! 0 = Some (inst_named ''b'') \<and> mset picked = {#Some (inst_named ''a''), Some (inst_named ''b'')#}"
  using robin_fair [of demo_service "\<lparr>rb_nextIndex = 0, rb_totalWeight = 0, rb_groupName = ''1''\<rparr>"]
  by (auto simp: demo_service_def numeral_2_eq_2)

text \<open>
  C38: a second \<open>Resolve\<close> of the same service fails.  \<open>Resolve\<close> overwrites the JSON it has
  stored with the protobuf text form of the service; if the JSON decoder refuses that
  text (which is not JSON), then after a \<open>Resolve\<close> that reached the pick, the next one
  on the same service and node returns the decoding error.
\<close>

definition text_is_not_json :: "json_codec \<Rightarrow> bool" where
  "text_is_not_json J \<longleftrightarrow>
     (\<forall>svc. \<not> IsEmptyStr (Service_String J svc) \<longrightarrow> (\<exists>e. unjson_Service J (Service_String J svc) = Inl e))"

theorem robin_Resolve_not_repeatable:
  assumes "config_store_ok D" and "text_is_not_json J"
    and "robin_load D J name node s = (Inr (Some svc), s1)"
    and "dc_SetConfig D (robin_key name node) (Service_String J svc) s1 = (None, s2)"
    and "\<not> IsEmptyStr (Service_String J svc)"
  shows "\<exists>e s3. robin_Resolve D J name stream' node (s2, b) = Ret (Inl e, s3, b)"
proof -
  obtain s3 where s3: "dc_GetConfig D (robin_key name node) s2 = (Inr (Service_String J svc), s3)"
    using assms(1,4) unfolding config_store_ok_def
    by (cases "dc_GetConfig D (robin_key name node) s2") force
  obtain e where "unjson_Service J (Service_String J svc) = Inl e"
    using assms(2,5) by (auto simp: text_is_not_json_def)
  with s3 assms(5) show ?thesis
    by (simp add: robin_Resolve_def robin_load_def Let_def)
qed

text \<open>A client over a map, and a codec whose JSON is empty: instances of the parameters.\<close>

definition map_client :: "(string \<rightharpoonup> string) DiscoClient" where
  "map_client = \<lparr>dc_GetGroupName = \<lambda>s. ''1'', dc_GetConfig = \<lambda>k s. (Inr (case s k of None \<Rightarrow> '''' | Some v \<Rightarrow> v), s),
     dc_SetConfig = \<lambda>k v s. (None, s(k \<mapsto> v)), dc_GetService = \<lambda>n g s. (Inr (Some demo_service), s)\<rparr>"

definition toy_json :: json_codec where
  "toy_json = \<lparr>json_Service = \<lambda>s. Inr ''{}'', unjson_Service = \<lambda>t. if t = ''{}'' then Inr (Some demo_service) else Inl (External 7),
     json_Instance = \<lambda>i. Inr (inst_InstanceName i), unjson_Instance = \<lambda>t. Inr (inst_named t),
     Service_String = \<lambda>s. ''name:x''\<rparr>"

lemma map_client_ok: "config_store_ok map_client"
  by (auto simp: config_store_ok_def map_client_def)

lemma not_blank [simp]: "\<not> IsEmptyStr ''name:x''" "\<not> IsEmptyStr ''b''" "IsEmptyStr ''''"
  by (simp_all add: IsEmptyStr_runes string_runes_def runes_ascii is_space_def)

definition demo_balancer :: roundRobinBalancer where
  "demo_balancer = NewRoundRobinBalancer map_client Map.empty"

theorem robin_Resolve_not_repeatable_witness:
  "\<exists>e s3. robin_Resolve map_client toy_json ''api'' ''s'' 1 ([robin_key ''api'' 1 \<mapsto> ''name:x''], demo_balancer) = Ret (Inl e, s3, demo_balancer)"
proof -
  have 1: "text_is_not_json toy_json"
    by (simp add: text_is_not_json_def toy_json_def)
  have 2: "robin_load map_client toy_json ''api'' 1 Map.empty = (Inr (Some demo_service), [robin_key ''api'' 1 \<mapsto> ''{}''])"
    by (simp add: robin_load_def map_client_def toy_json_def Let_def)
  have 3: "dc_SetConfig map_client (robin_key ''api'' 1) (Service_String toy_json demo_service) [robin_key ''api'' 1 \<mapsto> ''{}''] =
      (None, [robin_key ''api'' 1 \<mapsto> ''name:x''])"
    by (simp add: map_client_def toy_json_def)
  have 4: "\<not> IsEmptyStr (Service_String toy_json demo_service)"
    by (simp add: toy_json_def)
  show ?thesis
    by (rule robin_Resolve_not_repeatable [OF map_client_ok 1 2 3 4])
qed

text \<open>
  The composed balancer is sticky.  When \<open>Resolve\<close> has asked the inner balancer and
  stored its answer, and the JSON codec restores that instance, every later
  \<open>Resolve\<close> with the same arguments returns the same instance without asking the inner
  balancer, as long as the stored item is unchanged.
\<close>

theorem compose_sticky:
  assumes "config_store_ok D" and "json_Instance J inst = Inr buf" and "unjson_Instance J buf = Inr inst"
    and "\<not> IsEmptyStr buf"
    and "dc_GetConfig D (compose_key name stream' node) s = (Inr content, s1)" and "IsEmptyStr content"
    and "inner name stream' node s1 = Ret (Inr (Some inst), s2)"
    and "dc_SetConfig D (compose_key name stream' node) buf s2 = (None, s3)"
  shows "compose_Resolve (Some D) J inner name stream' node s = Ret (Inr (Some inst), s3) \<and>
    (\<exists>s4. compose_Resolve (Some D) J inner' name stream' node s3 = Ret (Inr (Some inst), s4))"
proof -
  obtain s4 where "dc_GetConfig D (compose_key name stream' node) s3 = (Inr buf, s4)"
    using assms(1,8) unfolding config_store_ok_def
    by (cases "dc_GetConfig D (compose_key name stream' node) s3") force
  with assms show ?thesis
    by (simp add: compose_Resolve_def Let_def json_Instance_ptr_def)
qed

theorem compose_sticky_witness:
  "\<exists>s4. compose_Resolve (Some map_client) toy_json (\<lambda>_ _ _ s. Ret (Inl EOF, s)) ''api'' ''s'' 1
      [compose_key ''api'' ''s'' 1 \<mapsto> ''b''] = Ret (Inr (Some (inst_named ''b'')), s4)"
proof -
  have j: "json_Instance toy_json (inst_named ''b'') = Inr ''b''" "unjson_Instance toy_json ''b'' = Inr (inst_named ''b'')"
    by (simp_all add: toy_json_def inst_named_def)
  have g: "dc_GetConfig map_client (compose_key ''api'' ''s'' 1) Map.empty = (Inr '''', Map.empty)"
    "dc_SetConfig map_client (compose_key ''api'' ''s'' 1) ''b'' Map.empty = (None, [compose_key ''api'' ''s'' 1 \<mapsto> ''b''])"
    by (simp_all add: map_client_def)
  show ?thesis
    using compose_sticky [OF map_client_ok j not_blank(2) g(1) not_blank(3) _ g(2),
        of "\<lambda>_ _ _ s. Ret (Inr (Some (inst_named ''b'')), s)" "\<lambda>_ _ _ s. Ret (Inl EOF, s)"]
    by simp
qed

text \<open>
  The configuration keys are ambiguous.  Underscores join the parts without escaping,
  so different streams of different services share one item, and a stream of the composed
  balancer can share its item with a whole service of the round-robin balancer, which
  stores another type under it.
\<close>

theorem balancer_keys_collide:
  "compose_key (a @ ''_'' @ b) c node = compose_key a (b @ ''_'' @ c) node \<and>
   compose_key a b node = robin_key (a @ ''_'' @ b) node"
  by (simp add: compose_key_def robin_key_def)

end
