(* ===== verification/Nacos.thy ===== *)
theory Nacos
  imports Balancer
begin

text \<open>
  The discovery client on a nacos server (\<open>pkg/naming/nacos_client.go\<close>,
  \<open>nacos_naming_cli.go\<close>, \<open>nacos_config_cli.go\<close>) and the types of
  \<open>pkg/naming/types.go\<close>.  The nacos SDK is not part of the repository: its two clients
  are the records \<open>naming_sdk\<close> and \<open>config_sdk\<close> over an abstract server state, its
  constructors are parameters, and what the properties rely on are the predicates
  \<open>naming_ok\<close> and \<open>nacos_config_ok\<close>.  Shown are the round trip of an instance through
  its metadata, which queries find a registered instance, and that the balancers work on
  this client.
\<close>

subsection \<open>Settings and results (types.go)\<close>

record DiscoSetting =
  ds_Host :: string
  ds_Port :: int
  ds_Namespace :: string
  ds_LogDir :: string
  ds_CacheDir :: string
  ds_PreloadCache :: bool
  ds_Timeout :: int
  ds_GroupName :: string
  ds_Username :: string
  ds_Password :: string
  ds_Node :: int

record ConfigItem =
  ci_Id :: string
  ci_DataId :: string
  ci_Group :: string
  ci_Content :: string
  ci_Md5 :: string
  ci_Tenant :: string
  ci_Appname :: string

record ConfigPage =
  cpg_TotalCount :: int
  cpg_PageNumber :: int
  cpg_PagesAvailable :: int
  cpg_PageItems :: "ConfigItem list"

subsection \<open>The SDK\<close>

text \<open>
  The fields of the SDK's structs that the code reads or fills.  A weight is the exact value
  of a \<open>float64\<close>.
\<close>

record model_Instance =
  mi_InstanceId :: string
  mi_ServiceName :: string
  mi_Ip :: string
  mi_Port :: uint64
  mi_Weight :: rat
  mi_Healthy :: bool
  mi_Enable :: bool
  mi_Ephemeral :: bool
  mi_Metadata :: "string \<rightharpoonup> string"

record model_Service =
  ms_Hosts :: "model_Instance list"
  ms_Clusters :: string
  ms_Name :: string
  ms_GroupName :: string
  ms_Valid :: bool

record model_ConfigItem =
  mc_Id :: string
  mc_DataId :: string
  mc_Group :: string
  mc_Content :: string

record model_ConfigPage =
  mp_TotalCount :: int
  mp_PageNumber :: int
  mp_PagesAvailable :: int
  mp_PageItems :: "model_ConfigItem list"

record RegisterInstanceParam =
  rp_ServiceName :: string
  rp_GroupName :: string
  rp_Ip :: string
  rp_Port :: uint64
  rp_Enable :: bool
  rp_Healthy :: bool
  rp_Weight :: rat
  rp_Ephemeral :: bool
  rp_Metadata :: "string \<rightharpoonup> string"

record DeregisterInstanceParam =
  dp_ServiceName :: string
  dp_GroupName :: string
  dp_Ip :: string
  dp_Port :: uint64

text \<open>The parameters of the three queries; a field that is not set has its zero value.\<close>

record QueryParam =
  qp_ServiceName :: string
  qp_GroupName :: string
  qp_Clusters :: "string list"

record 'cb ConfigParam =
  cf_DataId :: string
  cf_Group :: string
  cf_Content :: string
  cf_OnChange :: "'cb option"

text \<open>A result with an error is \<open>Inl\<close>; the pointer result of a query can be nil without one.\<close>

record 's naming_sdk =
  ns_RegisterInstance :: "RegisterInstanceParam \<Rightarrow> 's \<Rightarrow> (error + bool) \<times> 's"
  ns_DeregisterInstance :: "DeregisterInstanceParam \<Rightarrow> 's \<Rightarrow> (error + bool) \<times> 's"
  ns_GetAllServicesInfo :: "string \<Rightarrow> 's \<Rightarrow> (error + string list) \<times> 's"
  ns_GetService :: "QueryParam \<Rightarrow> 's \<Rightarrow> (error + model_Service) \<times> 's"
  ns_SelectOneHealthyInstance :: "QueryParam \<Rightarrow> 's \<Rightarrow> (error + model_Instance option) \<times> 's"
  ns_SelectAllInstances :: "QueryParam \<Rightarrow> 's \<Rightarrow> (error + model_Instance list) \<times> 's"
  ns_CloseClient :: "'s \<Rightarrow> 's"

record ('s, 'cb) config_sdk =
  cs_PublishConfig :: "'cb ConfigParam \<Rightarrow> 's \<Rightarrow> (error + bool) \<times> 's"
  cs_GetConfig :: "'cb ConfigParam \<Rightarrow> 's \<Rightarrow> (error + string) \<times> 's"
  cs_DeleteConfig :: "'cb ConfigParam \<Rightarrow> 's \<Rightarrow> (error + bool) \<times> 's"
  cs_ListenConfig :: "'cb ConfigParam \<Rightarrow> 's \<Rightarrow> error option \<times> 's"
  cs_CancelListenConfig :: "'cb ConfigParam \<Rightarrow> 's \<Rightarrow> error option \<times> 's"
  cs_SearchConfig :: "string \<Rightarrow> string \<Rightarrow> string \<Rightarrow> 's \<Rightarrow> (error + model_ConfigPage) \<times> 's"
  cs_CloseClient :: "'s \<Rightarrow> 's"

record ServerConfig =
  srv_IpAddr :: string
  srv_Port :: uint64

record ClientConfig =
  clc_NamespaceId :: string
  clc_TimeoutMs :: uint64
  clc_NotLoadCacheAtStart :: bool
  clc_LogDir :: string
  clc_CacheDir :: string
  clc_LogLevel :: string
  clc_Username :: string
  clc_Password :: string

text \<open>The error of a call whose value is not used.\<close>

definition err_of :: "error + 'a \<Rightarrow> error option" where
  "err_of r = (case r of Inl e \<Rightarrow> Some e | Inr _ \<Rightarrow> None)"

subsection \<open>The naming client (nacos\_naming\_cli.go)\<close>

definition DefaultGroupName :: string where "DefaultGroupName = ''DEFAULT_GROUP''"

record 's NacosNamingClient =
  nn_client :: "'s naming_sdk"

definition initNamingClient ::
  "(ServerConfig list \<Rightarrow> ClientConfig \<Rightarrow> error + 's naming_sdk) \<Rightarrow> DiscoSetting \<Rightarrow> error + 's naming_sdk" where
  "initNamingClient create cfg =
     (let serverConfigs = [\<lparr>srv_IpAddr = ds_Host cfg, srv_Port = word_of_int (ds_Port cfg)\<rparr>];
          clientConfig = \<lparr>clc_NamespaceId = ds_Namespace cfg, clc_TimeoutMs = 5000,
            clc_NotLoadCacheAtStart = (\<not> ds_PreloadCache cfg), clc_LogDir = ds_LogDir cfg,
            clc_CacheDir = ds_CacheDir cfg, clc_LogLevel = ''info'',
            clc_Username = ds_Username cfg, clc_Password = ds_Password cfg\<rparr>
      in create serverConfigs clientConfig)"

definition NewNamingClient ::
  "(ServerConfig list \<Rightarrow> ClientConfig \<Rightarrow> error + 's naming_sdk) \<Rightarrow> DiscoSetting \<Rightarrow> error + 's NacosNamingClient" where
  "NewNamingClient create cfg =
     (case initNamingClient create cfg of
        Inl e \<Rightarrow> Inl e
      | Inr client \<Rightarrow> Inr \<lparr>nn_client = client\<rparr>)"

definition naming_RegisterInstance ::
  "'s NacosNamingClient \<Rightarrow> string \<Rightarrow> string \<Rightarrow> string \<Rightarrow> uint64 \<Rightarrow> (string \<rightharpoonup> string) \<Rightarrow> 's \<Rightarrow> error option \<times> 's" where
  "naming_RegisterInstance c serviceName groupName ip port metadata s =
     (case ns_RegisterInstance (nn_client c)
         \<lparr>rp_ServiceName = serviceName, rp_GroupName = groupName, rp_Ip = ip, rp_Port = port,
          rp_Enable = True, rp_Healthy = True, rp_Weight = 1, rp_Ephemeral = True,
          rp_Metadata = metadata\<rparr> s of
        (r, s') \<Rightarrow> (err_of r, s'))"

definition naming_DeregisterInstance ::
  "'s NacosNamingClient \<Rightarrow> string \<Rightarrow> string \<Rightarrow> string \<Rightarrow> uint64 \<Rightarrow> 's \<Rightarrow> error option \<times> 's" where
  "naming_DeregisterInstance c serviceName groupName ip port s =
     (case ns_DeregisterInstance (nn_client c)
         \<lparr>dp_ServiceName = serviceName, dp_GroupName = groupName, dp_Ip = ip, dp_Port = port\<rparr> s of
        (r, s') \<Rightarrow> (err_of r, s'))"

definition naming_GetAllServices :: "'s NacosNamingClient \<Rightarrow> string \<Rightarrow> 's \<Rightarrow> (error + string list) \<times> 's" where
  "naming_GetAllServices c groupName s = ns_GetAllServicesInfo (nn_client c) groupName s"

definition naming_GetService ::
  "'s NacosNamingClient \<Rightarrow> string \<Rightarrow> string \<Rightarrow> string list \<Rightarrow> 's \<Rightarrow> (error + model_Service) \<times> 's" where
  "naming_GetService c serviceName groupName clusters s =
     ns_GetService (nn_client c)
       \<lparr>qp_ServiceName = serviceName, qp_GroupName = groupName, qp_Clusters = clusters\<rparr> s"

definition naming_GetServiceInstanceByName ::
  "'s NacosNamingClient \<Rightarrow> string \<Rightarrow> 's \<Rightarrow> (error + model_Instance option) \<times> 's" where
  "naming_GetServiceInstanceByName c serviceName s =
     ns_SelectOneHealthyInstance (nn_client c)
       \<lparr>qp_ServiceName = serviceName, qp_GroupName = '''', qp_Clusters = []\<rparr> s"

definition naming_GetServiceInstance ::
  "'s NacosNamingClient \<Rightarrow> string \<Rightarrow> string \<Rightarrow> string list \<Rightarrow> 's \<Rightarrow> (error + model_Instance option) \<times> 's" where
  "naming_GetServiceInstance c serviceName groupName clusters s =
     ns_SelectOneHealthyInstance (nn_client c)
       \<lparr>qp_ServiceName = serviceName, qp_GroupName = groupName, qp_Clusters = clusters\<rparr> s"

definition naming_GetServiceInstances ::
  "'s NacosNamingClient \<Rightarrow> string \<Rightarrow> string \<Rightarrow> string list \<Rightarrow> 's \<Rightarrow> (error + model_Instance list) \<times> 's" where
  "naming_GetServiceInstances c serviceName groupName clusters s =
     ns_SelectAllInstances (nn_client c)
       \<lparr>qp_ServiceName = serviceName, qp_GroupName = groupName, qp_Clusters = clusters\<rparr> s"

definition naming_GetServiceInstancesByName ::
  "'s NacosNamingClient \<Rightarrow> string \<Rightarrow> 's \<Rightarrow> (error + model_Instance list) \<times> 's" where
  "naming_GetServiceInstancesByName c serviceName s =
     naming_GetServiceInstances c serviceName DefaultGroupName [] s"

subsection \<open>The configuration client (nacos\_config\_cli.go)\<close>

record ('s, 'cb) NacosConfigClient =
  nc_client :: "('s, 'cb) config_sdk"

text \<open>Unlike the naming client it is created without user name and password.\<close>

definition initConfigClient ::
  "(ServerConfig list \<Rightarrow> ClientConfig \<Rightarrow> error + ('s, 'cb) config_sdk) \<Rightarrow> DiscoSetting \<Rightarrow> error + ('s, 'cb) config_sdk" where
  "initConfigClient create cfg =
     (let serverConfigs = [\<lparr>srv_IpAddr = ds_Host cfg, srv_Port = word_of_int (ds_Port cfg)\<rparr>];
          clientConfig = \<lparr>clc_NamespaceId = ds_Namespace cfg, clc_TimeoutMs = 5000,
            clc_NotLoadCacheAtStart = (\<not> ds_PreloadCache cfg), clc_LogDir = ds_LogDir cfg,
            clc_CacheDir = ds_CacheDir cfg, clc_LogLevel = ''info'',
            clc_Username = '''', clc_Password = ''''\<rparr>
      in create serverConfigs clientConfig)"

definition NewConfigClient ::
  "(ServerConfig list \<Rightarrow> ClientConfig \<Rightarrow> error + ('s, 'cb) config_sdk) \<Rightarrow> DiscoSetting \<Rightarrow> error + ('s, 'cb) NacosConfigClient" where
  "NewConfigClient create cfg =
     (case initConfigClient create cfg of
        Inl e \<Rightarrow> Inl e
      | Inr client \<Rightarrow> Inr \<lparr>nc_client = client\<rparr>)"

definition config_SetConfig ::
  "('s, 'cb) NacosConfigClient \<Rightarrow> string \<Rightarrow> string \<Rightarrow> string \<Rightarrow> 's \<Rightarrow> error option \<times> 's" where
  "config_SetConfig c dataId grp content s =
     (case cs_PublishConfig (nc_client c)
         \<lparr>cf_DataId = dataId, cf_Group = grp, cf_Content = content, cf_OnChange = None\<rparr> s of
        (r, s') \<Rightarrow> (err_of r, s'))"

definition config_GetConfig ::
  "('s, 'cb) NacosConfigClient \<Rightarrow> string \<Rightarrow> string \<Rightarrow> 's \<Rightarrow> (error + string) \<times> 's" where
  "config_GetConfig c dataId grp s =
     cs_GetConfig (nc_client c) \<lparr>cf_DataId = dataId, cf_Group = grp, cf_Content = '''', cf_OnChange = None\<rparr> s"

definition config_DeleteConfig ::
  "('s, 'cb) NacosConfigClient \<Rightarrow> string \<Rightarrow> string \<Rightarrow> 's \<Rightarrow> error option \<times> 's" where
  "config_DeleteConfig c dataId grp s =
     (case cs_DeleteConfig (nc_client c)
         \<lparr>cf_DataId = dataId, cf_Group = grp, cf_Content = '''', cf_OnChange = None\<rparr> s of
        (r, s') \<Rightarrow> (err_of r, s'))"

definition config_ListenConfig ::
  "('s, 'cb) NacosConfigClient \<Rightarrow> string \<Rightarrow> string \<Rightarrow> 'cb \<Rightarrow> 's \<Rightarrow> error option \<times> 's" where
  "config_ListenConfig c dataId grp onChange s =
     cs_ListenConfig (nc_client c) \<lparr>cf_DataId = dataId, cf_Group = grp, cf_Content = '''', cf_OnChange = Some onChange\<rparr> s"

definition config_CancelListenConfig ::
  "('s, 'cb) NacosConfigClient \<Rightarrow> string \<Rightarrow> string \<Rightarrow> 's \<Rightarrow> error option \<times> 's" where
  "config_CancelListenConfig c dataId grp s =
     cs_CancelListenConfig (nc_client c) \<lparr>cf_DataId = dataId, cf_Group = grp, cf_Content = '''', cf_OnChange = None\<rparr> s"

definition config_SearchConfig ::
  "('s, 'cb) NacosConfigClient \<Rightarrow> string \<Rightarrow> string \<Rightarrow> string \<Rightarrow> 's \<Rightarrow> (error + model_ConfigPage) \<times> 's" where
  "config_SearchConfig c search grp dataId s = cs_SearchConfig (nc_client c) search grp dataId s"

subsection \<open>Instances and metadata (nacos\_client.go)\<close>

text \<open>A missing key of a Go map reads as the empty string.\<close>

definition meta_get :: "(string \<rightharpoonup> string) \<Rightarrow> string \<Rightarrow> string" where
  "meta_get m k = (case m k of None \<Rightarrow> '''' | Some v \<Rightarrow> v)"

definition meta_ip :: "model_Instance \<Rightarrow> string \<Rightarrow> string" where
  "meta_ip i key = (if meta_get (mi_Metadata i) key = '''' then mi_Ip i else meta_get (mi_Metadata i) key)"

definition meta_int :: "model_Instance \<Rightarrow> string \<Rightarrow> int \<Rightarrow> int" where
  "meta_int i key dflt =
     (let v = meta_get (mi_Metadata i) key in
      if v \<noteq> '''' then (case Atoi v of Inr p \<Rightarrow> p | Inl _ \<Rightarrow> dflt) else dflt)"

text \<open>
  \<open>f32\<close> is the conversion from \<open>float64\<close> to \<open>float32\<close>.  \<open>int(p)\<close> reads a
  \<open>uint64\<close> as a signed number, \<open>int32(p)\<close> keeps the low 32 bits, and
  \<open>uint64(p)\<close> of an \<open>int32\<close> extends its sign.
\<close>

definition toInstance :: "(rat \<Rightarrow> float32) \<Rightarrow> model_Instance option \<Rightarrow> error + Instance" where
  "toInstance f32 inst =
     (case inst of
        None \<Rightarrow> Inl (ErrorString ''instance is nil'')
      | Some i \<Rightarrow>
         (let innerPort = meta_int i ''inner_port'' (sint (mi_Port i));
              publicPort = meta_int i ''public_port'' (sint (mi_Port i));
              node = meta_int i ''node'' 0
          in Inr \<lparr>inst_InstanceId = mi_InstanceId i,
                  inst_InstanceName = mi_ServiceName i,
                  inst_PublicIp = meta_ip i ''public_ip'',
                  inst_PublicPort = word_of_int publicPort,
                  inst_PrivateIp = mi_Ip i,
                  inst_PrivatePort = ucast (mi_Port i),
                  inst_InnerIp = meta_ip i ''inner_ip'',
                  inst_InnerPort = word_of_int innerPort,
                  inst_Weight = f32 (mi_Weight i),
                  inst_Healthy = mi_Healthy i,
                  inst_Enable = mi_Enable i,
                  inst_Ephemeral = mi_Ephemeral i,
                  inst_Node = word_of_int node,
                  inst_Extra = mi_Metadata i\<rparr>))"

definition instance_metadata :: "Instance \<Rightarrow> string \<rightharpoonup> string" where
  "instance_metadata i = (inst_Extra i)(
     ''inner_ip'' \<mapsto> inst_InnerIp i,
     ''inner_port'' \<mapsto> Itoa (sint (inst_InnerPort i)),
     ''public_ip'' \<mapsto> inst_PublicIp i,
     ''public_port'' \<mapsto> Itoa (sint (inst_PublicPort i)),
     ''node'' \<mapsto> Itoa (sint (inst_Node i)))"

definition fromInstance :: "Instance \<Rightarrow> model_Instance" where
  "fromInstance i =
     \<lparr>mi_InstanceId = inst_InstanceId i, mi_ServiceName = inst_InstanceName i,
      mi_Ip = inst_PrivateIp i, mi_Port = word_of_int (sint (inst_PrivatePort i)),
      mi_Weight = 0, mi_Healthy = False, mi_Enable = False, mi_Ephemeral = False,
      mi_Metadata = instance_metadata i\<rparr>"

text \<open>
  The loop over the instances of an answer: an instance that does not convert is logged
  and appended as nil.
\<close>

fun convert_hosts :: "(rat \<Rightarrow> float32) \<Rightarrow> model_Instance list \<Rightarrow> Instance option list" where
  "convert_hosts f32 [] = []"
| "convert_hosts f32 (host # hosts) =
     (case toInstance f32 (Some host) of Inl _ \<Rightarrow> None | Inr inst \<Rightarrow> Some inst) # convert_hosts f32 hosts"

subsection \<open>The discovery client (nacos\_client.go)\<close>

text \<open>
  The struct is only built by \<open>NewNacosDiscoverClient\<close>, which never stores a nil client;
  the nil tests of \<open>Close\<close> always hold.
\<close>

record ('s, 'cb) nacosDiscoClient =
  nd_groupName :: string
  nd_configClient :: "('s, 'cb) NacosConfigClient"
  nd_namingClient :: "'s NacosNamingClient"

definition NewNacosDiscoverClient ::
  "(ServerConfig list \<Rightarrow> ClientConfig \<Rightarrow> error + ('s, 'cb) config_sdk)
    \<Rightarrow> (ServerConfig list \<Rightarrow> ClientConfig \<Rightarrow> error + 's naming_sdk)
    \<Rightarrow> DiscoSetting \<Rightarrow> error + ('s, 'cb) nacosDiscoClient" where
  "NewNacosDiscoverClient createConfig createNaming cfg =
     (case NewConfigClient createConfig cfg of
        Inl e \<Rightarrow> Inl e
      | Inr configClient \<Rightarrow>
         (case NewNamingClient createNaming cfg of
            Inl e \<Rightarrow> Inl e
          | Inr namingClient \<Rightarrow>
             Inr \<lparr>nd_groupName = ds_GroupName cfg, nd_configClient = configClient, nd_namingClient = namingClient\<rparr>))"

definition nacos_Close :: "('s, 'cb) nacosDiscoClient \<Rightarrow> 's \<Rightarrow> 's" where
  "nacos_Close n s = cs_CloseClient (nc_client (nd_configClient n)) (ns_CloseClient (nn_client (nd_namingClient n)) s)"

definition nacos_GetGroupName :: "('s, 'cb) nacosDiscoClient \<Rightarrow> string" where
  "nacos_GetGroupName n = nd_groupName n"

definition nacos_one ::
  "(rat \<Rightarrow> float32) \<Rightarrow> (error + model_Instance option) \<times> 's \<Rightarrow> (error + Instance) \<times> 's" where
  "nacos_one f32 rs =
     (case rs of (Inl e, s') \<Rightarrow> (Inl e, s') | (Inr inst, s') \<Rightarrow> (toInstance f32 inst, s'))"

definition nacos_many ::
  "(rat \<Rightarrow> float32) \<Rightarrow> (error + model_Instance list) \<times> 's \<Rightarrow> (error + Instance option list) \<times> 's" where
  "nacos_many f32 rs =
     (case rs of (Inl e, s') \<Rightarrow> (Inl e, s') | (Inr items, s') \<Rightarrow> (Inr (convert_hosts f32 items), s'))"

definition nacos_GetServiceInstanceByGroup ::
  "(rat \<Rightarrow> float32) \<Rightarrow> ('s, 'cb) nacosDiscoClient \<Rightarrow> string \<Rightarrow> string \<Rightarrow> 's \<Rightarrow> (error + Instance) \<times> 's" where
  "nacos_GetServiceInstanceByGroup f32 n serviceName groupName s =
     nacos_one f32 (naming_GetServiceInstance (nd_namingClient n) serviceName groupName [] s)"

definition nacos_GetServiceInstance ::
  "(rat \<Rightarrow> float32) \<Rightarrow> ('s, 'cb) nacosDiscoClient \<Rightarrow> string \<Rightarrow> string \<Rightarrow> string list \<Rightarrow> 's \<Rightarrow> (error + Instance) \<times> 's" where
  "nacos_GetServiceInstance f32 n serviceName groupName clusters s =
     nacos_one f32 (naming_GetServiceInstance (nd_namingClient n) serviceName groupName clusters s)"

definition nacos_GetServiceInstanceByName ::
  "(rat \<Rightarrow> float32) \<Rightarrow> ('s, 'cb) nacosDiscoClient \<Rightarrow> string \<Rightarrow> 's \<Rightarrow> (error + Instance) \<times> 's" where
  "nacos_GetServiceInstanceByName f32 n serviceName s =
     nacos_one f32 (naming_GetServiceInstanceByName (nd_namingClient n) serviceName s)"

definition nacos_GetServiceInstances ::
  "(rat \<Rightarrow> float32) \<Rightarrow> ('s, 'cb) nacosDiscoClient \<Rightarrow> string \<Rightarrow> string \<Rightarrow> string list \<Rightarrow> 's
    \<Rightarrow> (error + Instance option list) \<times> 's" where
  "nacos_GetServiceInstances f32 n serviceName groupName clusters s =
     nacos_many f32 (naming_GetServiceInstances (nd_namingClient n) serviceName groupName clusters s)"

definition nacos_GetServiceInstancesByName ::
  "(rat \<Rightarrow> float32) \<Rightarrow> ('s, 'cb) nacosDiscoClient \<Rightarrow> string \<Rightarrow> 's \<Rightarrow> (error + Instance option list) \<times> 's" where
  "nacos_GetServiceInstancesByName f32 n serviceName s =
     nacos_many f32 (naming_GetServiceInstancesByName (nd_namingClient n) serviceName s)"

definition service_of :: "(rat \<Rightarrow> float32) \<Rightarrow> model_Service \<Rightarrow> Service" where
  "service_of f32 service =
     \<lparr>svc_Instances = convert_hosts f32 (ms_Hosts service), svc_Cluster = ms_Clusters service,
      svc_Name = ms_Name service, svc_GroupName = ms_GroupName service, svc_Valid = ms_Valid service\<rparr>"

definition nacos_GetService ::
  "(rat \<Rightarrow> float32) \<Rightarrow> ('s, 'cb) nacosDiscoClient \<Rightarrow> string \<Rightarrow> string \<Rightarrow> string list \<Rightarrow> 's \<Rightarrow> (error + Service) \<times> 's" where
  "nacos_GetService f32 n serviceName groupName clusters s =
     (case naming_GetService (nd_namingClient n) serviceName groupName clusters s of
        (Inl e, s') \<Rightarrow> (Inl e, s')
      | (Inr service, s') \<Rightarrow> (Inr (service_of f32 service), s'))"

definition nacos_GetAllServices ::
  "('s, 'cb) nacosDiscoClient \<Rightarrow> string \<Rightarrow> 's \<Rightarrow> (error + string list) \<times> 's" where
  "nacos_GetAllServices n groupName s = naming_GetAllServices (nd_namingClient n) groupName s"

definition nacos_RegisterInstance :: "('s, 'cb) nacosDiscoClient \<Rightarrow> Instance \<Rightarrow> 's \<Rightarrow> error option \<times> 's" where
  "nacos_RegisterInstance n inst s =
     (let i = fromInstance inst in
      naming_RegisterInstance (nd_namingClient n) (mi_ServiceName i) (Itoa (sint (inst_Node inst)))
        (mi_Ip i) (mi_Port i) (mi_Metadata i) s)"

definition nacos_DeregisterInstance ::
  "('s, 'cb) nacosDiscoClient \<Rightarrow> string \<Rightarrow> string \<Rightarrow> string \<Rightarrow> uint64 \<Rightarrow> 's \<Rightarrow> error option \<times> 's" where
  "nacos_DeregisterInstance n serviceName groupName ip port s =
     naming_DeregisterInstance (nd_namingClient n) serviceName groupName ip port s"

definition nacos_SetConfig :: "('s, 'cb) nacosDiscoClient \<Rightarrow> string \<Rightarrow> string \<Rightarrow> 's \<Rightarrow> error option \<times> 's" where
  "nacos_SetConfig n dataId content s = config_SetConfig (nd_configClient n) dataId (nd_groupName n) content s"

definition nacos_GetConfig :: "('s, 'cb) nacosDiscoClient \<Rightarrow> string \<Rightarrow> 's \<Rightarrow> (error + string) \<times> 's" where
  "nacos_GetConfig n dataId s = config_GetConfig (nd_configClient n) dataId (nd_groupName n) s"

definition nacos_DeleteConfig :: "('s, 'cb) nacosDiscoClient \<Rightarrow> string \<Rightarrow> 's \<Rightarrow> error option \<times> 's" where
  "nacos_DeleteConfig n dataId s = config_DeleteConfig (nd_configClient n) dataId (nd_groupName n) s"

definition nacos_ListenConfig :: "('s, 'cb) nacosDiscoClient \<Rightarrow> string \<Rightarrow> 'cb \<Rightarrow> 's \<Rightarrow> error option \<times> 's" where
  "nacos_ListenConfig n dataId onChange s = config_ListenConfig (nd_configClient n) dataId (nd_groupName n) onChange s"

definition nacos_CancelListenConfig :: "('s, 'cb) nacosDiscoClient \<Rightarrow> string \<Rightarrow> 's \<Rightarrow> error option \<times> 's" where
  "nacos_CancelListenConfig n dataId s = config_CancelListenConfig (nd_configClient n) dataId (nd_groupName n) s"

definition nacos_SearchConfig ::
  "('s, 'cb) nacosDiscoClient \<Rightarrow> string \<Rightarrow> string \<Rightarrow> 's \<Rightarrow> (error + ConfigPage) \<times> 's" where
  "nacos_SearchConfig n search dataId s =
     (case config_SearchConfig (nd_configClient n) search (nd_groupName n) dataId s of
        (Inl e, s') \<Rightarrow> (Inl e, s')
      | (Inr configs, s') \<Rightarrow>
         (Inr \<lparr>cpg_TotalCount = mp_TotalCount configs, cpg_PageNumber = mp_PageNumber configs,
               cpg_PagesAvailable = mp_PagesAvailable configs,
               cpg_PageItems = map (\<lambda>c. \<lparr>ci_Id = mc_Id c, ci_DataId = mc_DataId c, ci_Group = mc_Group c,
                 ci_Content = mc_Content c, ci_Md5 = '''', ci_Tenant = '''', ci_Appname = ''''\<rparr>) (mp_PageItems configs)\<rparr>, s'))"

subsection \<open>Converting an instance there and back\<close>

text \<open>What is left of an instance that went through nacos' form.\<close>

definition nacos_image :: "(rat \<Rightarrow> float32) \<Rightarrow> Instance \<Rightarrow> Instance" where
  "nacos_image f32 i = i\<lparr>
     inst_PublicIp := (if inst_PublicIp i = '''' then inst_PrivateIp i else inst_PublicIp i),
     inst_InnerIp := (if inst_InnerIp i = '''' then inst_PrivateIp i else inst_InnerIp i),
     inst_Weight := f32 0, inst_Healthy := False, inst_Enable := False, inst_Ephemeral := False,
     inst_Extra := instance_metadata i\<rparr>"

lemma Itoa_not_empty [simp]: "Itoa n \<noteq> ''''"
  using digits_nonempty by (auto simp: Itoa_def)

lemma sint32_range: "- (2 ^ 63) \<le> sint (x :: 32 word)" "sint (x :: 32 word) < 2 ^ 63"
  using sint_ge [of x] sint_lt [of x] by simp_all

lemma Atoi_Itoa_sint [simp]: "Atoi (Itoa (sint (x :: 32 word))) = Inr (sint x)"
  by (rule Atoi_Itoa [OF sint32_range])

lemma ucast_sign_extend [simp]: "ucast (scast (p :: 32 word) :: 64 word) = p"
proof -
  have "(word_of_int (take_bit 64 (sint p)) :: 32 word) = word_of_int (sint p)"
    by (rule word_uint_eqI) (use uint_sint [of p] in \<open>simp add: unsigned_of_int\<close>)
  moreover have "uint (scast p :: 64 word) = take_bit 64 (sint p)"
    by (simp only: scast_eq unsigned_of_int) simp
  ultimately show ?thesis
    by (simp only: ucast_eq) simp
qed

lemma instance_metadata_get [simp]:
  "meta_get (instance_metadata i) ''inner_ip'' = inst_InnerIp i"
  "meta_get (instance_metadata i) ''inner_port'' = Itoa (sint (inst_InnerPort i))"
  "meta_get (instance_metadata i) ''public_ip'' = inst_PublicIp i"
  "meta_get (instance_metadata i) ''public_port'' = Itoa (sint (inst_PublicPort i))"
  "meta_get (instance_metadata i) ''node'' = Itoa (sint (inst_Node i))"
  by (simp_all add: meta_get_def instance_metadata_def)

lemma toInstance_metadata:
  assumes "mi_Metadata m = instance_metadata i" and "mi_Ip m = inst_PrivateIp i"
    and "mi_Port m = word_of_int (sint (inst_PrivatePort i))"
  shows "toInstance f32 (Some m) = Inr ((nacos_image f32 i)\<lparr>inst_InstanceId := mi_InstanceId m,
     inst_InstanceName := mi_ServiceName m, inst_Weight := f32 (mi_Weight m), inst_Healthy := mi_Healthy m,
     inst_Enable := mi_Enable m, inst_Ephemeral := mi_Ephemeral m\<rparr>)"
  using assms by (cases i) (simp add: toInstance_def nacos_image_def meta_ip_def meta_int_def)

text \<open>
  C25: an instance survives the trip through nacos' form up to \<open>nacos_image\<close>, for every
  instance: names, node and all three addresses come back (negative ports included), an
  empty inner or public IP becomes the private one, weight and flags are lost, and
  \<open>Extra\<close> also holds the five reserved keys.  A second trip changes nothing but those keys'
  record of the filled-in addresses, and a third nothing at all.
\<close>

theorem nacos_instance_roundtrip:
  "toInstance f32 (Some (fromInstance i)) = Inr (nacos_image f32 i) \<and>
   (\<forall>k. k \<notin> {''inner_ip'', ''inner_port'', ''public_ip'', ''public_port'', ''node''} \<longrightarrow>
      inst_Extra (nacos_image f32 i) k = inst_Extra i k) \<and>
   (let j = nacos_image f32 i in nacos_image f32 (nacos_image f32 j) = nacos_image f32 j)"
proof (intro conjI)
  show "toInstance f32 (Some (fromInstance i)) = Inr (nacos_image f32 i)"
    by (cases i, subst toInstance_metadata [of _ i]) (simp_all add: fromInstance_def nacos_image_def)
  show "\<forall>k. k \<notin> {''inner_ip'', ''inner_port'', ''public_ip'', ''public_port'', ''node''} \<longrightarrow>
      inst_Extra (nacos_image f32 i) k = inst_Extra i k"
    by (simp add: nacos_image_def instance_metadata_def)
  show "let j = nacos_image f32 i in nacos_image f32 (nacos_image f32 j) = nacos_image f32 j"
    by (simp add: Let_def nacos_image_def instance_metadata_def fun_upd_twist)
qed

definition demo_instance :: Instance where
  "demo_instance = Instance_zero\<lparr>inst_InstanceName := ''api'', inst_PrivateIp := ''10.0.0.1'', inst_PrivatePort := - 1,
     inst_Node := 7, inst_Extra := [''zone'' \<mapsto> ''a'']\<rparr>"

theorem nacos_instance_roundtrip_witness:
  "inst_Extra (nacos_image (\<lambda>w. w) demo_instance) ''zone'' = Some ''a'' \<and>
   toInstance (\<lambda>w. w) (Some (fromInstance demo_instance)) = Inr (nacos_image (\<lambda>w. w) demo_instance) \<and>
   inst_InnerIp (nacos_image (\<lambda>w. w) demo_instance) = ''10.0.0.1''"
  using nacos_instance_roundtrip [of "\<lambda>w. w" demo_instance]
  by (simp add: demo_instance_def nacos_image_def Instance_zero_def)

subsection \<open>Registered instances\<close>

text \<open>
  The documented behaviour of the naming service.  \<open>reg\<close> holds the instances under each
  pair of service and group; a query without a group means \<open>DEFAULT_GROUP\<close>.  A
  registration without an error files an instance with the given address, metadata, weight
  and flags under its pair and leaves the other pairs alone; the queries change nothing.
\<close>

definition query_group :: "string \<Rightarrow> string" where
  "query_group g = (if g = '''' then ''DEFAULT_GROUP'' else g)"

definition filed_as :: "RegisterInstanceParam \<Rightarrow> model_Instance \<Rightarrow> bool" where
  "filed_as p m \<longleftrightarrow> mi_Ip m = rp_Ip p \<and> mi_Port m = rp_Port p \<and> mi_Metadata m = rp_Metadata p \<and>
     mi_Weight m = rp_Weight p \<and> mi_Enable m = rp_Enable p \<and> mi_Healthy m = rp_Healthy p \<and>
     mi_Ephemeral m = rp_Ephemeral p"

definition naming_ok :: "('s \<Rightarrow> string \<times> string \<Rightarrow> model_Instance set) \<Rightarrow> 's naming_sdk \<Rightarrow> bool" where
  "naming_ok reg N \<longleftrightarrow>
     (\<forall>p s b s'. ns_RegisterInstance N p s = (Inr b, s') \<longrightarrow>
        (\<exists>m \<in> reg s' (rp_ServiceName p, query_group (rp_GroupName p)). filed_as p m) \<and>
        (\<forall>k. k \<noteq> (rp_ServiceName p, query_group (rp_GroupName p)) \<longrightarrow> reg s' k = reg s k)) \<and>
     (\<forall>q s items s'. ns_SelectAllInstances N q s = (Inr items, s') \<and> qp_Clusters q = [] \<longrightarrow>
        set items = reg s (qp_ServiceName q, query_group (qp_GroupName q)) \<and> reg s' = reg s) \<and>
     (\<forall>q s m s'. ns_SelectOneHealthyInstance N q s = (Inr (Some m), s') \<longrightarrow>
        m \<in> reg s (qp_ServiceName q, query_group (qp_GroupName q)) \<and> reg s' = reg s)"

text \<open>\<open>toInstance\<close> only fails on nil, so the conversion loop never appends nil.\<close>

definition instance_of :: "(rat \<Rightarrow> float32) \<Rightarrow> model_Instance \<Rightarrow> Instance" where
  "instance_of f32 m = projr (toInstance f32 (Some m))"

lemma toInstance_total: "toInstance f32 (Some m) = Inr (instance_of f32 m)"
  by (simp add: instance_of_def toInstance_def Let_def)

lemma convert_hosts_map: "convert_hosts f32 hosts = map (\<lambda>m. Some (instance_of f32 m)) hosts"
  by (induction hosts) (simp_all add: toInstance_total)

lemma GetServiceInstances_set:
  assumes "naming_ok reg (nn_client (nd_namingClient n))"
    and "nacos_GetServiceInstances f32 n name g [] s = (Inr l, s')"
  shows "set l = (\<lambda>m. Some (instance_of f32 m)) ` reg s (name, query_group g)"
proof -
  obtain items where "ns_SelectAllInstances (nn_client (nd_namingClient n))
      \<lparr>qp_ServiceName = name, qp_GroupName = g, qp_Clusters = []\<rparr> s = (Inr items, s')"
    and l: "l = map (\<lambda>m. Some (instance_of f32 m)) items"
    using assms(2)
    by (auto simp: nacos_GetServiceInstances_def nacos_many_def naming_GetServiceInstances_def
        convert_hosts_map split: prod.splits sum.splits)
  with assms(1) have "set items = reg s (name, query_group g)"
    unfolding naming_ok_def by fastforce
  with l show ?thesis by simp
qed

lemma RegisterInstance_files:
  assumes "naming_ok reg (nn_client (nd_namingClient n))" and "nacos_RegisterInstance n i s = (None, s')"
  shows "\<exists>m \<in> reg s' (inst_InstanceName i, Itoa (sint (inst_Node i))).
      instance_of f32 m = (nacos_image f32 i)\<lparr>inst_InstanceId := mi_InstanceId m, inst_InstanceName := mi_ServiceName m,
        inst_Weight := f32 1, inst_Healthy := True, inst_Enable := True, inst_Ephemeral := True\<rparr>"
    and "k \<noteq> (inst_InstanceName i, Itoa (sint (inst_Node i))) \<Longrightarrow> reg s' k = reg s k"
proof -
  let ?p = "\<lparr>rp_ServiceName = inst_InstanceName i, rp_GroupName = Itoa (sint (inst_Node i)), rp_Ip = inst_PrivateIp i,
      rp_Port = word_of_int (sint (inst_PrivatePort i)), rp_Enable = True, rp_Healthy = True, rp_Weight = 1,
      rp_Ephemeral = True, rp_Metadata = instance_metadata i\<rparr>"
  obtain b where "ns_RegisterInstance (nn_client (nd_namingClient n)) ?p s = (Inr b, s')"
    using assms(2)
    by (auto simp: nacos_RegisterInstance_def naming_RegisterInstance_def fromInstance_def err_of_def
        split: prod.splits sum.splits)
  with assms(1) have "\<exists>m \<in> reg s' (rp_ServiceName ?p, query_group (rp_GroupName ?p)). filed_as ?p m"
    and other: "k \<noteq> (rp_ServiceName ?p, query_group (rp_GroupName ?p)) \<Longrightarrow> reg s' k = reg s k"
    unfolding naming_ok_def by blast+
  then obtain m where m: "m \<in> reg s' (inst_InstanceName i, Itoa (sint (inst_Node i)))" and f: "filed_as ?p m"
    by (auto simp: query_group_def)
  from f have "toInstance f32 (Some m) = Inr ((nacos_image f32 i)\<lparr>inst_InstanceId := mi_InstanceId m,
      inst_InstanceName := mi_ServiceName m, inst_Weight := f32 1, inst_Healthy := True, inst_Enable := True,
      inst_Ephemeral := True\<rparr>)"
    by (subst toInstance_metadata [of _ i]) (simp_all add: filed_as_def)
  with m show "\<exists>m \<in> reg s' (inst_InstanceName i, Itoa (sint (inst_Node i))).
      instance_of f32 m = (nacos_image f32 i)\<lparr>inst_InstanceId := mi_InstanceId m, inst_InstanceName := mi_ServiceName m,
        inst_Weight := f32 1, inst_Healthy := True, inst_Enable := True, inst_Ephemeral := True\<rparr>"
    unfolding instance_of_def by (metis sum.sel(2))
  show "k \<noteq> (inst_InstanceName i, Itoa (sint (inst_Node i))) \<Longrightarrow> reg s' k = reg s k"
    using other by (simp add: query_group_def)
qed

lemma Itoa_not_default: "Itoa n \<noteq> ''DEFAULT_GROUP''"
proof
  assume "Itoa n = ''DEFAULT_GROUP''"
  then have "CHR ''D'' \<in> set (Itoa n)" by simp
  from Itoa_chars [OF this] show False by (simp add: is_digit_def)
qed


text \<open>
  A server that keeps its instances and its configuration items in two functions is an
  instance of the parameters.
\<close>

type_synonym demo_server = "(string \<times> string \<Rightarrow> model_Instance list) \<times> (string \<times> string \<rightharpoonup> string)"

definition map_naming :: "demo_server naming_sdk" where
  "map_naming =
     \<lparr>ns_RegisterInstance = (\<lambda>p (s, c). let k = (rp_ServiceName p, query_group (rp_GroupName p)) in
        (Inr True, s(k := \<lparr>mi_InstanceId = ''id'', mi_ServiceName = rp_ServiceName p, mi_Ip = rp_Ip p, mi_Port = rp_Port p,
           mi_Weight = rp_Weight p, mi_Healthy = rp_Healthy p, mi_Enable = rp_Enable p, mi_Ephemeral = rp_Ephemeral p,
           mi_Metadata = rp_Metadata p\<rparr> # s k), c)),
      ns_DeregisterInstance = (\<lambda>p s. (Inr True, s)),
      ns_GetAllServicesInfo = (\<lambda>g s. (Inr [], s)),
      ns_GetService = (\<lambda>q s. (Inr \<lparr>ms_Hosts = fst s (qp_ServiceName q, query_group (qp_GroupName q)), ms_Clusters = '''',
           ms_Name = qp_ServiceName q, ms_GroupName = qp_GroupName q, ms_Valid = True\<rparr>, s)),
      ns_SelectOneHealthyInstance = (\<lambda>q s. case fst s (qp_ServiceName q, query_group (qp_GroupName q)) of
           [] \<Rightarrow> (Inl (External 1), s) | m # _ \<Rightarrow> (Inr (Some m), s)),
      ns_SelectAllInstances = (\<lambda>q s. (Inr (fst s (qp_ServiceName q, query_group (qp_GroupName q))), s)),
      ns_CloseClient = (\<lambda>s. s)\<rparr>"

definition map_config :: "(demo_server, unit) config_sdk" where
  "map_config =
     \<lparr>cs_PublishConfig = (\<lambda>p (s, c). (Inr True, s, c((cf_Group p, cf_DataId p) \<mapsto> cf_Content p))),
      cs_GetConfig = (\<lambda>p s. (Inr (case snd s (cf_Group p, cf_DataId p) of None \<Rightarrow> '''' | Some t \<Rightarrow> t), s)),
      cs_DeleteConfig = (\<lambda>p (s, c). (Inr True, s, c((cf_Group p, cf_DataId p) := None))),
      cs_ListenConfig = (\<lambda>p s. (None, s)), cs_CancelListenConfig = (\<lambda>p s. (None, s)),
      cs_SearchConfig = (\<lambda>_ _ _ s. (Inl (External 2), s)), cs_CloseClient = (\<lambda>s. s)\<rparr>"

definition demo_nacos :: "(demo_server, unit) nacosDiscoClient" where
  "demo_nacos = \<lparr>nd_groupName = ''g'', nd_configClient = \<lparr>nc_client = map_config\<rparr>,
     nd_namingClient = \<lparr>nn_client = map_naming\<rparr>\<rparr>"

lemma map_naming_ok: "naming_ok (\<lambda>s k. set (fst s k)) (nn_client (nd_namingClient demo_nacos))"
  by (auto simp: naming_ok_def demo_nacos_def map_naming_def Let_def filed_as_def split: list.splits)


subsection \<open>The balancers on this client\<close>

definition nacos_DiscoClient :: "(rat \<Rightarrow> float32) \<Rightarrow> ('s, 'cb) nacosDiscoClient \<Rightarrow> 's DiscoClient" where
  "nacos_DiscoClient f32 n =
     \<lparr>dc_GetGroupName = (\<lambda>_. nacos_GetGroupName n),
      dc_GetConfig = nacos_GetConfig n,
      dc_SetConfig = nacos_SetConfig n,
      dc_GetService = (\<lambda>name g s. case nacos_GetService f32 n name g [] s of
         (Inl e, s') \<Rightarrow> (Inl e, s') | (Inr svc, s') \<Rightarrow> (Inr (Some svc), s'))\<rparr>"

text \<open>
  The documented behaviour of the configuration service: a publication without an error
  stores the content under group and data ID; a read without an error returns it, and the
  empty string for an item that does not exist.
\<close>

definition nacos_config_ok ::
  "('s \<Rightarrow> string \<times> string \<Rightarrow> string option) \<Rightarrow> ('s, 'cb) config_sdk \<Rightarrow> bool" where
  "nacos_config_ok view C \<longleftrightarrow>
     (\<forall>p s b s'. cs_PublishConfig C p s = (Inr b, s') \<longrightarrow>
        view s' = (view s)((cf_Group p, cf_DataId p) \<mapsto> cf_Content p)) \<and>
     (\<forall>p s v s'. cs_GetConfig C p s = (Inr v, s') \<longrightarrow>
        view s' = view s \<and> v = (case view s (cf_Group p, cf_DataId p) of None \<Rightarrow> '''' | Some t \<Rightarrow> t))"

definition nacos_config_up :: "('s, 'cb) config_sdk \<Rightarrow> bool" where
  "nacos_config_up C \<longleftrightarrow>
     (\<forall>p s. \<exists>b. fst (cs_PublishConfig C p s) = Inr b) \<and> (\<forall>p s. \<exists>v. fst (cs_GetConfig C p s) = Inr v)"

lemma nacos_SetConfig_view:
  assumes "nacos_config_ok view (nc_client (nd_configClient n))" and "nacos_config_up (nc_client (nd_configClient n))"
  obtains s' where "nacos_SetConfig n k v s = (None, s')" "view s' = (view s)((nd_groupName n, k) \<mapsto> v)"
proof -
  let ?p = "\<lparr>cf_DataId = k, cf_Group = nd_groupName n, cf_Content = v, cf_OnChange = None\<rparr>"
  obtain b s' where "cs_PublishConfig (nc_client (nd_configClient n)) ?p s = (Inr b, s')"
    using assms(2) unfolding nacos_config_up_def by (metis prod.exhaust_sel)
  moreover from this assms(1) have "view s' = (view s)((nd_groupName n, k) \<mapsto> v)"
    unfolding nacos_config_ok_def by fastforce
  ultimately show ?thesis
    by (intro that [of s']) (simp_all add: nacos_SetConfig_def config_SetConfig_def err_of_def)
qed

lemma nacos_GetConfig_view:
  assumes "nacos_config_ok view (nc_client (nd_configClient n))" and "nacos_config_up (nc_client (nd_configClient n))"
  obtains s' where "nacos_GetConfig n k s = (Inr (case view s (nd_groupName n, k) of None \<Rightarrow> '''' | Some t \<Rightarrow> t), s')"
    "view s' = view s"
proof -
  let ?p = "\<lparr>cf_DataId = k, cf_Group = nd_groupName n, cf_Content = '''', cf_OnChange = None\<rparr>"
  obtain v s' where "cs_GetConfig (nc_client (nd_configClient n)) ?p s = (Inr v, s')"
    using assms(2) unfolding nacos_config_up_def by (metis prod.exhaust_sel)
  moreover from this assms(1) have
    "view s' = view s \<and> v = (case view s (nd_groupName n, k) of None \<Rightarrow> '''' | Some t \<Rightarrow> t)"
    unfolding nacos_config_ok_def by fastforce
  ultimately show ?thesis
    by (intro that [of s']) (simp_all add: nacos_GetConfig_def config_GetConfig_def)
qed

lemma robin_Pick_hosts:
  assumes "ms_Hosts m \<noteq> []"
  shows "\<exists>b'. robin_Pick (Some (service_of f32 m)) b =
    Ret (Inr (Some (instance_of f32 (ms_Hosts m ! ((rb_nextIndex b + 1) mod length (ms_Hosts m))))), b')"
proof -
  have "None \<notin> set (svc_Instances (service_of f32 m))" "svc_Instances (service_of f32 m) \<noteq> []"
    using assms by (auto simp: service_of_def convert_hosts_map)
  from Pick_ok [OF this(2,1), of b] show ?thesis
    using assms by (auto simp: service_of_def convert_hosts_map)
qed

text \<open>
  On the nacos client round robin can make a first choice, unlike on the TCP client.
  An item that nobody has stored reads as empty without an error.  So on a reachable
  configuration server that behaves as documented, \<open>Resolve\<close> of a service whose item is
  absent asks the naming service, picks one of the hosts it returned (never a nil one, so
  there is no panic), and leaves the text of the service as the item.
\<close>

theorem nacos_Resolve_bootstraps:
  assumes "nacos_config_ok view (nc_client (nd_configClient n))" and "nacos_config_up (nc_client (nd_configClient n))"
    and "view s (nd_groupName n, robin_key name node) = None"
    and "naming_GetService (nd_namingClient n) name (Itoa node) [] (snd (nacos_GetConfig n (robin_key name node) s)) = (Inr m, s2)"
    and "view s2 = view s" and "ms_Hosts m \<noteq> []" and "json_Service J (service_of f32 m) = Inr buf"
  shows "\<exists>s' b'. robin_Resolve (nacos_DiscoClient f32 n) J name stream' node (s, b) =
      Ret (Inr (Some (instance_of f32 (ms_Hosts m ! ((rb_nextIndex b + 1) mod length (ms_Hosts m))))), s', b') \<and>
    view s' = (view s)((nd_groupName n, robin_key name node) \<mapsto> Service_String J (service_of f32 m))"
proof -
  obtain s1 where 1: "nacos_GetConfig n (robin_key name node) s = (Inr '''', s1)" "view s1 = view s"
    using nacos_GetConfig_view [OF assms(1,2), of "robin_key name node" s] assms(3) by auto
  then have 2: "naming_GetService (nd_namingClient n) name (Itoa node) [] s1 = (Inr m, s2)"
    using assms(4) by simp
  obtain s3 where 3: "nacos_SetConfig n (robin_key name node) buf s2 = (None, s3)"
      "view s3 = (view s2)((nd_groupName n, robin_key name node) \<mapsto> buf)"
    using nacos_SetConfig_view [OF assms(1,2)] by blast
  obtain s4 where 4: "nacos_SetConfig n (robin_key name node) (Service_String J (service_of f32 m)) s3 = (None, s4)"
      "view s4 = (view s3)((nd_groupName n, robin_key name node) \<mapsto> Service_String J (service_of f32 m))"
    using nacos_SetConfig_view [OF assms(1,2)] by blast
  obtain b' where "robin_Pick (Some (service_of f32 m)) b =
      Ret (Inr (Some (instance_of f32 (ms_Hosts m ! ((rb_nextIndex b + 1) mod length (ms_Hosts m))))), b')"
    using robin_Pick_hosts [OF assms(6)] by blast
  with 1 2 3 4 assms(5,7) show ?thesis
    by (intro exI [of _ s4] exI [of _ b'])
      (simp add: robin_Resolve_def robin_load_def nacos_DiscoClient_def nacos_GetService_def Let_def)
qed

lemma map_config_ok:
  "nacos_config_ok snd (nc_client (nd_configClient demo_nacos))" "nacos_config_up (nc_client (nd_configClient demo_nacos))"
  by (auto simp: nacos_config_ok_def nacos_config_up_def demo_nacos_def map_config_def)

text \<open>One registered host, as the demo server answers it.\<close>

definition demo_host :: model_Instance where
  "demo_host = fromInstance demo_instance"

theorem nacos_Resolve_bootstraps_witness:
  "\<exists>s' b'. robin_Resolve (nacos_DiscoClient (\<lambda>w. w) demo_nacos) toy_json ''api'' ''s'' 7
      ((\<lambda>_. [demo_host], Map.empty), demo_balancer) = Ret (Inr (Some (instance_of (\<lambda>w. w) demo_host)), s', b') \<and>
    snd s' = [(''g'', robin_key ''api'' 7) \<mapsto> ''name:x'']"
proof -
  let ?s = "(\<lambda>_. [demo_host], Map.empty) :: demo_server"
  let ?m = "\<lparr>ms_Hosts = [demo_host], ms_Clusters = '''', ms_Name = ''api'', ms_GroupName = Itoa 7, ms_Valid = True\<rparr>"
  have g: "snd (nacos_GetConfig demo_nacos (robin_key ''api'' 7) ?s) = ?s"
    by (simp add: nacos_GetConfig_def config_GetConfig_def demo_nacos_def map_config_def)
  have "naming_GetService (nd_namingClient demo_nacos) ''api'' (Itoa 7) [] ?s = (Inr ?m, ?s)"
    by (simp add: naming_GetService_def demo_nacos_def map_naming_def)
  with g have "naming_GetService (nd_namingClient demo_nacos) ''api'' (Itoa 7) []
      (snd (nacos_GetConfig demo_nacos (robin_key ''api'' 7) ?s)) = (Inr ?m, ?s)" by simp
  from nacos_Resolve_bootstraps [OF map_config_ok, of ?s "''api''" 7 ?m ?s toy_json "\<lambda>w. w" "''{}''" "''s''" demo_balancer]
    this show ?thesis
    by (simp add: demo_nacos_def toy_json_def)
qed

end
