(* ===== verification/Disco_Server.thy ===== *)
theory Disco_Server
  imports Naming_Rpc Nacos
begin

text \<open>
  The discovery server of the repository (\<open>examples/disco/server\<close>): the factory that keeps
  a nacos client per connection and service (\<open>disco_cli_factory.go\<close>) and the event handler
  that answers registrations, deregistrations, look-ups and pings (\<open>server.go\<close>).  The
  creation of a nacos client is a parameter over the state of the nacos server, as is the
  writer of the connection.  The theory composes the TCP discovery client (\<open>Naming_Rpc\<close>),
  this handler and the nacos client (\<open>Nacos\<close>): which look-ups are answered, and with what.
\<close>

subsection \<open>The factory (disco\_cli\_factory.go)\<close>

record ('s, 'cb) discoClientFactory =
  fa_settings :: DiscoSetting
  fa_storage :: "int \<rightharpoonup> (string \<rightharpoonup> ('s, 'cb) nacosDiscoClient)"

definition newDiscoClientFactory :: "DiscoSetting \<Rightarrow> ('s, 'cb) discoClientFactory" where
  "newDiscoClientFactory settings = \<lparr>fa_settings = settings, fa_storage = Map.empty\<rparr>"

definition find_client :: "int \<Rightarrow> string \<Rightarrow> ('s, 'cb) discoClientFactory \<Rightarrow> ('s, 'cb) nacosDiscoClient option" where
  "find_client connId serviceName F = (case fa_storage F connId of None \<Rightarrow> None | Some item \<Rightarrow> item serviceName)"

text \<open>The part under the write lock: another goroutine may have installed a client meanwhile.\<close>

definition install_client ::
  "int \<Rightarrow> string \<Rightarrow> ('s, 'cb) nacosDiscoClient \<Rightarrow> ('s, 'cb) discoClientFactory \<times> 's
    \<Rightarrow> ('s, 'cb) nacosDiscoClient \<times> ('s, 'cb) discoClientFactory \<times> 's" where
  "install_client connId serviceName cli st =
     (case st of (F, s) \<Rightarrow>
        (let item = (case fa_storage F connId of None \<Rightarrow> Map.empty | Some item \<Rightarrow> item);
             F1 = F\<lparr>fa_storage := (fa_storage F)(connId \<mapsto> item)\<rparr>
         in (case item serviceName of
               Some existing \<Rightarrow> (existing, F1, nacos_Close cli s)
             | None \<Rightarrow> (cli, F\<lparr>fa_storage := (fa_storage F)(connId \<mapsto> item(serviceName \<mapsto> cli))\<rparr>, s))))"

type_synonym ('s, 'cb) nacos_creator = "DiscoSetting \<Rightarrow> 's \<Rightarrow> (error + ('s, 'cb) nacosDiscoClient) \<times> 's"

definition GetDiscoClient ::
  "('s, 'cb) nacos_creator \<Rightarrow> int \<Rightarrow> string \<Rightarrow> ('s, 'cb) discoClientFactory \<times> 's
    \<Rightarrow> ('s, 'cb) nacosDiscoClient option \<times> ('s, 'cb) discoClientFactory \<times> 's" where
  "GetDiscoClient create connId serviceName0 st =
     (case st of (F, s) \<Rightarrow>
        (let serviceName = (if IsEmptyStr serviceName0 then ''web'' else serviceName0) in
         case find_client connId serviceName F of
           Some cli \<Rightarrow> (Some cli, F, s)
         | None \<Rightarrow>
            (case create (fa_settings F) s of
               (Inl e, s1) \<Rightarrow> (None, F, s1)
             | (Inr cli, s1) \<Rightarrow>
                (case install_client connId serviceName cli (F, s1) of
                   (cli', F', s2) \<Rightarrow> (Some cli', F', s2)))))"

definition RemoveDiscoClient ::
  "int \<Rightarrow> string \<Rightarrow> ('s, 'cb) discoClientFactory \<times> 's \<Rightarrow> ('s, 'cb) discoClientFactory \<times> 's" where
  "RemoveDiscoClient connId serviceName st =
     (case st of (F, s) \<Rightarrow>
        (case fa_storage F connId of
           None \<Rightarrow> (F, s)
         | Some clients \<Rightarrow>
            (F\<lparr>fa_storage := (fa_storage F)(connId \<mapsto> map_delete serviceName clients)\<rparr>,
             (case clients serviceName of None \<Rightarrow> s | Some cli \<Rightarrow> nacos_Close cli s))))"

text \<open>\<open>order\<close> is the order in which Go ranges over the clients.\<close>

definition RemoveAll ::
  "string list \<Rightarrow> int \<Rightarrow> ('s, 'cb) discoClientFactory \<times> 's \<Rightarrow> ('s, 'cb) discoClientFactory \<times> 's" where
  "RemoveAll order connId st =
     (case st of (F, s) \<Rightarrow>
        (F\<lparr>fa_storage := map_delete connId (fa_storage F)\<rparr>,
         (case fa_storage F connId of
            None \<Rightarrow> s
          | Some clients \<Rightarrow> fold (\<lambda>k s. case clients k of None \<Rightarrow> s | Some cli \<Rightarrow> nacos_Close cli s) order s)))"

subsection \<open>The event handler (server.go)\<close>

text \<open>The state of a callback: the factory, the nacos server, and what was written to the connection.\<close>

type_synonym ('s, 'cb, 'c) server_state = "('s, 'cb) discoClientFactory \<times> 's \<times> 'c"

definition server_OnCmdSystem ::
  "'c packet_writer \<Rightarrow> proto_message option \<Rightarrow> ('s, 'cb, 'c) server_state \<Rightarrow> error option \<times> ('s, 'cb, 'c) server_state" where
  "server_OnCmdSystem wr pkt st =
     (case st of (F, s, c) \<Rightarrow>
        (case pkt of
           Some (MPing p) \<Rightarrow>
             (case wr (u8 (CMD_number CMD_SYSTEM)) (u8 (SCMDSystem_number SCMDSystem_PONG))
                 (MPong \<lparr>pong_Timestamp = ping_Timestamp p\<rparr>) c of
                (err, c') \<Rightarrow> (err, F, s, c'))
         | _ \<Rightarrow> (Some (ErrorString ''unknown system command: ''), F, s, c)))"

definition no_client :: "string \<Rightarrow> error" where
  "no_client name = ErrorString (''failed to get disco client for '' @ name)"

definition server_register ::
  "('s, 'cb) nacos_creator \<Rightarrow> int \<Rightarrow> Instance \<Rightarrow> ('s, 'cb) discoClientFactory \<times> 's
    \<Rightarrow> error option \<times> ('s, 'cb) discoClientFactory \<times> 's" where
  "server_register create connId pkt st =
     (case GetDiscoClient create connId (inst_InstanceName pkt) st of
        (None, F, s) \<Rightarrow> (Some (no_client (inst_InstanceName pkt)), F, s)
      | (Some cli, F, s) \<Rightarrow> (case nacos_RegisterInstance cli pkt s of (err, s') \<Rightarrow> (err, F, s')))"

definition server_deregister ::
  "('s, 'cb) nacos_creator \<Rightarrow> int \<Rightarrow> Deregister \<Rightarrow> ('s, 'cb) discoClientFactory \<times> 's
    \<Rightarrow> error option \<times> ('s, 'cb) discoClientFactory \<times> 's" where
  "server_deregister create connId pkt st =
     (case GetDiscoClient create connId (dereg_InstanceName pkt) st of
        (None, F, s) \<Rightarrow> (Some (no_client (dereg_InstanceName pkt)), F, s)
      | (Some cli, F, s) \<Rightarrow>
         (case nacos_DeregisterInstance cli (dereg_InstanceName pkt) (Itoa (sint (dereg_Node pkt))) (dereg_Ip pkt)
             (word_of_int (sint (dereg_Port pkt))) s of
            (Some e, s') \<Rightarrow> (Some e, F, s')
          | (None, s') \<Rightarrow> (None, RemoveDiscoClient connId (dereg_InstanceName pkt) (F, s'))))"

definition lookup_ack :: "Lookup \<Rightarrow> Instance option list \<Rightarrow> LookupAck" where
  "lookup_ack pkt instances =
     \<lparr>ack_Services = [Some \<lparr>svc_Instances = instances, svc_Cluster = '''', svc_Name = lkp_ServiceName pkt,
        svc_GroupName = Itoa (sint (lkp_Node pkt)), svc_Valid = lkp_Healthy pkt\<rparr>]\<rparr>"

definition server_lookup ::
  "(rat \<Rightarrow> float32) \<Rightarrow> ('s, 'cb) nacos_creator \<Rightarrow> int \<Rightarrow> Lookup \<Rightarrow> ('s, 'cb) discoClientFactory \<times> 's
    \<Rightarrow> (error + LookupAck) \<times> ('s, 'cb) discoClientFactory \<times> 's" where
  "server_lookup f32 create connId pkt st =
     (case GetDiscoClient create connId '''' st of
        (None, F, s) \<Rightarrow> (Inl (ErrorString ''failed to get disco client for lookup''), F, s)
      | (Some cli, F, s) \<Rightarrow>
         (case nacos_GetServiceInstances f32 cli (lkp_ServiceName pkt) (Itoa (sint (lkp_Node pkt))) [] s of
            (Inl e, s') \<Rightarrow> (Inl e, F, s')
          | (Inr instances, s') \<Rightarrow> (Inr (lookup_ack pkt instances), F, s')))"

definition server_OnCmdDiscovery ::
  "(rat \<Rightarrow> float32) \<Rightarrow> ('s, 'cb) nacos_creator \<Rightarrow> 'c packet_writer \<Rightarrow> uint32 \<Rightarrow> proto_message option
    \<Rightarrow> ('s, 'cb, 'c) server_state \<Rightarrow> error option \<times> ('s, 'cb, 'c) server_state" where
  "server_OnCmdDiscovery f32 create wr connId pkt st =
     (case st of (F, s, c) \<Rightarrow>
        (case pkt of
           Some (MInstance i) \<Rightarrow> (case server_register create (uint connId) i (F, s) of (err, F', s') \<Rightarrow> (err, F', s', c))
         | Some (MDeregister d) \<Rightarrow> (case server_deregister create (uint connId) d (F, s) of (err, F', s') \<Rightarrow> (err, F', s', c))
         | Some (MLookup l) \<Rightarrow>
             (case server_lookup f32 create (uint connId) l (F, s) of
                (Inl e, F', s') \<Rightarrow> (Some e, F', s', c)
              | (Inr ack, F', s') \<Rightarrow>
                 (case wr (u8 (CMD_number CMD_DISCOVERY)) (u8 (SCMDDisco_number SCMDDisco_LOOKUP_ACK)) (MLookupAck ack) c of
                    (err, c') \<Rightarrow> (err, F', s', c')))
         | _ \<Rightarrow> (None, F, s, c)))"

text \<open>The handler as the server installs it; the remaining callbacks only log.\<close>

definition server_eventHandler ::
  "(rat \<Rightarrow> float32) \<Rightarrow> ('s, 'cb) nacos_creator \<Rightarrow> 'c packet_writer \<Rightarrow> uint32 \<Rightarrow> ('s, 'cb, 'c) server_state EventHandler" where
  "server_eventHandler f32 create wr connId =
     \<lparr>ev_OnConnect = (\<lambda>st. (None, st)),
      ev_OnClose = (\<lambda>st. st),
      ev_OnCmdSystem = (\<lambda>pkt st. map_prod Ret id (server_OnCmdSystem wr pkt st)),
      ev_OnCmdDiscovery = (\<lambda>pkt st. map_prod Ret id (server_OnCmdDiscovery f32 create wr connId pkt st)),
      ev_OnCmdDataReport = (\<lambda>sub pkt st. (Ret None, st)),
      ev_OnCmdConfig = (\<lambda>pkt st. (Ret None, st)),
      ev_OnCmdEvent = (\<lambda>pkt st. (Ret None, st)),
      ev_OnCmdControl = (\<lambda>pkt st. (Ret None, st))\<rparr>"

subsection \<open>A look-up from the client through the server\<close>

text \<open>A writer that records the packets; \<open>session_delivery\<close> carries them to the peer's callback.\<close>

definition send_packet :: "(uint8 \<times> uint8 \<times> proto_message) list packet_writer" where
  "send_packet cmd sub m out = (None, out @ [(cmd, sub, m)])"

lemma lookup_start_sends:
  assumes "lookup_start send_packet name g (r, []) = (Inr kc, r1, [(cmd, sub, m)])"
  shows "\<exists>node. Atoi (lookup_group g r) = Inr node \<and>
    m = MLookup (Lookup_zero\<lparr>lkp_ServiceName := name, lkp_Node := word_of_int node, lkp_Healthy := True\<rparr>)"
  using assms by (auto simp: lookup_start_def send_packet_def Let_def split: if_splits sum.splits)

lemma server_answers:
  assumes "ev_OnCmdDiscovery (server_eventHandler f32 create send_packet connId) (Some (MLookup l)) (F, s, []) =
      (Ret None, F', s', [(cmd, sub, m)])"
  shows "\<exists>cli s1 instances. GetDiscoClient create (uint connId) '''' (F, s) = (Some cli, F', s1) \<and>
    nacos_GetServiceInstances f32 cli (lkp_ServiceName l) (Itoa (sint (lkp_Node l))) [] s1 = (Inr instances, s') \<and>
    m = MLookupAck (lookup_ack l instances)"
  using assms
  by (auto simp: server_eventHandler_def server_OnCmdDiscovery_def server_lookup_def send_packet_def
      split: prod.splits sum.splits option.splits)

lemma lookupKey_inject: "lookupKey n a = lookupKey n b \<longleftrightarrow> a = b"
  by (simp add: lookupKey_def)

text \<open>What a waiting caller gets when one service is acknowledged.\<close>

lemma wait_after_ack:
  assumes "rpc_inv r" and "lookup_start wr name g (r, c) = (Inr (key, ch), r1, c1)" and "svc_Name svc = name"
  shows "map_option fst (lookup_wait False (key, ch) (HandleLookupAck (Some \<lparr>ack_Services = [Some svc]\<rparr>) r1)) =
    (if lookup_group g r \<in> {svc_GroupName svc, rc_groupName r, ''''} then Some (Inr [Some svc]) else None)"
proof -
  note st = lookup_start_ok [OF assms(2)]
  have inv: "rpc_inv r1" by (rule lookup_start_inv [OF assms(1,2)])
  let ?a = "\<lparr>ack_Services = [Some svc]\<rparr>"
  have keys: "set (ack_keys (rc_groupName r1) (ack_Services ?a)) = lookupKey name ` {svc_GroupName svc, rc_groupName r, ''''}"
    using st assms(3) by (simp add: ack_keys_def)
  have waiter: "(k, ch) \<in> set (rc_pending r1) \<longleftrightarrow> k = key" for k
    using inv st by (force simp: rpc_inv_def)
  have "rc_chans (HandleLookupAck (Some ?a) r1) ch =
      (if key \<in> lookupKey name ` {svc_GroupName svc, rc_groupName r, ''''} then Some (lookupResult [Some svc] None) else None)"
    using HandleLookupAck_effect [OF inv, of ?a] waiter keys st by simp
  then show ?thesis
    using st by (auto simp: lookup_wait_def lookupKey_inject)
qed

text \<open>
  A look-up from end to end.  The client sends the number of the group, the server
  asks nacos for the group named by that number as a signed 32-bit integer, and the
  acknowledgement carries that name.  So the waiting caller gets the instances nacos
  returned if its group is written as that name, or is the client's own group; with any
  other spelling (a leading zero or a plus sign, or a number beyond 32 bits) the answer
  does not reach it, although the server sent one.
\<close>

theorem remote_lookup:
  assumes "rpc_inv r" and "lookup_start send_packet name g (r, []) = (Inr (key, ch), r1, [(cmd, sub, m)])"
    and "ev_OnCmdDiscovery (server_eventHandler f32 create send_packet connId) (Some m) (F, s, []) =
      (Ret None, F', s', [(cmd', sub', m')])"
  shows "\<exists>node cli s1 ack svc. Atoi (lookup_group g r) = Inr node \<and>
    GetDiscoClient create (uint connId) '''' (F, s) = (Some cli, F', s1) \<and>
    nacos_GetServiceInstances f32 cli name (Itoa (sint (word_of_int node :: int32))) [] s1 = (Inr (svc_Instances svc), s') \<and>
    as_LookupAck (Some m') = Some ack \<and>
    map_option fst (lookup_wait False (key, ch) (HandleLookupAck (Some ack) r1)) =
      (if lookup_group g r \<in> {Itoa (sint (word_of_int node :: int32)), rc_groupName r} then Some (Inr [Some svc]) else None)"
proof -
  obtain node where n: "Atoi (lookup_group g r) = Inr node"
    and m: "m = MLookup (Lookup_zero\<lparr>lkp_ServiceName := name, lkp_Node := word_of_int node, lkp_Healthy := True\<rparr>)"
    using lookup_start_sends [OF assms(2)] by blast
  let ?l = "Lookup_zero\<lparr>lkp_ServiceName := name, lkp_Node := word_of_int node, lkp_Healthy := True\<rparr>"
  obtain cli s1 instances where c: "GetDiscoClient create (uint connId) '''' (F, s) = (Some cli, F', s1)"
    and i: "nacos_GetServiceInstances f32 cli name (Itoa (sint (word_of_int node :: int32))) [] s1 = (Inr instances, s')"
    and m': "m' = MLookupAck (lookup_ack ?l instances)"
    using server_answers [OF assms(3) [unfolded m]] by auto
  define svc where "svc = \<lparr>svc_Instances = instances, svc_Cluster = '''', svc_Name = name,
      svc_GroupName = Itoa (sint (word_of_int node :: int32)), svc_Valid = True\<rparr>"
  have a: "lookup_ack ?l instances = \<lparr>ack_Services = [Some svc]\<rparr>" by (simp add: lookup_ack_def svc_def)
  have "lookup_group g r \<noteq> ''''" using n by (auto simp: Atoi_def)
  with wait_after_ack [OF assms(1,2), of svc] n c i m' a show ?thesis
    by (intro exI [of _ node] exI [of _ cli] exI [of _ s1] exI [of _ "\<lparr>ack_Services = [Some svc]\<rparr>"] exI [of _ svc])
      (simp add: svc_def as_LookupAck_def)
qed

subsection \<open>A registration is visible to other connections\<close>

text \<open>
  All clients of the factory talk to the same well-behaved naming service \<open>reg\<close>, and
  creating one changes nothing there.
\<close>

definition client_ok :: "('s \<Rightarrow> string \<times> string \<Rightarrow> model_Instance set) \<Rightarrow> ('s, 'cb) nacosDiscoClient \<Rightarrow> bool" where
  "client_ok reg cli \<longleftrightarrow> naming_ok reg (nn_client (nd_namingClient cli))"

definition factory_ok :: "('s \<Rightarrow> string \<times> string \<Rightarrow> model_Instance set) \<Rightarrow> ('s, 'cb) discoClientFactory \<Rightarrow> bool" where
  "factory_ok reg F \<longleftrightarrow> (\<forall>k n cli. find_client k n F = Some cli \<longrightarrow> client_ok reg cli)"

definition creator_ok :: "('s \<Rightarrow> string \<times> string \<Rightarrow> model_Instance set) \<Rightarrow> ('s, 'cb) nacos_creator \<Rightarrow> bool" where
  "creator_ok reg create \<longleftrightarrow>
     (\<forall>cfg s r s'. create cfg s = (r, s') \<longrightarrow> reg s' = reg s \<and> (\<forall>cli. r = Inr cli \<longrightarrow> client_ok reg cli))"

lemma new_factory_ok: "factory_ok reg (newDiscoClientFactory cfg)"
  by (simp add: factory_ok_def find_client_def newDiscoClientFactory_def)

lemma GetDiscoClient_ok:
  assumes "factory_ok reg F" and "creator_ok reg create" and "GetDiscoClient create k n (F, s) = (Some cli, F', s')"
  shows "client_ok reg cli \<and> factory_ok reg F' \<and> reg s' = reg s \<and>
    find_client k (if IsEmptyStr n then ''web'' else n) F' = Some cli"
proof -
  define n' where "n' = (if IsEmptyStr n then ''web'' else n)"
  show ?thesis
  proof (cases "find_client k n' F")
    case (Some c)
    with assms show ?thesis by (auto simp: GetDiscoClient_def factory_ok_def n'_def)
  next
    case None
    let ?item = "case fa_storage F k of None \<Rightarrow> Map.empty | Some item \<Rightarrow> item"
    have free: "?item n' = None" using None by (simp add: find_client_def split: option.splits)
    from None assms(3) have c: "create (fa_settings F) s = (Inr cli, s')"
      and F': "F' = F\<lparr>fa_storage := (fa_storage F)(k \<mapsto> ?item(n' \<mapsto> cli))\<rparr>"
      using free by (auto simp: GetDiscoClient_def install_client_def Let_def n'_def split: prod.splits sum.splits option.splits)
    have ok: "client_ok reg cli" "reg s' = reg s" using assms(2) c by (auto simp: creator_ok_def)
    have f: "find_client k2 n2 F' = (if k2 = k \<and> n2 = n' then Some cli else find_client k2 n2 F)" for k2 n2
      by (simp add: F' find_client_def split: option.splits)
    with ok assms(1) have "factory_ok reg F'" by (auto simp: factory_ok_def split: if_splits)
    with ok f show ?thesis by (simp add: n'_def)
  qed
qed


text \<open>
  A client that is kept under the stand-in name \<open>web\<close> is not removed with the blank name it
  was requested with: \<open>RemoveDiscoClient\<close> does not apply the substitution of
  \<open>GetDiscoClient\<close>.
\<close>

theorem blank_client_stays:
  assumes "find_client k ''web'' F = Some cli"
  shows "find_client k ''web'' (fst (RemoveDiscoClient k '''' (F, s))) = Some cli \<and>
    GetDiscoClient create k '''' (RemoveDiscoClient k '''' (F, s)) = (Some cli, RemoveDiscoClient k '''' (F, s))"
proof -
  have "find_client k ''web'' (fst (RemoveDiscoClient k '''' (F, s))) = Some cli"
    using assms by (auto simp: find_client_def RemoveDiscoClient_def split: option.splits)
  then show ?thesis
    by (cases "RemoveDiscoClient k '''' (F, s)") (simp add: GetDiscoClient_def)
qed

subsection \<open>A small system\<close>

text \<open>The settings in \<open>server.go\<close>, and a nacos server whose clients are all alike.\<close>

definition discoCfg :: DiscoSetting where
  "discoCfg = \<lparr>ds_Host = ''192.168.2.40'', ds_Port = 8848, ds_Namespace = ''public'', ds_LogDir = ''./logs'',
     ds_CacheDir = ''./cache'', ds_PreloadCache = True, ds_Timeout = 5000, ds_GroupName = ''DEFAULT_GROUP'',
     ds_Username = ''nacos'', ds_Password = ''nacos'', ds_Node = 1\<rparr>"

definition demo_creator :: "(demo_server, unit) nacos_creator" where
  "demo_creator cfg s = (Inr demo_nacos, s)"

lemma demo_creator_ok: "creator_ok (\<lambda>s k. set (fst s k)) demo_creator"
  using map_naming_ok by (auto simp: creator_ok_def client_ok_def demo_creator_def)

definition demo_factory :: "(demo_server, unit) discoClientFactory" where
  "demo_factory = newDiscoClientFactory discoCfg"

lemma demo_GetDiscoClient:
  "\<exists>F'. GetDiscoClient demo_creator k n (demo_factory, s) = (Some demo_nacos, F', s)"
  by (simp add: GetDiscoClient_def find_client_def demo_factory_def newDiscoClientFactory_def demo_creator_def
      install_client_def Let_def)

lemma demo_query:
  "nacos_GetServiceInstances f32 demo_nacos name g [] s =
     (Inr (convert_hosts f32 (fst s (name, query_group g))), s)"
  by (simp add: nacos_GetServiceInstances_def nacos_many_def naming_GetServiceInstances_def demo_nacos_def map_naming_def)

lemma demo_start:
  "\<exists>m. lookup_start send_packet ''api'' '''' (rpcClient_new ''1'', []) = (Inr (''api@1'', 0), waiting, [m])"
proof -
  have "Atoi ''1'' = Inr 1" by (simp add: Atoi_def is_digit_def digits_value_def)
  then show ?thesis
    by (simp add: lookup_start_def lookup_group_def rpcClient_new_def waiting_def lookupKey_def send_packet_def Let_def fun_upd_idem)
qed

theorem remote_lookup_witness:
  "\<exists>m F' m' ack svc. lookup_start send_packet ''api'' '''' (rpcClient_new ''1'', []) = (Inr (''api@1'', 0), waiting, [(m :: uint8 \<times> uint8 \<times> proto_message)]) \<and>
     ev_OnCmdDiscovery (server_eventHandler (\<lambda>w. w) demo_creator send_packet 7) (Some (snd (snd m)))
       (demo_factory, (\<lambda>_. [demo_host], Map.empty), []) = (Ret None, F', (\<lambda>_. [demo_host], Map.empty), [m']) \<and>
     as_LookupAck (Some (snd (snd m'))) = Some ack \<and>
     map_option fst (lookup_wait False (''api@1'', 0) (HandleLookupAck (Some ack) waiting)) = Some (Inr [Some svc])"
proof -
  let ?s = "(\<lambda>_. [demo_host], Map.empty) :: demo_server"
  obtain cmd sub m where st: "lookup_start send_packet ''api'' '''' (rpcClient_new ''1'', []) = (Inr (''api@1'', 0), waiting, [(cmd, sub, m)])"
    using demo_start by (metis prod_cases3)
  then obtain l where m: "m = MLookup l" using lookup_start_sends by metis
  obtain F' where "GetDiscoClient demo_creator (uint (7 :: uint32)) '''' (demo_factory, ?s) = (Some demo_nacos, F', ?s)"
    using demo_GetDiscoClient by blast
  then obtain cmd' sub' m' where h: "ev_OnCmdDiscovery (server_eventHandler (\<lambda>w. w) demo_creator send_packet 7) (Some m)
      (demo_factory, ?s, []) = (Ret None, F', ?s, [(cmd', sub', m')])"
    unfolding m by (simp add: server_eventHandler_def server_OnCmdDiscovery_def server_lookup_def demo_query send_packet_def)
  have "lookup_group '''' (rpcClient_new ''1'') = rc_groupName (rpcClient_new ''1'')" by (simp add: lookup_group_def)
  with remote_lookup [OF new_rpc_inv st h] obtain ack svc where "as_LookupAck (Some m') = Some ack"
      "map_option fst (lookup_wait False (''api@1'', 0) (HandleLookupAck (Some ack) waiting)) = Some (Inr [Some svc])"
    by auto
  with st h show ?thesis
    by (intro exI [of _ "(cmd, sub, m)"] exI [of _ F'] exI [of _ "(cmd', sub', m')"] exI [of _ ack] exI [of _ svc]) simp
qed


end
