(* ===== verification/Factory_Race.thy ===== *)
theory Factory_Race
  imports Disco_Server
begin

text \<open>
  Concurrent use of the client factory of the example server
  (\<open>examples/disco/server/disco_cli_factory.go\<close>).  The read loops of all connections share
  it.  \<open>GetDiscoClient\<close> looks the client up under the read lock, creates one without any
  lock when there is none, and installs it under the write lock, where it may find that
  another goroutine was faster; \<open>RemoveDiscoClient\<close> and \<open>RemoveAll\<close> are one critical section
  each.
\<close>

subsection \<open>Steps\<close>

text \<open>What is left of a call: the creation, the installation of the new client, nothing.\<close>

datatype ('s, 'cb) fpc =
    F_create
  | F_install "('s, 'cb) nacosDiscoClient"
  | F_done "('s, 'cb) nacosDiscoClient option"

text \<open>
  The counters of clients created and closed only record what happened.
\<close>

record ('s, 'cb) factory_state =
  fr_factory :: "('s, 'cb) discoClientFactory"
  fr_world :: 's
  fr_calls :: "nat \<rightharpoonup> int \<times> string \<times> ('s, 'cb) fpc"
  fr_created :: nat
  fr_closed :: nat

datatype fact =
    FGet nat int string
  | FGo nat
  | FRemove int string
  | FRemoveAll int "string list"

definition web_name :: "string \<Rightarrow> string" where
  "web_name serviceName = (if IsEmptyStr serviceName then ''web'' else serviceName)"

definition get_first :: "int \<Rightarrow> string \<Rightarrow> ('s, 'cb) discoClientFactory \<Rightarrow> ('s, 'cb) fpc" where
  "get_first connId name F = (case find_client connId name F of Some cli \<Rightarrow> F_done (Some cli) | None \<Rightarrow> F_create)"

fun get_next ::
  "('s, 'cb) nacos_creator \<Rightarrow> int \<Rightarrow> string \<Rightarrow> ('s, 'cb) fpc \<Rightarrow> ('s, 'cb) discoClientFactory \<times> 's
    \<Rightarrow> (('s, 'cb) fpc \<times> ('s, 'cb) discoClientFactory \<times> 's) option" where
  "get_next create connId name F_create (F, s) =
     (case create (fa_settings F) s of
        (Inl e, s1) \<Rightarrow> Some (F_done None, F, s1)
      | (Inr cli, s1) \<Rightarrow> Some (F_install cli, F, s1))"
| "get_next create connId name (F_install cli) (F, s) =
     (case install_client connId name cli (F, s) of (cli', F', s') \<Rightarrow> Some (F_done (Some cli'), F', s'))"
| "get_next create connId name (F_done r) (F, s) = None"

text \<open>Run alone, the steps are \<open>GetDiscoClient\<close>.\<close>

lemma GetDiscoClient_steps:
  "GetDiscoClient create connId name (F, s) =
     (case get_first connId (web_name name) F of
        F_done r \<Rightarrow> (r, F, s)
      | F_create \<Rightarrow>
         (case get_next create connId (web_name name) F_create (F, s) of
            Some (F_done r, F1, s1) \<Rightarrow> (r, F1, s1)
          | Some (F_install cli, F1, s1) \<Rightarrow>
             (case get_next create connId (web_name name) (F_install cli) (F1, s1) of
                Some (F_done r, F2, s2) \<Rightarrow> (r, F2, s2))))"
  by (simp add: GetDiscoClient_def get_first_def web_name_def Let_def split: option.splits sum.splits prod.splits)

text \<open>The clients in the storage, by connection and service name.\<close>

definition clients_of :: "('s, 'cb) discoClientFactory \<Rightarrow> (int \<times> string) set" where
  "clients_of F = {(k, n). find_client k n F \<noteq> None}"

fun created_by :: "('s, 'cb) fpc \<Rightarrow> nat" where
  "created_by (F_install cli) = 1"
| "created_by _ = 0"

text \<open>
  A step and the number of clients it closes: the loser of an installation, and those removed.
\<close>

fun factory_act ::
  "('s, 'cb) nacos_creator \<Rightarrow> fact \<Rightarrow> ('s, 'cb) factory_state \<Rightarrow> ('s, 'cb) factory_state option" where
  "factory_act create (FGet t connId name) S =
     (case fr_calls S t of
        Some _ \<Rightarrow> None
      | None \<Rightarrow> Some (S\<lparr>fr_calls := (fr_calls S)(t \<mapsto> (connId, web_name name, get_first connId (web_name name) (fr_factory S)))\<rparr>))"
| "factory_act create (FGo t) S =
     (case fr_calls S t of
        None \<Rightarrow> None
      | Some (connId, name, pc) \<Rightarrow>
         (case get_next create connId name pc (fr_factory S, fr_world S) of
            None \<Rightarrow> None
          | Some (pc', F, s) \<Rightarrow>
              Some (S\<lparr>fr_factory := F, fr_world := s, fr_calls := (fr_calls S)(t \<mapsto> (connId, name, pc')),
                fr_created := fr_created S + created_by pc',
                fr_closed := fr_closed S +
                  (if created_by pc = 1 \<and> (connId, name) \<in> clients_of (fr_factory S) then 1 else 0)\<rparr>)))"
| "factory_act create (FRemove connId name) S =
     (case RemoveDiscoClient connId name (fr_factory S, fr_world S) of
        (F, s) \<Rightarrow> Some (S\<lparr>fr_factory := F, fr_world := s,
          fr_closed := fr_closed S + (if (connId, name) \<in> clients_of (fr_factory S) then 1 else 0)\<rparr>))"
| "factory_act create (FRemoveAll connId order) S =
     (if distinct order \<and> set order = {n. (connId, n) \<in> clients_of (fr_factory S)} then
        (case RemoveAll order connId (fr_factory S, fr_world S) of
           (F, s) \<Rightarrow> Some (S\<lparr>fr_factory := F, fr_world := s, fr_closed := fr_closed S + length order\<rparr>))
      else None)"

abbreviation factory_acts where
  "factory_acts create \<equiv> run_actions (factory_act create)"

definition factory_init :: "DiscoSetting \<Rightarrow> 's \<Rightarrow> ('s, 'cb) factory_state" where
  "factory_init settings s = \<lparr>fr_factory = newDiscoClientFactory settings, fr_world = s, fr_calls = Map.empty,
     fr_created = 0, fr_closed = 0\<rparr>"

subsection \<open>What the operations do to the storage\<close>

lemma find_install:
  "install_client connId name cli (F, s) = (cli', F', s') \<Longrightarrow>
    find_client k n F' = (if (k, n) = (connId, name) then Some cli' else find_client k n F) \<and>
    cli' = (case find_client connId name F of None \<Rightarrow> cli | Some old \<Rightarrow> old)"
  by (auto simp: install_client_def Let_def find_client_def split: option.splits if_splits)

lemma find_remove:
  "RemoveDiscoClient connId name (F, s) = (F', s') \<Longrightarrow>
    find_client k n F' = (if (k, n) = (connId, name) then None else find_client k n F)"
  by (auto simp: RemoveDiscoClient_def find_client_def map_delete_def split: option.splits if_splits)

lemma find_remove_all:
  "RemoveAll order connId (F, s) = (F', s') \<Longrightarrow>
    find_client k n F' = (if k = connId then None else find_client k n F)"
  by (auto simp: RemoveAll_def find_client_def map_delete_def split: option.splits if_splits)

lemma clients_of_install:
  "install_client connId name cli (F, s) = (cli', F', s') \<Longrightarrow> clients_of F' = insert (connId, name) (clients_of F)"
  unfolding clients_of_def using find_install [of connId name cli F s cli' F' s'] by auto

lemma clients_of_remove:
  "RemoveDiscoClient connId name (F, s) = (F', s') \<Longrightarrow> clients_of F' = clients_of F - {(connId, name)}"
  unfolding clients_of_def using find_remove [of connId name F s F' s'] by auto

lemma clients_of_remove_all:
  "RemoveAll order connId (F, s) = (F', s') \<Longrightarrow>
    clients_of F' = clients_of F - Pair connId ` {n. (connId, n) \<in> clients_of F}"
  unfolding clients_of_def using find_remove_all [of order connId F s F' s'] by auto

text \<open>The steps count what they close.\<close>

lemma closes_counted:
  "install_client connId name cli (F, s) = (cli', F', s') \<Longrightarrow>
    s' = (if (connId, name) \<in> clients_of F then nacos_Close cli s else s)"
  "RemoveDiscoClient connId name (F, s) = (F', s') \<Longrightarrow>
    s' = (case find_client connId name F of None \<Rightarrow> s | Some c \<Rightarrow> nacos_Close c s)"
  "RemoveAll order connId (F, s) = (F', s') \<Longrightarrow> set order = {n. (connId, n) \<in> clients_of F} \<Longrightarrow>
    s' = fold (\<lambda>n. nacos_Close (the (find_client connId n F))) order s"
proof -
  show "install_client connId name cli (F, s) = (cli', F', s') \<Longrightarrow>
      s' = (if (connId, name) \<in> clients_of F then nacos_Close cli s else s)"
    by (auto simp: install_client_def Let_def clients_of_def find_client_def split: option.splits)
  show "RemoveDiscoClient connId name (F, s) = (F', s') \<Longrightarrow>
      s' = (case find_client connId name F of None \<Rightarrow> s | Some c \<Rightarrow> nacos_Close c s)"
    by (auto simp: RemoveDiscoClient_def find_client_def split: option.splits)
  assume r: "RemoveAll order connId (F, s) = (F', s')" and o: "set order = {n. (connId, n) \<in> clients_of F}"
  show "s' = fold (\<lambda>n. nacos_Close (the (find_client connId n F))) order s"
  proof (cases "fa_storage F connId")
    case None
    then have "set order = {}" using o by (simp add: clients_of_def find_client_def)
    with None r show ?thesis by (simp add: RemoveAll_def)
  next
    case (Some clients)
    have "fold (\<lambda>k s. case clients k of None \<Rightarrow> s | Some cli \<Rightarrow> nacos_Close cli s) order s =
        fold (\<lambda>n. nacos_Close (the (find_client connId n F))) order s"
      by (rule fold_cong) (use o Some in \<open>auto simp: clients_of_def find_client_def fun_eq_iff\<close>)
    with Some r show ?thesis by (simp add: RemoveAll_def)
  qed
qed

subsection \<open>Accounting\<close>

definition installing :: "(nat \<rightharpoonup> int \<times> string \<times> ('s, 'cb) fpc) \<Rightarrow> nat set" where
  "installing calls = {t. \<exists>k n cli. calls t = Some (k, n, F_install cli)}"

text \<open>
  Every client ever created is in the storage, was closed, or is about to be installed.
\<close>

definition factory_inv :: "('s, 'cb) factory_state \<Rightarrow> bool" where
  "factory_inv S \<longleftrightarrow> finite (clients_of (fr_factory S)) \<and> finite (installing (fr_calls S)) \<and>
     fr_created S = card (clients_of (fr_factory S)) + fr_closed S + card (installing (fr_calls S))"

lemma installing_upd:
  "installing (calls(t \<mapsto> (k, n, pc))) = (if created_by pc = 1 then insert t (installing calls) else installing calls - {t})"
  by (cases pc) (auto simp: installing_def)

lemma factory_inv_go:
  assumes inv: "factory_inv S" and act: "factory_act create (FGo t) S = Some S'"
  shows "factory_inv S'"
proof -
  obtain connId name pc pc' F s where t: "fr_calls S t = Some (connId, name, pc)"
    and go: "get_next create connId name pc (fr_factory S, fr_world S) = Some (pc', F, s)"
    and S': "S' = S\<lparr>fr_factory := F, fr_world := s, fr_calls := (fr_calls S)(t \<mapsto> (connId, name, pc')),
        fr_created := fr_created S + created_by pc',
        fr_closed := fr_closed S + (if created_by pc = 1 \<and> (connId, name) \<in> clients_of (fr_factory S) then 1 else 0)\<rparr>"
    using act by (auto split: option.splits)
  show ?thesis
  proof (cases pc)
    case F_create
    then have "t \<notin> installing (fr_calls S)" using t by (auto simp: installing_def)
    with F_create go inv show ?thesis
      by (auto simp: S' factory_inv_def installing_upd split: prod.splits sum.splits)
  next
    case (F_install cli)
    then have "t \<in> installing (fr_calls S)" using t by (auto simp: installing_def)
    moreover obtain cli' where "install_client connId name cli (fr_factory S, fr_world S) = (cli', F, s)" "pc' = F_done (Some cli')"
      using go F_install by (auto split: prod.splits)
    moreover have "0 < card (installing (fr_calls S))"
      using calculation(1) inv by (auto simp: factory_inv_def card_gt_0_iff)
    ultimately show ?thesis
      using inv F_install by (auto simp: S' factory_inv_def installing_upd clients_of_install insert_absorb card_Diff_singleton)
  qed (use go in simp)
qed

lemma factory_inv_act:
  assumes "factory_inv S" and a: "factory_act create a S = Some S'"
  shows "factory_inv S'"
proof (cases a)
  case (FGet t connId name)
  then have t: "t \<notin> installing (fr_calls S)" "created_by (get_first connId (web_name name) (fr_factory S)) \<noteq> 1"
    using a by (auto simp: installing_def get_first_def split: option.splits)
  with FGet a assms(1) show ?thesis
    by (auto simp: factory_inv_def installing_upd split: option.splits)
next
  case (FGo t)
  then show ?thesis using factory_inv_go [OF assms(1)] a by blast
next
  case (FRemove connId name)
  obtain F s where r: "RemoveDiscoClient connId name (fr_factory S, fr_world S) = (F, s)"
    by (cases "RemoveDiscoClient connId name (fr_factory S, fr_world S)")
  have "0 < card (clients_of (fr_factory S))" if "(connId, name) \<in> clients_of (fr_factory S)"
    using assms(1) that by (auto simp: factory_inv_def card_gt_0_iff)
  with FRemove a r assms(1) show ?thesis
    by (auto simp: factory_inv_def clients_of_remove [OF r] card_Diff_singleton)
next
  case (FRemoveAll connId order)
  let ?N = "{n. (connId, n) \<in> clients_of (fr_factory S)}"
  obtain F s where r: "RemoveAll order connId (fr_factory S, fr_world S) = (F, s)"
    by (cases "RemoveAll order connId (fr_factory S, fr_world S)")
  have o: "distinct order" "set order = ?N" using FRemoveAll a by (auto split: if_splits)
  have sub: "Pair connId ` ?N \<subseteq> clients_of (fr_factory S)" by auto
  have fin: "finite (clients_of (fr_factory S))" using assms(1) by (simp add: factory_inv_def)
  have "card (Pair connId ` ?N) = length order"
    using o distinct_card [OF o(1)] by (simp add: card_image inj_on_def)
  then have "card (clients_of F) + length order = card (clients_of (fr_factory S))"
    using card_Diff_subset [OF _ sub] card_mono [OF fin sub] finite_subset [OF sub fin]
    by (simp add: clients_of_remove_all [OF r])
  with FRemoveAll a r o fin assms(1) show ?thesis
    by (auto simp: factory_inv_def clients_of_remove_all [OF r])
qed

interpretation factory_ts: action_system "factory_act create" factory_inv for create
  by unfold_locales (rule factory_inv_act)

lemma factory_init_inv: "factory_inv (factory_init settings s)"
  by (simp add: factory_inv_def factory_init_def newDiscoClientFactory_def clients_of_def find_client_def installing_def)

subsection \<open>One client for all\<close>

text \<open>The steps that remove nothing under \<open>(k, n)\<close>.\<close>

fun keeps_client :: "int \<Rightarrow> string \<Rightarrow> fact \<Rightarrow> bool" where
  "keeps_client k n (FRemove connId name) = ((connId, name) \<noteq> (k, n))"
| "keeps_client k n (FRemoveAll connId order) = (connId \<noteq> k)"
| "keeps_client k n _ = True"

text \<open>The client is installed, and calls that are not in \<open>old\<close> return it.\<close>

definition calls_agree where
  "calls_agree old k n c calls \<longleftrightarrow>
     (\<forall>t c'. calls t = Some (k, n, F_done (Some c')) \<longrightarrow> c' = c \<or> old t = calls t)"

definition agreed ::
  "(nat \<rightharpoonup> int \<times> string \<times> ('s, 'cb) fpc) \<Rightarrow> int \<Rightarrow> string \<Rightarrow> ('s, 'cb) nacosDiscoClient
    \<Rightarrow> ('s, 'cb) factory_state \<Rightarrow> bool" where
  "agreed old k n c S \<longleftrightarrow> find_client k n (fr_factory S) = Some c \<and> calls_agree old k n c (fr_calls S)"

lemma calls_agree_upd:
  "calls_agree old k n c calls \<Longrightarrow> (k', n') = (k, n) \<longrightarrow> pc \<in> {F_done None, F_done (Some c)} \<or> (\<forall>r. pc \<noteq> F_done r) \<Longrightarrow>
    calls_agree old k n c (calls(t \<mapsto> (k', n', pc)))"
  by (auto simp: calls_agree_def)

lemma agreed_act:
  assumes "agreed old k n c S" and "keeps_client k n a" and "factory_act create a S = Some S'"
  shows "agreed old k n c S'"
proof (cases a)
  case (FGet t connId name)
  with assms(1,3) show ?thesis
    by (auto simp: agreed_def get_first_def intro!: calls_agree_upd split: option.splits)
next
  case (FGo t)
  then obtain connId name pc pc' F s where t: "fr_calls S t = Some (connId, name, pc)"
    and go: "get_next create connId name pc (fr_factory S, fr_world S) = Some (pc', F, s)"
    and F: "fr_factory S' = F" and calls: "fr_calls S' = (fr_calls S)(t \<mapsto> (connId, name, pc'))"
    using assms(3) by (auto split: option.splits)
  show ?thesis
  proof (cases pc)
    case F_create
    with go assms(1) show ?thesis by (auto simp: agreed_def F calls intro!: calls_agree_upd split: prod.splits sum.splits)
  next
    case (F_install cli)
    with go obtain cli' where i: "install_client connId name cli (fr_factory S, fr_world S) = (cli', F, s)" "pc' = F_done (Some cli')"
      by (auto split: prod.splits)
    have "find_client k n F = Some c \<and> ((connId, name) = (k, n) \<longrightarrow> cli' = c)"
      using find_install [OF i(1), of k n] assms(1) by (auto simp: agreed_def)
    with assms(1) i(2) show ?thesis by (auto simp: agreed_def F calls intro!: calls_agree_upd)
  qed (use go in simp)
next
  case (FRemove connId name)
  with assms show ?thesis
    by (auto simp: agreed_def find_remove split: prod.splits)
next
  case (FRemoveAll connId order)
  with assms show ?thesis
    by (auto simp: agreed_def find_remove_all split: prod.splits if_splits)
qed

subsection \<open>Properties\<close>


definition two_readers :: "fact list" where
  "two_readers = [FGet 0 7 '''', FGet 1 7 '''', FGo 0, FGo 1, FGo 1]"

lemma web_name_blank: "web_name '''' = ''web''" "web_name ''web'' = ''web''"
  by (simp_all add: web_name_def IsEmptyStr_def TrimSpace_def)


end
