(* ===== verification/Disco_Wire.thy ===== *)
theory Disco_Wire
  imports Disco_Server Conn_Lifecycle
begin

text \<open>
  A look-up down to the bytes.  The discovery client and the example server run here on real
  connections: packets are framed by \<open>WritePacket\<close>, cut into chunks by the network, read by
  \<open>ReadPacket\<close>, decoded and dispatched by \<open>OnMessage\<close>, and the server's answer takes the
  same way back to the waiting caller.
\<close>

subsection \<open>The two handlers on a connection\<close>

text \<open>
  \<open>WritePacket\<close> of a connection as the writer of a packet.  It is used on connections that
  are online, where it returns.
\<close>

definition world_writer :: "marshal \<Rightarrow> ('e, 'h) world packet_writer" where
  "world_writer mar cmd sub m W =
     (case tcpConn_WritePacket mar cmd sub m W of
        Some (Ret r) \<Rightarrow> r
      | Some (Panic s) \<Rightarrow> (Some (ErrorString s), W)
      | None \<Rightarrow> (Some ErrTimeout, W))"

text \<open>The server keeps its factory and the state of nacos as application state.\<close>

definition server_discovery ::
  "(rat \<Rightarrow> float32) \<Rightarrow> ('s, 'cb) nacos_creator \<Rightarrow> marshal \<Rightarrow> proto_message option
    \<Rightarrow> ('e, ('s, 'cb) discoClientFactory \<times> 's) world \<Rightarrow> error option outcome \<times> ('e, ('s, 'cb) discoClientFactory \<times> 's) world" where
  "server_discovery f32 create mar pkt W =
     (case server_OnCmdDiscovery f32 create (world_writer mar) (c_id (w_conn W)) pkt (fst (w_app W), snd (w_app W), W) of
        (err, F, s, W') \<Rightarrow> (Ret err, W'\<lparr>w_app := (F, s)\<rparr>))"

text \<open>The client's handler without an inner one wakes the look-ups of the client it serves.\<close>

definition wake_client :: "LookupAck \<Rightarrow> ('e, rpcClient) world \<Rightarrow> ('e, rpcClient) world" where
  "wake_client ack W = W\<lparr>w_app := HandleLookupAck (Some ack) (w_app W)\<rparr>"

definition client_handler :: "('e, rpcClient) world EventHandler" where
  "client_handler = WrapEventHandler None (Some wake_client)"

subsection \<open>One packet over the wire\<close>

lemma world_writer_sends:
  assumes "online W" and "world_writer mar cmd sub m W = (None, W')"
  shows "fits mar m" "sent W' = sent W @ frame cmd sub (projr (mar m))" "online W'"
proof -
  have "tcpConn_WritePacket mar cmd sub m W = Some (Ret (None, W'))"
    using assms(2) by (auto simp: world_writer_def split: option.splits outcome.splits)
  from WritePacket_success [OF assms(1) this]
  show "fits mar m" "sent W' = sent W @ frame cmd sub (projr (mar m))" "online W'" by auto
qed

text \<open>Reading takes bytes from the input of the socket and leaves everything else alone.\<close>

definition input_apart :: "('e, 'h) world \<Rightarrow> ('e, 'h) world" where
  "input_apart W = upd_conn (\<lambda>c. c\<lparr>c_conn := map_option (nc_in_update (\<lambda>_. [])) (c_conn c)\<rparr>) W"

interpretation wire: packet_source tcpConn_Read reading incoming read_end input_apart world_reads tcpConn_IsClosed
proof
  fix W W' :: "('e, 'h) world" and n bs e
  assume *: "reading W" "0 < n" "tcpConn_Read n W = ((bs, e), W')"
  then obtain nc nc' where nc: "c_conn (w_conn W) = Some nc" "net_read n nc = ((bs, e), nc')"
    "W' = upd_conn (c_conn_update (\<lambda>_. Some nc')) W"
    by (auto simp: reading_def tcpConn_Read_def split: prod.splits)
  have "nc'\<lparr>nc_in := []\<rparr> = nc\<lparr>nc_in := []\<rparr>"
    using nc(2) by (auto simp: net_read_def split: list.splits if_splits)
  with * nc show "reading W' \<and> length bs \<le> n \<and> incoming W = bs @ incoming W' \<and>
      read_end W' = read_end W \<and> input_apart W' = input_apart W"
    using conn_l.delivers [of W n bs e W'] by (auto simp: input_apart_def upd_conn_def)
next
  show "reading W \<Longrightarrow> 0 < n \<Longrightarrow> tcpConn_Read n W = ((bs, Some x), W') \<Longrightarrow> bs = [] \<and> incoming W = [] \<and> x = read_end W"
    for W W' :: "('e, 'h) world" and n bs x
    by (rule conn_l.fails)
next
  show "reading W \<Longrightarrow> 0 < n \<Longrightarrow> tcpConn_Read n W = ((bs, None), W') \<Longrightarrow> world_reads W' < world_reads W"
    for W W' :: "('e, 'h) world" and n bs
    by (rule conn_l.decreases)
next
  show "reading W \<Longrightarrow> \<not> tcpConn_IsClosed W" for W :: "('e, 'h) world"
    by (rule conn_l.open_conn)
qed (simp add: defaultReadBufferSize_def)

lemma Unbox_marshalled:
  assumes "proto_codec_ok mar unm" and "fits mar m" and "map_of protocol (cmd, sub) = Some (kind m)"
  shows "Unbox unm cmd sub (projr (mar m)) = (Some m, None)"
  using assms Unbox_table [where cmd = cmd and sub = sub and unm = unm and data = "projr (mar m)"]
  by (auto simp: unmarshal_new_def proto_codec_ok_def fits_def)

lemma receive_packet:
  assumes "proto_codec_ok mar unm" and "fits mar m" and "map_of protocol (cmd, sub) = Some (kind m)"
    and "conn_l.buf_ok (r_br rd)" and "conn_l.buf_pending (r_br rd) = frame cmd sub (projr (mar m))"
    and "c_event (w_conn (br_src (r_br rd))) = Some e"
  shows "\<exists>rd' W. tcpReader_ReadPacket tcpConn_Read tcpConn_IsClosed rd =
      Some (Inr (frame_header cmd sub (projr (mar m)), payload (projr (mar m))), rd') \<and>
    br_src (r_br rd') = W \<and> input_apart W = input_apart (br_src (r_br rd)) \<and> reading W \<and>
    tcpConn_OnMessage unm cb (frame_header cmd sub (projr (mar m))) (payload (projr (mar m))) W =
      callback_of (cb e) cmd sub (Some m) W"
proof -
  let ?d = "projr (mar m)"
  have len: "length ?d \<le> 65535" using assms(2) by (auto simp: fits_def)
  note u = Unbox_marshalled [OF assms(1-3)]
  obtain rd' where r: "tcpReader_ReadPacket tcpConn_Read tcpConn_IsClosed rd =
      Some (Inr (frame_header cmd sub ?d, payload ?d), rd')"
      "conn_l.buf_ok (r_br rd')" "input_apart (br_src (r_br rd')) = input_apart (br_src (r_br rd))"
    using wire.ReadPacket_frame [OF assms(4), of cmd sub ?d "[]"] assms(5) len by auto
  let ?W = "br_src (r_br rd')"
  have W: "reading ?W" using r(2) by (simp add: conn_l.buf_ok_def)
  have "c_event (w_conn ?W) = Some e"
    using assms(6) arg_cong [OF r(3), of "\<lambda>W. c_event (w_conn W)"] by (simp add: input_apart_def upd_conn_def)
  moreover have "\<not> parentCtxDone ?W" using W by (simp add: reading_def)
  moreover have "slice_bytes (payload ?d) = ?d" by (simp add: slice_bytes_def payload_def)
  ultimately have "tcpConn_OnMessage unm cb (frame_header cmd sub ?d) (payload ?d) ?W = callback_of (cb e) cmd sub (Some m) ?W"
    by (subst OnMessage_Unbox) (simp_all add: frame_header_def u deliver_decoded_def)
  with r W show ?thesis by blast
qed

subsection \<open>There and back\<close>

lemma lookup_start_writes:
  assumes "lookup_start wr name g (r, c) = (Inr (key, ch), r1, c1)"
  shows "\<exists>node. Atoi (lookup_group g r) = Inr node \<and>
    wr 20 12 (MLookup (Lookup_zero\<lparr>lkp_ServiceName := name, lkp_Node := word_of_int node, lkp_Healthy := True\<rparr>)) c = (None, c1)"
  using assms by (auto simp: lookup_start_def Let_def u8_def split: if_splits sum.splits prod.splits option.splits)

lemma server_discovery_answers:
  assumes "server_discovery f32 create mar (Some (MLookup l)) W = (Ret None, W1)"
  shows "\<exists>cli F' s1 s' instances W'. GetDiscoClient create (uint (c_id (w_conn W))) '''' (w_app W) = (Some cli, F', s1) \<and>
    nacos_GetServiceInstances f32 cli (lkp_ServiceName l) (Itoa (sint (lkp_Node l))) [] s1 = (Inr instances, s') \<and>
    world_writer mar 20 13 (MLookupAck (lookup_ack l instances)) W = (None, W') \<and> W1 = W'\<lparr>w_app := (F', s')\<rparr>"
  using assms
  by (auto simp: server_discovery_def server_OnCmdDiscovery_def server_lookup_def u8_def
      split: prod.splits sum.splits option.splits)

lemma apart_fields:
  assumes "input_apart V = input_apart W" and "reading V"
  shows "w_app V = w_app W" "c_event (w_conn V) = c_event (w_conn W)" "c_id (w_conn V) = c_id (w_conn W)"
    "sent V = sent W" "c_writer (w_conn W) \<noteq> None \<Longrightarrow> online V"
proof -
  have "map_option (nc_in_update (\<lambda>_. [])) (c_conn (w_conn V)) = map_option (nc_in_update (\<lambda>_. [])) (c_conn (w_conn W))"
    using arg_cong [OF assms(1), of "\<lambda>W. c_conn (w_conn W)"] by (simp add: input_apart_def)
  from arg_cong [OF this, of "map_option nc_out"] show "sent V = sent W"
    by (auto simp: sent_def split: option.splits)
qed (use assms(2) arg_cong [OF assms(1), of w_app] arg_cong [OF assms(1), of "\<lambda>W. c_event (w_conn W)"]
    arg_cong [OF assms(1), of "\<lambda>W. c_id (w_conn W)"] arg_cong [OF assms(1), of "\<lambda>W. c_writer (w_conn W)"]
  in \<open>auto simp: input_apart_def upd_conn_def online_def reading_def\<close>)

lemma client_handler_ack:
  "ev_OnCmdDiscovery client_handler (Some (MLookupAck ack)) W = (Ret None, wake_client ack W)"
  by (simp add: client_handler_def WrapEventHandler_def Let_def as_LookupAck_def)

text \<open>
  C7: a look-up over the wire.  The client frames its request and writes it; the server reads
  the bytes, however the network cut them, and its callback returns without an error.  Then
  it has asked nacos for the group named by the request's node number, and the bytes it wrote
  are exactly one frame; when they reach the client, again cut in any way, its reader decodes
  them, its handler returns without an error, and the waiting caller holds the instances
  nacos returned, provided its group is spelled as that number or is the client's own.
\<close>

theorem lookup_over_wire:
  assumes "proto_codec_ok mar unm" and "rpc_inv r" and "online Wc"
    and start: "lookup_start (world_writer mar) name g (r, Wc) = (Inr (key, ch), r1, Wc1)"
    and "conn_l.buf_ok (r_br rs)" and "sent Wc1 = sent Wc @ conn_l.buf_pending (r_br rs)"
    and "c_event (w_conn (br_src (r_br rs))) = Some e" and "c_writer (w_conn (br_src (r_br rs))) \<noteq> None"
    and "ev_OnCmdDiscovery (scb e) = server_discovery f32 create mar"
    and read: "tcpReader_ReadPacket tcpConn_Read tcpConn_IsClosed rs = Some (Inr (h, p), rs1)"
    and call: "tcpConn_OnMessage unm scb h p (br_src (r_br rs1)) = (Ret None, Ws1)"
    and "conn_l.buf_ok (r_br rc)" and "sent Ws1 = sent (br_src (r_br rs)) @ conn_l.buf_pending (r_br rc)"
    and "c_event (w_conn (br_src (r_br rc))) = Some e'" and "w_app (br_src (r_br rc)) = r1"
    and "ccb e' = client_handler"
  shows "\<exists>node cli F' s1 s' instances h' p' rc1 Wc2. Atoi (lookup_group g r) = Inr node \<and>
    GetDiscoClient create (uint (c_id (w_conn (br_src (r_br rs))))) '''' (w_app (br_src (r_br rs))) = (Some cli, F', s1) \<and>
    nacos_GetServiceInstances f32 cli name (Itoa (sint (word_of_int node :: int32))) [] s1 = (Inr instances, s') \<and>
    w_app Ws1 = (F', s') \<and>
    tcpReader_ReadPacket tcpConn_Read tcpConn_IsClosed rc = Some (Inr (h', p'), rc1) \<and>
    tcpConn_OnMessage unm ccb h' p' (br_src (r_br rc1)) = (Ret None, Wc2) \<and>
    map_option fst (lookup_wait False (key, ch) (w_app Wc2)) =
      (if lookup_group g r \<in> {Itoa (sint (word_of_int node :: int32)), rc_groupName r}
       then Some (Inr (ack_Services (lookup_ack (Lookup_zero\<lparr>lkp_ServiceName := name, lkp_Node := word_of_int node,
         lkp_Healthy := True\<rparr>) instances))) else None)"
proof -
  obtain node where n: "Atoi (lookup_group g r) = Inr node" and
    w: "world_writer mar 20 12 (MLookup (Lookup_zero\<lparr>lkp_ServiceName := name, lkp_Node := word_of_int node, lkp_Healthy := True\<rparr>)) Wc =
      (None, Wc1)"
    using lookup_start_writes [OF start] by blast
  define l where "l = Lookup_zero\<lparr>lkp_ServiceName := name, lkp_Node := word_of_int node, lkp_Healthy := True\<rparr>"
  note sw = world_writer_sends [OF assms(3) w [folded l_def]]
  have known: "map_of protocol (20, 12) = Some (kind (MLookup l))" "map_of protocol (20, 13) = Some (kind (MLookupAck a))" for a
    by (simp_all add: protocol_def)
  have "conn_l.buf_pending (r_br rs) = frame 20 12 (projr (mar (MLookup l)))"
    using sw(2) assms(6) by simp
  from receive_packet [OF assms(1) sw(1) known(1) assms(5) this assms(7), of scb] read
  obtain V where V: "br_src (r_br rs1) = V" "input_apart V = input_apart (br_src (r_br rs))" "reading V"
    and "tcpConn_OnMessage unm scb h p V = callback_of (scb e) 20 12 (Some (MLookup l)) V"
    by auto
  then have "server_discovery f32 create mar (Some (MLookup l)) V = (Ret None, Ws1)"
    using call assms(9) by (simp add: callback_of_def)
  from server_discovery_answers [OF this] obtain cli F' s1 s' instances W' where
    a: "GetDiscoClient create (uint (c_id (w_conn V))) '''' (w_app V) = (Some cli, F', s1)"
    "nacos_GetServiceInstances f32 cli name (Itoa (sint (word_of_int node :: int32))) [] s1 = (Inr instances, s')"
    "world_writer mar 20 13 (MLookupAck (lookup_ack l instances)) V = (None, W')" "Ws1 = W'\<lparr>w_app := (F', s')\<rparr>"
    by (auto simp: l_def)
  note fV = apart_fields [OF V(2,3)]
  note aw = world_writer_sends [OF fV(5) [OF assms(8)] a(3)]
  let ?ack = "lookup_ack l instances"
  have "sent Ws1 = sent W'" by (simp add: a(4) sent_def)
  then have "conn_l.buf_pending (r_br rc) = frame 20 13 (projr (mar (MLookupAck ?ack)))"
    using aw(2) assms(13) fV(4) by simp
  from receive_packet [OF assms(1) aw(1) known(2) assms(12) this assms(14), of ccb]
  obtain rc1 U h' p' where U: "tcpReader_ReadPacket tcpConn_Read tcpConn_IsClosed rc = Some (Inr (h', p'), rc1)"
    "br_src (r_br rc1) = U" "input_apart U = input_apart (br_src (r_br rc))" "reading U"
    "tcpConn_OnMessage unm ccb h' p' U = (Ret None, wake_client ?ack U)"
    using assms(16) by (auto simp: callback_of_def client_handler_ack)
  define svc where "svc = \<lparr>svc_Instances = instances, svc_Cluster = '''', svc_Name = name,
    svc_GroupName = Itoa (sint (word_of_int node :: int32)), svc_Valid = True\<rparr>"
  have ack: "?ack = \<lparr>ack_Services = [Some svc]\<rparr>" by (simp add: lookup_ack_def svc_def l_def)
  have "lookup_group g r \<noteq> ''''" using n by (auto simp: Atoi_def)
  then have "map_option fst (lookup_wait False (key, ch) (w_app (wake_client ?ack U))) =
      (if lookup_group g r \<in> {Itoa (sint (word_of_int node :: int32)), rc_groupName r} then Some (Inr (ack_Services ?ack)) else None)"
    using wait_after_ack [OF assms(2) start, of svc] apart_fields(1) [OF U(3,4)] assms(15) ack
    by (simp add: wake_client_def svc_def)
  with n a fV U V(1) show ?thesis
    by (auto simp: l_def)
qed

subsection \<open>A small session\<close>

definition app_world :: "'h \<Rightarrow> bytes list \<Rightarrow> (unit, 'h) world" where
  "app_world a chunks = \<lparr>w_conn = (tcpConn_zero demo_options)\<lparr>c_conn := Some (demo_net chunks),
       c_writer := Some newWriter, c_closeChan := ChanOpen\<rparr>,
     w_self = 0, w_app = a, w_outgoing = [], w_ctx = None, w_wg = 0, w_tasks = [], w_rawclosed = [],
     w_dials = 0\<rparr>"

lemmas app_defs = app_world_def demo_net_def demo_options_def tcpConn_zero_def

text \<open>A codec that knows one request and its acknowledgement.\<close>

definition demo_request :: Lookup where
  "demo_request = Lookup_zero\<lparr>lkp_ServiceName := ''api'', lkp_Node := word_of_int 1, lkp_Healthy := True\<rparr>"

definition demo_ack :: LookupAck where
  "demo_ack = lookup_ack demo_request (convert_hosts (\<lambda>w. w) [demo_host])"

definition disco_marshal :: marshal where
  "disco_marshal m = (if m = MLookup demo_request then Inr [1] else if m = MLookupAck demo_ack then Inr [2] else Inl (External 0))"

definition disco_unmarshal :: unmarshal where
  "disco_unmarshal d m = (case m of MLookup _ \<Rightarrow> (MLookup demo_request, None)
     | MLookupAck _ \<Rightarrow> (MLookupAck demo_ack, None) | _ \<Rightarrow> (m, Some (External 0)))"

lemma disco_codec_ok: "proto_codec_ok disco_marshal disco_unmarshal"
  by (auto simp: proto_codec_ok_def disco_marshal_def disco_unmarshal_def split: if_splits proto_message.splits)

definition demo_server_cb :: "unit \<Rightarrow> (unit, (demo_server, unit) discoClientFactory \<times> demo_server) world EventHandler" where
  "demo_server_cb _ = (WrapEventHandler None None)\<lparr>ev_OnCmdDiscovery := server_discovery (\<lambda>w. w) demo_creator disco_marshal\<rparr>"

lemma app_world_facts [simp]:
  "online (app_world a chunks)" "reading (app_world a chunks)" "incoming (app_world a chunks) = concat chunks"
  "sent (app_world a chunks) = []" "w_app (app_world a chunks) = a" "c_event (w_conn (app_world a chunks)) = Some ()"
  "c_writer (w_conn (app_world a chunks)) = Some newWriter" "c_conn (w_conn (app_world a chunks)) = Some (demo_net chunks)"
  by (simp_all add: app_defs online_def reading_def incoming_def sent_def parentCtxDone_def)

lemma world_writer_clean:
  assumes "online W" and "map_option nc_wfail (c_conn (w_conn W)) = Some []" and "fits mar m"
  shows "\<exists>W'. world_writer mar cmd sub m W = (None, W')"
proof -
  obtain nc where "c_conn (w_conn W) = Some nc" "nc_wfail nc = []" using assms(2) by auto
  from WritePacket_clean [OF this assms(1,3), of cmd sub] show ?thesis by (auto simp: world_writer_def)
qed

lemma apart_wfail:
  assumes "input_apart V = input_apart W"
  shows "map_option nc_wfail (c_conn (w_conn V)) = map_option nc_wfail (c_conn (w_conn W))"
proof -
  have "map_option (nc_in_update (\<lambda>_. [])) (c_conn (w_conn V)) = map_option (nc_in_update (\<lambda>_. [])) (c_conn (w_conn W))"
    using arg_cong [OF assms, of "\<lambda>W. c_conn (w_conn W)"] by (simp add: input_apart_def)
  from arg_cong [OF this, of "map_option nc_wfail"] show ?thesis by (simp add: option.map_comp comp_def)
qed

lemma demo_fits: "fits disco_marshal (MLookup demo_request)" "fits disco_marshal (MLookupAck demo_ack)"
  by (simp_all add: fits_def disco_marshal_def)

lemma demo_wire_start:
  "\<exists>Wc. lookup_start (world_writer disco_marshal) ''api'' '''' (rpcClient_new ''1'', app_world () []) =
      (Inr (''api@1'', 0), waiting, Wc) \<and> sent Wc = frame 20 12 [1]"
proof -
  have "Atoi ''1'' = Inr 1" by (simp add: Atoi_def is_digit_def digits_value_def)
  moreover obtain Wc where w: "world_writer disco_marshal 20 12 (MLookup demo_request) (app_world () []) = (None, Wc)"
    using world_writer_clean [OF _ _ demo_fits(1), of "app_world () []"] by (auto simp: demo_net_def)
  moreover have "sent Wc = frame 20 12 [1]"
    using world_writer_sends(2) [OF _ w] by (simp add: disco_marshal_def)
  ultimately show ?thesis
    by (intro exI [of _ Wc]) (simp add: lookup_start_def lookup_group_def rpcClient_new_def waiting_def lookupKey_def Let_def
        fun_upd_idem u8_def demo_request_def)
qed

lemma demo_wire_answer:
  assumes "s = (\<lambda>_. [demo_host], Map.empty)"
  shows "\<exists>h p rs1 Ws1. tcpReader_ReadPacket tcpConn_Read tcpConn_IsClosed
      (newReader_state (app_world (demo_factory, s) [[0, 1, 20], [12, 1, 0, 0, 0, 1]])) = Some (Inr (h, p), rs1) \<and>
    tcpConn_OnMessage disco_unmarshal demo_server_cb h p (br_src (r_br rs1)) = (Ret None, Ws1) \<and>
    sent Ws1 = frame 20 13 [2]"
proof -
  let ?W = "app_world (demo_factory, s) [[0, 1, 20], [12, 1, 0, 0, 0, 1]]"
  have "conn_l.buf_pending (r_br (newReader_state ?W)) = frame 20 12 (projr (disco_marshal (MLookup demo_request)))"
    by (simp add: disco_marshal_def frame_def BE_bytes16_def)
  from receive_packet [OF disco_codec_ok demo_fits(1) _ _ this, of "()" demo_server_cb]
  obtain h p rs1 V where r: "tcpReader_ReadPacket tcpConn_Read tcpConn_IsClosed (newReader_state ?W) = Some (Inr (h, p), rs1)"
    "br_src (r_br rs1) = V" "input_apart V = input_apart ?W" "reading V"
    "tcpConn_OnMessage disco_unmarshal demo_server_cb h p V =
      callback_of (demo_server_cb ()) 20 12 (Some (MLookup demo_request)) V"
    by (auto simp: protocol_def)
  note f = apart_fields [OF r(3,4)]
  have on: "online V" using f(5) by simp
  obtain W' where w: "world_writer disco_marshal 20 13 (MLookupAck demo_ack) V = (None, W')"
    using world_writer_clean [OF on _ demo_fits(2)] apart_wfail [OF r(3)] by (auto simp: demo_net_def)
  obtain F' where "GetDiscoClient demo_creator (uint (c_id (w_conn V))) '''' (demo_factory, s) = (Some demo_nacos, F', s)"
    using demo_GetDiscoClient by blast
  with f(1) w assms have "server_discovery (\<lambda>w. w) demo_creator disco_marshal (Some (MLookup demo_request)) V =
      (Ret None, W'\<lparr>w_app := (F', s)\<rparr>)"
    by (simp add: server_discovery_def server_OnCmdDiscovery_def server_lookup_def demo_query u8_def demo_ack_def)
  moreover have "sent W' = frame 20 13 [2]"
    using world_writer_sends(2) [OF on w] f(4) by (simp add: disco_marshal_def)
  ultimately show ?thesis using r
    by (intro exI [of _ h] exI [of _ p] exI [of _ rs1] exI [of _ "W'\<lparr>w_app := (F', s)\<rparr>"])
      (simp add: callback_of_def demo_server_cb_def sent_def)
qed

theorem lookup_over_wire_witness:
  "\<exists>h p rc1 Wc. tcpReader_ReadPacket tcpConn_Read tcpConn_IsClosed
      (newReader_state (app_world waiting [[0, 1, 20, 13, 1], [0, 0, 0], [2]])) = Some (Inr (h, p), rc1) \<and>
    tcpConn_OnMessage disco_unmarshal (\<lambda>_. client_handler) h p (br_src (r_br rc1)) = (Ret None, Wc) \<and>
    (\<exists>services. map_option fst (lookup_wait False (''api@1'', 0) (w_app Wc)) = Some (Inr services))"
proof -
  let ?s = "(\<lambda>_. [demo_host], Map.empty) :: demo_server"
  let ?Ws = "app_world (demo_factory, ?s) [[0, 1, 20], [12, 1, 0, 0, 0, 1]]"
  obtain Wc where c: "lookup_start (world_writer disco_marshal) ''api'' '''' (rpcClient_new ''1'', app_world () []) =
      (Inr (''api@1'', 0), waiting, Wc)" "sent Wc = frame 20 12 [1]"
    using demo_wire_start by blast
  obtain h p rs1 Ws1 where a: "tcpReader_ReadPacket tcpConn_Read tcpConn_IsClosed (newReader_state ?Ws) = Some (Inr (h, p), rs1)"
    "tcpConn_OnMessage disco_unmarshal demo_server_cb h p (br_src (r_br rs1)) = (Ret None, Ws1)" "sent Ws1 = frame 20 13 [2]"
    using demo_wire_answer [OF refl] by blast
  have g: "lookup_group '''' (rpcClient_new ''1'') = rc_groupName (rpcClient_new ''1'')" by (simp add: lookup_group_def)
  show ?thesis
    using lookup_over_wire [OF disco_codec_ok new_rpc_inv _ c(1), of "newReader_state ?Ws" "()" demo_server_cb "\<lambda>w. w"
        demo_creator h p rs1 Ws1 "newReader_state (app_world waiting [[0, 1, 20, 13, 1], [0, 0, 0], [2]])" "()" "\<lambda>_. client_handler"]
      c(2) a g
    by (simp add: demo_server_cb_def frame_def BE_bytes16_def) blast
qed

end
