(* ===== verification/Scheduler.thy ===== *)
theory Scheduler
  imports NF_Prelude
begin

text \<open>
  The task scheduler (\<open>pkg/dataflow/task/scheduler.go\<close>).  Tasks are pointers, so the list
  holds references and \<open>run_tasks\<close> works on a heap of task values; \<open>Next\<close> and \<open>Run\<close>
  are the methods of the \<open>Task\<close> interface.  The second half is the concurrent system of
  the scheduler: calls of \<open>Start\<close>, the two halves of \<open>Stop\<close> (it releases the mutex
  before it closes the channel) and the goroutines of \<open>run\<close>, as a step relation.  A
  goroutine reads \<open>s.stop\<close> each time it enters its \<open>select\<close>.
\<close>

subsection \<open>State and the task list\<close>

record scheduler =
  s_stop :: "nat option"
  s_started :: bool
  s_tasks :: "nat list"

definition scheduler_zero :: scheduler where
  "scheduler_zero = \<lparr>s_stop = None, s_started = False, s_tasks = []\<rparr>"

definition AddTask :: "nat \<Rightarrow> scheduler \<Rightarrow> scheduler" where
  "AddTask t s = s\<lparr>s_tasks := s_tasks s @ [t]\<rparr>"

definition GetTasks :: "scheduler \<Rightarrow> nat list" where
  "GetTasks s = s_tasks s"

fun remove_first :: "('a \<Rightarrow> bool) \<Rightarrow> 'a list \<Rightarrow> 'a list" where
  "remove_first P [] = []"
| "remove_first P (x # xs) = (if P x then xs else x # remove_first P xs)"

definition RemoveTask :: "('t \<Rightarrow> string) \<Rightarrow> (nat \<Rightarrow> 't) \<Rightarrow> string \<Rightarrow> scheduler \<Rightarrow> scheduler" where
  "RemoveTask ID heap tid s = s\<lparr>s_tasks := remove_first (\<lambda>t. ID (heap t) = tid) (s_tasks s)\<rparr>"

subsection \<open>One tick\<close>

text \<open>
  \<open>Next\<close> is \<open>None\<close> for the zero time.  \<open>Run\<close> may panic, which ends the process, or
  never return (\<open>None\<close>); its error is ignored.  The list is the snapshot taken under the
  lock.
\<close>

type_synonym ('t, 'w) runner = "'t \<Rightarrow> 'w \<Rightarrow> (error option \<times> 't \<times> 'w) outcome option"

definition due :: "int option \<Rightarrow> int \<Rightarrow> bool" where
  "due next now \<longleftrightarrow> (case next of None \<Rightarrow> True | Some n \<Rightarrow> \<not> now < n)"

fun run_tasks ::
  "('t \<Rightarrow> int option) \<Rightarrow> ('t, 'w) runner \<Rightarrow> int \<Rightarrow> nat list \<Rightarrow> (nat \<Rightarrow> 't) \<Rightarrow> 'w
    \<Rightarrow> ((nat \<Rightarrow> 't) \<times> 'w) outcome option" where
  "run_tasks Next Run now [] heap w = Some (Ret (heap, w))"
| "run_tasks Next Run now (t # ts) heap w =
     (if \<not> due (Next (heap t)) now then run_tasks Next Run now ts heap w
      else (case Run (heap t) w of
          None \<Rightarrow> None
        | Some (Panic m) \<Rightarrow> Some (Panic m)
        | Some (Ret (_, x, w')) \<Rightarrow> run_tasks Next Run now ts (heap(t := x)) w'))"

text \<open>A tick of \<open>run\<close>: \<open>clock\<close> is \<open>time.Now()\<close>.\<close>

definition run_tick ::
  "('w \<Rightarrow> int) \<Rightarrow> ('t \<Rightarrow> int option) \<Rightarrow> ('t, 'w) runner \<Rightarrow> scheduler \<Rightarrow> (nat \<Rightarrow> 't) \<Rightarrow> 'w
    \<Rightarrow> ((nat \<Rightarrow> 't) \<times> 'w) outcome option" where
  "run_tick clock Next Run s heap w = run_tasks Next Run (clock w) (s_tasks s) heap w"

subsection \<open>The concurrent system\<close>

datatype loop_state = Entering | Selecting nat

text \<open>
  \<open>y_stoppers\<close>: calls of \<open>Stop\<close> that have released the mutex and not yet closed their
  channel; \<open>y_waiting\<close>: calls in \<open>wg.Wait()\<close>; \<open>y_next\<close>: the next fresh channel.
\<close>

record sched_sys =
  y_s :: scheduler
  y_loops :: "loop_state list"
  y_wg :: nat
  y_stoppers :: "nat list"
  y_waiting :: nat
  y_closed :: "nat list"
  y_next :: nat

definition sys_zero :: sched_sys where
  "sys_zero = \<lparr>y_s = scheduler_zero, y_loops = [], y_wg = 0, y_stoppers = [], y_waiting = 0, y_closed = [], y_next = 0\<rparr>"

definition scheduler_Start :: "sched_sys \<Rightarrow> error option \<times> sched_sys" where
  "scheduler_Start y =
     (if s_started (y_s y) then (Some (ErrorString ''task manager already started''), y)
      else (None, y\<lparr>y_s := (y_s y)\<lparr>s_stop := Some (y_next y), s_started := True\<rparr>, y_next := Suc (y_next y),
                    y_wg := Suc (y_wg y), y_loops := y_loops y @ [Entering]\<rparr>))"

text \<open>\<open>Stop\<close> up to the unlock, its close of the channel, and its return from \<open>Wait\<close>.\<close>

definition Stop_unlock :: "sched_sys \<Rightarrow> sched_sys" where
  "Stop_unlock y =
     (if \<not> s_started (y_s y) then y
      else (case s_stop (y_s y) of
          None \<Rightarrow> y
        | Some c \<Rightarrow> y\<lparr>y_s := (y_s y)\<lparr>s_started := False\<rparr>, y_stoppers := y_stoppers y @ [c]\<rparr>))"

definition Stop_close :: "nat \<Rightarrow> sched_sys \<Rightarrow> sched_sys outcome" where
  "Stop_close c y =
     (if c \<in> set (y_closed y) then Panic ''close of closed channel''
      else Ret (y\<lparr>y_stoppers := remove1 c (y_stoppers y), y_closed := c # y_closed y, y_waiting := Suc (y_waiting y)\<rparr>))"

definition Stop_return :: "sched_sys \<Rightarrow> sched_sys" where
  "Stop_return y = y\<lparr>y_waiting := y_waiting y - 1\<rparr>"

definition remove_nth :: "nat \<Rightarrow> 'a list \<Rightarrow> 'a list" where
  "remove_nth i xs = take i xs @ drop (Suc i) xs"

text \<open>The goroutine: it enters the \<open>select\<close>, handles a tick, or returns.\<close>

definition run_enter :: "nat \<Rightarrow> nat \<Rightarrow> sched_sys \<Rightarrow> sched_sys" where
  "run_enter i c y = y\<lparr>y_loops := (y_loops y)[i := Selecting c]\<rparr>"

definition run_ticked :: "nat \<Rightarrow> sched_sys \<Rightarrow> sched_sys" where
  "run_ticked i y = y\<lparr>y_loops := (y_loops y)[i := Entering]\<rparr>"

definition run_return :: "nat \<Rightarrow> sched_sys \<Rightarrow> sched_sys" where
  "run_return i y = y\<lparr>y_loops := remove_nth i (y_loops y), y_wg := y_wg y - 1\<rparr>"

text \<open>
  With \<open>seq\<close> the callers do not overlap a \<open>Start\<close> with a \<open>Stop\<close> that has not returned.
\<close>

inductive sched_step :: "bool \<Rightarrow> sched_sys \<Rightarrow> sched_sys \<Rightarrow> bool" for seq where
  start: "seq \<longrightarrow> y_stoppers y = [] \<and> y_waiting y = 0 \<Longrightarrow> sched_step seq y (snd (scheduler_Start y))"
| stop_unlock: "sched_step seq y (Stop_unlock y)"
| stop_close: "c \<in> set (y_stoppers y) \<Longrightarrow> Stop_close c y = Ret y' \<Longrightarrow> sched_step seq y y'"
| stop_return: "0 < y_waiting y \<Longrightarrow> y_wg y = 0 \<Longrightarrow> sched_step seq y (Stop_return y)"
| add: "sched_step seq y (y\<lparr>y_s := AddTask t (y_s y)\<rparr>)"
| remove: "sched_step seq y (y\<lparr>y_s := RemoveTask (ID :: nat \<Rightarrow> string) (\<lambda>t. t) tid (y_s y)\<rparr>)"
| enter: "i < length (y_loops y) \<Longrightarrow> y_loops y ! i = Entering \<Longrightarrow> s_stop (y_s y) = Some c \<Longrightarrow>
    sched_step seq y (run_enter i c y)"
| tick: "i < length (y_loops y) \<Longrightarrow> y_loops y ! i = Selecting c \<Longrightarrow> sched_step seq y (run_ticked i y)"
| leave: "i < length (y_loops y) \<Longrightarrow> y_loops y ! i = Selecting c \<Longrightarrow> c \<in> set (y_closed y) \<Longrightarrow>
    sched_step seq y (run_return i y)"

definition sched_reach :: "bool \<Rightarrow> sched_sys \<Rightarrow> bool" where
  "sched_reach seq y \<longleftrightarrow> (sched_step seq)\<^sup>*\<^sup>* sys_zero y"

subsection \<open>Invariant\<close>

text \<open>
  The wait group counts the goroutines; a channel is closed or about to be closed at most
  once; a started scheduler's channel is neither.
\<close>

definition sched_inv :: "sched_sys \<Rightarrow> bool" where
  "sched_inv y \<longleftrightarrow> y_wg y = length (y_loops y) \<and> distinct (y_stoppers y) \<and>
     set (y_stoppers y) \<inter> set (y_closed y) = {} \<and>
     (\<forall>c \<in> set (y_stoppers y) \<union> set (y_closed y). c < y_next y) \<and>
     (\<forall>c. s_stop (y_s y) = Some c \<longrightarrow> c < y_next y) \<and>
     (s_started (y_s y) \<longrightarrow> (\<exists>c. s_stop (y_s y) = Some c \<and> c \<notin> set (y_stoppers y) \<and> c \<notin> set (y_closed y))) \<and>
     (s_stop (y_s y) = None \<longrightarrow> y_loops y = [])"

lemma length_remove_nth: "i < length xs \<Longrightarrow> length (remove_nth i xs) = length xs - 1"
  by (simp add: remove_nth_def)

lemma tasks_sel [simp]:
  "s_stop (AddTask t s) = s_stop s" "s_started (AddTask t s) = s_started s"
  "s_stop (RemoveTask f h i s) = s_stop s" "s_started (RemoveTask f h i s) = s_started s"
  by (simp_all add: AddTask_def RemoveTask_def)

lemma sched_inv_zero [inv_intros]: "sched_inv sys_zero"
  by (simp add: sched_inv_def sys_zero_def scheduler_zero_def)

lemma sched_inv_start [inv_intros]: "sched_inv y \<Longrightarrow> sched_inv (snd (scheduler_Start y))"
  by (auto simp: sched_inv_def scheduler_Start_def less_Suc_eq)

lemma sched_inv_unlock [inv_intros]: "sched_inv y \<Longrightarrow> sched_inv (Stop_unlock y)"
  by (fastforce simp: sched_inv_def Stop_unlock_def split: option.splits)

lemma sched_inv_close [inv_intros]:
  "sched_inv y \<Longrightarrow> c \<in> set (y_stoppers y) \<Longrightarrow> Stop_close c y = Ret y' \<Longrightarrow> sched_inv y'"
  by (auto simp: sched_inv_def Stop_close_def split: if_splits)

lemma sched_inv_loops [inv_intros]:
  "sched_inv y \<Longrightarrow> sched_inv (run_enter i c y)" "sched_inv y \<Longrightarrow> sched_inv (run_ticked i y)"
  "sched_inv y \<Longrightarrow> i < length (y_loops y) \<Longrightarrow> sched_inv (run_return i y)"
  by (auto simp: sched_inv_def run_enter_def run_ticked_def run_return_def length_remove_nth remove_nth_def)

lemma sched_inv_step: "sched_step seq y y' \<Longrightarrow> sched_inv y \<Longrightarrow> sched_inv y'"
proof (induction rule: sched_step.induct)
  case (add y t)
  then show ?case by (simp add: sched_inv_def)
next
  case (remove y ID tid)
  then show ?case by (simp add: sched_inv_def)
next
  case (stop_return y)
  then show ?case by (simp add: sched_inv_def Stop_return_def)
qed (auto intro: inv_intros)

interpretation sched_ts: transition_system "sched_step seq" sched_inv for seq
  by unfold_locales (rule sched_inv_step)

lemma sched_inv_reach: "sched_reach seq y \<Longrightarrow> sched_inv y"
  unfolding sched_reach_def by (rule sched_ts.steps_inv [OF _ sched_inv_zero])

subsection \<open>Callers that do not overlap Start and Stop\<close>

text \<open>
  At most one goroutine; a stopped goroutine has its channel closed or about to be closed,
  and is on its way to see it.
\<close>

definition seq_inv :: "sched_sys \<Rightarrow> bool" where
  "seq_inv y \<longleftrightarrow> sched_inv y \<and> length (y_loops y) \<le> 1 \<and>
     (s_started (y_s y) \<longrightarrow> y_stoppers y = [] \<and> y_waiting y = 0 \<and> length (y_loops y) = 1) \<and>
     (y_loops y \<noteq> [] \<and> \<not> s_started (y_s y) \<longrightarrow>
        (y_stoppers y \<noteq> [] \<and> y_waiting y = 0 \<or> y_stoppers y = [] \<and> y_waiting y = 1)) \<and>
     (y_stoppers y = [] \<and> y_loops y \<noteq> [] \<and> \<not> s_started (y_s y) \<longrightarrow>
        (\<exists>c. s_stop (y_s y) = Some c \<and> c \<in> set (y_closed y))) \<and>
     (\<forall>c. Selecting c \<in> set (y_loops y) \<longrightarrow> s_stop (y_s y) = Some c) \<and>
     (\<forall>c. c \<in> set (y_stoppers y) \<longrightarrow> s_stop (y_s y) = Some c \<and> y_loops y \<noteq> [] \<and> y_stoppers y = [c])"

lemma seq_inv_zero: "seq_inv sys_zero"
  by (simp add: seq_inv_def sched_inv_zero) (simp add: sys_zero_def scheduler_zero_def)

lemma seq_inv_start:
  assumes "seq_inv y" and "y_stoppers y = [] \<and> y_waiting y = 0"
  shows "seq_inv (snd (scheduler_Start y))"
proof (cases "s_started (y_s y)")
  case False
  with assms have "y_loops y = []" by (auto simp: seq_inv_def)
  with False assms sched_inv_start [of y] show ?thesis
    by (simp add: seq_inv_def scheduler_Start_def)
qed (use assms(1) in \<open>simp add: scheduler_Start_def\<close>)

lemma seq_inv_unlock: "seq_inv y \<Longrightarrow> seq_inv (Stop_unlock y)"
  using sched_inv_unlock [of y]
  by (cases "s_started (y_s y)"; cases "s_stop (y_s y)") (auto simp: seq_inv_def Stop_unlock_def)

lemma seq_inv_close:
  assumes "seq_inv y" and "c \<in> set (y_stoppers y)" and "Stop_close c y = Ret y'"
  shows "seq_inv y'"
proof -
  have c: "s_stop (y_s y) = Some c" "y_loops y \<noteq> []" "y_stoppers y = [c]" "\<not> s_started (y_s y)" "y_waiting y = 0"
    using assms(1,2) by (auto simp: seq_inv_def)
  have y': "y' = y\<lparr>y_stoppers := [], y_closed := c # y_closed y, y_waiting := 1\<rparr>"
    using assms(3) c by (simp add: Stop_close_def split: if_splits)
  have "sched_inv y'" using sched_inv_close [OF _ assms(2,3)] assms(1) by (simp add: seq_inv_def)
  with assms(1) c show ?thesis by (simp add: seq_inv_def y')
qed

lemma seq_inv_return: "seq_inv y \<Longrightarrow> y_wg y = 0 \<Longrightarrow> seq_inv (Stop_return y)"
  by (auto simp: seq_inv_def sched_inv_def Stop_return_def)

lemma single: "length xs \<le> 1 \<Longrightarrow> i < length xs \<Longrightarrow> xs = [xs ! i] \<and> i = 0"
  by (cases xs) auto

lemma seq_inv_loop:
  assumes "seq_inv y" and "i < length (y_loops y)"
  shows "s_stop (y_s y) = Some c \<Longrightarrow> seq_inv (run_enter i c y)" and "seq_inv (run_ticked i y)"
    and "y_loops y ! i = Selecting c \<Longrightarrow> c \<in> set (y_closed y) \<Longrightarrow> seq_inv (run_return i y)"
proof -
  have one: "i = 0" "\<exists>l. y_loops y = [l]"
    using single [of "y_loops y" i] assms by (auto simp: seq_inv_def)
  show "seq_inv (run_enter i c y)" if "s_stop (y_s y) = Some c"
    using assms one that sched_inv_loops(1) [of y i c] by (auto simp: seq_inv_def run_enter_def)
  show "seq_inv (run_ticked i y)"
    using assms one sched_inv_loops(2) [of y i] by (auto simp: seq_inv_def run_ticked_def)
  show "seq_inv (run_return i y)" if l: "y_loops y ! i = Selecting c" and c: "c \<in> set (y_closed y)"
  proof -
    have "s_stop (y_s y) = Some c" using assms(1) one l by (auto simp: seq_inv_def)
    moreover from this c have "\<not> s_started (y_s y)" "y_stoppers y = []"
      using assms(1) by (auto simp: seq_inv_def sched_inv_def) (cases "y_stoppers y"; auto)
    ultimately show ?thesis
      using assms one sched_inv_loops(3) [of y i] by (auto simp: seq_inv_def run_return_def remove_nth_def)
  qed
qed

lemma seq_inv_step: "sched_step True y y' \<Longrightarrow> seq_inv y \<Longrightarrow> seq_inv y'"
proof (induction rule: sched_step.induct)
  case (add y t)
  then show ?case by (auto simp: seq_inv_def sched_inv_def)
next
  case (remove y ID tid)
  then show ?case by (auto simp: seq_inv_def sched_inv_def)
qed (auto intro: seq_inv_start seq_inv_unlock seq_inv_close seq_inv_return seq_inv_loop)

interpretation seq_ts: transition_system "sched_step True" seq_inv
  by unfold_locales (rule seq_inv_step)

lemma seq_inv_reach: "sched_reach True y \<Longrightarrow> seq_inv y"
  unfolding sched_reach_def by (rule seq_ts.steps_inv [OF _ seq_inv_zero])

lemma leave_returns:
  assumes "seq_inv y" and "y_loops y = [Selecting c]" and "c \<in> set (y_closed y)" and "0 < y_waiting y"
  shows "\<exists>y'. (sched_step True)\<^sup>*\<^sup>* y y' \<and> y_loops y' = [] \<and> y_waiting y' = y_waiting y - 1"
proof -
  have "sched_step True y (run_return 0 y)" using assms by (intro sched_step.leave) auto
  moreover have "sched_step True (run_return 0 y) (Stop_return (run_return 0 y))"
    using assms by (intro sched_step.stop_return) (auto simp: run_return_def seq_inv_def sched_inv_def)
  ultimately have "(sched_step True)\<^sup>*\<^sup>* y (Stop_return (run_return 0 y))" by simp
  then show ?thesis
    using assms(2) by (intro exI [of _ "Stop_return (run_return 0 y)"]) (simp add: Stop_return_def run_return_def remove_nth_def)
qed

lemma stop_returns:
  assumes "seq_inv y" and "0 < y_waiting y"
  shows "\<exists>y'. (sched_step True)\<^sup>*\<^sup>* y y' \<and> y_loops y' = [] \<and> y_waiting y' = y_waiting y - 1"
proof (cases "y_loops y")
  case Nil
  with assms have "sched_step True y (Stop_return y)"
    by (intro sched_step.stop_return) (auto simp: seq_inv_def sched_inv_def)
  with Nil show ?thesis by (intro exI [of _ "Stop_return y"]) (auto simp: Stop_return_def)
next
  case (Cons l ls)
  with assms have st: "\<not> s_started (y_s y)" "y_stoppers y = []" "ls = []" by (auto simp: seq_inv_def)
  then obtain c where c: "s_stop (y_s y) = Some c" "c \<in> set (y_closed y)"
    using assms(1) Cons by (auto simp: seq_inv_def)
  show ?thesis
  proof (cases l)
    case Entering
    with Cons st c have step: "sched_step True y (run_enter 0 c y)" by (intro sched_step.enter) auto
    moreover have "\<exists>y'. (sched_step True)\<^sup>*\<^sup>* (run_enter 0 c y) y' \<and> y_loops y' = [] \<and> y_waiting y' = y_waiting y - 1"
      using leave_returns [of "run_enter 0 c y" c] seq_inv_step [OF step assms(1)] Cons st c assms(2)
      by (simp add: run_enter_def)
    ultimately show ?thesis by (meson converse_rtranclp_into_rtranclp)
  next
    case (Selecting d)
    then have "d = c" using assms(1) Cons c by (auto simp: seq_inv_def)
    with leave_returns [OF assms(1) _ c(2) assms(2)] Cons st Selecting show ?thesis by simp
  qed
qed

subsection \<open>Properties of the lifecycle\<close>

text \<open>
  In every state that concurrent calls of \<open>Start\<close>, \<open>Stop\<close>, \<open>AddTask\<close> and
  \<open>RemoveTask\<close> can reach, the wait group counts exactly the running goroutines and no
  \<open>Stop\<close> closes a channel twice, so \<open>close(stop)\<close> never panics.
\<close>

theorem scheduler_reachable_safe:
  assumes "sched_reach seq y"
  shows "y_wg y = length (y_loops y) \<and> (\<forall>c \<in> set (y_stoppers y). \<exists>y'. Stop_close c y = Ret y')"
  using sched_inv_reach [OF assms] by (auto simp: sched_inv_def Stop_close_def)

lemma reach_zero: "sched_reach seq sys_zero"
  by (simp add: sched_reach_def)

lemma reach_step: "sched_reach seq y \<Longrightarrow> sched_step seq y y' \<Longrightarrow> sched_reach seq y'"
  by (auto simp: sched_reach_def)

definition demo_sys :: "bool \<Rightarrow> nat option \<Rightarrow> loop_state list \<Rightarrow> nat list \<Rightarrow> nat \<Rightarrow> nat list \<Rightarrow> nat \<Rightarrow> sched_sys" where
  "demo_sys st c ls sp w cl n = \<lparr>y_s = \<lparr>s_stop = c, s_started = st, s_tasks = []\<rparr>, y_loops = ls, y_wg = length ls,
     y_stoppers = sp, y_waiting = w, y_closed = cl, y_next = n\<rparr>"

lemmas demo_sys_defs = demo_sys_def sys_zero_def scheduler_zero_def scheduler_Start_def Stop_unlock_def Stop_close_def
  run_enter_def run_ticked_def run_return_def remove_nth_def

lemma demo_started: "sched_reach seq (demo_sys True (Some 0) [Selecting 0] [] 0 [] 1)"
proof -
  have "sched_reach seq (demo_sys True (Some 0) [Entering] [] 0 [] 1)"
    using reach_step [OF reach_zero sched_step.start [of seq sys_zero]] by (simp add: demo_sys_defs)
  from reach_step [OF this sched_step.enter [of 0 _ 0]] show ?thesis by (simp add: demo_sys_defs)
qed

lemma demo_stopping: "sched_reach seq (demo_sys False (Some 0) [Selecting 0] [0] 0 [] 1)"
  using reach_step [OF demo_started sched_step.stop_unlock] by (simp add: demo_sys_defs)

lemma demo_waiting: "sched_reach seq (demo_sys False (Some 0) [Selecting 0] [] 1 [0] 1)"
  using reach_step [OF demo_stopping sched_step.stop_close [of 0]] by (simp add: demo_sys_defs)

theorem scheduler_reachable_safe_witness:
  "\<exists>y'. Stop_close 0 (demo_sys False (Some 0) [Selecting 0] [0] 0 [] 1) = Ret y'"
  using scheduler_reachable_safe [OF demo_stopping [of False]] by (simp add: demo_sys_def)

text \<open>
  C9: when \<open>Start\<close> is not called during a \<open>Stop\<close>, at most one goroutine runs the tasks,
  exactly one while the scheduler is started and none once every \<open>Stop\<close> has returned; and
  a \<open>Stop\<close> that waits is never stuck: the goroutine, wherever it is, reaches the closed
  channel within two steps of its own and \<open>Stop\<close> returns.
\<close>

theorem scheduler_stop_stops:
  assumes "sched_reach True y"
  shows "length (y_loops y) \<le> 1 \<and>
    (s_started (y_s y) \<longrightarrow> length (y_loops y) = 1) \<and>
    (\<not> s_started (y_s y) \<and> y_stoppers y = [] \<and> y_waiting y = 0 \<longrightarrow> y_loops y = []) \<and>
    (0 < y_waiting y \<longrightarrow> (\<exists>y'. (sched_step True)\<^sup>*\<^sup>* y y' \<and> y_loops y' = [] \<and> y_waiting y' = y_waiting y - 1))"
proof -
  note inv = seq_inv_reach [OF assms]
  have "\<exists>y'. (sched_step True)\<^sup>*\<^sup>* y y' \<and> y_loops y' = [] \<and> y_waiting y' = y_waiting y - 1" if "0 < y_waiting y"
    by (rule stop_returns [OF inv that])
  with inv show ?thesis by (auto simp: seq_inv_def)
qed

theorem scheduler_stop_stops_witness:
  "\<exists>y'. (sched_step True)\<^sup>*\<^sup>* (demo_sys False (Some 0) [Selecting 0] [] 1 [0] 1) y' \<and> y_loops y' = [] \<and> y_waiting y' = 0"
  using scheduler_stop_stops [OF demo_waiting [of True]] by (simp add: demo_sys_def)

text \<open>
  C39: when \<open>Start\<close> is called between the unlock and the close of a \<open>Stop\<close>, a state is
  reachable in which two goroutines run the tasks of a scheduler that is started, both wait
  on the new channel (the old one has re-read \<open>s.stop\<close> after a tick), and the \<open>Stop\<close>
  waits for both of them although neither can return before a second \<open>Stop\<close>.
\<close>

theorem scheduler_restart_race:
  "\<exists>y. sched_reach False y \<and> s_started (y_s y) \<and> y_waiting y = 1 \<and> y_stoppers y = [] \<and>
     y_loops y = [Selecting 1, Selecting 1] \<and> y_closed y = [0]"
proof -
  have "sched_reach False (demo_sys True (Some 1) [Selecting 0, Entering] [0] 0 [] 2)"
    using reach_step [OF demo_stopping sched_step.start [of False]] by (simp add: demo_sys_defs numeral_2_eq_2)
  from reach_step [OF this sched_step.tick [of 0]]
  have "sched_reach False (demo_sys True (Some 1) [Entering, Entering] [0] 0 [] 2)" by (simp add: demo_sys_defs)
  from reach_step [OF this sched_step.enter [of 0 _ 1]]
  have "sched_reach False (demo_sys True (Some 1) [Selecting 1, Entering] [0] 0 [] 2)" by (simp add: demo_sys_defs)
  from reach_step [OF this sched_step.enter [of 1 _ 1]]
  have "sched_reach False (demo_sys True (Some 1) [Selecting 1, Selecting 1] [0] 0 [] 2)" by (simp add: demo_sys_defs)
  from reach_step [OF this sched_step.stop_close [of 0]]
  have "sched_reach False (demo_sys True (Some 1) [Selecting 1, Selecting 1] [] 1 [0] 2)" by (simp add: demo_sys_defs)
  then show ?thesis by (intro exI conjI) (assumption, simp_all add: demo_sys_def)
qed

subsection \<open>Ticks\<close>

lemma run_tasks_other:
  "run_tasks Next Run now ts heap w = Some (Ret (heap', w')) \<Longrightarrow> t \<notin> set ts \<Longrightarrow> heap' t = heap t"
  by (induction ts arbitrary: heap w) (auto split: if_splits option.splits outcome.splits)

text \<open>Which tasks run is decided by the heap at the start of the tick.\<close>

lemma run_tasks_filter:
  "distinct ts \<Longrightarrow> run_tasks Next Run now ts heap w =
    run_tasks (\<lambda>_. None) Run now (filter (\<lambda>t. due (Next (heap t)) now) ts) heap w"
proof (induction ts arbitrary: heap w)
  case (Cons t ts)
  have "filter (\<lambda>r. due (Next ((heap(t := x)) r)) now) ts = filter (\<lambda>r. due (Next (heap r)) now) ts" for x
    using Cons.prems by (intro filter_cong) auto
  with Cons show ?case
    by (auto simp: due_def [of None] split: option.splits outcome.splits)
qed simp

text \<open>
  One tick of the scheduler runs exactly the tasks that are due when it starts (their
  \<open>Next\<close> is the zero time or not after the tick), each once and in the order of the list,
  and leaves every other task alone; panics and runs that do not return included.
\<close>

theorem tick_runs_due:
  assumes "distinct (s_tasks s)"
  shows "run_tick clock Next Run s heap w =
      run_tasks (\<lambda>_. None) Run (clock w) (filter (\<lambda>t. due (Next (heap t)) (clock w)) (s_tasks s)) heap w \<and>
    (\<forall>heap' w' t. run_tick clock Next Run s heap w = Some (Ret (heap', w')) \<longrightarrow>
      t \<notin> set (s_tasks s) \<or> \<not> due (Next (heap t)) (clock w) \<longrightarrow> heap' t = heap t)"
proof -
  have eq: "run_tick clock Next Run s heap w =
      run_tasks (\<lambda>_. None) Run (clock w) (filter (\<lambda>t. due (Next (heap t)) (clock w)) (s_tasks s)) heap w"
    using run_tasks_filter [OF assms] by (simp add: run_tick_def)
  then show ?thesis by (auto dest: run_tasks_other)
qed

theorem tick_runs_due_witness:
  "run_tick fst (\<lambda>t. t) (\<lambda>t (c, log). Some (Ret (None, Some (c + 10), c, log @ [c]))) \<lparr>s_stop = None, s_started = True, s_tasks = [0, 1]\<rparr>
     (\<lambda>r. if r = 0 then None else Some 7) (5, []) = Some (Ret ((\<lambda>r. if r = 0 then Some 15 else Some 7), 5, [5])) \<and> due None 5 \<and> \<not> due (Some 7) 5"
  using tick_runs_due [of "\<lparr>s_stop = None, s_started = True, s_tasks = [0, 1]\<rparr>" fst "\<lambda>t. t"
      "\<lambda>t (c, log). Some (Ret (None, Some (c + 10), c, log @ [c]))" "\<lambda>r. if r = 0 then None else Some 7" "(5 :: int, [] :: int list)"]
  by (auto simp: due_def fun_eq_iff)

text \<open>
  A sequence of ticks: each element is what the outside does before the tick (time passes,
  other goroutines act).  \<open>run_count\<close> counts the ticks in which a task is run.
\<close>

fun run_ticks ::
  "('w \<Rightarrow> int) \<Rightarrow> ('t \<Rightarrow> int option) \<Rightarrow> ('t, 'w) runner \<Rightarrow> scheduler \<Rightarrow> ('w \<Rightarrow> 'w) list \<Rightarrow> (nat \<Rightarrow> 't) \<Rightarrow> 'w
    \<Rightarrow> ((nat \<Rightarrow> 't) \<times> 'w) outcome option" where
  "run_ticks clock Next Run s [] heap w = Some (Ret (heap, w))"
| "run_ticks clock Next Run s (a # as) heap w =
     (case run_tick clock Next Run s heap (a w) of
        Some (Ret (heap', w')) \<Rightarrow> run_ticks clock Next Run s as heap' w'
      | r \<Rightarrow> r)"

fun run_count ::
  "('w \<Rightarrow> int) \<Rightarrow> ('t \<Rightarrow> int option) \<Rightarrow> ('t, 'w) runner \<Rightarrow> scheduler \<Rightarrow> nat \<Rightarrow> ('w \<Rightarrow> 'w) list \<Rightarrow> (nat \<Rightarrow> 't) \<Rightarrow> 'w \<Rightarrow> nat" where
  "run_count clock Next Run s t [] heap w = 0"
| "run_count clock Next Run s t (a # as) heap w =
     (if due (Next (heap t)) (clock (a w)) then 1 else 0) +
     (case run_tick clock Next Run s heap (a w) of
        Some (Ret (heap', w')) \<Rightarrow> run_count clock Next Run s t as heap' w'
      | _ \<Rightarrow> 0)"

subsection \<open>Periodic tasks\<close>

text \<open>
  What the scheduler relies on: a run of a periodic task ends by setting \<open>Next\<close> to the
  current time plus its interval, and time does not go backwards.
\<close>

locale periodic_task =
  fixes clock :: "'w \<Rightarrow> int" and Next :: "'t \<Rightarrow> int option" and Run :: "('t, 'w) runner"
    and interval :: "'t \<Rightarrow> int" and periodic :: "'t \<Rightarrow> bool"
  assumes run_clock: "Run t w = Some (Ret (e, t', w')) \<Longrightarrow> clock w \<le> clock w'"
    and run_next: "periodic t \<Longrightarrow> Run t w = Some (Ret (e, t', w')) \<Longrightarrow>
      periodic t' \<and> interval t' = interval t \<and> Next t' = Some (clock w' + interval t)"
begin

lemma run_tasks_clock: "run_tasks Next' Run now ts heap w = Some (Ret (heap', w')) \<Longrightarrow> clock w \<le> clock w'"
proof (induction ts arbitrary: heap w)
  case (Cons t ts)
  show ?case
  proof (cases "due (Next' (heap t)) now")
    case True
    then obtain e x w1 where r: "Run (heap t) w = Some (Ret (e, x, w1))"
      "run_tasks Next' Run now ts (heap(t := x)) w1 = Some (Ret (heap', w'))"
      using Cons.prems by (auto split: option.splits outcome.splits)
    from run_clock [OF r(1)] Cons.IH [OF r(2)] show ?thesis by simp
  qed (use Cons in auto)
qed simp

lemma run_tasks_task:
  assumes "distinct ts" and "t \<in> set ts" and "periodic (heap t)"
    and "run_tasks Next Run now ts heap w = Some (Ret (heap', w'))"
  shows "interval (heap' t) = interval (heap t) \<and> periodic (heap' t) \<and>
    (if due (Next (heap t)) now then \<exists>c \<ge> clock w. c \<le> clock w' \<and> Next (heap' t) = Some (c + interval (heap t))
     else heap' t = heap t)"
  using assms
proof (induction ts arbitrary: heap w)
  case (Cons u us)
  show ?case
  proof (cases "due (Next (heap u)) now")
    case False
    show ?thesis
    proof (cases "t = u")
      case True
      with Cons.prems False run_tasks_other [of Next Run now us heap w heap' w' t] show ?thesis by simp
    qed (use Cons False in auto)
  next
    case True
    then obtain e x w1 where r: "Run (heap u) w = Some (Ret (e, x, w1))"
      "run_tasks Next Run now us (heap(u := x)) w1 = Some (Ret (heap', w'))"
      using Cons.prems by (auto split: option.splits outcome.splits)
    note c = run_clock [OF r(1)] run_tasks_clock [OF r(2)]
    show ?thesis
    proof (cases "t = u")
      case True
      with Cons.prems r(2) have "heap' t = x" using run_tasks_other [OF r(2), of t] by simp
      with run_next [OF _ r(1)] Cons.prems(3) True \<open>due (Next (heap u)) now\<close> c show ?thesis by auto
    next
      case False
      with Cons.IH [OF _ _ _ r(2)] Cons.prems have "interval (heap' t) = interval (heap t) \<and> periodic (heap' t) \<and>
        (if due (Next (heap t)) now then \<exists>c \<ge> clock w1. c \<le> clock w' \<and> Next (heap' t) = Some (c + interval (heap t))
         else heap' t = heap t)" by (auto split: if_splits)
      with c(1) show ?thesis by (auto split: if_splits)
    qed
  qed
qed simp

lemma run_ticks_clock:
  "\<forall>a \<in> set as. \<forall>w. clock w \<le> clock (a w) \<Longrightarrow> run_ticks clock Next Run s as heap w = Some (Ret (heap', w')) \<Longrightarrow>
    clock w \<le> clock w'"
proof (induction as arbitrary: heap w)
  case (Cons a as)
  obtain h1 w1 where t: "run_tick clock Next Run s heap (a w) = Some (Ret (h1, w1))"
    "run_ticks clock Next Run s as h1 w1 = Some (Ret (heap', w'))"
    using Cons.prems(2) by (auto split: option.splits outcome.splits)
  have "clock (a w) \<le> clock w1" using t(1) run_tasks_clock by (simp add: run_tick_def)
  moreover have "clock w \<le> clock (a w)" using Cons.prems(1) by simp
  ultimately show ?case using Cons.IH [OF _ t(2)] Cons.prems(1) by fastforce
qed simp

text \<open>The potential of a task: how far the clock is past its next run.\<close>

lemma run_count_next:
  assumes "\<forall>a \<in> set as. \<forall>w. clock w \<le> clock (a w)" and "distinct (s_tasks s)" and "t \<in> set (s_tasks s)"
    and "periodic (heap t)" and "0 < interval (heap t)" and "Next (heap t) = Some n"
    and "run_ticks clock Next Run s as heap w = Some (Ret (heap', w'))"
  shows "int (run_count clock Next Run s t as heap w) * interval (heap t) \<le> max 0 (clock w' - n + interval (heap t))"
  using assms
proof (induction as arbitrary: heap w n)
  case (Cons a as)
  let ?d = "interval (heap t)"
  obtain h1 w1 where k: "run_tick clock Next Run s heap (a w) = Some (Ret (h1, w1))"
    "run_ticks clock Next Run s as h1 w1 = Some (Ret (heap', w'))"
    using Cons.prems(7) by (auto split: option.splits outcome.splits)
  note mono = run_ticks_clock [OF _ k(2)]
  note one = run_tasks_task [OF Cons.prems(2-4) k(1) [unfolded run_tick_def]]
  have IH: "int (run_count clock Next Run s t as h1 w1) * ?d \<le> max 0 (clock w' - m + ?d)" if "Next (h1 t) = Some m" for m
    using Cons.IH [OF _ _ _ _ _ that k(2)] Cons.prems one by simp
  show ?case
  proof (cases "due (Next (heap t)) (clock (a w))")
    case True
    then obtain c where c: "clock (a w) \<le> c" "c \<le> clock w1" "Next (h1 t) = Some (c + ?d)" using one by auto
    have "n \<le> clock (a w)" using True Cons.prems(6) by (simp add: due_def)
    moreover have "clock w1 \<le> clock w'" using mono Cons.prems(1) by simp
    ultimately show ?thesis
      using IH [OF c(3)] c(1,2) True k(1) Cons.prems(5) by (simp add: algebra_simps)
  next
    case False
    with one IH [of n] Cons.prems(6) k(1) show ?thesis by simp
  qed
qed simp

lemma run_count_bound:
  assumes "\<forall>a \<in> set as. \<forall>w. clock w \<le> clock (a w)" and "distinct (s_tasks s)" and "t \<in> set (s_tasks s)"
    and "periodic (heap t)" and "0 < interval (heap t)"
    and "run_ticks clock Next Run s as heap w = Some (Ret (heap', w'))"
  shows "int (run_count clock Next Run s t as heap w) * interval (heap t) \<le> clock w' - clock w + interval (heap t)"
proof (cases as)
  case (Cons a as')
  let ?d = "interval (heap t)"
  have ge: "clock w \<le> clock (a w)" using assms(1) Cons by simp
  obtain h1 w1 where k: "run_tick clock Next Run s heap (a w) = Some (Ret (h1, w1))"
    "run_ticks clock Next Run s as' h1 w1 = Some (Ret (heap', w'))"
    using assms(6) Cons by (auto split: option.splits outcome.splits)
  note mono = run_ticks_clock [OF _ k(2)] run_tasks_clock [OF k(1) [unfolded run_tick_def]]
  note one = run_tasks_task [OF assms(2-4) k(1) [unfolded run_tick_def]]
  have le: "clock w1 \<le> clock w'" using mono(1) assms(1) Cons by simp
  show ?thesis
  proof (cases "due (Next (heap t)) (clock (a w))")
    case True
    then obtain c where c: "clock (a w) \<le> c" "c \<le> clock w1" "Next (h1 t) = Some (c + ?d)" using one by auto
    have "int (run_count clock Next Run s t as' h1 w1) * ?d \<le> max 0 (clock w' - c)"
      using run_count_next [OF _ assms(2,3) _ _ c(3) k(2)] assms(1,5) one Cons by simp
    with c(1,2) le ge True k(1) Cons assms(5) show ?thesis by (simp add: algebra_simps)
  next
    case False
    then obtain n where n: "Next (heap t) = Some n" "clock (a w) < n" by (auto simp: due_def split: option.splits)
    have "int (run_count clock Next Run s t as' h1 w1) * ?d \<le> max 0 (clock w' - n + ?d)"
      using run_count_next [OF _ assms(2,3) _ _ _ k(2)] assms(1,5) one n(1) False Cons by simp
    with n(2) le ge mono(2) False k(1) Cons assms(5) show ?thesis by (simp add: algebra_simps)
  qed
qed (use assms in simp)

end

end
