(* ===== verification/Prober.thy ===== *)
theory Prober
  imports Proto_Messages Util
begin

text \<open>
  The network prober (\<open>pkg/dataflow/task/net_prober.go\<close>): the probe loop, the statistics
  over the round-trip times and the metric built from them, and the list of URLs to try.
  Durations are 64-bit nanoseconds with wrap-around written out.  The clock, the context's
  deadline, the HTTP requests, URL parsing and name resolution are outside: they are
  fields of an environment that every definition takes.
\<close>

subsection \<open>Durations\<close>

definition wrap64 :: "int \<Rightarrow> int" where
  "wrap64 x = (x + 2 ^ 63) mod 2 ^ 64 - 2 ^ 63"

text \<open>Go's integer division truncates towards zero.\<close>

definition quot :: "int \<Rightarrow> int \<Rightarrow> int" where
  "quot a b = (if a < 0 then - ((- a) div b) else a div b)"

definition Milliseconds :: "int \<Rightarrow> int" where
  "Milliseconds d = quot d 1000000"

definition averageDuration :: "int list \<Rightarrow> int" where
  "averageDuration xs =
     (if xs = [] then 0 else quot (foldl (\<lambda>tot v. wrap64 (tot + v)) 0 xs) (int (length xs)))"

text \<open>The loop body for each neighbouring pair.\<close>

fun jitter_loop :: "int list \<Rightarrow> int \<Rightarrow> int" where
  "jitter_loop (x # y # ys) tot =
     (let diff = wrap64 (y - x); diff = (if diff < 0 then wrap64 (- diff) else diff)
      in jitter_loop (y # ys) (wrap64 (tot + diff)))"
| "jitter_loop xs tot = tot"

definition jitterDuration :: "int list \<Rightarrow> int" where
  "jitterDuration xs = (if length xs < 2 then 0 else quot (jitter_loop xs 0) (int (length xs) - 1))"

subsection \<open>The environment\<close>

text \<open>
  What the outside does during one call of \<open>Probe\<close>.  The turn of the loop is the first
  argument where there is one: the state of the context at the head of the turn, during the
  wait between two turns and before each URL; the answer of the HTTP client to a request
  (\<open>http.NewRequestWithContext\<close> and \<open>client.Do\<close>, an error or a status code); the time
  the turn took.  \<open>pe_parse\<close> is \<open>url.Parse\<close> with the results of \<open>u.Host\<close>, \<open>u.Hostname()\<close>
  and \<open>u.String()\<close>; \<open>pe_parse_ip\<close> is \<open>net.ParseIP\<close> and the text of the address;
  \<open>pe_lookup\<close> is the DNS resolver.
\<close>

record parsed_url =
  u_Host :: string
  u_Hostname :: string
  u_String :: string

record probe_env =
  pe_expired :: "nat \<Rightarrow> error option"
  pe_wait :: "nat \<Rightarrow> error option"
  pe_url_expired :: "nat \<Rightarrow> nat \<Rightarrow> error option"
  pe_do :: "nat \<Rightarrow> string \<Rightarrow> error + nat"
  pe_since :: "nat \<Rightarrow> int"
  pe_parse :: "string \<Rightarrow> error + parsed_url"
  pe_parse_ip :: "string \<Rightarrow> string option"
  pe_lookup :: "string \<Rightarrow> error + string list"
  pe_error_text :: "error \<Rightarrow> string"
  pe_now :: int64

subsection \<open>One probe\<close>

definition doRequest :: "probe_env \<Rightarrow> nat \<Rightarrow> string \<Rightarrow> int \<times> error option" where
  "doRequest E i rawURL =
     (case pe_do E i rawURL of
        Inl e \<Rightarrow> (0, Some e)
      | Inr status \<Rightarrow>
         (if 400 \<le> status then (int status, Some (ErrorString (''http probe got status '' @ Itoa (int status))))
          else (int status, None)))"

text \<open>\<open>j\<close> counts the URLs tried.\<close>

fun doProbe :: "probe_env \<Rightarrow> nat \<Rightarrow> nat \<Rightarrow> string list \<Rightarrow> error option \<Rightarrow> int \<times> error option" where
  "doProbe E i j [] lastErr = (0, lastErr)"
| "doProbe E i j (targetURL # rest) lastErr =
     (case pe_url_expired E i j of
        Some e \<Rightarrow> (0, Some e)
      | None \<Rightarrow>
         (case doRequest E i targetURL of
            (status, None) \<Rightarrow> (status, None)
          | (_, Some e) \<Rightarrow> doProbe E i (j + 1) rest (Some e)))"

text \<open>One turn: the status and the round-trip time, or the error.\<close>

definition probe_once :: "probe_env \<Rightarrow> string list \<Rightarrow> nat \<Rightarrow> error + int \<times> int" where
  "probe_once E us i =
     (case doProbe E i 0 us None of
        (_, Some e) \<Rightarrow> Inl e
      | (status, None) \<Rightarrow> Inr (status, pe_since E i))"

subsection \<open>The probe loop\<close>

record probe_acc =
  pa_rtts :: "int list"
  pa_failures :: nat
  pa_lastStatus :: int
  pa_lastErr :: "error option"

function probe_loop :: "probe_env \<Rightarrow> string list \<Rightarrow> nat \<Rightarrow> nat \<Rightarrow> probe_acc \<Rightarrow> probe_acc" where
  "probe_loop E us n i acc =
     (if n \<le> i then acc
      else (case pe_expired E i of
          Some e \<Rightarrow> acc\<lparr>pa_failures := pa_failures acc + (n - i), pa_lastErr := Some e\<rparr>
        | None \<Rightarrow>
           (case (if 0 < i then pe_wait E i else None) of
              Some e \<Rightarrow> acc\<lparr>pa_failures := pa_failures acc + (n - i), pa_lastErr := Some e\<rparr>
            | None \<Rightarrow>
               (case probe_once E us i of
                  Inl e \<Rightarrow> probe_loop E us n (i + 1) (acc\<lparr>pa_failures := pa_failures acc + 1, pa_lastErr := Some e\<rparr>)
                | Inr (status, rtt) \<Rightarrow>
                   probe_loop E us n (i + 1) (acc\<lparr>pa_rtts := pa_rtts acc @ [rtt], pa_lastStatus := status\<rparr>)))))"
  by pat_completeness auto

termination probe_loop
  by (relation "measure (\<lambda>(E, us, n, i, acc). n - i)") auto

declare probe_loop.simps [simp del]

definition probe_start :: probe_acc where
  "probe_start = \<lparr>pa_rtts = [], pa_failures = 0, pa_lastStatus = 0, pa_lastErr = None\<rparr>"

subsection \<open>The metric\<close>

definition unreachableRTTMS :: int32 where "unreachableRTTMS = 5000"
definition unreachableJitterMS :: int32 where "unreachableJitterMS = 5001"

record NodeInfo =
  ni_ID :: string
  ni_Name :: string
  ni_IP :: string
  ni_Port :: int
  ni_Node :: int
  ni_Version :: string
  ni_Status :: string
  ni_StartTime :: int64

text \<open>The HTTP client, the deadline and the mutex of the struct are outside the model.\<close>

record netProber =
  np_destAddr :: string
  np_probeCount :: nat
  np_nodeInfo :: "NodeInfo option"
  np_result :: "NetworkMetric option"

definition defaultProbeCount :: nat where "defaultProbeCount = 5"

definition newProber :: "string \<Rightarrow> NodeInfo option \<Rightarrow> netProber" where
  "newProber destAddr nodeInfo =
     \<lparr>np_destAddr = destAddr, np_probeCount = defaultProbeCount, np_nodeInfo = nodeInfo, np_result = None\<rparr>"

definition buildResult ::
  "probe_env \<Rightarrow> netProber \<Rightarrow> string \<Rightarrow> string \<Rightarrow> probe_acc \<Rightarrow> NetworkMetric" where
  "buildResult E p targetURL destHost acc =
     (let nodeInfo = np_nodeInfo p; probeCount = np_probeCount p;
          sourceIP = (case nodeInfo of None \<Rightarrow> '''' | Some n \<Rightarrow> ni_IP n);
          nodeID = (case nodeInfo of None \<Rightarrow> '''' | Some n \<Rightarrow> Itoa (ni_Node n));
          machineID = (case nodeInfo of None \<Rightarrow> '''' | Some n \<Rightarrow> ni_ID n);
          base = NetworkMetric_zero\<lparr>nm_MachineId := machineID, nm_NodeId := nodeID, nm_SourceIp := sourceIP,
                   nm_DestinationIp := destHost, nm_Timestamp := pe_now E\<rparr>
      in if pa_rtts acc = [] then
           (let extra = [''url'' \<mapsto> targetURL, ''status_code'' \<mapsto> ''0'', ''success'' \<mapsto> ''0'',
                         ''total'' \<mapsto> Itoa (int probeCount), ''reachable'' \<mapsto> ''false''];
                extra = (case pa_lastErr acc of None \<Rightarrow> extra | Some e \<Rightarrow> extra(''error'' \<mapsto> pe_error_text E e))
            in base\<lparr>nm_Rtt := unreachableRTTMS, nm_Jitter := unreachableJitterMS, nm_PacketLoss := 1,
                    nm_StatusCode := 0, nm_Extra := extra\<rparr>)
         else
           (let rttMS = (word_of_int (Milliseconds (averageDuration (pa_rtts acc))) :: int32);
                rttMS = (if rttMS = 0 then 1 else rttMS)
            in base\<lparr>nm_Rtt := rttMS,
                    nm_Jitter := word_of_int (Milliseconds (jitterDuration (pa_rtts acc))),
                    nm_PacketLoss := of_nat (pa_failures acc) / of_nat probeCount,
                    nm_StatusCode := word_of_int (pa_lastStatus acc),
                    nm_Extra := [''url'' \<mapsto> targetURL, ''status_code'' \<mapsto> Itoa (pa_lastStatus acc),
                                 ''success'' \<mapsto> Itoa (int (length (pa_rtts acc))),
                                 ''total'' \<mapsto> Itoa (int probeCount), ''reachable'' \<mapsto> ''true'']\<rparr>))"

subsection \<open>Target URLs\<close>

text \<open>\<open>parse\<close> is \<open>url.Parse\<close>.\<close>

definition probeTargetURLs :: "(string \<Rightarrow> error + parsed_url) \<Rightarrow> string \<Rightarrow> error + string list" where
  "probeTargetURLs parse addr0 =
     (let addr = TrimSpace addr0 in
      if addr = '''' then Inl (ErrorString ''destination address is empty'')
      else if Contains addr ''://'' then
        (case parse addr of
           Inl e \<Rightarrow> Inl e
         | Inr u \<Rightarrow>
            (if u_Host u = '''' then Inl (ErrorString (''invalid http address: '' @ addr)) else Inr [u_String u]))
      else
        (let host = (if Contains addr ''/'' then Split_head addr ''/'' else addr);
             path = (case index_str ''/'' addr of
                       None \<Rightarrow> ''/''
                     | Some i \<Rightarrow> (if drop i addr = '''' then ''/'' else drop i addr))
         in Inr [''https://'' @ host @ path, ''http://'' @ host @ path]))"

definition destinationHost :: "probe_env \<Rightarrow> string \<Rightarrow> string" where
  "destinationHost E rawURL =
     (case pe_parse E rawURL of
        Inl _ \<Rightarrow> rawURL
      | Inr u \<Rightarrow> (case SplitHostPort (u_Host u) of Inl _ \<Rightarrow> u_Hostname u | Inr (host, _) \<Rightarrow> host))"

definition resolveDestinationIP :: "probe_env \<Rightarrow> string \<Rightarrow> error + string" where
  "resolveDestinationIP E rawURL =
     (let host = destinationHost E rawURL in
      case pe_parse_ip E host of
        Some ip \<Rightarrow> Inr ip
      | None \<Rightarrow>
         (case pe_lookup E host of
            Inl e \<Rightarrow> Inl e
          | Inr [] \<Rightarrow> Inl (ErrorString (''no ip found for host '' @ host))
          | Inr (ip # _) \<Rightarrow> Inr ip))"

subsection \<open>A measurement\<close>

definition Probe :: "probe_env \<Rightarrow> netProber \<Rightarrow> error option \<times> netProber" where
  "Probe E p =
     (case probeTargetURLs (pe_parse E) (np_destAddr p) of
        Inl e \<Rightarrow> (Some e, p)
      | Inr targetURLs \<Rightarrow>
         (let acc = probe_loop E targetURLs (np_probeCount p) 0 probe_start;
              targetURL = hd targetURLs;
              destHost = (case resolveDestinationIP E targetURL of Inr ip \<Rightarrow> ip | Inl _ \<Rightarrow> destinationHost E targetURL)
          in (None, p\<lparr>np_result := Some (buildResult E p targetURL destHost acc)\<rparr>)))"

subsection \<open>Counting\<close>

lemma probe_loop_count:
  "i \<le> n \<Longrightarrow> length (pa_rtts (probe_loop E us n i acc)) + pa_failures (probe_loop E us n i acc) =
    length (pa_rtts acc) + pa_failures acc + (n - i)"
proof (induction E us n i acc rule: probe_loop.induct)
  case (1 E us n i acc)
  show ?case
  proof (cases "n \<le> i")
    case True
    with 1(3) have "i = n" by simp
    then show ?thesis by (simp add: probe_loop.simps [of E us n n])
  next
    case False
    then have "Suc i \<le> n" by simp
    with 1(1,2) False show ?thesis
      by (cases "probe_once E us i")
        (auto simp: probe_loop.simps [of E us n i] split: option.splits)
  qed
qed

text \<open>The collected times are times of probes that succeeded.\<close>

lemma probe_loop_rtts:
  assumes "\<forall>i status rtt. probe_once E us i = Inr (status, rtt) \<longrightarrow> P rtt" and "\<forall>x \<in> set (pa_rtts acc). P x"
  shows "\<forall>x \<in> set (pa_rtts (probe_loop E us n i acc)). P x"
  using assms
proof (induction E us n i acc rule: probe_loop.induct)
  case (1 E us n i acc)
  show ?case
  proof (cases "n \<le> i")
    case True
    with 1(4) show ?thesis by (simp add: probe_loop.simps [of E us n i])
  next
    case False
    note nf = False
    show ?thesis
    proof (cases "pe_expired E i")
      case None
      show ?thesis
      proof (cases "if 0 < i then pe_wait E i else None")
        case None
        note w = None
        show ?thesis
        proof (cases "probe_once E us i")
          case (Inl e)
          with 1(1) [OF nf \<open>pe_expired E i = None\<close> w Inl] 1(3,4) nf \<open>pe_expired E i = None\<close> w show ?thesis
            by (simp add: probe_loop.simps [of E us n i])
        next
          case (Inr p)
          obtain st rtt where p: "p = (st, rtt)" by (cases p)
          with Inr 1(3) have "P rtt" by blast
          with 1(2) [OF nf \<open>pe_expired E i = None\<close> w Inr p [symmetric]] 1(3,4) nf \<open>pe_expired E i = None\<close> w Inr p show ?thesis
            by (simp add: probe_loop.simps [of E us n i])
        qed
      next
        case (Some e)
        with nf \<open>pe_expired E i = None\<close> 1(4) show ?thesis by (simp add: probe_loop.simps [of E us n i])
      qed
    next
      case (Some e)
      with nf 1(4) show ?thesis by (simp add: probe_loop.simps [of E us n i])
    qed
  qed
qed

subsection \<open>Statistics without overflow\<close>

lemma wrap64_id: "- (2 ^ 63) \<le> x \<Longrightarrow> x < 2 ^ 63 \<Longrightarrow> wrap64 x = x"
  by (simp add: wrap64_def)

lemma wrapped_sum:
  assumes "\<forall>x \<in> set xs. 0 \<le> x \<and> x \<le> B" and "0 \<le> tot" and "tot + int (length xs) * B < 2 ^ 63"
  shows "foldl (\<lambda>tot v. wrap64 (tot + v)) tot xs = tot + sum_list xs \<and> 0 \<le> sum_list xs \<and> sum_list xs \<le> int (length xs) * B"
  using assms
proof (induction xs arbitrary: tot)
  case (Cons x xs)
  have x: "0 \<le> x" "x \<le> B" using Cons.prems(1) by auto
  have B: "0 \<le> int (length xs) * B" "int (length (x # xs)) * B = int (length xs) * B + B"
    using x by (auto simp: algebra_simps)
  then have "wrap64 (tot + x) = tot + x"
    using Cons.prems(2,3) x by (intro wrap64_id) linarith+
  with Cons.IH [of "tot + x"] Cons.prems x show ?case by (simp add: algebra_simps)
qed simp

lemma averageDuration_bounds:
  assumes "\<forall>x \<in> set xs. 0 \<le> x \<and> x \<le> B" and "int (length xs) * B < 2 ^ 63" and "xs \<noteq> []"
  shows "averageDuration xs = sum_list xs div int (length xs) \<and> 0 \<le> averageDuration xs \<and> averageDuration xs \<le> B"
proof -
  have s: "foldl (\<lambda>tot v. wrap64 (tot + v)) 0 xs = sum_list xs" "0 \<le> sum_list xs" "sum_list xs \<le> int (length xs) * B"
    using wrapped_sum [OF assms(1), of 0] assms(2) by auto
  then have "averageDuration xs = sum_list xs div int (length xs)"
    using assms(3) by (simp add: averageDuration_def quot_def)
  moreover have "sum_list xs div int (length xs) \<le> B"
    using s(3) assms(3) zdiv_mono1 [OF s(3), of "int (length xs)"] by simp
  ultimately show ?thesis
    using s(2) assms(3) by (simp add: pos_imp_zdiv_nonneg_iff)
qed

lemma jitter_loop_bounds:
  assumes "\<forall>x \<in> set xs. 0 \<le> x \<and> x \<le> B" and "0 \<le> tot" and "tot + int (length xs) * B < 2 ^ 63"
  shows "tot \<le> jitter_loop xs tot \<and> jitter_loop xs tot \<le> tot + int (length xs - 1) * B"
  using assms
proof (induction xs tot rule: jitter_loop.induct)
  case (1 x y ys tot)
  have xy: "0 \<le> x" "x \<le> B" "0 \<le> y" "y \<le> B" using 1(2) by auto
  have B: "0 \<le> int (length ys) * B" "int (length (x # y # ys)) * B = int (length ys) * B + 2 * B"
    using xy by (auto simp: algebra_simps)
  have small: "B < 2 ^ 63" using 1(3,4) xy B by linarith
  define d where "d = \<bar>y - x\<bar>"
  have d: "0 \<le> d" "d \<le> B" using xy by (auto simp: d_def)
  have diff: "(let diff = wrap64 (y - x) in if diff < 0 then wrap64 (- diff) else diff) = d"
    using xy small by (auto simp: Let_def wrap64_id d_def)
  have tot: "wrap64 (tot + d) = tot + d"
    using 1(3,4) d B xy by (intro wrap64_id) linarith+
  have step: "jitter_loop (x # y # ys) tot = jitter_loop (y # ys) (tot + d)"
    using diff tot by (simp add: Let_def split: if_splits)
  have "tot + d \<le> jitter_loop (y # ys) (tot + d) \<and> jitter_loop (y # ys) (tot + d) \<le> tot + d + int (length ys) * B"
    using 1(1) [OF refl refl] diff tot 1(2-4) d xy by (simp add: Let_def algebra_simps)
  with step d show ?case by (simp add: algebra_simps)
qed auto

lemma jitterDuration_bounds:
  assumes "\<forall>x \<in> set xs. 0 \<le> x \<and> x \<le> B" and "int (length xs) * B < 2 ^ 63" and "0 \<le> B"
  shows "0 \<le> jitterDuration xs \<and> jitterDuration xs \<le> B"
proof (cases "length xs < 2")
  case False
  have j: "0 \<le> jitter_loop xs 0" "jitter_loop xs 0 \<le> int (length xs - 1) * B"
    using jitter_loop_bounds [OF assms(1), of 0] assms(2) by auto
  have l: "0 < int (length xs) - 1" "int (length xs - 1) = int (length xs) - 1" using False by auto
  have "jitter_loop xs 0 div (int (length xs) - 1) \<le> B"
    using zdiv_mono1 [OF j(2) l(1)] l by simp
  with j(1) l False show ?thesis
    by (simp add: jitterDuration_def quot_def pos_imp_zdiv_nonneg_iff)
qed (use assms(3) in \<open>simp add: jitterDuration_def\<close>)

subsection \<open>The metric is sound\<close>

lemma millis_word:
  assumes "0 \<le> x" and "x \<le> B" and "B < 2 ^ 31 * 1000000"
  shows "sint (word_of_int (Milliseconds x) :: int32) = x div 1000000" and "0 \<le> x div 1000000"
    and "x div 1000000 \<le> B div 1000000"
proof -
  have q: "Milliseconds x = x div 1000000" using assms by (simp add: Milliseconds_def quot_def)
  have "x div 1000000 < 2 ^ 31" using assms(2,3) by auto
  moreover show "0 \<le> x div 1000000" using assms(1) by simp
  ultimately show "sint (word_of_int (Milliseconds x) :: int32) = x div 1000000"
    unfolding q by (simp add: int_word_sint)
  show "x div 1000000 \<le> B div 1000000" using assms(2) by (simp add: zdiv_mono1)
qed

lemma buildResult_reachable:
  assumes "pa_rtts acc \<noteq> []" and "\<forall>x \<in> set (pa_rtts acc). 0 \<le> x \<and> x \<le> B"
    and "int (length (pa_rtts acc)) * B < 2 ^ 63" and "B < 2 ^ 31 * 1000000"
  shows "1 \<le> sint (nm_Rtt (buildResult E p u h acc))" and "sint (nm_Rtt (buildResult E p u h acc)) \<le> max 1 (B div 1000000)"
    and "0 \<le> sint (nm_Jitter (buildResult E p u h acc))" and "sint (nm_Jitter (buildResult E p u h acc)) \<le> B div 1000000"
proof -
  have B: "0 \<le> B" using assms(1,2) by (meson list.set_sel(1) order_trans)
  define a where "a = averageDuration (pa_rtts acc)"
  define j where "j = jitterDuration (pa_rtts acc)"
  have a: "0 \<le> a" "a \<le> B" using averageDuration_bounds [OF assms(2,3,1)] by (auto simp: a_def)
  have j: "0 \<le> j" "j \<le> B" using jitterDuration_bounds [OF assms(2,3) B] by (auto simp: j_def)
  let ?w = "word_of_int (Milliseconds a) :: int32"
  have rtt: "nm_Rtt (buildResult E p u h acc) = (if ?w = 0 then 1 else ?w)"
    and jit: "nm_Jitter (buildResult E p u h acc) = word_of_int (Milliseconds j)"
    using assms(1) by (simp_all add: buildResult_def Let_def a_def j_def)
  note w = millis_word [OF a assms(4)]
  have one: "?w \<noteq> 0 \<Longrightarrow> 1 \<le> sint ?w"
    using w(1,2) by (metis int_one_le_iff_zero_less order_le_less sint_0 signed_word_eqI)
  show "1 \<le> sint (nm_Rtt (buildResult E p u h acc))" using one by (simp add: rtt)
  show "sint (nm_Rtt (buildResult E p u h acc)) \<le> max 1 (B div 1000000)" using w by (auto simp: rtt)
  show "0 \<le> sint (nm_Jitter (buildResult E p u h acc))" "sint (nm_Jitter (buildResult E p u h acc)) \<le> B div 1000000"
    using millis_word [OF j assms(4)] by (simp_all add: jit)
qed

lemma buildResult_counts:
  assumes "length (pa_rtts acc) + pa_failures acc = np_probeCount p" and "0 < np_probeCount p"
  shows "nm_PacketLoss (buildResult E p u h acc) = of_nat (np_probeCount p - length (pa_rtts acc)) / of_nat (np_probeCount p)"
    and "nm_Extra (buildResult E p u h acc) ''success'' = Some (Itoa (int (length (pa_rtts acc))))"
proof -
  have "pa_failures acc = np_probeCount p - length (pa_rtts acc)" using assms(1) by simp
  then show "nm_PacketLoss (buildResult E p u h acc) = of_nat (np_probeCount p - length (pa_rtts acc)) / of_nat (np_probeCount p)"
    using assms(2) by (simp add: buildResult_def Let_def)
  have "Itoa 0 = ''0''" by code_simp
  then show "nm_Extra (buildResult E p u h acc) ''success'' = Some (Itoa (int (length (pa_rtts acc))))"
    by (simp add: buildResult_def Let_def split: option.splits)
qed

text \<open>
  What \<open>Probe\<close> reports.  Of \<open>probeCount\<close> turns some number \<open>k\<close> succeeds (the
  turns lost to the deadline count as failures) and the packet loss is exactly
  \<open>(probeCount - k) / probeCount\<close>.  With no success the metric carries the fixed
  unreachable values 5000 and 5001; otherwise the round-trip time and the jitter are at least
  1 and 0 milliseconds and bounded by the slowest turn, with no overflow as long as the turns
  stay below \<open>B\<close> nanoseconds, \<open>probeCount * B\<close> fits 63 bits and \<open>B\<close> milliseconds fit
  an \<open>int32\<close>.
\<close>

theorem Probe_metric_sound:
  assumes "Probe E p = (None, p')" and "0 < np_probeCount p" and "\<forall>i. 0 \<le> pe_since E i \<and> pe_since E i \<le> B"
    and "int (np_probeCount p) * B < 2 ^ 63" and "B < 2 ^ 31 * 1000000"
  shows "\<exists>m k. np_result p' = Some m \<and> k \<le> np_probeCount p \<and>
     nm_PacketLoss m = of_nat (np_probeCount p - k) / of_nat (np_probeCount p) \<and>
     nm_Extra m ''success'' = Some (Itoa (int k)) \<and>
     (if k = 0
      then nm_Rtt m = unreachableRTTMS \<and> nm_Jitter m = unreachableJitterMS \<and> nm_Extra m ''reachable'' = Some ''false''
      else 1 \<le> sint (nm_Rtt m) \<and> sint (nm_Rtt m) \<le> max 1 (B div 1000000) \<and>
           0 \<le> sint (nm_Jitter m) \<and> sint (nm_Jitter m) \<le> B div 1000000 \<and> nm_Extra m ''reachable'' = Some ''true'')"
proof -
  obtain us where us: "probeTargetURLs (pe_parse E) (np_destAddr p) = Inr us"
    using assms(1) by (auto simp: Probe_def split: sum.splits)
  define acc where "acc = probe_loop E us (np_probeCount p) 0 probe_start"
  have n: "length (pa_rtts acc) + pa_failures acc = np_probeCount p"
    using probe_loop_count [of 0 "np_probeCount p" E us probe_start] by (simp add: acc_def probe_start_def)
  have ok: "\<forall>x \<in> set (pa_rtts acc). 0 \<le> x \<and> x \<le> B"
    unfolding acc_def by (rule probe_loop_rtts) (use assms(3) in \<open>auto simp: probe_once_def probe_start_def split: prod.splits option.splits\<close>)
  obtain h where h: "np_result p' = Some (buildResult E p (hd us) h acc)"
    using assms(1) us by (auto simp: Probe_def Let_def acc_def)
  let ?m = "buildResult E p (hd us) h acc"
  have B: "0 \<le> B" using assms(3) by (meson order_trans)
  have "int (length (pa_rtts acc)) * B \<le> int (np_probeCount p) * B"
    using B n by (intro mult_right_mono) auto
  then have len: "int (length (pa_rtts acc)) * B < 2 ^ 63" using assms(4) by linarith
  show ?thesis
  proof (intro exI conjI)
    show "np_result p' = Some ?m" by (rule h)
    show "length (pa_rtts acc) \<le> np_probeCount p" using n by simp
    show "if length (pa_rtts acc) = 0
      then nm_Rtt ?m = unreachableRTTMS \<and> nm_Jitter ?m = unreachableJitterMS \<and> nm_Extra ?m ''reachable'' = Some ''false''
      else 1 \<le> sint (nm_Rtt ?m) \<and> sint (nm_Rtt ?m) \<le> max 1 (B div 1000000) \<and>
           0 \<le> sint (nm_Jitter ?m) \<and> sint (nm_Jitter ?m) \<le> B div 1000000 \<and> nm_Extra ?m ''reachable'' = Some ''true''"
    proof (cases "pa_rtts acc = []")
      case True
      then show ?thesis by (simp add: buildResult_def Let_def split: option.splits)
    next
      case False
      then have "nm_Extra ?m ''reachable'' = Some ''true''" by (simp add: buildResult_def Let_def)
      with buildResult_reachable [OF False ok len assms(5)] False show ?thesis by simp
    qed
  qed (use buildResult_counts [OF n assms(2)] in auto)
qed

text \<open>A host that answers 200 over HTTP only, in 2, 3 and 1 milliseconds, and times out twice.\<close>

definition demo_env :: probe_env where
  "demo_env = \<lparr>pe_expired = (\<lambda>i. if 3 \<le> i then Some (External 1) else None), pe_wait = (\<lambda>_. None),
     pe_url_expired = (\<lambda>_ _. None),
     pe_do = (\<lambda>_ u. if take 5 u = ''https'' then Inl (External 2) else Inr 200),
     pe_since = (\<lambda>i. if i = 0 then 2000000 else if i = 1 then 3000000 else 1000000),
     pe_parse = (\<lambda>_. Inl (External 3)), pe_parse_ip = (\<lambda>_. Some ''10.0.0.1''), pe_lookup = (\<lambda>_. Inl (External 4)),
     pe_error_text = (\<lambda>_. ''''), pe_now = 0\<rparr>"

theorem Probe_metric_sound_witness:
  "fst (Probe demo_env (newProber ''h'' None)) = None \<and>
   map_option (\<lambda>m. (nm_Rtt m, nm_Jitter m, nm_PacketLoss m)) (np_result (snd (Probe demo_env (newProber ''h'' None)))) = Some (2, 1, 2 / 5) \<and>
   (\<exists>m k. np_result (snd (Probe demo_env (newProber ''h'' None))) = Some m \<and> k \<le> 5 \<and>
     nm_PacketLoss m = of_nat (5 - k) / of_nat 5)"
proof -
  let ?p = "newProber ''h'' None"
  have hyp: "np_probeCount ?p = 5" "\<forall>i. 0 \<le> pe_since demo_env i \<and> pe_since demo_env i \<le> 3000000"
    by (auto simp: newProber_def defaultProbeCount_def demo_env_def)
  have trim: "TrimSpace ''h'' = ''h''"
    by (simp add: TrimSpace_def rune_chunks.simps decode_rune.simps is_space_def)
  have urls: "probeTargetURLs (pe_parse demo_env) (np_destAddr ?p) = Inr [''https://h/'', ''http://h/'']"
    by (simp add: probeTargetURLs_def Let_def trim newProber_def Contains_def demo_env_def)
  have acc: "probe_loop demo_env [''https://h/'', ''http://h/''] 5 0 probe_start =
    \<lparr>pa_rtts = [2000000, 3000000, 1000000], pa_failures = 2, pa_lastStatus = 200, pa_lastErr = Some (External 1)\<rparr>"
    by (simp add: probe_loop.simps demo_env_def probe_once_def doRequest_def probe_start_def)
  have run: "fst (Probe demo_env ?p) = None \<and>
    map_option (\<lambda>m. (nm_Rtt m, nm_Jitter m, nm_PacketLoss m)) (np_result (snd (Probe demo_env ?p))) = Some (2, 1, 2 / 5)"
    by (simp add: Probe_def Let_def urls hyp(1) acc buildResult_def averageDuration_def jitterDuration_def Milliseconds_def quot_def
        wrap64_def split: sum.splits)
  then have "Probe demo_env ?p = (None, snd (Probe demo_env ?p))" by (simp add: prod_eq_iff)
  from Probe_metric_sound [OF this _ hyp(2)] hyp(1) run show ?thesis by auto
qed

end
