(* ===== verification/Gather.thy ===== *)
theory Gather
  imports Proto_Messages "HOL-Library.Multiset"
begin

text \<open>
  Collection of machine data (\<open>pkg/dataflow/gather\<close>).  The samples come from the gopsutil
  package and are arguments; what the code computes from them is modelled: the CPU usage of
  two samples per core (\<open>cpu.go\<close>), the sums and averages of the disk counters
  (\<open>disk.go\<close>, 64-bit with wrap-around) and the memory figures (\<open>mem.go\<close>).  Floats are
  rational numbers; the value NaN, which the CPU usage has when there is no core, is
  \<open>None\<close>.
\<close>

record CPUInfo =
  cpu_Count :: uint16
  cpu_Usage :: "float64 option"

record MemInfo =
  mem_Used :: uint64
  mem_Total :: uint64

record DiskInfo =
  disk_ReadCount :: uint64
  disk_WriteCount :: uint64
  disk_ReadBytes :: uint64
  disk_WriteBytes :: uint64
  disk_ReadTime :: uint64
  disk_WriteTime :: uint64
  disk_Used :: uint64
  disk_Total :: uint64

definition CPUGatherID :: string where "CPUGatherID = ''cpu''"
definition MemGatherID :: string where "MemGatherID = ''mem''"
definition DiskGatherID :: string where "DiskGatherID = ''disk''"
definition TrafficGatherID :: string where "TrafficGatherID = ''traffic''"

text \<open>The traffic gatherer (traffic.go) is a stub that returns nil and no error.\<close>

datatype trafficGather = trafficGather

definition trafficGather_Gather :: "trafficGather \<Rightarrow> 'a option \<times> error option" where
  "trafficGather_Gather g = (None, None)"

definition trafficGather_ID :: "trafficGather \<Rightarrow> string" where
  "trafficGather_ID g = TrafficGatherID"

subsection \<open>CPU (cpu.go)\<close>

record TimesStat =
  ts_User :: float64
  ts_System :: float64
  ts_Idle :: float64

definition cpu_total :: "TimesStat \<Rightarrow> float64" where
  "cpu_total t = ts_User t + ts_System t + ts_Idle t"

text \<open>One turn of the loop: a core without progress is skipped.\<close>

definition core_usage :: "TimesStat \<Rightarrow> TimesStat \<Rightarrow> float64" where
  "core_usage t1 t2 =
     (let deltaTotal = cpu_total t2 - cpu_total t1 in
      if deltaTotal = 0 then 0
      else (1 - (ts_Idle t2 - ts_Idle t1) / deltaTotal) * 100)"

text \<open>\<open>times2[i]\<close> panics when the second sample has fewer cores.\<close>

fun usage_loop :: "TimesStat list \<Rightarrow> TimesStat list \<Rightarrow> float64 \<Rightarrow> float64 outcome" where
  "usage_loop [] _ usageTotal = Ret usageTotal"
| "usage_loop (t1 # ts1) [] usageTotal = Panic ''index out of range''"
| "usage_loop (t1 # ts1) (t2 # ts2) usageTotal = usage_loop ts1 ts2 (usageTotal + core_usage t1 t2)"

definition CollectCPUInfo :: "error + int \<Rightarrow> TimesStat list \<Rightarrow> TimesStat list \<Rightarrow> (error + CPUInfo) outcome" where
  "CollectCPUInfo counts times1 times2 =
     (case counts of
        Inl e \<Rightarrow> Ret (Inl e)
      | Inr cpuCount \<Rightarrow>
         bind_outcome (usage_loop times1 times2 0) (\<lambda>usageTotal.
           Ret (Inr \<lparr>cpu_Count = word_of_int cpuCount,
                     cpu_Usage = (if times1 = [] then None else Some (usageTotal / of_nat (length times1)))\<rparr>)))"

subsection \<open>Memory (mem.go)\<close>

definition CollectMemInfo :: "error + uint64 \<times> uint64 \<Rightarrow> error + MemInfo" where
  "CollectMemInfo m =
     (case m of Inl e \<Rightarrow> Inl e | Inr (used, all) \<Rightarrow> Inr \<lparr>mem_Used = used, mem_Total = all\<rparr>)"

subsection \<open>Disk (disk.go)\<close>

record IOCountersStat =
  io_ReadTime :: uint64
  io_WriteTime :: uint64
  io_MergedReadCount :: uint64
  io_MergedWriteCount :: uint64
  io_ReadBytes :: uint64
  io_WriteBytes :: uint64

definition DiskInfo_zero :: DiskInfo where
  "DiskInfo_zero = \<lparr>disk_ReadCount = 0, disk_WriteCount = 0, disk_ReadBytes = 0, disk_WriteBytes = 0,
     disk_ReadTime = 0, disk_WriteTime = 0, disk_Used = 0, disk_Total = 0\<rparr>"

text \<open>The loop over the map, in the order it is ranged over, with the two running totals.\<close>

fun disk_loop :: "IOCountersStat list \<Rightarrow> uint64 \<times> uint64 \<times> DiskInfo \<times> nat \<Rightarrow> uint64 \<times> uint64 \<times> DiskInfo \<times> nat" where
  "disk_loop [] st = st"
| "disk_loop (i # is) (rt, wt, info, counter) =
     disk_loop is (rt + io_ReadTime i, wt + io_WriteTime i,
       info\<lparr>disk_ReadCount := disk_ReadCount info + io_MergedReadCount i,
           disk_WriteCount := disk_WriteCount info + io_MergedWriteCount i,
           disk_ReadBytes := disk_ReadBytes info + io_ReadBytes i,
           disk_WriteBytes := disk_WriteBytes info + io_WriteBytes i\<rparr>, counter + 1)"

definition CollectDiskInfo :: "error + IOCountersStat list \<Rightarrow> error + DiskInfo" where
  "CollectDiskInfo counters =
     (case counters of
        Inl e \<Rightarrow> Inl e
      | Inr diskInfo \<Rightarrow>
         (case disk_loop diskInfo (0, 0, DiskInfo_zero, 0) of
            (totalReadTime, totalWriteTime, info, counter) \<Rightarrow>
             Inr (if 0 < counter
                  then info\<lparr>disk_ReadTime := totalReadTime div of_nat counter, disk_WriteTime := totalWriteTime div of_nat counter\<rparr>
                  else info)))"

subsection \<open>CPU usage is a percentage\<close>

text \<open>Counters that do not run backwards.\<close>

definition samples_ok :: "TimesStat \<Rightarrow> TimesStat \<Rightarrow> bool" where
  "samples_ok t1 t2 \<longleftrightarrow> ts_User t1 \<le> ts_User t2 \<and> ts_System t1 \<le> ts_System t2 \<and> ts_Idle t1 \<le> ts_Idle t2"

lemma core_usage_bounds:
  assumes "samples_ok t1 t2"
  shows "0 \<le> core_usage t1 t2 \<and> core_usage t1 t2 \<le> 100"
proof -
  define i where "i = ts_Idle t2 - ts_Idle t1"
  define d where "d = cpu_total t2 - cpu_total t1"
  have "0 \<le> i" "i \<le> d" using assms by (auto simp: samples_ok_def i_def d_def cpu_total_def)
  then have f: "0 \<le> i / d" "i / d \<le> 1" by (auto simp: divide_simps)
  have c: "core_usage t1 t2 = (if d = 0 then 0 else (1 - i / d) * 100)"
    by (simp add: core_usage_def i_def d_def)
  have "0 \<le> (1 - f) * 100 \<and> (1 - f) * 100 \<le> 100" if "0 \<le> f" "f \<le> 1" for f :: rat
    using that by simp
  from this [OF f] show ?thesis unfolding c by (cases "d = 0") simp_all
qed

lemma usage_loop_bounds:
  assumes "list_all2 samples_ok ts1 ts2"
  shows "\<exists>u. usage_loop ts1 ts2 acc = Ret (acc + u) \<and> 0 \<le> u \<and> u \<le> 100 * of_nat (length ts1)"
  using assms
proof (induction arbitrary: acc rule: list_all2_induct)
  case (Cons t1 ts1 t2 ts2)
  obtain u where u: "usage_loop ts1 ts2 (acc + core_usage t1 t2) = Ret (acc + core_usage t1 t2 + u)"
    "0 \<le> u" "u \<le> 100 * of_nat (length ts1)" using Cons.IH by blast
  with core_usage_bounds [OF Cons.hyps(1)] show ?case
    by (intro exI [of _ "core_usage t1 t2 + u"]) (auto simp: algebra_simps)
qed simp

lemma usage_loop_idle:
  assumes "list_all2 samples_ok ts1 ts2"
    and "\<forall>(t1, t2) \<in> set (zip ts1 ts2). ts_User t1 = ts_User t2 \<and> ts_System t1 = ts_System t2"
  shows "usage_loop ts1 ts2 acc = Ret acc"
  using assms
  by (induction arbitrary: acc rule: list_all2_induct) (auto simp: core_usage_def cpu_total_def Let_def)

text \<open>
  With at least one core, as many cores in both samples and counters that do not run
  backwards, the reported CPU usage exists and is a percentage between 0 and 100; an idle
  machine (only the idle counters advance) reports exactly 0.
\<close>

theorem cpu_usage_percentage:
  assumes "list_all2 samples_ok times1 times2" and "times1 \<noteq> []"
  shows "\<exists>u. CollectCPUInfo (Inr n) times1 times2 = Ret (Inr \<lparr>cpu_Count = word_of_int n, cpu_Usage = Some u\<rparr>) \<and>
    0 \<le> u \<and> u \<le> 100 \<and>
    ((\<forall>(t1, t2) \<in> set (zip times1 times2). ts_User t1 = ts_User t2 \<and> ts_System t1 = ts_System t2) \<longrightarrow> u = 0)"
proof -
  obtain u where u: "usage_loop times1 times2 0 = Ret u" "0 \<le> u" "u \<le> 100 * of_nat (length times1)"
    using usage_loop_bounds [OF assms(1), of 0] by auto
  have l: "0 < (of_nat (length times1) :: float64)" using assms(2) by simp
  have "u = 0" if "\<forall>(t1, t2) \<in> set (zip times1 times2). ts_User t1 = ts_User t2 \<and> ts_System t1 = ts_System t2"
    using usage_loop_idle [OF assms(1) that] u(1) by simp
  with u l assms(2) show ?thesis
    by (intro exI [of _ "u / of_nat (length times1)"]) (auto simp: CollectCPUInfo_def divide_simps)
qed

theorem cpu_usage_percentage_witness:
  "\<exists>u. CollectCPUInfo (Inr 1) [\<lparr>ts_User = 1, ts_System = 1, ts_Idle = 10\<rparr>] [\<lparr>ts_User = 2, ts_System = 1, ts_Idle = 13\<rparr>] =
      Ret (Inr \<lparr>cpu_Count = 1, cpu_Usage = Some u\<rparr>) \<and> 0 \<le> u \<and> u \<le> 100"
  using cpu_usage_percentage [of "[\<lparr>ts_User = 1, ts_System = 1, ts_Idle = 10\<rparr>]" "[\<lparr>ts_User = 2, ts_System = 1, ts_Idle = 13\<rparr>]" 1]
  by (auto simp: samples_ok_def)

subsection \<open>Disk counters\<close>

lemma disk_loop_sums:
  "disk_loop is (rt, wt, info, n) =
    (rt + sum_list (map io_ReadTime is), wt + sum_list (map io_WriteTime is),
     info\<lparr>disk_ReadCount := disk_ReadCount info + sum_list (map io_MergedReadCount is),
         disk_WriteCount := disk_WriteCount info + sum_list (map io_MergedWriteCount is),
         disk_ReadBytes := disk_ReadBytes info + sum_list (map io_ReadBytes is),
         disk_WriteBytes := disk_WriteBytes info + sum_list (map io_WriteBytes is)\<rparr>, n + length is)"
  by (induction "is" arbitrary: rt wt info n) (simp_all add: ac_simps)

lemma sum_list_order: "mset xs = mset ys \<Longrightarrow> sum_list (map f xs) = (sum_list (map f ys) :: uint64)"
  by (metis mset_map sum_mset_sum_list)

text \<open>
  Go ranges over the map of disks in a random order; the collected figures do not depend
  on it.  They are the sums of the counters modulo \<open>2^64\<close> and, for the two times, the
  average over the disks.
\<close>

theorem disk_order_irrelevant:
  assumes "mset ds = mset ds'"
  shows "CollectDiskInfo (Inr ds) = CollectDiskInfo (Inr ds') \<and>
    (\<exists>info. CollectDiskInfo (Inr ds) = Inr info \<and> disk_ReadBytes info = sum_list (map io_ReadBytes ds) \<and>
       disk_WriteBytes info = sum_list (map io_WriteBytes ds) \<and>
       (ds \<noteq> [] \<longrightarrow> disk_ReadTime info = sum_list (map io_ReadTime ds) div of_nat (length ds)))"
proof -
  have "length ds = length ds'" using assms by (metis size_mset)
  with sum_list_order [OF assms] have "CollectDiskInfo (Inr ds) = CollectDiskInfo (Inr ds')"
    by (simp add: CollectDiskInfo_def disk_loop_sums)
  moreover have "\<exists>info. CollectDiskInfo (Inr ds) = Inr info \<and> disk_ReadBytes info = sum_list (map io_ReadBytes ds) \<and>
       disk_WriteBytes info = sum_list (map io_WriteBytes ds) \<and>
       (ds \<noteq> [] \<longrightarrow> disk_ReadTime info = sum_list (map io_ReadTime ds) div of_nat (length ds))"
    by (simp add: CollectDiskInfo_def disk_loop_sums DiskInfo_zero_def)
  ultimately show ?thesis by blast
qed

definition demo_disk :: "uint64 \<Rightarrow> IOCountersStat" where
  "demo_disk n = \<lparr>io_ReadTime = n, io_WriteTime = n, io_MergedReadCount = n, io_MergedWriteCount = n, io_ReadBytes = n, io_WriteBytes = n\<rparr>"

theorem disk_order_irrelevant_witness:
  "CollectDiskInfo (Inr [demo_disk 4, demo_disk 7]) = CollectDiskInfo (Inr [demo_disk 7, demo_disk 4])"
  using disk_order_irrelevant [of "[demo_disk 4, demo_disk 7]" "[demo_disk 7, demo_disk 4]"] by simp

end
