(* ===== verification/Dataflow.thy ===== *)
theory Dataflow
  imports Tcp_Client Scheduler Prober Gather
begin

text \<open>
  The data reporting package (\<open>pkg/dataflow\<close>): the channel to the server
  (\<open>core/channel.go\<close>), the tasks (\<open>task/machine_report_task.go\<close>,
  \<open>net_collect_task.go\<close>, \<open>net_report_task.go\<close>), \<open>Initialize\<close> and \<open>Shutdown\<close>
  (\<open>dataflow.go\<close>) and the \<open>Notify\<close> functions (\<open>report.go\<close>).  TCP clients are
  shared pointers: the world holds them in a store and the package's variables, channels and
  tasks hold addresses.  Samples, probes and the passing of time come from an environment.
\<close>

subsection \<open>The world\<close>

record ('e, 'h) flow =
  fl_now :: int
  fl_clients :: "nat \<Rightarrow> ('e, 'h) client"

type_synonym ('e, 'h, 'r) flow_result = "('r \<times> ('e, 'h) flow) outcome option"

text \<open>\<open>client.Write\<close> through a pointer.\<close>

definition client_Write ::
  "marshal \<Rightarrow> uint8 \<Rightarrow> proto_message \<Rightarrow> nat \<Rightarrow> ('e, 'h) flow \<Rightarrow> ('e, 'h, error option) flow_result" where
  "client_Write mar sub pkt p w =
     (case TcpClient_Write mar (u8 (CMD_number CMD_DATA_REPORT)) sub pkt (fl_clients w p) of
        None \<Rightarrow> None
      | Some (Panic m) \<Rightarrow> Some (Panic m)
      | Some (Ret (err, c)) \<Rightarrow> Some (Ret (err, w\<lparr>fl_clients := (fl_clients w)(p := c)\<rparr>)))"

definition client_usable :: "nat option \<Rightarrow> ('e, 'h) flow \<Rightarrow> bool" where
  "client_usable cli w \<longleftrightarrow> (case cli of None \<Rightarrow> False | Some p \<Rightarrow> \<not> TcpClient_IsClosed (fl_clients w p))"

definition ErrNotInitialized :: error where
  "ErrNotInitialized = ErrorString ''tcp client is not initialized''"

subsection \<open>The channel (core/channel.go)\<close>

record channel =
  ch_cli :: "nat option"

definition NewChannel :: "nat option \<Rightarrow> ('e, 'h) flow \<Rightarrow> error + channel" where
  "NewChannel cli w = (if client_usable cli w then Inr \<lparr>ch_cli = cli\<rparr> else Inl ErrNotInitialized)"

text \<open>The loop over the metrics: nil is skipped, a failed write is only logged.\<close>

fun send_metrics ::
  "marshal \<Rightarrow> uint8 \<Rightarrow> nat \<Rightarrow> proto_message option list \<Rightarrow> ('e, 'h) flow \<Rightarrow> ('e, 'h) flow outcome option" where
  "send_metrics mar sub p [] w = Some (Ret w)"
| "send_metrics mar sub p (None # ms) w = send_metrics mar sub p ms w"
| "send_metrics mar sub p (Some m # ms) w =
     (case client_Write mar sub m p w of
        None \<Rightarrow> None
      | Some (Panic s) \<Rightarrow> Some (Panic s)
      | Some (Ret (_, w')) \<Rightarrow> send_metrics mar sub p ms w')"

definition channel_send ::
  "marshal \<Rightarrow> uint8 \<Rightarrow> channel \<Rightarrow> proto_message option list \<Rightarrow> ('e, 'h) flow \<Rightarrow> ('e, 'h, error option) flow_result" where
  "channel_send mar sub c metrics w =
     (if \<not> client_usable (ch_cli c) w then Some (Ret (Some ErrNotInitialized, w))
      else (case send_metrics mar sub (the (ch_cli c)) metrics w of
          None \<Rightarrow> None
        | Some (Panic s) \<Rightarrow> Some (Panic s)
        | Some (Ret w') \<Rightarrow> Some (Ret (None, w'))))"

definition SendMachineInfo ::
  "marshal \<Rightarrow> channel \<Rightarrow> MachineMetric option list \<Rightarrow> ('e, 'h) flow \<Rightarrow> ('e, 'h, error option) flow_result" where
  "SendMachineInfo mar c metrics w =
     channel_send mar (u8 (SCMDDataReport_number SCMDDataReport_MACHINE_METRIC)) c
       (map (map_option MMachineMetric) metrics) w"

definition SendNetworkInfo ::
  "marshal \<Rightarrow> channel \<Rightarrow> NetworkMetric option list \<Rightarrow> ('e, 'h) flow \<Rightarrow> ('e, 'h, error option) flow_result" where
  "SendNetworkInfo mar c metrics w =
     channel_send mar (u8 (SCMDDataReport_number SCMDDataReport_NETWORK_METRIC)) c
       (map (map_option MNetworkMetric) metrics) w"

subsection \<open>Node information (core/core.go)\<close>

text \<open>\<open>hostname\<close>, \<open>internalIP\<close> and \<open>hostIPs\<close> are the results of the helpers in \<open>util\<close>.\<close>

definition ReadBaseNodeInfo :: "error + string \<Rightarrow> string \<Rightarrow> error + string list \<Rightarrow> int64 \<Rightarrow> int \<Rightarrow> (error + NodeInfo) outcome" where
  "ReadBaseNodeInfo hostname internalIP hostIPs now node =
     (case hostname of
        Inl e \<Rightarrow> Ret (Inl e)
      | Inr name \<Rightarrow>
         bind_outcome
           (if IsEmptyStr internalIP
            then (case hostIPs of
                Inl _ \<Rightarrow> Ret ''127.0.0.1''
              | Inr [] \<Rightarrow> Panic ''index out of range''
              | Inr (ip # _) \<Rightarrow> Ret ip)
            else Ret internalIP)
           (\<lambda>ip. Ret (Inr \<lparr>ni_ID = name, ni_Name = '''', ni_IP = ip, ni_Port = 8080, ni_Node = node,
              ni_Version = ''1.0.0'', ni_Status = ''running'', ni_StartTime = now\<rparr>)))"

subsection \<open>Tasks\<close>

text \<open>
  What happens during the runs of tasks, as functions of the time they start: the samples,
  the probe of an address (with the number of addresses still to come), the time a run takes.  \<open>fe_nan\<close> stands for NaN in a metric.
\<close>

record flow_env =
  fe_counts :: "int \<Rightarrow> error + int"
  fe_times1 :: "int \<Rightarrow> TimesStat list"
  fe_times2 :: "int \<Rightarrow> TimesStat list"
  fe_mem :: "int \<Rightarrow> error + uint64 \<times> uint64"
  fe_disk :: "int \<Rightarrow> error + IOCountersStat list"
  fe_unix :: "int \<Rightarrow> int64"
  fe_nan :: float64
  fe_probe :: "int \<Rightarrow> nat \<Rightarrow> string \<Rightarrow> probe_env"
  fe_elapsed :: "int \<Rightarrow> nat"

record machineTask =
  mt_nodeInfo :: "NodeInfo option"
  mt_interval :: int
  mt_next :: "int option"
  mt_channel :: channel

record netCollectTask =
  nc_channel :: channel
  nc_next :: "int option"
  nc_interval :: int
  nc_nodeInfo :: "NodeInfo option"
  nc_addrList :: "string list"

record netReportTask =
  nr_channel :: channel
  nr_next :: "int option"
  nr_interval :: int
  nr_nodeInfo :: "NodeInfo option"

definition NewMachineTask :: "NodeInfo option \<Rightarrow> int \<Rightarrow> channel \<Rightarrow> machineTask" where
  "NewMachineTask nodeInfo interval channel =
     \<lparr>mt_nodeInfo = nodeInfo, mt_interval = interval, mt_next = None, mt_channel = channel\<rparr>"

definition NewNetCollectTask :: "channel \<Rightarrow> int \<Rightarrow> NodeInfo option \<Rightarrow> string list \<Rightarrow> netCollectTask" where
  "NewNetCollectTask channel interval nodeInfo addrList =
     \<lparr>nc_channel = channel, nc_next = None, nc_interval = interval, nc_nodeInfo = nodeInfo, nc_addrList = addrList\<rparr>"

definition NewNetReportTask :: "channel \<Rightarrow> int \<Rightarrow> NodeInfo option \<Rightarrow> netReportTask" where
  "NewNetReportTask channel interval nodeInfo =
     \<lparr>nr_channel = channel, nr_next = None, nr_interval = interval, nr_nodeInfo = nodeInfo\<rparr>"

text \<open>The metric of a machine; unsigned figures are reinterpreted as signed ones.\<close>

definition machine_metric ::
  "flow_env \<Rightarrow> int \<Rightarrow> NodeInfo option \<Rightarrow> CPUInfo \<Rightarrow> MemInfo \<Rightarrow> DiskInfo \<Rightarrow> MachineMetric" where
  "machine_metric E now nodeInfo cpuInfo memInfo diskInfo =
     (let metric = MachineMetric_zero\<lparr>
            mm_CpuUsage := (case cpu_Usage cpuInfo of None \<Rightarrow> fe_nan E | Some u \<Rightarrow> u),
            mm_CpuCount := ucast (cpu_Count cpuInfo),
            mm_MemUsed := mem_Used memInfo, mm_MemTotal := mem_Total memInfo,
            mm_DiskReadBytes := disk_ReadBytes diskInfo, mm_DiskWriteBytes := disk_WriteBytes diskInfo,
            mm_DiskReadTime := disk_ReadTime diskInfo, mm_DiskWriteTime := disk_WriteTime diskInfo,
            mm_DiskReadCount := disk_ReadCount diskInfo, mm_DiskWriteCount := disk_WriteCount diskInfo,
            mm_Timestamp := fe_unix E now\<rparr>
      in (case nodeInfo of
            None \<Rightarrow> metric
          | Some n \<Rightarrow> metric\<lparr>mm_MachineId := ni_ID n, mm_InstanceId := ni_ID n, mm_InstanceName := ni_Name n,
              mm_NodeId := ni_ID n, mm_NodeName := ni_Name n, mm_NodeStatus := ni_Status n, mm_Status := ni_Status n,
              mm_Version := ni_Version n, mm_StartTime := ni_StartTime n\<rparr>))"

text \<open>The body of \<open>machineTask.Run\<close> without its deferred function.\<close>

definition machine_body ::
  "flow_env \<Rightarrow> marshal \<Rightarrow> machineTask \<Rightarrow> ('e, 'h) flow \<Rightarrow> ('e, 'h, error option) flow_result" where
  "machine_body E mar t w =
     (let now = fl_now w in
      case CollectCPUInfo (fe_counts E now) (fe_times1 E now) (fe_times2 E now) of
        Panic m \<Rightarrow> Some (Panic m)
      | Ret (Inl e) \<Rightarrow> Some (Ret (Some e, w))
      | Ret (Inr cpuInfo) \<Rightarrow>
         (case CollectMemInfo (fe_mem E now) of
            Inl e \<Rightarrow> Some (Ret (Some e, w))
          | Inr memInfo \<Rightarrow>
             (case CollectDiskInfo (fe_disk E now) of
                Inl e \<Rightarrow> Some (Ret (Some e, w))
              | Inr diskInfo \<Rightarrow>
                  SendMachineInfo mar (mt_channel t) [Some (machine_metric E now (mt_nodeInfo t) cpuInfo memInfo diskInfo)] w)))"

text \<open>Time passes during a run and the deferred function reads the clock at its end.\<close>

definition pass_time :: "flow_env \<Rightarrow> int \<Rightarrow> ('e, 'h) flow \<Rightarrow> ('e, 'h) flow" where
  "pass_time E start w = w\<lparr>fl_now := fl_now w + int (fe_elapsed E start)\<rparr>"

definition machineTask_Run :: "flow_env \<Rightarrow> marshal \<Rightarrow> (machineTask, ('e, 'h) flow) runner" where
  "machineTask_Run E mar t w =
     (case machine_body E mar t w of
        None \<Rightarrow> None
      | Some (Panic m) \<Rightarrow> Some (Panic m)
      | Some (Ret (err, w1)) \<Rightarrow>
         (let w2 = pass_time E (fl_now w) w1
          in Some (Ret (err, t\<lparr>mt_next := Some (fl_now w2 + mt_interval t)\<rparr>, w2))))"

text \<open>The loop of \<open>netCollectTask.Run\<close>; errors are logged and the next address is tried.\<close>

fun collect_loop ::
  "flow_env \<Rightarrow> marshal \<Rightarrow> netCollectTask \<Rightarrow> string list \<Rightarrow> ('e, 'h) flow \<Rightarrow> ('e, 'h) flow outcome option" where
  "collect_loop E mar t [] w = Some (Ret w)"
| "collect_loop E mar t (addr # addrs) w =
     (case Probe (fe_probe E (fl_now w) (length addrs) addr) (newProber addr (nc_nodeInfo t)) of
        (Some e, _) \<Rightarrow> collect_loop E mar t addrs w
      | (None, prober) \<Rightarrow>
         (case SendNetworkInfo mar (nc_channel t) [np_result prober] w of
            None \<Rightarrow> None
          | Some (Panic m) \<Rightarrow> Some (Panic m)
          | Some (Ret (_, w')) \<Rightarrow> collect_loop E mar t addrs w'))"

definition netCollectTask_Run :: "flow_env \<Rightarrow> marshal \<Rightarrow> (netCollectTask, ('e, 'h) flow) runner" where
  "netCollectTask_Run E mar t w =
     (case collect_loop E mar t (nc_addrList t) w of
        None \<Rightarrow> None
      | Some (Panic m) \<Rightarrow> Some (Panic m)
      | Some (Ret w1) \<Rightarrow>
         (let w2 = pass_time E (fl_now w) w1
          in Some (Ret (None, t\<lparr>nc_next := Some (fl_now w2 + nc_interval t)\<rparr>, w2))))"

definition netReportTask_Run :: "(netReportTask, ('e, 'h) flow) runner" where
  "netReportTask_Run t w = Some (Ret (None, t, w))"

text \<open>The implementations of the interface \<open>Task\<close>.\<close>

datatype flow_task = MachineTask machineTask | NetCollectTask netCollectTask | NetReportTask netReportTask

fun task_ID :: "flow_task \<Rightarrow> string" where
  "task_ID (MachineTask t) = ''machine''"
| "task_ID (NetCollectTask t) = ''net_collect''"
| "task_ID (NetReportTask t) = ''net_report''"

fun task_Next :: "flow_task \<Rightarrow> int option" where
  "task_Next (MachineTask t) = mt_next t"
| "task_Next (NetCollectTask t) = nc_next t"
| "task_Next (NetReportTask t) = nr_next t"

definition wrap_run :: "('t \<Rightarrow> flow_task) \<Rightarrow> (error option \<times> 't \<times> 'w) outcome option \<Rightarrow> (error option \<times> flow_task \<times> 'w) outcome option" where
  "wrap_run f r =
     (case r of None \<Rightarrow> None | Some (Panic m) \<Rightarrow> Some (Panic m) | Some (Ret (e, t, w)) \<Rightarrow> Some (Ret (e, f t, w)))"

fun task_Run :: "flow_env \<Rightarrow> marshal \<Rightarrow> (flow_task, ('e, 'h) flow) runner" where
  "task_Run E mar (MachineTask t) w = wrap_run MachineTask (machineTask_Run E mar t w)"
| "task_Run E mar (NetCollectTask t) w = wrap_run NetCollectTask (netCollectTask_Run E mar t w)"
| "task_Run E mar (NetReportTask t) w = wrap_run NetReportTask (netReportTask_Run t w)"

subsection \<open>Initialize and Shutdown (dataflow.go)\<close>

record DataflowConfig =
  cfg_NodeInfo :: "NodeInfo option"
  cfg_ProbeAddresses :: "string list"
  cfg_ReportMachineInterval :: int
  cfg_ReportNetworkInterval :: int

text \<open>
  The package's variables \<open>cli\<close> and \<open>configuration\<close>, the task manager, and the store of
  task objects with its next free address.
\<close>

record dataflow =
  df_cli :: "nat option"
  df_configuration :: "DataflowConfig option"
  df_manager :: sched_sys
  df_heap :: "nat \<Rightarrow> flow_task"
  df_next :: nat

text \<open>\<open>task.Manager().AddTask(t)\<close> of a new object.\<close>

definition add_new_task :: "flow_task \<Rightarrow> dataflow \<Rightarrow> dataflow" where
  "add_new_task t D =
     D\<lparr>df_heap := (df_heap D)(df_next D := t), df_next := Suc (df_next D),
       df_manager := (df_manager D)\<lparr>y_s := AddTask (df_next D) (y_s (df_manager D))\<rparr>\<rparr>"

definition add_machine_task :: "DataflowConfig \<Rightarrow> channel \<Rightarrow> dataflow \<Rightarrow> dataflow" where
  "add_machine_task cfg c D =
     (if 0 < cfg_ReportMachineInterval cfg
      then add_new_task (MachineTask (NewMachineTask (cfg_NodeInfo cfg) (cfg_ReportMachineInterval cfg) c)) D else D)"

definition add_network_task :: "DataflowConfig \<Rightarrow> channel \<Rightarrow> dataflow \<Rightarrow> dataflow" where
  "add_network_task cfg c D =
     (if 0 < cfg_ReportNetworkInterval cfg \<and> cfg_ProbeAddresses cfg \<noteq> []
      then add_new_task (NetCollectTask (NewNetCollectTask c (cfg_ReportNetworkInterval cfg) (cfg_NodeInfo cfg)
             (cfg_ProbeAddresses cfg))) D else D)"

definition Initialize ::
  "nat option \<Rightarrow> DataflowConfig option \<Rightarrow> ('e, 'h) flow \<Rightarrow> dataflow \<Rightarrow> error option \<times> dataflow" where
  "Initialize tcpClient config w D =
     (case config of
        None \<Rightarrow> (Some (ErrorString ''config is nil''), D)
      | Some cfg \<Rightarrow>
         (if \<not> client_usable tcpClient w then (Some ErrNotInitialized, D)
          else
            (let D1 = D\<lparr>df_cli := tcpClient, df_configuration := config\<rparr> in
             case NewChannel tcpClient w of
               Inl e \<Rightarrow> (Some e, D1)
             | Inr c \<Rightarrow>
                (let D2 = add_network_task cfg c (add_machine_task cfg c D1) in
                 case scheduler_Start (df_manager D2) of (err, y) \<Rightarrow> (err, D2\<lparr>df_manager := y\<rparr>)))))"

text \<open>
  A call of \<open>Stop\<close> with no other call at the same time: the channel is closed, the
  goroutine has returned and the wait is over.
\<close>

definition scheduler_Stop :: "sched_sys \<Rightarrow> sched_sys outcome" where
  "scheduler_Stop y =
     (if \<not> s_started (y_s y) then Ret y
      else (case s_stop (y_s y) of
          None \<Rightarrow> Panic ''close of nil channel''
        | Some c \<Rightarrow> bind_outcome (Stop_close c (Stop_unlock y))
             (\<lambda>y1. Ret (Stop_return (y1\<lparr>y_loops := [], y_wg := 0\<rparr>)))))"

definition Shutdown :: "dataflow \<Rightarrow> (error option \<times> dataflow) outcome" where
  "Shutdown D =
     bind_outcome (scheduler_Stop (df_manager D)) (\<lambda>y.
       Ret (None, D\<lparr>df_manager := y, df_cli := None, df_configuration := None\<rparr>))"

subsection \<open>Reporting (report.go)\<close>

definition getClient :: "dataflow \<Rightarrow> ('e, 'h) flow \<Rightarrow> error + nat" where
  "getClient D w = (if client_usable (df_cli D) w then Inr (the (df_cli D)) else Inl ErrNotInitialized)"

definition notify ::
  "SCMDDataReport \<Rightarrow> marshal \<Rightarrow> proto_message \<Rightarrow> dataflow \<Rightarrow> ('e, 'h) flow \<Rightarrow> ('e, 'h, error option) flow_result" where
  "notify sub mar metric D w =
     (case getClient D w of
        Inl e \<Rightarrow> Some (Ret (Some e, w))
      | Inr client \<Rightarrow> client_Write mar (u8 (SCMDDataReport_number sub)) metric client w)"

definition NotifyNewStreamEvent where
  "NotifyNewStreamEvent mar metric D w = notify SCMDDataReport_STREAM_ADD mar (MStreamMetric metric) D w"

definition NotifyDeleteStreamEvent where
  "NotifyDeleteStreamEvent mar metric D w = notify SCMDDataReport_STREAM_DELETE mar (MStreamMetric metric) D w"

definition NotifyStreamFailedEvent where
  "NotifyStreamFailedEvent mar metric D w = notify SCMDDataReport_STREAM_FAILED mar (MStreamMetric metric) D w"

definition NotifyStreamStatusEvent where
  "NotifyStreamStatusEvent mar metric D w = notify SCMDDataReport_STREAM_STATUS mar (MStreamMetric metric) D w"

definition NotifyStreamsQueryEvent where
  "NotifyStreamsQueryEvent mar metric D w = notify SCMDDataReport_STREAMS_QUERY_REQ mar (MStreamMetric metric) D w"

definition NotifyNewSessionEvent where
  "NotifyNewSessionEvent mar metric D w = notify SCMDDataReport_SESSION_ADD mar (MSessionMetric metric) D w"

definition NotifyDeleteSessionEvent where
  "NotifyDeleteSessionEvent mar metric D w = notify SCMDDataReport_SESSION_DELETE mar (MSessionMetric metric) D w"

definition NotifySessionUpdateEvent where
  "NotifySessionUpdateEvent mar metric D w = notify SCMDDataReport_SESSION_STATUS mar (MSessionMetric metric) D w"

subsection \<open>The tasks are periodic\<close>

fun task_interval :: "flow_task \<Rightarrow> int" where
  "task_interval (MachineTask t) = mt_interval t"
| "task_interval (NetCollectTask t) = nc_interval t"
| "task_interval (NetReportTask t) = nr_interval t"

fun task_periodic :: "flow_task \<Rightarrow> bool" where
  "task_periodic (NetReportTask t) = False"
| "task_periodic t = True"

lemma client_Write_now: "client_Write mar sub m p w = Some (Ret (e, w')) \<Longrightarrow> fl_now w' = fl_now w"
  by (auto simp: client_Write_def split: option.splits outcome.splits)

lemma send_metrics_now: "send_metrics mar sub p ms w = Some (Ret w') \<Longrightarrow> fl_now w' = fl_now w"
  by (induction mar sub p ms w rule: send_metrics.induct)
    (auto split: option.splits outcome.splits dest: client_Write_now)

lemma channel_send_now: "channel_send mar sub c ms w = Some (Ret (e, w')) \<Longrightarrow> fl_now w' = fl_now w"
  by (auto simp: channel_send_def split: if_splits option.splits outcome.splits dest: send_metrics_now)

lemma machine_body_now: "machine_body E mar t w = Some (Ret (e, w')) \<Longrightarrow> fl_now w' = fl_now w"
  by (auto simp: machine_body_def Let_def SendMachineInfo_def split: outcome.splits sum.splits dest: channel_send_now)

lemma collect_loop_now: "collect_loop E mar t as w = Some (Ret w') \<Longrightarrow> fl_now w' = fl_now w"
  by (induction E mar t as w rule: collect_loop.induct)
    (auto simp: SendNetworkInfo_def split: prod.splits option.splits outcome.splits dest: channel_send_now)

lemma task_Run_result:
  assumes "task_Run E mar t w = Some (Ret (e, t', w'))"
  shows "fl_now w \<le> fl_now w' \<and> (task_periodic t \<longrightarrow> task_periodic t' \<and> task_interval t' = task_interval t \<and>
    task_Next t' = Some (fl_now w' + task_interval t))"
  using assms
  by (cases t) (auto simp: wrap_run_def machineTask_Run_def netCollectTask_Run_def netReportTask_Run_def Let_def pass_time_def
      split: option.splits outcome.splits dest: machine_body_now collect_loop_now)

interpretation flow: periodic_task fl_now task_Next "task_Run E mar" task_interval task_periodic for E mar
  by unfold_locales (auto dest: task_Run_result)

subsection \<open>Stop\<close>

text \<open>The sequential \<open>Stop\<close> is a run of the scheduler's steps.\<close>

lemma scheduler_Stop_steps:
  assumes "seq_inv y" and "s_started (y_s y)"
  shows "\<exists>y'. scheduler_Stop y = Ret y' \<and> (sched_step True)\<^sup>*\<^sup>* y y' \<and> seq_inv y' \<and>
    y_s y' = (y_s y)\<lparr>s_started := False\<rparr> \<and> y_loops y' = []"
proof -
  obtain c where c: "s_stop (y_s y) = Some c" "c \<notin> set (y_closed y)" "y_stoppers y = []" "y_waiting y = 0" "length (y_loops y) = 1"
    "y_wg y = 1"
    using assms by (auto simp: seq_inv_def sched_inv_def)
  then obtain l where l: "y_loops y = [l]" by (cases "y_loops y") auto
  let ?y1 = "Stop_unlock y"
  have y1: "?y1 = y\<lparr>y_s := (y_s y)\<lparr>s_started := False\<rparr>, y_stoppers := [c]\<rparr>" using assms(2) c by (simp add: Stop_unlock_def)
  define y2 where "y2 = ?y1\<lparr>y_stoppers := [], y_closed := c # y_closed y, y_waiting := 1\<rparr>"
  have cl: "Stop_close c ?y1 = Ret y2" using c y1 by (simp add: Stop_close_def y2_def)
  define y3 where "y3 = (if l = Selecting c then y2 else run_enter 0 c y2)"
  define y' where "y' = Stop_return (y2\<lparr>y_loops := [], y_wg := 0\<rparr>)"
  have sel: "l \<noteq> Entering \<Longrightarrow> l = Selecting c" using assms(1) l c(1) by (cases l) (auto simp: seq_inv_def)
  have s12: "sched_step True y ?y1" by (rule sched_step.stop_unlock)
  have s23: "sched_step True ?y1 y2" by (rule sched_step.stop_close [OF _ cl]) (simp add: y1)
  have s3: "(sched_step True)\<^sup>*\<^sup>* y2 y3"
    using sel l c(1) y1 by (cases "l = Entering") (auto simp: y3_def y2_def intro!: r_into_rtranclp sched_step.enter)
  have y3: "y_loops y3 = [Selecting c]" "y3 = y2\<lparr>y_loops := [Selecting c]\<rparr>"
    using l y1 by (auto simp: y3_def y2_def run_enter_def)
  have s34: "sched_step True y3 (run_return 0 y3)"
    by (rule sched_step.leave [of 0 y3 c]) (use y3 in \<open>auto simp: y2_def\<close>)
  have s45: "sched_step True (run_return 0 y3) (Stop_return (run_return 0 y3))"
    by (rule sched_step.stop_return) (use y3 c y1 in \<open>auto simp: run_return_def y2_def\<close>)
  have eq: "Stop_return (run_return 0 y3) = y'"
    using y3 c y1 by (simp add: y'_def run_return_def remove_nth_def Stop_return_def y2_def)
  have "(sched_step True)\<^sup>*\<^sup>* y y'" unfolding eq [symmetric] using s12 s23 s3 s34 s45
    by (meson converse_rtranclp_into_rtranclp rtranclp.rtrancl_into_rtrancl)
  moreover from this assms(1) have "seq_inv y'" by (rule seq_ts.steps_inv)
  moreover have "scheduler_Stop y = Ret y'" using assms(2) c(1) cl by (simp add: scheduler_Stop_def y'_def)
  ultimately show ?thesis using y1 by (intro exI [of _ y']) (simp add: y'_def Stop_return_def y2_def)
qed

subsection \<open>Initialize\<close>

text \<open>The manager is in a state of sequential use and the registered tasks are allocated.\<close>

definition flow_inv :: "dataflow \<Rightarrow> bool" where
  "flow_inv D \<longleftrightarrow> seq_inv (df_manager D) \<and> y_stoppers (df_manager D) = [] \<and> y_waiting (df_manager D) = 0 \<and>
     (\<forall>t \<in> set (s_tasks (y_s (df_manager D))). t < df_next D)"

definition registered :: "dataflow \<Rightarrow> flow_task list" where
  "registered D = map (df_heap D) (s_tasks (y_s (df_manager D)))"

definition running :: "dataflow \<Rightarrow> bool" where
  "running D \<longleftrightarrow> s_started (y_s (df_manager D))"

text \<open>The tasks that a configuration asks for.\<close>

definition configured_tasks :: "DataflowConfig \<Rightarrow> channel \<Rightarrow> flow_task list" where
  "configured_tasks cfg c =
     (if 0 < cfg_ReportMachineInterval cfg
      then [MachineTask (NewMachineTask (cfg_NodeInfo cfg) (cfg_ReportMachineInterval cfg) c)] else []) @
     (if 0 < cfg_ReportNetworkInterval cfg \<and> cfg_ProbeAddresses cfg \<noteq> []
      then [NetCollectTask (NewNetCollectTask c (cfg_ReportNetworkInterval cfg) (cfg_NodeInfo cfg) (cfg_ProbeAddresses cfg))]
      else [])"

lemma add_new_task_inv:
  assumes "flow_inv D"
  shows "flow_inv (add_new_task t D)" and "registered (add_new_task t D) = registered D @ [t]"
    and "running (add_new_task t D) = running D" and "df_cli (add_new_task t D) = df_cli D"
proof -
  have "sched_step True (df_manager D) (df_manager (add_new_task t D))"
    by (simp add: add_new_task_def sched_step.add)
  with assms have "seq_inv (df_manager (add_new_task t D))" by (auto simp: flow_inv_def intro: seq_inv_step)
  with assms show "flow_inv (add_new_task t D)" by (auto simp: flow_inv_def add_new_task_def AddTask_def)
  show "registered (add_new_task t D) = registered D @ [t]"
    using assms by (auto simp: flow_inv_def registered_def add_new_task_def AddTask_def)
qed (simp_all add: running_def add_new_task_def)

lemma start_inv:
  assumes "flow_inv D" and "scheduler_Start (df_manager D) = (err, y)"
  shows "flow_inv (D\<lparr>df_manager := y\<rparr>) \<and> registered (D\<lparr>df_manager := y\<rparr>) = registered D \<and> running (D\<lparr>df_manager := y\<rparr>) \<and>
    err = (if running D then Some (ErrorString ''task manager already started'') else None)"
proof -
  have "seq_inv y" using seq_inv_start [of "df_manager D"] assms by (simp add: flow_inv_def)
  with assms show ?thesis
    by (auto simp: flow_inv_def registered_def running_def scheduler_Start_def split: if_splits)
qed

lemma Initialize_result:
  assumes "flow_inv D" and "client_usable cli w" and "Initialize cli (Some cfg) w D = (err, D')"
  shows "flow_inv D' \<and> df_cli D' = cli \<and> running D' \<and>
    registered D' = registered D @ configured_tasks cfg \<lparr>ch_cli = cli\<rparr> \<and>
    err = (if running D then Some (ErrorString ''task manager already started'') else None)"
proof -
  let ?c = "\<lparr>ch_cli = cli\<rparr>"
  define D1 where "D1 = D\<lparr>df_cli := cli, df_configuration := Some cfg\<rparr>"
  define D2 where "D2 = add_network_task cfg ?c (add_machine_task cfg ?c D1)"
  have D1: "flow_inv D1" "registered D1 = registered D" "running D1 = running D" "df_cli D1 = cli"
    using assms(1) by (simp_all add: D1_def flow_inv_def registered_def running_def)
  then have D2: "flow_inv D2" "registered D2 = registered D @ configured_tasks cfg ?c" "running D2 = running D" "df_cli D2 = cli"
    by (auto simp: D2_def add_network_task_def add_machine_task_def configured_tasks_def add_new_task_inv)
  obtain y where y: "scheduler_Start (df_manager D2) = (err, y)" "D' = D2\<lparr>df_manager := y\<rparr>"
    using assms(2,3) by (auto simp: Initialize_def NewChannel_def Let_def D1_def D2_def split: prod.splits)
  with start_inv [OF D2(1) y(1)] D2 show ?thesis by simp
qed

lemma Shutdown_result:
  assumes "flow_inv D"
  shows "\<exists>D'. Shutdown D = Ret (None, D') \<and> flow_inv D' \<and> \<not> running D' \<and> df_cli D' = None \<and> registered D' = registered D"
proof (cases "running D")
  case True
  with assms obtain y where "scheduler_Stop (df_manager D) = Ret y" "seq_inv y"
    "y_s y = (y_s (df_manager D))\<lparr>s_started := False\<rparr>" "y_loops y = []"
    using scheduler_Stop_steps [of "df_manager D"] by (auto simp: flow_inv_def running_def)
  moreover from this have "y_stoppers y = [] \<and> y_waiting y = 0"
    using True assms by (auto simp: scheduler_Stop_def flow_inv_def running_def Stop_return_def Stop_close_def Stop_unlock_def
        split: option.splits if_splits)
  ultimately show ?thesis using assms by (auto simp: Shutdown_def flow_inv_def registered_def running_def)
next
  case False
  with assms show ?thesis by (auto simp: Shutdown_def scheduler_Stop_def flow_inv_def registered_def running_def)
qed

subsection \<open>Properties of the lifecycle\<close>

text \<open>
  What \<open>Initialize\<close> and \<open>Shutdown\<close> leave behind.  \<open>Initialize\<close> with a usable
  client registers exactly the tasks the configuration asks for, behind the ones already
  registered, and starts the manager; on a manager that runs it returns an error, but only
  after it has replaced the client and added the tasks.  \<open>Shutdown\<close> stops the manager and
  never fails, but removes no task: after \<open>Shutdown\<close> and a second \<open>Initialize\<close> every
  task is registered twice.
\<close>

theorem reinitialize_duplicates_tasks:
  assumes "flow_inv D" and "client_usable cli w" and "Initialize cli (Some cfg) w D = (err, D1)"
  shows "df_cli D1 = cli \<and> running D1 \<and> registered D1 = registered D @ configured_tasks cfg \<lparr>ch_cli = cli\<rparr> \<and>
    (err = None \<longleftrightarrow> \<not> running D) \<and>
    (\<exists>D2 D3. Shutdown D1 = Ret (None, D2) \<and> \<not> running D2 \<and> df_cli D2 = None \<and>
      Initialize cli (Some cfg) w D2 = (None, D3) \<and>
      registered D3 = registered D @ configured_tasks cfg \<lparr>ch_cli = cli\<rparr> @ configured_tasks cfg \<lparr>ch_cli = cli\<rparr>)"
proof -
  note i1 = Initialize_result [OF assms]
  then obtain D2 where D2: "Shutdown D1 = Ret (None, D2)" "flow_inv D2" "\<not> running D2" "df_cli D2 = None"
    "registered D2 = registered D1" using Shutdown_result [of D1] by blast
  obtain e D3 where D3: "Initialize cli (Some cfg) w D2 = (e, D3)" by fastforce
  with Initialize_result [OF D2(2) assms(2) D3] i1 D2 show ?thesis by auto
qed

definition dataflow_zero :: dataflow where
  "dataflow_zero = \<lparr>df_cli = None, df_configuration = None, df_manager = sys_zero,
     df_heap = (\<lambda>_. NetReportTask (NewNetReportTask \<lparr>ch_cli = None\<rparr> 0 None)), df_next = 0\<rparr>"

definition demo_client :: "(unit, (uint8 \<times> proto_message option) list) client" where
  "demo_client = (\<lparr>cl_addr = ''peer'', cl_event = Some (), cl_options = None\<rparr>, demo_world [])"

definition demo_flow :: "(unit, (uint8 \<times> proto_message option) list) flow" where
  "demo_flow = \<lparr>fl_now = 0, fl_clients = (\<lambda>_. demo_client)\<rparr>"

definition demo_config :: DataflowConfig where
  "demo_config = \<lparr>cfg_NodeInfo = None, cfg_ProbeAddresses = [''h''], cfg_ReportMachineInterval = 10, cfg_ReportNetworkInterval = 20\<rparr>"

lemma demo_usable: "client_usable (Some p) demo_flow"
  by (simp add: client_usable_def demo_flow_def demo_client_def TcpClient_IsClosed_def tcpConn_IsClosed_def demo_defs)

lemma dataflow_zero_inv: "flow_inv dataflow_zero"
  using seq_inv_zero by (simp add: flow_inv_def dataflow_zero_def sys_zero_def scheduler_zero_def)

theorem reinitialize_duplicates_tasks_witness:
  "\<exists>D1 D2 D3. Initialize (Some 0) (Some demo_config) demo_flow dataflow_zero = (None, D1) \<and>
     Shutdown D1 = Ret (None, D2) \<and> Initialize (Some 0) (Some demo_config) demo_flow D2 = (None, D3) \<and>
     map task_ID (registered D3) = [''machine'', ''net_collect'', ''machine'', ''net_collect'']"
proof -
  obtain err D1 where D1: "Initialize (Some 0) (Some demo_config) demo_flow dataflow_zero = (err, D1)" by fastforce
  have "\<not> running dataflow_zero" "registered dataflow_zero = []"
    by (simp_all add: running_def registered_def dataflow_zero_def sys_zero_def scheduler_zero_def)
  with reinitialize_duplicates_tasks [OF dataflow_zero_inv demo_usable D1] D1 show ?thesis
    by (auto simp: configured_tasks_def demo_config_def)
qed


definition demo_flow_env :: flow_env where
  "demo_flow_env = \<lparr>fe_counts = (\<lambda>_. Inr 1), fe_times1 = (\<lambda>_. []), fe_times2 = (\<lambda>_. []), fe_mem = (\<lambda>_. Inr (1, 2)),
     fe_disk = (\<lambda>_. Inr []), fe_unix = (\<lambda>_. 0), fe_nan = 0, fe_probe = (\<lambda>_ _ _. demo_env), fe_elapsed = (\<lambda>_. 1)\<rparr>"

definition demo_sched :: scheduler where
  "demo_sched = \<lparr>s_stop = Some 0, s_started = True, s_tasks = [0]\<rparr>"

definition demo_task :: flow_task where
  "demo_task = NetCollectTask (NewNetCollectTask \<lparr>ch_cli = Some 0\<rparr> 10 None [])"


subsection \<open>What reaches the wire\<close>

definition conn_of :: "nat \<Rightarrow> ('e, 'h) flow \<Rightarrow> ('e, 'h) world" where
  "conn_of p w = snd (fl_clients w p)"

lemma client_Write_conn:
  assumes "client_Write mar sub m p w = Some (Ret (err, w'))"
  shows "tcpConn_WritePacket mar 30 sub m (conn_of p w) = Some (Ret (err, conn_of p w')) \<and>
    (\<forall>q. q \<noteq> p \<longrightarrow> fl_clients w' q = fl_clients w q)"
proof -
  obtain c W where c: "fl_clients w p = (c, W)" by (cases "fl_clients w p")
  have cmd: "u8 30 = 30" by (simp add: u8_def)
  obtain e W' where r: "tcpConn_WritePacket mar 30 sub m W = Some (Ret (e, W'))"
  proof (cases "tcpConn_WritePacket mar 30 sub m W")
    case (Some r)
    with assms c that show ?thesis by (cases r) (auto simp: client_Write_def TcpClient_Write_def cmd)
  qed (use assms c in \<open>simp add: client_Write_def TcpClient_Write_def cmd\<close>)
  with assms c have "e = err" "w' = w\<lparr>fl_clients := (fl_clients w)(p := (c, W'))\<rparr>"
    by (simp_all add: client_Write_def TcpClient_Write_def cmd)
  with r c show ?thesis by (simp add: conn_of_def)
qed

lemma usable_online: "online (conn_of p w) \<Longrightarrow> client_usable (Some p) w"
  by (simp add: client_usable_def TcpClient_IsClosed_def tcpConn_IsClosed_def online_def conn_of_def)

text \<open>The \<open>Notify\<close> functions with their sub-commands.\<close>

definition stream_notifiers ::
  "((marshal \<Rightarrow> StreamMetric \<Rightarrow> dataflow \<Rightarrow> ('e, 'h) flow \<Rightarrow> ('e, 'h, error option) flow_result) \<times> SCMDDataReport) list" where
  "stream_notifiers = [(NotifyNewStreamEvent, SCMDDataReport_STREAM_ADD), (NotifyDeleteStreamEvent, SCMDDataReport_STREAM_DELETE),
     (NotifyStreamStatusEvent, SCMDDataReport_STREAM_STATUS), (NotifyStreamFailedEvent, SCMDDataReport_STREAM_FAILED),
     (NotifyStreamsQueryEvent, SCMDDataReport_STREAMS_QUERY_REQ)]"

definition session_notifiers ::
  "((marshal \<Rightarrow> SessionMetric \<Rightarrow> dataflow \<Rightarrow> ('e, 'h) flow \<Rightarrow> ('e, 'h, error option) flow_result) \<times> SCMDDataReport) list" where
  "session_notifiers = [(NotifyNewSessionEvent, SCMDDataReport_SESSION_ADD),
     (NotifyDeleteSessionEvent, SCMDDataReport_SESSION_DELETE), (NotifySessionUpdateEvent, SCMDDataReport_SESSION_STATUS)]"

text \<open>One frame was added to the stream of client \<open>p\<close> and it decodes to \<open>m\<close>.\<close>

definition reported :: "unmarshal \<Rightarrow> uint8 \<Rightarrow> proto_message \<Rightarrow> nat \<Rightarrow> ('e, 'h) flow \<Rightarrow> ('e, 'h) flow \<Rightarrow> bool" where
  "reported unm sub m p w w' \<longleftrightarrow>
     (\<exists>d. sent (conn_of p w') = sent (conn_of p w) @ frame 30 sub d \<and> Unbox unm 30 sub d = (Some m, None)) \<and>
     online (conn_of p w') \<and> (\<forall>q. q \<noteq> p \<longrightarrow> fl_clients w' q = fl_clients w q)"

lemma client_Write_reported:
  assumes "proto_codec_ok mar unm" and "online (conn_of p w)" and "map_of protocol (30, sub) = Some (kind m)"
    and "client_Write mar sub m p w = Some (Ret (None, w'))"
  shows "reported unm sub m p w w'"
proof -
  note c = client_Write_conn [OF assms(4)]
  then have f: "fits mar m" "online (conn_of p w')" "sent (conn_of p w') = sent (conn_of p w) @ frame 30 sub (projr (mar m))"
    using WritePacket_success [OF assms(2)] by blast+
  then obtain d where "mar m = Inr d" by (auto simp: fits_def)
  moreover from this have "Unbox unm 30 sub d = (Some m, None)"
    using assms(1,3) Unbox_table [where cmd = 30 and sub = sub and unm = unm and data = d]
    by (simp add: unmarshal_new_def proto_codec_ok_def)
  ultimately show ?thesis using f c by (auto simp: reported_def)
qed

lemma notify_reported:
  assumes "proto_codec_ok mar unm" and "df_cli D = Some p" and "online (conn_of p w)"
    and "map_of protocol (30, u8 (SCMDDataReport_number sub)) = Some (kind m)"
    and "notify sub mar m D w = Some (Ret (None, w'))"
  shows "reported unm (u8 (SCMDDataReport_number sub)) m p w w'"
  using assms client_Write_reported [OF assms(1,3,4)] usable_online [OF assms(3)]
  by (simp add: notify_def getClient_def)

lemmas notifier_defs = NotifyNewStreamEvent_def NotifyDeleteStreamEvent_def NotifyStreamStatusEvent_def
  NotifyStreamFailedEvent_def NotifyStreamsQueryEvent_def NotifyNewSessionEvent_def NotifyDeleteSessionEvent_def
  NotifySessionUpdateEvent_def

text \<open>
  C28: a \<open>Notify\<close> function that returns no error has sent exactly one packet on the
  package's client and on no other, under \<open>DATA_REPORT\<close> and its own sub-command, and the
  receiver's \<open>Unbox\<close> decodes that packet to the reported metric.
\<close>

theorem notify_reports_metric:
  assumes "proto_codec_ok mar unm" and "df_cli D = Some p" and "online (conn_of p w)"
  shows "((f, sub) \<in> set stream_notifiers \<and> f mar sm D w = Some (Ret (None, w')) \<longrightarrow>
      reported unm (u8 (SCMDDataReport_number sub)) (MStreamMetric sm) p w w') \<and>
    ((g, sub) \<in> set session_notifiers \<and> g mar se D w = Some (Ret (None, w')) \<longrightarrow>
      reported unm (u8 (SCMDDataReport_number sub)) (MSessionMetric se) p w w')"
proof -
  have "f mar sm D w = notify sub mar (MStreamMetric sm) D w \<and>
      map_of protocol (30, u8 (SCMDDataReport_number sub)) = Some (kind (MStreamMetric sm))"
    if "(f, sub) \<in> set stream_notifiers"
    using that by (auto simp: stream_notifiers_def notifier_defs u8_def protocol_def)
  moreover have "g mar se D w = notify sub mar (MSessionMetric se) D w \<and>
      map_of protocol (30, u8 (SCMDDataReport_number sub)) = Some (kind (MSessionMetric se))"
    if "(g, sub) \<in> set session_notifiers"
    using that by (auto simp: session_notifiers_def notifier_defs u8_def protocol_def)
  ultimately show ?thesis using notify_reported [OF assms] by metis
qed

text \<open>A codec for the empty stream metric, which protobuf encodes as no bytes.\<close>

definition stream_marshal :: marshal where
  "stream_marshal m = (if m = MStreamMetric StreamMetric_zero then Inr [] else Inl (External 0))"

definition stream_unmarshal :: unmarshal where
  "stream_unmarshal d m = (case m of MStreamMetric _ \<Rightarrow> (MStreamMetric StreamMetric_zero, None) | _ \<Rightarrow> (m, Some (External 0)))"

lemma stream_codec_ok: "proto_codec_ok stream_marshal stream_unmarshal"
  by (auto simp: proto_codec_ok_def stream_marshal_def stream_unmarshal_def split: if_splits proto_message.splits)

lemma demo_online: "online (conn_of p demo_flow)"
  by (simp add: conn_of_def demo_flow_def demo_client_def online_def demo_defs)

lemma client_Write_clean:
  assumes "conn_of p w = W" and "c_conn (w_conn W) = Some nc" and "nc_wfail nc = []" and "online W" and "fits mar m"
  shows "\<exists>w' nc'. client_Write mar sub m p w = Some (Ret (None, w')) \<and> online (conn_of p w') \<and>
    c_conn (w_conn (conn_of p w')) = Some nc' \<and> nc_wfail nc' = [] \<and> fl_now w' = fl_now w"
proof -
  obtain c where c: "fl_clients w p = (c, W)" using assms(1) by (metis conn_of_def prod.collapse)
  have cmd: "u8 30 = 30" by (simp add: u8_def)
  obtain W' nc' where "tcpConn_WritePacket mar 30 sub m W = Some (Ret (None, W'))" "c_conn (w_conn W') = Some nc'"
    "nc_wfail nc' = []" "online W'" using WritePacket_clean [OF assms(2-5)] by blast
  with c show ?thesis
    by (intro exI [of _ "w\<lparr>fl_clients := (fl_clients w)(p := (c, W'))\<rparr>"] exI [of _ nc'])
      (simp add: client_Write_def TcpClient_Write_def cmd conn_of_def)
qed

theorem notify_reports_metric_witness:
  "\<exists>w'. NotifyNewStreamEvent stream_marshal StreamMetric_zero (dataflow_zero\<lparr>df_cli := Some 0\<rparr>) demo_flow = Some (Ret (None, w')) \<and>
     reported stream_unmarshal 20 (MStreamMetric StreamMetric_zero) 0 demo_flow w'"
proof -
  let ?D = "dataflow_zero\<lparr>df_cli := Some 0\<rparr>"
  have "fits stream_marshal (MStreamMetric StreamMetric_zero)" by (simp add: fits_def stream_marshal_def)
  moreover have c: "conn_of 0 demo_flow = demo_world []" "c_conn (w_conn (demo_world [])) = Some (demo_net [])" "nc_wfail (demo_net []) = []"
    by (simp_all add: conn_of_def demo_flow_def demo_client_def demo_defs)
  ultimately obtain w' where w': "client_Write stream_marshal 20 (MStreamMetric StreamMetric_zero) 0 demo_flow = Some (Ret (None, w'))"
    using client_Write_clean [OF c] demo_online [of 0] unfolding c(1) by blast
  have u: "u8 20 = 20" by (simp add: u8_def)
  have n: "NotifyNewStreamEvent stream_marshal StreamMetric_zero ?D demo_flow = Some (Ret (None, w'))"
    using w' demo_usable [of 0] by (simp add: NotifyNewStreamEvent_def notify_def getClient_def u)
  have "(NotifyNewStreamEvent, SCMDDataReport_STREAM_ADD) \<in> set stream_notifiers" by (simp add: stream_notifiers_def)
  with notify_reports_metric [OF stream_codec_ok _ demo_online, of ?D 0 NotifyNewStreamEvent SCMDDataReport_STREAM_ADD] n u
  show ?thesis by auto
qed

text \<open>
  The checks of the package do not cover a client that was never connected.  Such a
  client is not closed, so \<open>Initialize\<close> accepts it and starts the tasks, and then every
  \<open>Notify\<close> function, whatever the metric, panics on the missing packet writer.
\<close>

theorem unconnected_client_panics:
  assumes "fl_clients w p = NewTcpClient addr ev opts W" and "flow_inv D" and "\<not> running D"
  shows "\<exists>D'. Initialize (Some p) (Some cfg) w D = (None, D') \<and>
    (\<forall>(f, sub) \<in> set stream_notifiers. f mar sm D' w = Some (Panic ''invalid memory address or nil pointer dereference'')) \<and>
    (\<forall>(g, sub) \<in> set session_notifiers. g mar se D' w = Some (Panic ''invalid memory address or nil pointer dereference''))"
proof -
  have conn: "c_writer (w_conn (snd (fl_clients w p))) = None" "\<not> c_closed (w_conn (snd (fl_clients w p)))"
    using assms(1) by (simp_all add: NewTcpClient_def Let_def NewClientConn_def tcpConn_zero_def)
  have ok: "client_usable (Some p) w" using conn(2) by (simp add: client_usable_def TcpClient_IsClosed_def tcpConn_IsClosed_def)
  obtain e D' where i: "Initialize (Some p) (Some cfg) w D = (e, D')" by fastforce
  note res = Initialize_result [OF assms(2) ok i]
  have "notify s mar m D' w = Some (Panic ''invalid memory address or nil pointer dereference'')" for s m
  proof -
    have "TcpClient_Write mar c sub m (fl_clients w p) = Some (Panic ''invalid memory address or nil pointer dereference'')" for c sub
      using conn(1) by (cases "fl_clients w p") (simp add: TcpClient_Write_def tcpConn_WritePacket_def)
    then show ?thesis using res ok by (simp add: notify_def getClient_def client_Write_def)
  qed
  with res i assms(3) show ?thesis by (auto simp: stream_notifiers_def session_notifiers_def notifier_defs)
qed

theorem unconnected_client_panics_witness:
  "\<exists>D'. Initialize (Some 0) (Some demo_config) (demo_flow\<lparr>fl_clients := (\<lambda>_. NewTcpClient ''peer'' None None (demo_world []))\<rparr>)
      dataflow_zero = (None, D') \<and>
    NotifyNewStreamEvent ping_marshal StreamMetric_zero D' (demo_flow\<lparr>fl_clients := (\<lambda>_. NewTcpClient ''peer'' None None (demo_world []))\<rparr>) =
      Some (Panic ''invalid memory address or nil pointer dereference'')"
  using unconnected_client_panics [where w = "demo_flow\<lparr>fl_clients := (\<lambda>_. NewTcpClient ''peer'' None None (demo_world []))\<rparr>"
      and p = 0 and addr = "''peer''" and ev = None and opts = None and W = "demo_world []" and D = dataflow_zero
      and cfg = demo_config and mar = ping_marshal and sm = StreamMetric_zero, OF _ dataflow_zero_inv]
  by (auto simp: running_def dataflow_zero_def sys_zero_def scheduler_zero_def stream_notifiers_def)

end
