(* ===== verification/Disco_Menu.thy ===== *)
theory Disco_Menu
  imports Disco_Server Dataflow
begin

text \<open>
  The interactive discovery client (\<open>examples/disco/client/client.go\<close>): its event handler,
  the menu loop with the packets of each choice, the reporting session of choice 4 and
  \<open>main\<close>.  It is the program of the repository that drives the TCP client, the data
  reporting package and the discovery server together; the theory shows what a session of it
  leaves behind, and what the server makes of its packets.
\<close>

subsection \<open>The event handler\<close>

definition client_OnCmdSystem :: "proto_message option \<Rightarrow> 's \<Rightarrow> error option outcome \<times> 's" where
  "client_OnCmdSystem pkt s =
     (case pkt of
        Some (MPong p) \<Rightarrow> (Ret None, s)
      | _ \<Rightarrow> (Ret (Some (ErrorString ''unknown system command: '')), s))"

definition client_eventHandler :: "'s EventHandler" where
  "client_eventHandler =
     \<lparr>ev_OnConnect = (\<lambda>s. (None, s)),
      ev_OnClose = (\<lambda>s. s),
      ev_OnCmdSystem = client_OnCmdSystem,
      ev_OnCmdDiscovery = (\<lambda>pkt s. (Ret None, s)),
      ev_OnCmdDataReport = (\<lambda>sub pkt s. (Ret None, s)),
      ev_OnCmdConfig = (\<lambda>pkt s. (Ret None, s)),
      ev_OnCmdEvent = (\<lambda>pkt s. (Ret None, s)),
      ev_OnCmdControl = (\<lambda>pkt s. (Ret None, s))\<rparr>"

subsection \<open>Choices 1 to 3: packets\<close>

definition menu_instance :: "int \<Rightarrow> string \<Rightarrow> string \<Rightarrow> string \<Rightarrow> string \<Rightarrow> Instance" where
  "menu_instance node name publicIp privateIp innerIp = Instance_zero\<lparr>
     inst_InstanceName := name, inst_PublicIp := publicIp, inst_PublicPort := 80,
     inst_PrivateIp := privateIp, inst_PrivatePort := 8080, inst_InnerIp := innerIp, inst_InnerPort := 9000,
     inst_Weight := 1, inst_Healthy := True, inst_Enable := True, inst_Ephemeral := False,
     inst_Node := word_of_int node\<rparr>"

definition menu_registers :: "int \<Rightarrow> Instance list" where
  "menu_registers node =
     [menu_instance node ''test1'' ''124.79.229.235'' ''127.0.0.1'' ''10.0.0.1'',
      menu_instance node ''test2'' ''124.79.229.234'' ''127.0.0.2'' ''10.0.0.2'']"

definition menu_deregister :: "string \<Rightarrow> int32 \<Rightarrow> Deregister" where
  "menu_deregister name port = Deregister_zero\<lparr>dereg_InstanceName := name,
     dereg_Ip := ''10.157.225.55'', dereg_Port := port, dereg_Node := 4\<rparr>"

definition menu_deregisters :: "Deregister list" where
  "menu_deregisters = [menu_deregister ''web'' 8000, menu_deregister ''rtmp'' 2935, menu_deregister ''rtsp'' 8554]"

definition menu_lookup :: Lookup where
  "menu_lookup = Lookup_zero\<lparr>lkp_ServiceName := ''web'', lkp_Node := 4, lkp_Healthy := True\<rparr>"

definition disco_packet :: "SCMDDisco \<Rightarrow> proto_message \<Rightarrow> uint8 \<times> uint8 \<times> proto_message" where
  "disco_packet sub m = (u8 (CMD_number CMD_DISCOVERY), u8 (SCMDDisco_number sub), m)"

definition menu_packets :: "int \<Rightarrow> int \<Rightarrow> (uint8 \<times> uint8 \<times> proto_message) list" where
  "menu_packets node choice =
     (if choice = 1 then map (\<lambda>i. disco_packet SCMDDisco_REGISTER (MInstance i)) (menu_registers node)
      else if choice = 2 then map (\<lambda>d. disco_packet SCMDDisco_DEREGISTER (MDeregister d)) menu_deregisters
      else if choice = 3 then [disco_packet SCMDDisco_LOOKUP (MLookup menu_lookup)]
      else [])"

text \<open>\<open>cli.Write\<close> through the pointer; an error is only logged and the next packet is tried.\<close>

fun menu_send ::
  "marshal \<Rightarrow> nat \<Rightarrow> (uint8 \<times> uint8 \<times> proto_message) list \<Rightarrow> ('e, 'h) flow \<Rightarrow> ('e, 'h) flow outcome option" where
  "menu_send mar p [] w = Some (Ret w)"
| "menu_send mar p ((cmd, sub, m) # ps) w =
     (case TcpClient_Write mar cmd sub m (fl_clients w p) of
        None \<Rightarrow> None
      | Some (Panic s) \<Rightarrow> Some (Panic s)
      | Some (Ret (_, c)) \<Rightarrow> menu_send mar p ps (w\<lparr>fl_clients := (fl_clients w)(p := c)\<rparr>))"

subsection \<open>Choice 4: a reporting session\<close>

text \<open>
  What comes from outside, by the number of the turn: whether the context is over, the
  results of the host queries, the clock at the start of a turn and at each notification,
  the stream IDs, and how many of the one-second sleeps of the stream goroutine end before it
  is cancelled.  \<open>me_between\<close> is what the
  scheduler's goroutine does to the shared clients meanwhile.
\<close>

record ('e, 'h) menu_env =
  me_done :: "nat \<Rightarrow> bool"
  me_hostname :: "nat \<Rightarrow> error + string"
  me_internalIP :: "nat \<Rightarrow> string"
  me_hostIPs :: "nat \<Rightarrow> error + string list"
  me_unix :: "nat \<Rightarrow> int64"
  me_now :: "nat \<Rightarrow> nat \<Rightarrow> int64"
  me_uuid :: "nat \<Rightarrow> nat \<Rightarrow> string"
  me_sleeps :: "nat \<Rightarrow> nat"
  me_between :: "nat \<Rightarrow> ('e, 'h) flow \<Rightarrow> ('e, 'h) flow"

definition menu_config :: "NodeInfo \<Rightarrow> int \<Rightarrow> int64 \<Rightarrow> DataflowConfig" where
  "menu_config nodeInfo node now =
     \<lparr>cfg_NodeInfo = Some (nodeInfo\<lparr>ni_Name := '''', ni_Node := node, ni_StartTime := now\<rparr>),
      cfg_ProbeAddresses = [''www.baidu.com'', ''www.ludechem.com'', ''www.google.com''],
      cfg_ReportMachineInterval = 10000000000, cfg_ReportNetworkInterval = 10000000000\<rparr>"

definition stream_metric :: "NodeInfo \<Rightarrow> string \<Rightarrow> StreamMetric" where
  "stream_metric nodeInfo streamId = StreamMetric_zero\<lparr>
     sm_MachineId := ni_ID nodeInfo, sm_StreamId := streamId,
     sm_StreamPath := ''/vod/'' @ streamId @ ''.m3u8'',
     sm_MachineType := MachineType_number MachineType_MT_GATEWAY\<rparr>"

definition new_stream_metric :: "NodeInfo \<Rightarrow> string \<Rightarrow> int \<Rightarrow> int64 \<Rightarrow> StreamMetric" where
  "new_stream_metric nodeInfo streamId node now = (stream_metric nodeInfo streamId)\<lparr>
     sm_Status := StreamStatus_number StreamStatus_SS_RUNNING,
     sm_VideoCodec := StreamCodec_number StreamCodec_SC_H264,
     sm_AudioCodec := StreamCodec_number StreamCodec_SC_AAC,
     sm_Protocol := StreamProtocol_number StreamProtocol_SP_HTTP_FLV,
     sm_Bitrate := 1000000, sm_Width := 1920, sm_Height := 1080,
     sm_StreamAlias := ''/liveshow'', sm_Timestamp := now, sm_NodeId := Itoa node\<rparr>"

text \<open>The five notifications of one round of the goroutine.\<close>

definition stream_notify ::
  "marshal \<Rightarrow> nat \<Rightarrow> NodeInfo \<Rightarrow> string \<Rightarrow> int \<Rightarrow> int64 \<Rightarrow> dataflow \<Rightarrow> ('e, 'h) flow \<Rightarrow> ('e, 'h, error option) flow_result" where
  "stream_notify mar k ni streamId node now D w =
     (if k = 0 then NotifyNewStreamEvent mar (new_stream_metric ni streamId node now) D w
      else if k = 1 then
        NotifyDeleteStreamEvent mar ((stream_metric ni streamId)\<lparr>sm_Status := StreamStatus_number StreamStatus_SS_CLOSED\<rparr>) D w
      else if k = 2 then
        NotifyStreamFailedEvent mar ((stream_metric ni streamId)\<lparr>sm_Status := StreamStatus_number StreamStatus_SS_FAILED\<rparr>) D w
      else if k = 3 then NotifyStreamStatusEvent mar (stream_metric ni streamId) D w
      else NotifyStreamsQueryEvent mar (stream_metric ni streamId) D w)"

text \<open>
  \<open>i\<close> counts the sleeps that ended; the goroutine returns at the first one that is
  cancelled.  A round has five of them and a stream ID of its own.
\<close>

fun stream_loop ::
  "marshal \<Rightarrow> ('e, 'h) menu_env \<Rightarrow> nat \<Rightarrow> NodeInfo \<Rightarrow> int \<Rightarrow> nat \<Rightarrow> nat \<Rightarrow> dataflow \<Rightarrow> ('e, 'h) flow \<Rightarrow> ('e, 'h) flow outcome option" where
  "stream_loop mar E turn ni node i 0 D w = Some (Ret w)"
| "stream_loop mar E turn ni node i (Suc n) D w =
     (case stream_notify mar (i mod 5) ni (me_uuid E turn (i div 5)) node (me_now E turn i) D (me_between E i w) of
        None \<Rightarrow> None
      | Some (Panic s) \<Rightarrow> Some (Panic s)
      | Some (Ret (_, w')) \<Rightarrow> stream_loop mar E turn ni node (Suc i) n D w')"

text \<open>The result says whether the menu goes on: \<open>return\<close> leaves it, \<open>break\<close> does not.\<close>

definition menu_report ::
  "marshal \<Rightarrow> ('e, 'h) menu_env \<Rightarrow> nat \<Rightarrow> nat \<Rightarrow> int \<Rightarrow> dataflow \<Rightarrow> ('e, 'h) flow
    \<Rightarrow> (bool \<times> dataflow \<times> ('e, 'h) flow) outcome option" where
  "menu_report mar E turn p node D w =
     (case ReadBaseNodeInfo (me_hostname E turn) (me_internalIP E turn) (me_hostIPs E turn) (me_unix E turn) node of
        Panic s \<Rightarrow> Some (Panic s)
      | Ret (Inl e) \<Rightarrow> Some (Ret (False, D, w))
      | Ret (Inr nodeInfo) \<Rightarrow>
         (case Initialize (Some p) (Some (menu_config nodeInfo node (me_unix E turn))) w D of
            (Some e, D1) \<Rightarrow> Some (Ret (True, D1, w))
          | (None, D1) \<Rightarrow>
             (case stream_loop mar E turn nodeInfo node 0 (me_sleeps E turn) D1 w of
                None \<Rightarrow> None
              | Some (Panic s) \<Rightarrow> Some (Panic s)
              | Some (Ret w1) \<Rightarrow>
                 (case Shutdown D1 of
                    Panic s \<Rightarrow> Some (Panic s)
                  | Ret (_, D2) \<Rightarrow> Some (Ret (True, D2, w1))))))"

subsection \<open>The loop and main\<close>

text \<open>An input is the number read by \<open>Scanln\<close>, or \<open>None\<close> when it fails.\<close>

definition menu_choice ::
  "marshal \<Rightarrow> ('e, 'h) menu_env \<Rightarrow> nat \<Rightarrow> nat \<Rightarrow> int \<Rightarrow> int \<Rightarrow> dataflow \<Rightarrow> ('e, 'h) flow
    \<Rightarrow> (bool \<times> dataflow \<times> ('e, 'h) flow) outcome option" where
  "menu_choice mar E turn p node choice D w =
     (if choice = 4 then menu_report mar E turn p node D w
      else (case menu_send mar p (menu_packets node choice) w of
          None \<Rightarrow> None
        | Some (Panic s) \<Rightarrow> Some (Panic s)
        | Some (Ret w') \<Rightarrow> Some (Ret (True, D, w'))))"

fun interactiveLoop ::
  "marshal \<Rightarrow> ('e, 'h) menu_env \<Rightarrow> nat \<Rightarrow> nat \<Rightarrow> int \<Rightarrow> int option list \<Rightarrow> dataflow \<Rightarrow> ('e, 'h) flow
    \<Rightarrow> (dataflow \<times> ('e, 'h) flow) outcome option" where
  "interactiveLoop mar E turn p node [] D w = Some (Ret (D, w))"
| "interactiveLoop mar E turn p node (None # ins) D w = Some (Ret (D, w))"
| "interactiveLoop mar E turn p node (Some choice # ins) D w =
     (if me_done E turn then Some (Ret (D, w))
      else (case menu_choice mar E turn p node choice D w of
          None \<Rightarrow> None
        | Some (Panic s) \<Rightarrow> Some (Panic s)
        | Some (Ret (False, D', w')) \<Rightarrow> Some (Ret (D', w'))
        | Some (Ret (True, D', w')) \<Rightarrow> interactiveLoop mar E (Suc turn) p node ins D' w'))"

text \<open>
  \<open>main\<close>: \<open>Inl\<close> is the error of \<open>Fatalf\<close> when connecting fails; otherwise the loop runs
  on the connected client and \<open>Wait\<close> closes it when the context ends.
\<close>

definition client_main ::
  "kernel \<Rightarrow> ('e, 'h) callbacks \<Rightarrow> 'e \<Rightarrow> marshal \<Rightarrow> ('e, 'h) menu_env \<Rightarrow> string \<Rightarrow> int \<Rightarrow> int option list
    \<Rightarrow> ('e, 'h) world \<Rightarrow> (error + error option \<times> dataflow \<times> ('e, 'h) client) outcome option" where
  "client_main K cb handler mar E addr node ins W =
     (case TcpClient_Connect K cb (NewTcpClient addr (Some handler) None W) of
        (Some e, _) \<Rightarrow> Some (Ret (Inl e))
      | (None, cli) \<Rightarrow>
         (case interactiveLoop mar E 0 0 node ins dataflow_zero \<lparr>fl_now = 0, fl_clients = (\<lambda>_. cli)\<rparr> of
            None \<Rightarrow> None
          | Some (Panic s) \<Rightarrow> Some (Panic s)
          | Some (Ret (D, w)) \<Rightarrow>
             (case TcpClient_Wait K cb ContextCanceled (fl_clients w 0) of
                Panic s \<Rightarrow> Some (Panic s)
              | Ret (err, cli') \<Rightarrow>
                  Some (Ret (Inr (if err = Some ContextCanceled then None else err, D, cli'))))))"

subsection \<open>What a session leaves behind\<close>

lemma menu_packets_known:
  "\<forall>(cmd, sub, m) \<in> set (menu_packets node choice). map_of protocol (cmd, sub) = Some (kind m)"
  by (auto simp: menu_packets_def menu_registers_def menu_deregisters_def disco_packet_def u8_def protocol_def
      split: if_splits)

lemma TcpClient_Write_returns:
  assumes "online (snd c)"
  shows "\<exists>err c'. TcpClient_Write mar cmd sub m c = Some (Ret (err, c')) \<and> online (snd c')"
  using WritePacket_returns [OF assms, of mar cmd sub m] by (cases c) (auto simp: TcpClient_Write_def)

lemma menu_send_returns:
  "online (conn_of p w) \<Longrightarrow> \<exists>w'. menu_send mar p ps w = Some (Ret w') \<and> online (conn_of p w')"
proof (induction ps arbitrary: w)
  case (Cons x ps)
  obtain cmd sub m where x: "x = (cmd, sub, m)" by (cases x)
  obtain err c where "TcpClient_Write mar cmd sub m (fl_clients w p) = Some (Ret (err, c))" "online (snd c)"
    using TcpClient_Write_returns Cons.prems by (metis conn_of_def)
  with Cons.IH [of "w\<lparr>fl_clients := (fl_clients w)(p := c)\<rparr>"] x show ?case
    by (simp add: conn_of_def)
qed simp

lemma notify_returns:
  assumes "online (conn_of p w)" and "df_cli D = Some p"
  shows "\<exists>err w'. notify sub mar m D w = Some (Ret (err, w')) \<and> online (conn_of p w')"
proof -
  obtain err c where "TcpClient_Write mar (u8 (CMD_number CMD_DATA_REPORT)) (u8 (SCMDDataReport_number sub)) m (fl_clients w p) =
      Some (Ret (err, c))" "online (snd c)"
    using TcpClient_Write_returns assms(1) by (metis conn_of_def)
  with assms usable_online [OF assms(1)] show ?thesis
    by (simp add: notify_def getClient_def client_Write_def conn_of_def)
qed

text \<open>The scheduler's goroutine may use the client as well, but does not take it offline.\<close>

definition keeps_online :: "nat \<Rightarrow> ('e, 'h) menu_env \<Rightarrow> bool" where
  "keeps_online p E \<longleftrightarrow> (\<forall>i w. online (conn_of p w) \<longrightarrow> online (conn_of p (me_between E i w)))"

lemma stream_loop_returns:
  assumes "keeps_online p E" and "df_cli D = Some p" and "online (conn_of p w)"
  shows "\<exists>w'. stream_loop mar E turn ni node i n D w = Some (Ret w') \<and> online (conn_of p w')"
  using assms(3)
proof (induction n arbitrary: i w)
  case (Suc n)
  have "online (conn_of p (me_between E i w))"
    using assms(1) Suc.prems by (simp add: keeps_online_def)
  then obtain err w1 where "stream_notify mar (i mod 5) ni (me_uuid E turn (i div 5)) node (me_now E turn i) D (me_between E i w) =
      Some (Ret (err, w1))" "online (conn_of p w1)"
    using notify_returns [OF _ assms(2)] unfolding stream_notify_def notifier_defs by metis
  with Suc.IH [of w1 "Suc i"] show ?case by simp
qed simp

text \<open>The host queries return: a machine without an address makes \<open>ReadBaseNodeInfo\<close> panic.\<close>

definition host_known :: "('e, 'h) menu_env \<Rightarrow> bool" where
  "host_known E \<longleftrightarrow> (\<forall>t. IsEmptyStr (me_internalIP E t) \<longrightarrow> me_hostIPs E t \<noteq> Inr [])"

lemma read_node:
  assumes "host_known E"
  shows "(\<exists>e. me_hostname E t = Inl e \<and>
      ReadBaseNodeInfo (me_hostname E t) (me_internalIP E t) (me_hostIPs E t) now node = Ret (Inl e)) \<or>
    (\<exists>h ni. me_hostname E t = Inr h \<and>
      ReadBaseNodeInfo (me_hostname E t) (me_internalIP E t) (me_hostIPs E t) now node = Ret (Inr ni))"
  using assms by (auto simp: host_known_def ReadBaseNodeInfo_def split: sum.splits list.splits)

text \<open>The number of reporting sessions that a sequence of inputs makes.\<close>

fun sessions :: "('e, 'h) menu_env \<Rightarrow> nat \<Rightarrow> int option list \<Rightarrow> nat" where
  "sessions E t [] = 0"
| "sessions E t (None # ins) = 0"
| "sessions E t (Some choice # ins) =
     (if me_done E t then 0
      else if choice \<noteq> 4 then sessions E (Suc t) ins
      else (case me_hostname E t of Inl _ \<Rightarrow> 0 | Inr _ \<Rightarrow> Suc (sessions E (Suc t) ins)))"

lemma menu_report_returns:
  assumes "flow_inv D" and "\<not> running D" and "online (conn_of p w)" and "keeps_online p E" and "host_known E"
  shows "\<exists>D' w'. menu_report mar E turn p node D w = Some (Ret (\<not> isl (me_hostname E turn), D', w')) \<and>
    flow_inv D' \<and> \<not> running D' \<and> online (conn_of p w') \<and>
    length (registered D') = length (registered D) + (if \<not> isl (me_hostname E turn) then 2 else 0)"
  using read_node [OF assms(5), of turn "me_unix E turn" node]
proof (elim disjE exE conjE)
  fix h ni assume h: "me_hostname E turn = Inr h"
    and r: "ReadBaseNodeInfo (me_hostname E turn) (me_internalIP E turn) (me_hostIPs E turn) (me_unix E turn) node = Ret (Inr ni)"
  have isl: "isl (me_hostname E turn) = False" using h by simp
  let ?cfg = "menu_config ni node (me_unix E turn)"
  obtain err D1 where i: "Initialize (Some p) (Some ?cfg) w D = (err, D1)" by fastforce
  note D1 = Initialize_result [OF assms(1) usable_online [OF assms(3)] i]
  have e: "err = None" using D1 assms(2) by simp
  have c: "length (configured_tasks ?cfg \<lparr>ch_cli = Some p\<rparr>) = 2"
    by (simp add: configured_tasks_def menu_config_def)
  obtain w1 where w1: "stream_loop mar E turn ni node 0 (me_sleeps E turn) D1 w = Some (Ret w1)" "online (conn_of p w1)"
    using stream_loop_returns [OF assms(4) _ assms(3)] D1 by blast
  obtain D2 where D2: "Shutdown D1 = Ret (None, D2)" "flow_inv D2" "\<not> running D2" "registered D2 = registered D1"
    using Shutdown_result [of D1] D1 by blast
  with D1 c w1 show ?thesis
    by (simp add: menu_report_def r i e isl)
qed (use assms in \<open>simp add: menu_report_def\<close>)

text \<open>
  C30: a whole session of the menu.  On a connected client and whatever is typed, the loop
  returns: no choice panics, every reporting session is shut down again and the connection
  stays usable.  But \<open>Shutdown\<close> forgets no task, so after \<open>n\<close> reporting sessions the
  manager holds \<open>2 * n\<close> tasks more, and the next session runs each report \<open>n + 1\<close> times.
\<close>

theorem menu_session:
  assumes "flow_inv D" and "\<not> running D" and "online (conn_of p w)" and "keeps_online p E" and "host_known E"
  shows "\<exists>D' w'. interactiveLoop mar E turn p node ins D w = Some (Ret (D', w')) \<and>
    flow_inv D' \<and> \<not> running D' \<and> online (conn_of p w') \<and>
    length (registered D') = length (registered D) + 2 * sessions E turn ins"
  using assms(1-3)
proof (induction ins arbitrary: turn D w)
  case (Cons x ins)
  show ?case
  proof (cases x)
    case (Some choice)
    note choice = this
    show ?thesis
    proof (cases "choice = 4")
      case True
      obtain D1 w1 where r: "menu_report mar E turn p node D w = Some (Ret (\<not> isl (me_hostname E turn), D1, w1))"
        "flow_inv D1" "\<not> running D1" "online (conn_of p w1)"
        "length (registered D1) = length (registered D) + (if \<not> isl (me_hostname E turn) then 2 else 0)"
        using menu_report_returns [OF Cons.prems assms(4,5)] by blast
      with Cons.IH [of D1 w1 "Suc turn"] Cons.prems choice True show ?thesis
        by (cases "me_hostname E turn") (auto simp: menu_choice_def)
    next
      case False
      obtain w1 where "menu_send mar p (menu_packets node choice) w = Some (Ret w1)" "online (conn_of p w1)"
        using menu_send_returns [OF Cons.prems(3)] by blast
      with Cons.IH [of D w1 "Suc turn"] Cons.prems choice False show ?thesis
        by (auto simp: menu_choice_def)
    qed
  qed (use Cons.prems in simp)
qed simp

definition demo_menu_env :: "(unit, (uint8 \<times> proto_message option) list) menu_env" where
  "demo_menu_env = \<lparr>me_done = (\<lambda>t. 5 \<le> t), me_hostname = (\<lambda>_. Inr ''host''), me_internalIP = (\<lambda>_. ''''),
     me_hostIPs = (\<lambda>_. Inr [''10.0.0.9'']), me_unix = (\<lambda>t. of_nat t), me_now = (\<lambda>t i. of_nat (t + i)), me_uuid = (\<lambda>t i. ''id''), me_sleeps = (\<lambda>_. 7),
     me_between = (\<lambda>_ w. w)\<rparr>"

theorem menu_session_witness:
  "\<exists>D' w'. interactiveLoop stream_marshal demo_menu_env 0 0 1 [Some 4, Some 1, Some 9, Some 4] dataflow_zero demo_flow =
      Some (Ret (D', w')) \<and> \<not> running D' \<and> length (registered D') = 4"
proof -
  have "\<not> running dataflow_zero" "registered dataflow_zero = []"
    by (simp_all add: running_def registered_def dataflow_zero_def sys_zero_def scheduler_zero_def)
  moreover have "keeps_online 0 demo_menu_env" "host_known demo_menu_env"
    "sessions demo_menu_env 0 [Some 4, Some 1, Some 9, Some 4] = 2"
    by (simp_all add: keeps_online_def host_known_def demo_menu_env_def)
  ultimately show ?thesis
    using menu_session [OF dataflow_zero_inv _ demo_online, of 0 demo_menu_env stream_marshal 0 1 "[Some 4, Some 1, Some 9, Some 4]"]
    by auto
qed

end
