(* ===== verification/Heartbeat_Wire.thy ===== *)
theory Heartbeat_Wire
  imports Disco_Wire Disco_Menu
begin

text \<open>
  A heartbeat down to the bytes: the tick of \<open>heartbeat\<close> (\<open>pkg/network/tcp_con.go\<close>) writes
  a \<open>Ping\<close>, the example server answers with a \<open>Pong\<close> of the same time stamp
  (\<open>examples/disco/server\<close>), and the event handler of the example client
  (\<open>examples/disco/client\<close>), behind the one of the discovery client, takes it.
\<close>

text \<open>The server's system callback on a connection.\<close>

definition server_system ::
  "marshal \<Rightarrow> proto_message option \<Rightarrow> ('e, ('s, 'cb) discoClientFactory \<times> 's) world
    \<Rightarrow> error option outcome \<times> ('e, ('s, 'cb) discoClientFactory \<times> 's) world" where
  "server_system mar pkt W =
     (case server_OnCmdSystem (world_writer mar) pkt (fst (w_app W), snd (w_app W), W) of
        (err, F, s, W') \<Rightarrow> (Ret err, W'\<lparr>w_app := (F, s)\<rparr>))"

text \<open>A socket whose writes do not fail.\<close>

definition healthy :: "('e, 'h) world \<Rightarrow> bool" where
  "healthy W \<longleftrightarrow> map_option nc_wfail (c_conn (w_conn W)) = Some []"

lemma tick_sends:
  assumes "online W" and "healthy W" and "fits mar (MPing \<lparr>ping_Timestamp = now\<rparr>)"
  shows "\<exists>W'. heartbeat_tick mar now W = Some (Ret W') \<and>
    sent W' = sent W @ frame 10 10 (projr (mar (MPing \<lparr>ping_Timestamp = now\<rparr>))) \<and> online W'"
proof -
  obtain nc where "c_conn (w_conn W) = Some nc" "nc_wfail nc = []"
    using assms(2) by (auto simp: healthy_def)
  from WritePacket_clean [OF this assms(1,3), of 10 10]
  obtain W' where w: "tcpConn_WritePacket mar 10 10 (MPing \<lparr>ping_Timestamp = now\<rparr>) W = Some (Ret (None, W'))" by blast
  with assms(1) have "heartbeat_tick mar now W = Some (Ret W')"
    by (auto simp: heartbeat_tick_def online_def u8_def Ping_zero_def)
  with WritePacket_success [OF assms(1) w] show ?thesis by auto
qed

lemma server_system_pong:
  assumes "online W" and "healthy W" and "fits mar (MPong \<lparr>pong_Timestamp = now\<rparr>)"
  shows "\<exists>W'. server_system mar (Some (MPing \<lparr>ping_Timestamp = now\<rparr>)) W = (Ret None, W') \<and> w_app W' = w_app W \<and>
    sent W' = sent W @ frame 10 11 (projr (mar (MPong \<lparr>pong_Timestamp = now\<rparr>)))"
proof -
  obtain W' where w: "world_writer mar 10 11 (MPong \<lparr>pong_Timestamp = now\<rparr>) W = (None, W')"
    using world_writer_clean [OF assms(1) _ assms(3)] assms(2) by (auto simp: healthy_def)
  have "sent (W'\<lparr>w_app := a\<rparr>) = sent W'" for a by (simp add: sent_def)
  with w world_writer_sends [OF assms(1) w] show ?thesis
    by (simp add: server_system_def server_OnCmdSystem_def u8_def)
qed

text \<open>
  C29: a heartbeat is answered.  On an open connection whose writes do not fail, a tick of the
  heartbeat at time \<open>now\<close> writes one frame; the server, reading these bytes however the network
  cut them, decodes the \<open>Ping\<close>, returns no error, keeps its state and writes one frame; and
  the client, reading that frame cut in any way, decodes a \<open>Pong\<close> with the time \<open>now\<close>, which
  its handler takes without an error and without a change to its state.
\<close>

theorem heartbeat_answered:
  assumes "proto_codec_ok mar unm" and "fits mar (MPing \<lparr>ping_Timestamp = now\<rparr>)" and "fits mar (MPong \<lparr>pong_Timestamp = now\<rparr>)"
    and "online Wc" and "healthy Wc"
    and "conn_l.buf_ok (r_br rs)" and "conn_l.buf_pending (r_br rs) = frame 10 10 (projr (mar (MPing \<lparr>ping_Timestamp = now\<rparr>)))"
    and "c_event (w_conn (br_src (r_br rs))) = Some e" and "c_writer (w_conn (br_src (r_br rs))) \<noteq> None"
    and "healthy (br_src (r_br rs))" and "ev_OnCmdSystem (scb e) = server_system mar"
    and "conn_l.buf_ok (r_br rc)" and "conn_l.buf_pending (r_br rc) = frame 10 11 (projr (mar (MPong \<lparr>pong_Timestamp = now\<rparr>)))"
    and "c_event (w_conn (br_src (r_br rc))) = Some e'" and "ccb e' = WrapEventHandler (Some client_eventHandler) (Some wake_client)"
  shows "(\<exists>Wc1. heartbeat_tick mar now Wc = Some (Ret Wc1) \<and> online Wc1 \<and>
      sent Wc1 = sent Wc @ conn_l.buf_pending (r_br rs)) \<and>
    (\<exists>h p rs1 Ws. tcpReader_ReadPacket tcpConn_Read tcpConn_IsClosed rs = Some (Inr (h, p), rs1) \<and>
      tcpConn_OnMessage unm scb h p (br_src (r_br rs1)) = (Ret None, Ws) \<and> w_app Ws = w_app (br_src (r_br rs)) \<and>
      sent Ws = sent (br_src (r_br rs)) @ conn_l.buf_pending (r_br rc)) \<and>
    (\<exists>h p rc1 W. tcpReader_ReadPacket tcpConn_Read tcpConn_IsClosed rc = Some (Inr (h, p), rc1) \<and>
      Unbox unm (h_CMD h) (h_SubCMD h) (slice_bytes p) = (Some (MPong \<lparr>pong_Timestamp = now\<rparr>), None) \<and>
      tcpConn_OnMessage unm ccb h p (br_src (r_br rc1)) = (Ret None, W) \<and> w_app W = w_app (br_src (r_br rc)))"
proof (intro conjI)
  let ?ping = "MPing \<lparr>ping_Timestamp = now\<rparr>" and ?pong = "MPong \<lparr>pong_Timestamp = now\<rparr>"
  have known: "map_of protocol (10, 10) = Some (kind ?ping)" "map_of protocol (10, 11) = Some (kind ?pong)"
    by (simp_all add: protocol_def)
  show "\<exists>Wc1. heartbeat_tick mar now Wc = Some (Ret Wc1) \<and> online Wc1 \<and> sent Wc1 = sent Wc @ conn_l.buf_pending (r_br rs)"
    using tick_sends [OF assms(4,5,2)] assms(7) by auto
  from receive_packet [OF assms(1,2) known(1) assms(6-8), of scb]
  obtain h p rs1 V where V: "tcpReader_ReadPacket tcpConn_Read tcpConn_IsClosed rs = Some (Inr (h, p), rs1)"
    "br_src (r_br rs1) = V" "input_apart V = input_apart (br_src (r_br rs))" "reading V"
    "tcpConn_OnMessage unm scb h p V = server_system mar (Some ?ping) V"
    using assms(11) by (auto simp: callback_of_def)
  note f = apart_fields [OF V(3,4)]
  have "healthy V" using apart_wfail [OF V(3)] assms(10) by (simp add: healthy_def)
  from server_system_pong [OF f(5) [OF assms(9)] this assms(3)] V f(1,4) assms(13)
  show "\<exists>h p rs1 Ws. tcpReader_ReadPacket tcpConn_Read tcpConn_IsClosed rs = Some (Inr (h, p), rs1) \<and>
      tcpConn_OnMessage unm scb h p (br_src (r_br rs1)) = (Ret None, Ws) \<and> w_app Ws = w_app (br_src (r_br rs)) \<and>
      sent Ws = sent (br_src (r_br rs)) @ conn_l.buf_pending (r_br rc)"
    by auto
  note u = Unbox_marshalled [OF assms(1,3) known(2)]
  have "slice_bytes (payload (projr (mar ?pong))) = projr (mar ?pong)"
    by (simp add: slice_bytes_def payload_def)
  with receive_packet [OF assms(1,3) known(2) assms(12-14), of ccb] u assms(15) apart_fields(1)
  show "\<exists>h p rc1 W. tcpReader_ReadPacket tcpConn_Read tcpConn_IsClosed rc = Some (Inr (h, p), rc1) \<and>
      Unbox unm (h_CMD h) (h_SubCMD h) (slice_bytes p) = (Some ?pong, None) \<and>
      tcpConn_OnMessage unm ccb h p (br_src (r_br rc1)) = (Ret None, W) \<and> w_app W = w_app (br_src (r_br rc))"
    by (fastforce simp: callback_of_def WrapEventHandler_def client_eventHandler_def client_OnCmdSystem_def frame_header_def)
qed

text \<open>The messages of a heartbeat with their eight-byte time stamps.\<close>

definition beat_marshal :: marshal where
  "beat_marshal m = (case m of MPing p \<Rightarrow> Inr (BE_bytes64 (ping_Timestamp p))
     | MPong p \<Rightarrow> Inr (BE_bytes64 (pong_Timestamp p)) | _ \<Rightarrow> Inl (External 0))"

definition beat_unmarshal :: unmarshal where
  "beat_unmarshal d m = (case m of MPing _ \<Rightarrow> (MPing \<lparr>ping_Timestamp = BE_Uint64 d\<rparr>, None)
     | MPong _ \<Rightarrow> (MPong \<lparr>pong_Timestamp = BE_Uint64 d\<rparr>, None) | _ \<Rightarrow> (m, Some (External 0)))"

lemma beat_codec_ok: "proto_codec_ok beat_marshal beat_unmarshal"
  by (auto simp: proto_codec_ok_def beat_marshal_def beat_unmarshal_def split: proto_message.splits)

definition beat_server_cb :: "unit \<Rightarrow> (unit, (demo_server, unit) discoClientFactory \<times> demo_server) world EventHandler" where
  "beat_server_cb _ = (WrapEventHandler None None)\<lparr>ev_OnCmdSystem := server_system beat_marshal\<rparr>"

lemma healthy_app_world [simp]: "healthy (app_world a chunks)"
  by (simp add: healthy_def demo_net_def)

theorem heartbeat_answered_witness:
  "(\<exists>W. heartbeat_tick beat_marshal 7 (app_world () []) = Some (Ret W) \<and>
      sent W = [0, 8, 10, 10, 1, 0, 0, 0, 0, 0, 0, 0, 0, 0, 0, 7]) \<and>
   (\<exists>h p rc1 W. tcpReader_ReadPacket tcpConn_Read tcpConn_IsClosed
        (newReader_state (app_world waiting [[0, 8, 10], [11, 1, 0, 0, 0, 0, 0], [0, 0, 0, 0, 0, 7]])) = Some (Inr (h, p), rc1) \<and>
      tcpConn_OnMessage beat_unmarshal (\<lambda>_. WrapEventHandler (Some client_eventHandler) (Some wake_client)) h p (br_src (r_br rc1)) =
        (Ret None, W))"
proof -
  let ?rs = "newReader_state (app_world (demo_factory, (\<lambda>_. [demo_host], Map.empty) :: demo_server)
    [[0, 8], [10, 10, 1, 0, 0, 0, 0, 0, 0, 0], [0, 0, 0, 7]])"
  let ?rc = "newReader_state (app_world waiting [[0, 8, 10], [11, 1, 0, 0, 0, 0, 0], [0, 0, 0, 0, 0, 7]])"
  have m: "beat_marshal (MPing \<lparr>ping_Timestamp = 7\<rparr>) = Inr [0, 0, 0, 0, 0, 0, 0, 7]"
    "beat_marshal (MPong \<lparr>pong_Timestamp = 7\<rparr>) = Inr [0, 0, 0, 0, 0, 0, 0, 7]"
    by (simp_all add: beat_marshal_def BE_bytes64_def)
  have "fits beat_marshal (MPing \<lparr>ping_Timestamp = 7\<rparr>)" "fits beat_marshal (MPong \<lparr>pong_Timestamp = 7\<rparr>)"
    by (simp_all add: fits_def m)
  then show ?thesis
    using heartbeat_answered [OF beat_codec_ok, of 7 "app_world () []" ?rs "()" beat_server_cb ?rc "()"
        "\<lambda>_. WrapEventHandler (Some client_eventHandler) (Some wake_client)"]
    by (simp add: beat_server_cb_def m frame_def BE_bytes16_def) blast
qed

end
