(* ===== verification/Disco_Main.thy ===== *)
theory Disco_Main
  imports Disco_Menu Disco_Wire Server_Run
begin

text \<open>
  The \<open>main\<close> functions of the two example programs: their flags, the state \<open>main\<close> starts
  the server in, and the settings its nacos clients are created with.
\<close>

subsection \<open>Flags\<close>

text \<open>
  The values given on the command line, as package \<open>flag\<close> has parsed them (it ends the
  program when one does not parse).  A variable is set to the default when the flag is
  declared and overwritten when it is given.
\<close>

record flag_set =
  fs_string :: "string \<rightharpoonup> string"
  fs_int :: "string \<rightharpoonup> int"
  fs_bool :: "string \<rightharpoonup> bool"

definition flag_var :: "(string \<rightharpoonup> 'v) \<Rightarrow> string \<Rightarrow> 'v \<Rightarrow> 'v" where
  "flag_var given name value = (case given name of None \<Rightarrow> value | Some v \<Rightarrow> v)"

definition server_addr :: "flag_set \<Rightarrow> string" where
  "server_addr fs = flag_var (fs_string fs) ''addr'' '':1911''"

definition server_flags :: "flag_set \<Rightarrow> DiscoSetting \<Rightarrow> DiscoSetting" where
  "server_flags fs cfg =
     cfg\<lparr>ds_Host := flag_var (fs_string fs) ''disco-host'' ''127.0.0.1'',
         ds_Port := flag_var (fs_int fs) ''disco-port'' 8848,
         ds_Namespace := flag_var (fs_string fs) ''disco-namespace'' ''public'',
         ds_LogDir := flag_var (fs_string fs) ''disco-log-dir'' ''./logs'',
         ds_CacheDir := flag_var (fs_string fs) ''disco-cache-dir'' ''./cache'',
         ds_PreloadCache := flag_var (fs_bool fs) ''disco-preload-cache'' True,
         ds_Timeout := flag_var (fs_int fs) ''disco-timeout'' 5000,
         ds_GroupName := flag_var (fs_string fs) ''disco-group'' ''DEFAULT_GROUP'',
         ds_Username := flag_var (fs_string fs) ''disco-username'' ''nacos'',
         ds_Password := flag_var (fs_string fs) ''disco-password'' ''nacos'',
         ds_Node := flag_var (fs_int fs) ''disco-node'' 1\<rparr>"

definition client_flags :: "flag_set \<Rightarrow> string \<times> int" where
  "client_flags fs = (flag_var (fs_string fs) ''addr'' ''127.0.0.1:1911'', flag_var (fs_int fs) ''node'' 1)"

subsection \<open>The server's main\<close>

text \<open>
  The factory keeps a pointer to \<open>discoCfg\<close>, so it sees what the flags wrote.  The state of
  the application is the factory and nacos; \<open>Inl\<close> is the error of \<open>Fatalf\<close>.
\<close>

definition server_main ::
  "(string \<Rightarrow> error option) \<Rightarrow> 'e \<Rightarrow> flag_set \<Rightarrow> 's
    \<Rightarrow> error + ('e, ('s, 'cb) discoClientFactory \<times> 's) server_run" where
  "server_main listen handler fs s =
     Run_start listen None
       (NewTcpServer (server_addr fs) (Some handler) None (newDiscoClientFactory (server_flags fs discoCfg), s))"

text \<open>
  The literal settings of \<open>server.go\<close> have no effect: the flags overwrite every field, and
  without arguments nacos is looked for on this machine and not at the address in the
  literal.
\<close>

theorem literal_settings_unused:
  "server_flags fs cfg = server_flags fs cfg'"
  "ds_Host (server_flags \<lparr>fs_string = Map.empty, fs_int = Map.empty, fs_bool = Map.empty\<rparr> discoCfg) = ''127.0.0.1''"
  "ds_Host discoCfg = ''192.168.2.40''"
  by (simp_all add: server_flags_def flag_var_def discoCfg_def)

lemma first_client:
  assumes "GetDiscoClient create k name (newDiscoClientFactory cfg, s) = (cli, F', s')"
  shows "\<exists>r. create cfg s = (r, s') \<and> cli = (case r of Inl _ \<Rightarrow> None | Inr c \<Rightarrow> Some c)"
  using assms
  by (cases "create cfg s"; cases "fst (create cfg s)")
    (auto simp: GetDiscoClient_def find_client_def newDiscoClientFactory_def install_client_def Let_def)

text \<open>
  The settings reach nacos.  The server starts to listen at the address of its flag with no
  connection and no nacos client, and the first client it creates, for any connection and any
  name, is created with the host, the port, the credentials and the node of the flags.
\<close>

theorem server_main_starts:
  assumes "server_main listen handler fs s = Inr y" and "GetDiscoClient create k name (s_app (rn_server y)) = (cli, F', s')"
  shows "listen (server_addr fs) = None \<and> s_addr (rn_server y) = server_addr fs \<and> rn_result y = None \<and> rn_listening y \<and>
    s_conns (rn_server y) = Map.empty \<and> server_inv (rn_server y) \<and>
    (\<exists>cfg r. create cfg s = (r, s') \<and> cli = (case r of Inl _ \<Rightarrow> None | Inr c \<Rightarrow> Some c) \<and>
      ds_Host cfg = flag_var (fs_string fs) ''disco-host'' ''127.0.0.1'' \<and>
      ds_Port cfg = flag_var (fs_int fs) ''disco-port'' 8848 \<and>
      ds_Username cfg = flag_var (fs_string fs) ''disco-username'' ''nacos'' \<and>
      ds_Password cfg = flag_var (fs_string fs) ''disco-password'' ''nacos'' \<and>
      ds_Node cfg = flag_var (fs_int fs) ''disco-node'' 1)"
proof -
  let ?S = "NewTcpServer (server_addr fs) (Some handler) None (newDiscoClientFactory (server_flags fs discoCfg), s)"
  have y: "listen (server_addr fs) = None" "rn_server y = ?S\<lparr>s_ctx := None\<rparr>" "rn_result y = None" "rn_listening y"
    using assms(1) by (auto simp: server_main_def Run_start_def Let_def NewTcpServer_def split: option.splits)
  have S: "s_addr (rn_server y) = server_addr fs" "s_conns (rn_server y) = Map.empty"
    "s_app (rn_server y) = (newDiscoClientFactory (server_flags fs discoCfg), s)"
    by (simp_all add: y(2) NewTcpServer_def)
  have "server_inv (rn_server y)"
    by (simp add: y(2) server_inv_def NewTcpServer_def)
  moreover have "\<exists>r. create (server_flags fs discoCfg) s = (r, s') \<and> cli = (case r of Inl _ \<Rightarrow> None | Inr c \<Rightarrow> Some c)"
    by (rule first_client [where F' = F' and k = k and name = name]) (use assms(2) S(3) in simp)
  moreover have "ds_Host (server_flags fs discoCfg) = flag_var (fs_string fs) ''disco-host'' ''127.0.0.1''"
    "ds_Port (server_flags fs discoCfg) = flag_var (fs_int fs) ''disco-port'' 8848"
    "ds_Username (server_flags fs discoCfg) = flag_var (fs_string fs) ''disco-username'' ''nacos''"
    "ds_Password (server_flags fs discoCfg) = flag_var (fs_string fs) ''disco-password'' ''nacos''"
    "ds_Node (server_flags fs discoCfg) = flag_var (fs_int fs) ''disco-node'' 1"
    by (simp_all add: server_flags_def)
  ultimately show ?thesis using y(1,3,4) S(1,2) by blast
qed

text \<open>The server on port 1911 with one flag given.\<close>

theorem server_main_starts_witness:
  "\<exists>y cfg. server_main (\<lambda>_. None) () \<lparr>fs_string = [''disco-host'' \<mapsto> ''10.1.1.1''], fs_int = Map.empty, fs_bool = Map.empty\<rparr> ((\<lambda>_. [], Map.empty) :: demo_server) =
      Inr (y :: (unit, (demo_server, unit) discoClientFactory \<times> demo_server) server_run) \<and>
    s_addr (rn_server y) = '':1911'' \<and> ds_Host cfg = ''10.1.1.1'' \<and>
    demo_creator cfg (\<lambda>_. [], Map.empty) = (Inr demo_nacos, (\<lambda>_. [], Map.empty))"
proof -
  let ?s = "(\<lambda>_. [], Map.empty) :: demo_server"
  let ?fs = "\<lparr>fs_string = [''disco-host'' \<mapsto> ''10.1.1.1''], fs_int = Map.empty, fs_bool = Map.empty\<rparr>"
  obtain y :: "(unit, (demo_server, unit) discoClientFactory \<times> demo_server) server_run" where
    y: "server_main (\<lambda>_. None) () ?fs ?s = Inr y"
    by (simp add: server_main_def Run_start_def Let_def)
  then have "s_app (rn_server y) = (newDiscoClientFactory (server_flags ?fs discoCfg), ?s)"
    by (auto simp: server_main_def Run_start_def Let_def NewTcpServer_def)
  moreover obtain cli F' s' where g: "GetDiscoClient demo_creator 1 ''api'' (s_app (rn_server y)) = (cli, F', s')"
    by (metis prod_cases3)
  from server_main_starts [OF y g] y show ?thesis
    by (auto simp: server_addr_def flag_var_def demo_creator_def)
qed

end
