(* ===== verification/Probe_Timing.thy ===== *)
theory Probe_Timing
  imports Prober
begin

text \<open>
  The prober with its clock: the HTTP client \<open>buildClient\<close> makes, its redirect policy, the
  deadline of the measurement and the share of it each URL gets
  (\<open>pkg/dataflow/task/net_prober.go\<close>).  \<open>Prober\<close> takes the outcome of every wait from an
  environment; here that environment is computed from the latencies of a web server.
\<close>

subsection \<open>The HTTP client\<close>

definition defaultProbeTimeout :: int where "defaultProbeTimeout = 5000000000"
definition probeInterval :: int where "probeInterval = 100000000"

definition DeadlineExceeded :: error where
  "DeadlineExceeded = ErrorString ''context deadline exceeded''"

record http_client =
  hc_Timeout :: int
  hc_DialTimeout :: int
  hc_DisableKeepAlives :: bool
  hc_TLSHandshakeTimeout :: int
  hc_ResponseHeaderTimeout :: int

definition buildClient :: "int \<Rightarrow> http_client" where
  "buildClient timeout = \<lparr>hc_Timeout = timeout, hc_DialTimeout = timeout, hc_DisableKeepAlives = True,
     hc_TLSHandshakeTimeout = timeout, hc_ResponseHeaderTimeout = timeout\<rparr>"

text \<open>\<open>CheckRedirect\<close>, with the number of requests made so far.\<close>

definition CheckRedirect :: "nat \<Rightarrow> error option" where
  "CheckRedirect via = (if 5 \<le> via then Some (ErrorString ''too many redirects'') else None)"

text \<open>
  A server answers a URL with a status, a redirection or a failure of the transport.
  \<open>follow\<close> is the loop of \<open>client.Do\<close>, which asks \<open>CheckRedirect\<close> before each further
  request.
\<close>

datatype http_reply = Status nat | Redirect string | Failure error

function follow :: "(string \<Rightarrow> http_reply) \<Rightarrow> nat \<Rightarrow> string \<Rightarrow> error + nat" where
  "follow reply via url =
     (case reply url of
        Status s \<Rightarrow> Inr s
      | Failure e \<Rightarrow> Inl e
      | Redirect url' \<Rightarrow>
         (case CheckRedirect (Suc via) of Some e \<Rightarrow> Inl e | None \<Rightarrow> follow reply (Suc via) url'))"
  by pat_completeness auto

termination follow
  by (relation "measure (\<lambda>(reply, via, url). 5 - via)") (auto simp: CheckRedirect_def split: if_splits)

declare follow.simps [simp del]

text \<open>
  The web by turn of the probe loop: how long an exchange takes with its redirections
  (\<open>None\<close> when no answer comes), and the replies.
\<close>

record web =
  wb_latency :: "nat \<Rightarrow> string \<Rightarrow> int option"
  wb_reply :: "nat \<Rightarrow> string \<Rightarrow> http_reply"

definition client_Do :: "http_client \<Rightarrow> web \<Rightarrow> nat \<Rightarrow> int \<Rightarrow> string \<Rightarrow> int \<Rightarrow> int \<times> (error + nat)" where
  "client_Do c wb i ctxDeadline url t =
     (let d = min ctxDeadline (t + hc_Timeout c) in
      case wb_latency wb i url of
        None \<Rightarrow> (d, Inl DeadlineExceeded)
      | Some l \<Rightarrow> (if t + l < d then (t + l, follow (wb_reply wb i) 0 url) else (d, Inl DeadlineExceeded)))"

subsection \<open>The times of a measurement\<close>

text \<open>The measurement starts at time 0; its context ends at \<open>defaultProbeTimeout\<close>.\<close>

definition perURLTimeout :: "nat \<Rightarrow> int" where
  "perURLTimeout n =
     (let t = quot defaultProbeTimeout (int n) in if t \<le> 0 then defaultProbeTimeout else t)"

definition try_url :: "web \<Rightarrow> nat \<Rightarrow> int \<Rightarrow> string \<Rightarrow> int \<Rightarrow> int \<times> (error + nat)" where
  "try_url wb i per url t =
     client_Do (buildClient defaultProbeTimeout) wb i (min defaultProbeTimeout (t + per)) url t"

text \<open>When the \<open>j\<close>-th URL is tried, when a given URL is tried, and when the turn ends.\<close>

fun url_start :: "web \<Rightarrow> nat \<Rightarrow> int \<Rightarrow> string list \<Rightarrow> int \<Rightarrow> nat \<Rightarrow> int" where
  "url_start wb i per [] t j = t"
| "url_start wb i per (u # us) t 0 = t"
| "url_start wb i per (u # us) t (Suc j) = url_start wb i per us (fst (try_url wb i per u t)) j"

fun start_of :: "web \<Rightarrow> nat \<Rightarrow> int \<Rightarrow> string list \<Rightarrow> int \<Rightarrow> string \<Rightarrow> int" where
  "start_of wb i per [] t url = t"
| "start_of wb i per (u # us) t url =
     (if url = u then t else start_of wb i per us (fst (try_url wb i per u t)) url)"

fun turn_end :: "web \<Rightarrow> nat \<Rightarrow> int \<Rightarrow> string list \<Rightarrow> int \<Rightarrow> int" where
  "turn_end wb i per [] t = t"
| "turn_end wb i per (u # us) t =
     (if defaultProbeTimeout \<le> t then t
      else (case try_url wb i per u t of
          (t', Inr s) \<Rightarrow> (if s < 400 then t' else turn_end wb i per us t')
        | (t', Inl _) \<Rightarrow> turn_end wb i per us t'))"

text \<open>When a turn is entered, and when its request begins after the pause.\<close>

definition after_pause :: "nat \<Rightarrow> int \<Rightarrow> int" where
  "after_pause i t = (if 0 < i then t + probeInterval else t)"

fun turn_begin :: "web \<Rightarrow> int \<Rightarrow> string list \<Rightarrow> nat \<Rightarrow> int" where
  "turn_begin wb per us 0 = 0"
| "turn_begin wb per us (Suc i) = turn_end wb i per us (after_pause i (turn_begin wb per us i))"

text \<open>
  The environment of \<open>Probe\<close> on this clock.  When the pause and the deadline end at the
  same moment the deadline is taken.
\<close>

definition deadline_passed :: "int \<Rightarrow> error option" where
  "deadline_passed t = (if defaultProbeTimeout \<le> t then Some DeadlineExceeded else None)"

definition timed_env :: "web \<Rightarrow> string list \<Rightarrow> probe_env \<Rightarrow> probe_env" where
  "timed_env wb us E =
     (let per = perURLTimeout (length us);
          start = (\<lambda>i. after_pause i (turn_begin wb per us i))
      in E\<lparr>pe_expired := (\<lambda>i. deadline_passed (turn_begin wb per us i)),
           pe_wait := (\<lambda>i. deadline_passed (turn_begin wb per us i + probeInterval)),
           pe_url_expired := (\<lambda>i j. deadline_passed (url_start wb i per us (start i) j)),
           pe_do := (\<lambda>i url. snd (try_url wb i per url (start_of wb i per us (start i) url))),
           pe_since := (\<lambda>i. turn_end wb i per us (start i) - start i)\<rparr>)"

definition Probe_timed :: "web \<Rightarrow> probe_env \<Rightarrow> netProber \<Rightarrow> error option \<times> netProber" where
  "Probe_timed wb E p =
     Probe (timed_env wb (case probeTargetURLs (pe_parse E) (np_destAddr p) of Inr us \<Rightarrow> us | Inl _ \<Rightarrow> []) E) p"

definition Result :: "netProber \<Rightarrow> NetworkMetric option" where
  "Result p = np_result p"

subsection \<open>Redirections\<close>

lemma follow_step:
  "reply url = Redirect url' \<Longrightarrow> follow reply via url =
    (if 4 \<le> via then Inl (ErrorString ''too many redirects'') else follow reply (Suc via) url')"
  by (simp add: follow.simps [of reply via url] CheckRedirect_def)

text \<open>A chain of redirections is followed exactly as long as it has at most four links.\<close>

theorem redirect_chain:
  assumes "\<And>k. k < n \<Longrightarrow> reply (chain k) = Redirect (chain (Suc k))" and "reply (chain n) = Status s"
  shows "follow reply 0 (chain 0) = (if n \<le> 4 then Inr s else Inl (ErrorString ''too many redirects''))"
proof -
  have "follow reply k (chain k) = (if n \<le> 4 then Inr s else Inl (ErrorString ''too many redirects''))"
    if "k \<le> n" and "k \<le> 4" for k
    using that
  proof (induction "4 - k" arbitrary: k)
    case 0
    then have "k = 4" by simp
    with 0 assms(1) [of 4] assms(2) show ?case
      by (cases "n = 4") (simp_all add: follow.simps [of reply 4 "chain 4"] CheckRedirect_def)
  next
    case (Suc d)
    then have "k < 4" by simp
    show ?case
    proof (cases "k = n")
      case True
      with assms(2) \<open>k < 4\<close> show ?thesis by (simp add: follow.simps [of reply n "chain n"])
    next
      case False
      with Suc.hyps(1) [of "Suc k"] Suc.hyps(2) Suc.prems \<open>k < 4\<close> follow_step [of reply "chain k" "chain (Suc k)" k] assms(1) [of k]
      show ?thesis by simp
    qed
  qed
  from this [of 0] show ?thesis by simp
qed

subsection \<open>A measurement keeps its deadline\<close>

definition latencies_ok :: "web \<Rightarrow> bool" where
  "latencies_ok wb \<longleftrightarrow> (\<forall>i u l. wb_latency wb i u = Some l \<longrightarrow> 0 \<le> l)"

lemma per_pos: "0 < perURLTimeout n"
  by (simp add: perURLTimeout_def defaultProbeTimeout_def Let_def)

lemma try_url_times:
  assumes "latencies_ok wb" and "0 < per" and "t \<le> defaultProbeTimeout"
  shows "t \<le> fst (try_url wb i per u t)" and "fst (try_url wb i per u t) \<le> defaultProbeTimeout"
  using assms
  by (auto simp: try_url_def client_Do_def buildClient_def Let_def latencies_ok_def defaultProbeTimeout_def split: option.splits)

lemma turn_end_times:
  assumes "latencies_ok wb" and "0 < per"
  shows "t \<le> turn_end wb i per us t" and "turn_end wb i per us t \<le> max t defaultProbeTimeout"
proof -
  have "t \<le> turn_end wb i per us t \<and> turn_end wb i per us t \<le> max t defaultProbeTimeout"
  proof (induction us arbitrary: t)
    case (Cons u us)
    show ?case
    proof (cases "defaultProbeTimeout \<le> t")
      case False
      obtain t' r where t': "try_url wb i per u t = (t', r)" by fastforce
      have "t \<le> t'" "t' \<le> defaultProbeTimeout"
        using try_url_times [OF assms, of t i u] t' False by auto
      with Cons.IH [of t'] t' False show ?thesis by (auto split: sum.splits)
    qed auto
  qed simp
  then show "t \<le> turn_end wb i per us t" "turn_end wb i per us t \<le> max t defaultProbeTimeout" by auto
qed

text \<open>The successful turns fit into the deadline together.\<close>

lemma timed_rtts:
  assumes "latencies_ok wb" and "E' = timed_env wb us E" and "per = perURLTimeout (length us)"
    and "\<forall>x \<in> set (pa_rtts acc). 0 \<le> x" and "sum_list (pa_rtts acc) \<le> turn_begin wb per us i"
    and "turn_begin wb per us i \<le> defaultProbeTimeout"
  shows "(\<forall>x \<in> set (pa_rtts (probe_loop E' us n i acc)). 0 \<le> x) \<and>
    sum_list (pa_rtts (probe_loop E' us n i acc)) \<le> defaultProbeTimeout"
  using assms(4-6)
proof (induction "n - i" arbitrary: i acc)
  case 0
  then show ?case by (simp add: probe_loop.simps [of E' us n i])
next
  case (Suc k)
  let ?b = "after_pause i (turn_begin wb per us i)"
  have per: "0 < per" by (simp add: assms(3) per_pos)
  have n: "\<not> n \<le> i" "k = n - (i + 1)" using Suc.hyps(2) by auto
  have env: "pe_expired E' i = deadline_passed (turn_begin wb per us i)" "pe_wait E' i = deadline_passed (turn_begin wb per us i + probeInterval)"
    "pe_since E' i = turn_begin wb per us (Suc i) - ?b"
    by (simp_all add: assms(2,3) timed_env_def Let_def)
  show ?case
  proof (cases "pe_expired E' i = None \<and> (0 < i \<longrightarrow> pe_wait E' i = None)")
    case True
    then have b: "?b < defaultProbeTimeout" "turn_begin wb per us i \<le> ?b"
      by (auto simp: env deadline_passed_def after_pause_def probeInterval_def split: if_splits)
    have e: "?b \<le> turn_begin wb per us (Suc i)" "turn_begin wb per us (Suc i) \<le> defaultProbeTimeout"
      using turn_end_times [OF assms(1) per, where t = ?b and i = i and us = us] b(1) by simp_all
    have s: "sum_list (pa_rtts acc) \<le> turn_begin wb per us (Suc i)"
      "sum_list (pa_rtts acc @ [pe_since E' i]) \<le> turn_begin wb per us (Suc i)" "0 \<le> pe_since E' i"
      using Suc.prems(2) b(2) e(1) by (simp_all add: env)
    have turn: "probe_loop E' us n i acc = (case probe_once E' us i of
          Inl e \<Rightarrow> probe_loop E' us n (i + 1) (acc\<lparr>pa_failures := pa_failures acc + 1, pa_lastErr := Some e\<rparr>)
        | Inr (status, rtt) \<Rightarrow> probe_loop E' us n (i + 1) (acc\<lparr>pa_rtts := pa_rtts acc @ [rtt], pa_lastStatus := status\<rparr>))"
      using True n(1) by (subst probe_loop.simps) auto
    show ?thesis
    proof (cases "probe_once E' us i")
      case (Inl x)
      with turn Suc.hyps(1) [OF n(2), of "acc\<lparr>pa_failures := pa_failures acc + 1, pa_lastErr := Some x\<rparr>"] Suc.prems(1) s(1) e(2)
      show ?thesis by simp
    next
      case (Inr x)
      then obtain st where x: "x = (st, pe_since E' i)"
        by (auto simp: probe_once_def split: prod.splits option.splits)
      with turn Suc.hyps(1) [OF n(2), of "acc\<lparr>pa_rtts := pa_rtts acc @ [pe_since E' i], pa_lastStatus := st\<rparr>"] Suc.prems(1) s(2,3) e(2) Inr
      show ?thesis by auto
    qed
  next
    case False
    with n Suc.prems show ?thesis
      by (auto simp: probe_loop.simps [of E' us n i] split: option.splits)
  qed
qed

lemma timed_parse [simp]: "pe_parse (timed_env wb us E) = pe_parse E"
  by (simp add: timed_env_def Let_def)

lemma Probe_timed_result:
  assumes "probeTargetURLs (pe_parse E) (np_destAddr p) = Inr us"
  shows "\<exists>h. Probe_timed wb E p = (None, p\<lparr>np_result := Some (buildResult (timed_env wb us E) p (hd us) h
    (probe_loop (timed_env wb us E) us (np_probeCount p) 0 probe_start))\<rparr>)"
  using assms by (auto simp: Probe_timed_def Probe_def Let_def)

lemma sum_list_bound: "\<forall>x \<in> set xs. 0 \<le> x \<Longrightarrow> x \<in> set xs \<Longrightarrow> x \<le> sum_list xs" for x :: int
  by (induction xs) (auto simp: sum_list_nonneg add_increasing add_increasing2)

lemma average_times_count:
  fixes s :: int
  assumes "0 < k" and "0 < m" and "s \<le> c * m"
  shows "k * ((s div k) div m) \<le> c"
proof -
  have "(s div k) div m * m \<le> s div k" "k * (s div k) \<le> s"
    using assms(1,2) div_mult_mod_eq [of "s div k" m] pos_mod_sign [of m "s div k"]
      mult_div_mod_eq [of k s] pos_mod_sign [of k s] by linarith+
  then have "k * ((s div k) div m * m) \<le> s"
    using assms(1) mult_left_mono [of "(s div k) div m * m" "s div k" k] by linarith
  then have "(k * ((s div k) div m)) * m \<le> c * m" using assms(3) by (simp add: mult.assoc)
  with assms(2) show ?thesis by (simp add: mult_le_cancel_right)
qed

text \<open>
  C19: a measurement keeps its deadline, whatever the latencies are.  The successful turns
  together take no more than the five seconds of the context, so the reported round-trip time
  times their number is at most 5000 milliseconds and the jitter at most 5000: a host that
  answered is never reported worse than the fixed values 5000 and 5001 of one that did not.
\<close>

theorem probe_within_deadline:
  assumes "latencies_ok wb" and "Probe_timed wb E (newProber addr ni) = (None, p')"
  shows "\<exists>m k. Result p' = Some m \<and> k \<le> 5 \<and> nm_PacketLoss m = of_nat (5 - k) / 5 \<and>
    (if k = 0 then nm_Rtt m = unreachableRTTMS \<and> nm_Jitter m = unreachableJitterMS
     else 1 \<le> sint (nm_Rtt m) \<and> int k * sint (nm_Rtt m) \<le> 5000 \<and> 0 \<le> sint (nm_Jitter m) \<and> sint (nm_Jitter m) \<le> 5000)"
proof -
  let ?p = "newProber addr ni"
  have c: "np_probeCount ?p = 5" by (simp add: newProber_def defaultProbeCount_def)
  obtain us where us: "probeTargetURLs (pe_parse E) (np_destAddr ?p) = Inr us"
    using assms(2) by (auto simp: Probe_timed_def Probe_def split: sum.splits)
  define acc where "acc = probe_loop (timed_env wb us E) us 5 0 probe_start"
  obtain h where h: "Result p' = Some (buildResult (timed_env wb us E) ?p (hd us) h acc)"
    using Probe_timed_result [OF us, of wb] assms(2) c by (auto simp: Result_def acc_def)
  let ?m = "buildResult (timed_env wb us E) ?p (hd us) h acc" and ?k = "length (pa_rtts acc)"
  have n: "?k + pa_failures acc = np_probeCount ?p"
    using probe_loop_count [of 0 5 "timed_env wb us E" us probe_start] by (simp add: acc_def probe_start_def c)
  have r: "\<forall>x \<in> set (pa_rtts acc). 0 \<le> x" "sum_list (pa_rtts acc) \<le> 5000000000"
    using timed_rtts [OF assms(1) refl refl, of probe_start us 0 E 5]
    by (simp_all add: acc_def probe_start_def defaultProbeTimeout_def)
  then have ok: "\<forall>x \<in> set (pa_rtts acc). 0 \<le> x \<and> x \<le> 5000000000"
    using sum_list_bound by fastforce
  have len: "int ?k * 5000000000 < 2 ^ 63" using n c by simp
  have "if ?k = 0 then nm_Rtt ?m = unreachableRTTMS \<and> nm_Jitter ?m = unreachableJitterMS
     else 1 \<le> sint (nm_Rtt ?m) \<and> int ?k * sint (nm_Rtt ?m) \<le> 5000 \<and> 0 \<le> sint (nm_Jitter ?m) \<and> sint (nm_Jitter ?m) \<le> 5000"
  proof (cases "pa_rtts acc = []")
    case False
    let ?w = "word_of_int (Milliseconds (averageDuration (pa_rtts acc))) :: int32"
    note a = averageDuration_bounds [OF ok len False]
    have w: "sint ?w = sum_list (pa_rtts acc) div int ?k div 1000000"
      using millis_word(1) [of "averageDuration (pa_rtts acc)" 5000000000] a by simp
    have "int ?k * sint ?w \<le> 5000"
      unfolding w by (rule average_times_count) (use False r(2) in simp_all)
    moreover have "nm_Rtt ?m = (if ?w = 0 then 1 else ?w)"
      using False by (simp add: buildResult_def Let_def)
    ultimately show ?thesis
      using buildResult_reachable [OF False ok len, of "timed_env wb us E" ?p "hd us" h] False n c by auto
  qed (simp add: buildResult_def Let_def split: option.splits)
  moreover have "nm_PacketLoss ?m = of_nat (5 - ?k) / 5"
    using buildResult_counts(1) [OF n] c by simp
  ultimately show ?thesis using h n c by (intro exI [of _ ?m] exI [of _ ?k]) simp
qed

subsection \<open>A host without HTTPS\<close>

lemma try_silent:
  assumes "wb_latency wb i u = None" and "t \<le> 5000000000"
  shows "try_url wb i 2500000000 u t = (min 5000000000 (t + 2500000000), Inl DeadlineExceeded)"
  using assms by (simp add: try_url_def client_Do_def buildClient_def Let_def defaultProbeTimeout_def)

lemma try_answer:
  assumes "wb_latency wb i u = Some l" and "wb_reply wb i u = Status s" and "l < 2500000000" and "t + l < 5000000000"
  shows "try_url wb i 2500000000 u t = (t + l, Inr s)"
  using assms
  by (simp add: try_url_def client_Do_def buildClient_def Let_def defaultProbeTimeout_def follow.simps [of _ 0])

text \<open>
  C35: a host that serves plain HTTP and drops packets for HTTPS.  An address without a scheme is
  tried over HTTPS first, which uses up its 2.5 seconds in every turn; the second turn runs
  into the deadline.  So although the host answers every plain request after \<open>l\<close>, the metric
  says that four of five probes were lost and that the round trip took 2.5 seconds more.
\<close>

theorem silent_https_is_loss:
  assumes "probeTargetURLs (pe_parse E) addr = Inr [https, http]"
    and "\<And>i. wb_latency wb i https = None" and "\<And>i. wb_latency wb i http = Some l"
    and "\<And>i. wb_reply wb i http = Status s" and "s < 400" and "0 \<le> l" and "l < 2500000000"
  shows "\<exists>p' m. Probe_timed wb E (newProber addr ni) = (None, p') \<and> Result p' = Some m \<and>
    nm_PacketLoss m = 4 / 5 \<and> sint (nm_Rtt m) = 2500 + l div 1000000 \<and> nm_Extra m ''reachable'' = Some ''true''"
proof -
  let ?us = "[https, http]" and ?p = "newProber addr ni"
  define E' where "E' = timed_env wb ?us E"
  have ne: "http \<noteq> https" using assms(2,3) by (metis option.distinct(1))
  have per: "perURLTimeout (Suc (Suc 0)) = 2500000000"
    by (simp add: perURLTimeout_def defaultProbeTimeout_def quot_def)
  have e0: "turn_end wb 0 2500000000 ?us 0 = 2500000000 + l"
    using assms(2-7) by (simp add: try_silent try_answer defaultProbeTimeout_def)
  have e1: "turn_end wb (Suc 0) 2500000000 ?us (2600000000 + l) = 5000000000" if "2600000000 + l < 5000000000"
    using that assms(2-7) by (simp add: try_silent defaultProbeTimeout_def)
  have t1: "turn_begin wb 2500000000 ?us (Suc 0) = 2500000000 + l"
    using e0 by (simp add: after_pause_def)
  have t2: "turn_begin wb 2500000000 ?us 2 = 5000000000" if "2600000000 + l < 5000000000"
    using e1 [OF that] t1 by (simp add: numeral_2_eq_2 after_pause_def probeInterval_def add.commute)
  have first: "probe_once E' ?us 0 = Inr (int s, 2500000000 + l)"
    using assms(2-7) ne e0
    by (simp add: probe_once_def E'_def timed_env_def Let_def per deadline_passed_def after_pause_def doRequest_def try_silent try_answer
        defaultProbeTimeout_def)
  have second: "probe_once E' ?us (Suc 0) = Inl DeadlineExceeded" if "2600000000 + l < 5000000000"
    using that assms(2-7) ne t1
    by (simp add: probe_once_def E'_def timed_env_def Let_def per deadline_passed_def after_pause_def doRequest_def try_silent
        defaultProbeTimeout_def probeInterval_def del: turn_begin.simps)
  have env: "pe_expired E' i = deadline_passed (turn_begin wb 2500000000 ?us i)"
    "pe_wait E' i = deadline_passed (turn_begin wb 2500000000 ?us i + probeInterval)" for i
    by (simp_all add: E'_def timed_env_def Let_def per)
  have acc: "\<exists>e. probe_loop E' ?us 5 0 probe_start =
      \<lparr>pa_rtts = [2500000000 + l], pa_failures = 4, pa_lastStatus = int s, pa_lastErr = e\<rparr>"
  proof (cases "2600000000 + l < 5000000000")
    case True
    then show ?thesis
      using assms(6,7) t1 t2 [OF True] first second [OF True]
      by (simp add: probe_loop.simps [of E' ?us 5] env deadline_passed_def probe_start_def defaultProbeTimeout_def probeInterval_def
          numeral_2_eq_2 del: turn_begin.simps(2))
  next
    case False
    then show ?thesis
      using assms(6,7) t1 first
      by (simp add: probe_loop.simps [of E' ?us 5] env deadline_passed_def probe_start_def defaultProbeTimeout_def probeInterval_def
          del: turn_begin.simps(2))
  qed
  have c: "np_probeCount ?p = 5" "probeTargetURLs (pe_parse E) (np_destAddr ?p) = Inr ?us"
    using assms(1) by (simp_all add: newProber_def defaultProbeCount_def)
  from Probe_timed_result [OF c(2), of wb] obtain h p' where
    h: "Probe_timed wb E ?p = (None, p')" "Result p' = Some (buildResult E' ?p https h (probe_loop E' ?us 5 0 probe_start))"
    by (auto simp: Result_def E'_def c)
  have avg: "averageDuration [2500000000 + l] = 2500000000 + l"
    using averageDuration_bounds [of "[2500000000 + l]" 5000000000] assms(6,7) by simp
  have w: "sint (word_of_int (Milliseconds (2500000000 + l)) :: int32) = 2500 + l div 1000000"
    using millis_word(1) [of "2500000000 + l" 5000000000] assms(6,7) by simp
  then have "(word_of_int (Milliseconds (2500000000 + l)) :: int32) \<noteq> 0"
    using assms(6) by (metis add_nonneg_pos pos_imp_zdiv_nonneg_iff sint_0 zero_less_numeral add.commute less_irrefl)
  with h w avg acc c show ?thesis
    by (auto simp: buildResult_def Let_def)
qed

text \<open>The host of \<open>demo_env\<close>, silent on HTTPS and answering plain requests after 20 milliseconds.\<close>

definition silent_web :: web where
  "silent_web = \<lparr>wb_latency = (\<lambda>i u. if take 5 u = ''https'' then None else Some 20000000), wb_reply = (\<lambda>i u. Status 200)\<rparr>"

lemma demo_urls: "probeTargetURLs (pe_parse demo_env) ''h'' = Inr [''https://h/'', ''http://h/'']"
proof -
  have "TrimSpace ''h'' = ''h''"
    by (simp add: TrimSpace_def rune_chunks.simps decode_rune.simps is_space_def)
  then show ?thesis by (simp add: probeTargetURLs_def Let_def Contains_def demo_env_def)
qed

theorem silent_https_is_loss_witness:
  "\<exists>p' m. Probe_timed silent_web demo_env (newProber ''h'' None) = (None, p') \<and> Result p' = Some m \<and>
    nm_PacketLoss m = 4 / 5 \<and> sint (nm_Rtt m) = 2520"
  using silent_https_is_loss [OF demo_urls, of silent_web 20000000 200 None] by (auto simp: silent_web_def)

theorem probe_within_deadline_witness:
  "\<exists>p' m k. Probe_timed silent_web demo_env (newProber ''h'' None) = (None, p') \<and> Result p' = Some m \<and> k \<le> 5 \<and>
    nm_PacketLoss m = of_nat (5 - k) / 5"
proof -
  have "probeTargetURLs (pe_parse demo_env) (np_destAddr (newProber ''h'' None)) = Inr [''https://h/'', ''http://h/'']"
    using demo_urls by (simp add: newProber_def)
  from Probe_timed_result [OF this, of silent_web] obtain p' where
    p': "Probe_timed silent_web demo_env (newProber ''h'' None) = (None, p')" by blast
  have "latencies_ok silent_web" by (simp add: latencies_ok_def silent_web_def)
  from probe_within_deadline [OF this p'] p' show ?thesis by auto
qed

end
