(* ===== verification/Logger.thy ===== *)
theory Logger
  imports Util
begin

text \<open>
  The levelled logger (\<open>pkg/logger/logger.go\<close>) over the standard library's
  \<open>log.Logger\<close>: the level names, the constructor with its environment variable, the
  output functions with their level test and the methods of every level.  The writer, the
  text of date, time and file that \<open>log\<close> puts before a message, and the formatting of
  arguments by \<open>fmt\<close> are the record \<open>log_env\<close>.  Shown is which lines a sequence of calls
  writes and when the process ends.
\<close>

subsection \<open>Levels\<close>

definition LevelDebug :: int where "LevelDebug = 100"
definition LevelInfo :: int where "LevelInfo = 200"
definition LevelWarning :: int where "LevelWarning = 300"
definition LevelError :: int where "LevelError = 400"
definition LevelFatal :: int where "LevelFatal = 500"
definition LevelAlert :: int where "LevelAlert = 600"

definition levelDepth :: int where "levelDepth = 4"

definition LstdFlags :: int where "LstdFlags = 3"

lemmas level_defs = LevelDebug_def LevelInfo_def LevelWarning_def LevelError_def LevelFatal_def LevelAlert_def

text \<open>
  \<open>strings.ToUpper\<close>, as far as a comparison with an ASCII name can see it: besides the
  ASCII letters only the dotless i and the long s have an ASCII letter as upper case; every
  other rune keeps a code outside ASCII.
\<close>

definition upper_rune :: "nat \<Rightarrow> nat" where
  "upper_rune r = (if 97 \<le> r \<and> r \<le> 122 then r - 32 else if r = 305 then 73 else if r = 383 then 83 else r)"

definition upper_is :: "string \<Rightarrow> string \<Rightarrow> bool" where
  "upper_is s name \<longleftrightarrow> map upper_rune (string_runes s) = map of_char name"

definition MappingLevelWithName :: "string \<Rightarrow> int" where
  "MappingLevelWithName level =
     (if upper_is level ''ALL'' \<or> upper_is level ''DEBUG'' then LevelDebug
      else if upper_is level ''WARN'' \<or> upper_is level ''WARNING'' then LevelWarning
      else if upper_is level ''ERROR'' then LevelError
      else if upper_is level ''FATAL'' then LevelFatal
      else LevelInfo)"

definition mappingLevel :: "int \<Rightarrow> string" where
  "mappingLevel level =
     (if level = LevelInfo then ''[INFO]''
      else if level = LevelFatal then ''[FATAL]''
      else if level = LevelWarning then ''[WARN]''
      else if level = LevelError then ''[ERROR]''
      else if level = LevelAlert then '' MB_FATAL ''
      else ''[DEBUG]'')"

subsection \<open>The logger\<close>

text \<open>
  \<open>'w\<close> is the type of writers, \<open>'a\<close> that of arguments, \<open>'s\<close> the state of the world.
  \<open>le_header\<close> is the text that depends on flags, call depth and the moment.
\<close>

record ('w, 'a, 's) log_env =
  le_Getenv :: "string \<Rightarrow> string"
  le_header :: "int \<Rightarrow> int \<Rightarrow> 's \<Rightarrow> string"
  le_Write :: "'w \<Rightarrow> string \<Rightarrow> 's \<Rightarrow> error option \<times> 's"
  le_Error :: "error \<Rightarrow> string"
  le_Sprint :: "'a list \<Rightarrow> string"
  le_Sprintf :: "string \<Rightarrow> 'a list \<Rightarrow> string"
  le_Sprintln :: "'a list \<Rightarrow> string"

text \<open>The standard library's logger; \<open>Lmsgprefix\<close> (64) moves the prefix behind the header.\<close>

record 'w log_Logger =
  ll_out :: 'w
  ll_prefix :: string
  ll_flag :: int

definition log_line :: "('w, 'a, 's) log_env \<Rightarrow> int \<Rightarrow> string \<Rightarrow> 'w log_Logger \<Rightarrow> 's \<Rightarrow> string" where
  "log_line E calldepth s l w =
     (let h = le_header E (ll_flag l) calldepth w;
          msg = (if s = [] \<or> last s \<noteq> CHR 0x0A then s @ [CHR 0x0A] else s)
      in if ll_flag l div 64 mod 2 = 1 then h @ ll_prefix l @ msg else ll_prefix l @ h @ msg)"

definition log_Output :: "('w, 'a, 's) log_env \<Rightarrow> int \<Rightarrow> string \<Rightarrow> 'w log_Logger \<Rightarrow> 's \<Rightarrow> error option \<times> 's" where
  "log_Output E calldepth s l w = le_Write E (ll_out l) (log_line E calldepth s l w) w"

text \<open>\<open>lg_std\<close> tells that this is the package's own logger (\<open>l == std\<close>).\<close>

record 'w Logger =
  lg_level :: int
  lg_writer :: 'w
  lg_logger :: "'w log_Logger"
  lg_std :: bool

text \<open>The number \<open>strconv.Atoi\<close> returns beside an error: 0, or the bound that was exceeded.\<close>

definition Atoi_value :: "string \<Rightarrow> int" where
  "Atoi_value s =
     (case Atoi s of
        Inr n \<Rightarrow> n
      | Inl e \<Rightarrow> (if e = ErrRange then (if hd s = CHR ''-'' then - (2 ^ 63) else 2 ^ 63 - 1) else 0))"

definition Logger_New :: "('w, 'a, 's) log_env \<Rightarrow> 'w \<Rightarrow> string \<Rightarrow> int \<Rightarrow> int \<Rightarrow> 'w Logger" where
  "Logger_New E out prefix flag level0 =
     (let lvl = le_Getenv E ''MB_LOG_LEVEL'';
          level = (if lvl \<noteq> '''' then Atoi_value lvl else level0)
      in \<lparr>lg_level = level, lg_writer = out,
          lg_logger = \<lparr>ll_out = out, ll_prefix = prefix, ll_flag = flag\<rparr>, lg_std = False\<rparr>)"

definition Logger_Flags :: "'w Logger \<Rightarrow> int" where
  "Logger_Flags l = ll_flag (lg_logger l)"

definition Logger_SetFlags :: "int \<Rightarrow> 'w Logger \<Rightarrow> 'w Logger" where
  "Logger_SetFlags flag l = l\<lparr>lg_logger := (lg_logger l)\<lparr>ll_flag := flag\<rparr>\<rparr>"

definition Logger_SetOutput :: "'w \<Rightarrow> 'w Logger \<Rightarrow> 'w Logger" where
  "Logger_SetOutput out l = l\<lparr>lg_logger := (lg_logger l)\<lparr>ll_out := out\<rparr>\<rparr>"

definition Logger_Prefix :: "'w Logger \<Rightarrow> string" where
  "Logger_Prefix l = ll_prefix (lg_logger l)"

definition Logger_SetPrefix :: "string \<Rightarrow> 'w Logger \<Rightarrow> 'w Logger" where
  "Logger_SetPrefix prefix l = l\<lparr>lg_logger := (lg_logger l)\<lparr>ll_prefix := prefix\<rparr>\<rparr>"

definition Logger_Level :: "'w Logger \<Rightarrow> int" where
  "Logger_Level l = lg_level l"

definition Logger_SetLevel :: "int \<Rightarrow> 'w Logger \<Rightarrow> 'w Logger" where
  "Logger_SetLevel level l = l\<lparr>lg_level := level\<rparr>"

definition Logger_output :: "('w, 'a, 's) log_env \<Rightarrow> int \<Rightarrow> int \<Rightarrow> string \<Rightarrow> 'w Logger \<Rightarrow> 's \<Rightarrow> error option \<times> 's" where
  "Logger_output E level calldepth0 s l w =
     (let calldepth = (if lg_std l then calldepth0 + 1 else calldepth0) in
      log_Output E calldepth (mappingLevel level @ '' '' @ s) (lg_logger l) w)"

definition Logger_Err :: "('w, 'a, 's) log_env \<Rightarrow> int \<Rightarrow> int \<Rightarrow> error option \<Rightarrow> 'w Logger \<Rightarrow> 's \<Rightarrow> error option \<times> 's" where
  "Logger_Err E level calldepth err l w =
     (case err of
        Some e \<Rightarrow> (if lg_level l \<le> level then Logger_output E level calldepth (le_Error E e) l w else (None, w))
      | None \<Rightarrow> (None, w))"

definition Logger_Output :: "('w, 'a, 's) log_env \<Rightarrow> int \<Rightarrow> int \<Rightarrow> 'a list \<Rightarrow> 'w Logger \<Rightarrow> 's \<Rightarrow> error option \<times> 's" where
  "Logger_Output E level calldepth a l w =
     (if lg_level l \<le> level then Logger_output E level calldepth (le_Sprint E a) l w else (None, w))"

definition Logger_Outputf ::
  "('w, 'a, 's) log_env \<Rightarrow> int \<Rightarrow> int \<Rightarrow> string \<Rightarrow> 'a list \<Rightarrow> 'w Logger \<Rightarrow> 's \<Rightarrow> error option \<times> 's" where
  "Logger_Outputf E level calldepth fmt a l w =
     (if lg_level l \<le> level then Logger_output E level calldepth (le_Sprintf E fmt a) l w else (None, w))"

definition Logger_Outputln :: "('w, 'a, 's) log_env \<Rightarrow> int \<Rightarrow> int \<Rightarrow> 'a list \<Rightarrow> 'w Logger \<Rightarrow> 's \<Rightarrow> error option \<times> 's" where
  "Logger_Outputln E level calldepth a l w =
     (if lg_level l \<le> level then Logger_output E level calldepth (le_Sprintln E a) l w else (None, w))"

subsection \<open>The methods of every level\<close>

text \<open>A call of one of the methods with its arguments; \<open>os.Exit\<close> ends the process.\<close>

datatype 'a log_call =
    Log_ErrDebug "error option" | Log_ErrInfo "error option" | Log_ErrWarning "error option"
  | Log_ErrError "error option" | Log_ErrFatal "error option" | Log_ErrAlert "error option"
  | Log_Debug "'a list" | Log_Info "'a list" | Log_Warning "'a list"
  | Log_Error "'a list" | Log_Fatal "'a list" | Log_Alert "'a list"
  | Log_Debugf string "'a list" | Log_Infof string "'a list" | Log_Warningf string "'a list"
  | Log_Errorf string "'a list" | Log_Fatalf string "'a list" | Log_Alertf string "'a list"
  | Log_Debugln "'a list" | Log_Infoln "'a list" | Log_Warningln "'a list"
  | Log_Errorln "'a list" | Log_Fatalln "'a list" | Log_Alertln "'a list"

datatype 's process = Running 's | Exited int 's

fun log_method :: "('w, 'a, 's) log_env \<Rightarrow> 'a log_call \<Rightarrow> 'w Logger \<Rightarrow> 's \<Rightarrow> 's process" where
  "log_method E (Log_ErrDebug err) l w = Running (snd (Logger_Err E LevelDebug levelDepth err l w))"
| "log_method E (Log_ErrInfo err) l w = Running (snd (Logger_Err E LevelInfo levelDepth err l w))"
| "log_method E (Log_ErrWarning err) l w = Running (snd (Logger_Err E LevelWarning levelDepth err l w))"
| "log_method E (Log_ErrError err) l w = Running (snd (Logger_Err E LevelError levelDepth err l w))"
| "log_method E (Log_ErrFatal err) l w =
     (if err \<noteq> None then Exited 1 (snd (Logger_Err E LevelFatal levelDepth err l w)) else Running w)"
| "log_method E (Log_ErrAlert err) l w =
     (if err \<noteq> None then Running (snd (Logger_Err E LevelAlert levelDepth err l w)) else Running w)"
| "log_method E (Log_Debug a) l w = Running (snd (Logger_Output E LevelDebug levelDepth a l w))"
| "log_method E (Log_Info a) l w = Running (snd (Logger_Output E LevelInfo levelDepth a l w))"
| "log_method E (Log_Warning a) l w = Running (snd (Logger_Output E LevelWarning levelDepth a l w))"
| "log_method E (Log_Error a) l w = Running (snd (Logger_Output E LevelError levelDepth a l w))"
| "log_method E (Log_Fatal a) l w = Exited 1 (snd (Logger_Output E LevelFatal levelDepth a l w))"
| "log_method E (Log_Alert a) l w = Running (snd (Logger_Output E LevelAlert levelDepth a l w))"
| "log_method E (Log_Debugf f a) l w = Running (snd (Logger_Outputf E LevelDebug levelDepth f a l w))"
| "log_method E (Log_Infof f a) l w = Running (snd (Logger_Outputf E LevelInfo levelDepth f a l w))"
| "log_method E (Log_Warningf f a) l w = Running (snd (Logger_Outputf E LevelWarning levelDepth f a l w))"
| "log_method E (Log_Errorf f a) l w = Running (snd (Logger_Outputf E LevelError levelDepth f a l w))"
| "log_method E (Log_Fatalf f a) l w = Exited 1 (snd (Logger_Outputf E LevelFatal levelDepth f a l w))"
| "log_method E (Log_Alertf f a) l w = Running (snd (Logger_Outputf E LevelAlert levelDepth f a l w))"
| "log_method E (Log_Debugln a) l w = Running (snd (Logger_Outputln E LevelDebug levelDepth a l w))"
| "log_method E (Log_Infoln a) l w = Running (snd (Logger_Outputln E LevelInfo levelDepth a l w))"
| "log_method E (Log_Warningln a) l w = Running (snd (Logger_Outputln E LevelWarning levelDepth a l w))"
| "log_method E (Log_Errorln a) l w = Running (snd (Logger_Outputln E LevelError levelDepth a l w))"
| "log_method E (Log_Fatalln a) l w = Exited 1 (snd (Logger_Outputln E LevelFatal levelDepth a l w))"
| "log_method E (Log_Alertln a) l w = Running (snd (Logger_Outputln E LevelAlert levelDepth a l w))"

text \<open>
  The package's logger and the package functions, which call its methods.
\<close>

definition std_new :: "('w, 'a, 's) log_env \<Rightarrow> 'w \<Rightarrow> 'w Logger" where
  "std_new E Stderr = (Logger_New E Stderr '''' LstdFlags LevelInfo)\<lparr>lg_std := True\<rparr>"

definition logger_SetOutput :: "'w \<Rightarrow> 'w Logger \<Rightarrow> 'w Logger" where
  "logger_SetOutput out std = Logger_SetOutput out std"

definition logger_GetOutput :: "'w Logger \<Rightarrow> 'w" where
  "logger_GetOutput std = lg_writer std"

definition logger_Flags :: "'w Logger \<Rightarrow> int" where
  "logger_Flags std = Logger_Flags std"

definition logger_SetFlags :: "int \<Rightarrow> 'w Logger \<Rightarrow> 'w Logger" where
  "logger_SetFlags flag std = Logger_SetFlags flag std"

definition logger_Prefix :: "'w Logger \<Rightarrow> string" where
  "logger_Prefix std = Logger_Prefix std"

definition logger_SetPrefix :: "string \<Rightarrow> 'w Logger \<Rightarrow> 'w Logger" where
  "logger_SetPrefix prefix std = Logger_SetPrefix prefix std"

definition logger_Level :: "'w Logger \<Rightarrow> int" where
  "logger_Level std = Logger_Level std"

definition logger_SetLevel :: "int \<Rightarrow> 'w Logger \<Rightarrow> 'w Logger" where
  "logger_SetLevel level std = Logger_SetLevel level std"

definition logger_Err :: "('w, 'a, 's) log_env \<Rightarrow> int \<Rightarrow> int \<Rightarrow> error option \<Rightarrow> 'w Logger \<Rightarrow> 's \<Rightarrow> error option \<times> 's" where
  "logger_Err E level calldepth err std w = Logger_Err E level calldepth err std w"

definition logger_Output :: "('w, 'a, 's) log_env \<Rightarrow> int \<Rightarrow> int \<Rightarrow> 'a list \<Rightarrow> 'w Logger \<Rightarrow> 's \<Rightarrow> error option \<times> 's" where
  "logger_Output E level calldepth a std w = Logger_Output E level calldepth a std w"

definition logger_Outputf ::
  "('w, 'a, 's) log_env \<Rightarrow> int \<Rightarrow> int \<Rightarrow> string \<Rightarrow> 'a list \<Rightarrow> 'w Logger \<Rightarrow> 's \<Rightarrow> error option \<times> 's" where
  "logger_Outputf E level calldepth fmt a std w = Logger_Outputf E level calldepth fmt a std w"

definition logger_Outputln :: "('w, 'a, 's) log_env \<Rightarrow> int \<Rightarrow> int \<Rightarrow> 'a list \<Rightarrow> 'w Logger \<Rightarrow> 's \<Rightarrow> error option \<times> 's" where
  "logger_Outputln E level calldepth a std w = Logger_Outputln E level calldepth a std w"

definition logger_call :: "('w, 'a, 's) log_env \<Rightarrow> 'a log_call \<Rightarrow> 'w Logger \<Rightarrow> 's \<Rightarrow> 's process" where
  "logger_call E c std w = log_method E c std w"

text \<open>A program that logs: the calls in turn, until one ends the process.\<close>

fun log_calls :: "('w, 'a, 's) log_env \<Rightarrow> 'w Logger \<Rightarrow> 'a log_call list \<Rightarrow> 's \<Rightarrow> 's process" where
  "log_calls E l [] w = Running w"
| "log_calls E l (c # cs) w =
     (case log_method E c l w of Exited n w' \<Rightarrow> Exited n w' | Running w' \<Rightarrow> log_calls E l cs w')"

subsection \<open>What is written\<close>

text \<open>The level, the text and the effect on the process of a call, as its name says.\<close>

fun call_level :: "'a log_call \<Rightarrow> int" where
  "call_level (Log_ErrDebug _) = 100" | "call_level (Log_ErrInfo _) = 200" | "call_level (Log_ErrWarning _) = 300"
| "call_level (Log_ErrError _) = 400" | "call_level (Log_ErrFatal _) = 500" | "call_level (Log_ErrAlert _) = 600"
| "call_level (Log_Debug _) = 100" | "call_level (Log_Info _) = 200" | "call_level (Log_Warning _) = 300"
| "call_level (Log_Error _) = 400" | "call_level (Log_Fatal _) = 500" | "call_level (Log_Alert _) = 600"
| "call_level (Log_Debugf _ _) = 100" | "call_level (Log_Infof _ _) = 200" | "call_level (Log_Warningf _ _) = 300"
| "call_level (Log_Errorf _ _) = 400" | "call_level (Log_Fatalf _ _) = 500" | "call_level (Log_Alertf _ _) = 600"
| "call_level (Log_Debugln _) = 100" | "call_level (Log_Infoln _) = 200" | "call_level (Log_Warningln _) = 300"
| "call_level (Log_Errorln _) = 400" | "call_level (Log_Fatalln _) = 500" | "call_level (Log_Alertln _) = 600"

fun call_text :: "('w, 'a, 's) log_env \<Rightarrow> 'a log_call \<Rightarrow> string option" where
  "call_text E (Log_ErrDebug err) = map_option (le_Error E) err"
| "call_text E (Log_ErrInfo err) = map_option (le_Error E) err"
| "call_text E (Log_ErrWarning err) = map_option (le_Error E) err"
| "call_text E (Log_ErrError err) = map_option (le_Error E) err"
| "call_text E (Log_ErrFatal err) = map_option (le_Error E) err"
| "call_text E (Log_ErrAlert err) = map_option (le_Error E) err"
| "call_text E (Log_Debug a) = Some (le_Sprint E a)" | "call_text E (Log_Info a) = Some (le_Sprint E a)"
| "call_text E (Log_Warning a) = Some (le_Sprint E a)" | "call_text E (Log_Error a) = Some (le_Sprint E a)"
| "call_text E (Log_Fatal a) = Some (le_Sprint E a)" | "call_text E (Log_Alert a) = Some (le_Sprint E a)"
| "call_text E (Log_Debugf f a) = Some (le_Sprintf E f a)" | "call_text E (Log_Infof f a) = Some (le_Sprintf E f a)"
| "call_text E (Log_Warningf f a) = Some (le_Sprintf E f a)" | "call_text E (Log_Errorf f a) = Some (le_Sprintf E f a)"
| "call_text E (Log_Fatalf f a) = Some (le_Sprintf E f a)" | "call_text E (Log_Alertf f a) = Some (le_Sprintf E f a)"
| "call_text E (Log_Debugln a) = Some (le_Sprintln E a)" | "call_text E (Log_Infoln a) = Some (le_Sprintln E a)"
| "call_text E (Log_Warningln a) = Some (le_Sprintln E a)" | "call_text E (Log_Errorln a) = Some (le_Sprintln E a)"
| "call_text E (Log_Fatalln a) = Some (le_Sprintln E a)" | "call_text E (Log_Alertln a) = Some (le_Sprintln E a)"

fun call_exits :: "'a log_call \<Rightarrow> bool" where
  "call_exits (Log_ErrFatal err) = (err \<noteq> None)"
| "call_exits (Log_Fatal _) = True"
| "call_exits (Log_Fatalf _ _) = True"
| "call_exits (Log_Fatalln _) = True"
| "call_exits _ = False"

definition log_enabled :: "('w, 'a, 's) log_env \<Rightarrow> 'w Logger \<Rightarrow> 'a log_call \<Rightarrow> bool" where
  "log_enabled E l c \<longleftrightarrow> call_text E c \<noteq> None \<and> lg_level l \<le> call_level c"

text \<open>One line, from the label of the level and the text, five frames up for the package's logger.\<close>

definition write_call :: "('w, 'a, 's) log_env \<Rightarrow> 'w Logger \<Rightarrow> 'a log_call \<Rightarrow> 's \<Rightarrow> 's" where
  "write_call E l c w =
     snd (le_Write E (ll_out (lg_logger l))
       (log_line E (if lg_std l then 5 else 4) (mappingLevel (call_level c) @ '' '' @ the (call_text E c)) (lg_logger l) w) w)"

text \<open>The calls up to the first that ends the process, that one included.\<close>

fun through_exit :: "'a log_call list \<Rightarrow> 'a log_call list" where
  "through_exit [] = []"
| "through_exit (c # cs) = (if call_exits c then [c] else c # through_exit cs)"

lemma log_method_spec:
  "log_method E c l w =
     (if call_exits c then Exited 1 else Running) (if log_enabled E l c then write_call E l c w else w)"
  by (cases c)
    (auto simp: log_enabled_def write_call_def Logger_Err_def Logger_Output_def Logger_Outputf_def Logger_Outputln_def
      Logger_output_def log_Output_def level_defs levelDepth_def Let_def split: option.splits)

text \<open>
  A sequence of calls writes exactly one line for every call whose level reaches the
  logger's and which has a text (an \<open>Err\<close> call with nil has none), in the order of the
  calls, up to the first \<open>Fatal\<close> call (or \<open>ErrFatal\<close> with an error); that call ends the
  process with status 1, also when the level suppresses its line.  Failing writes stop
  nothing.
\<close>

theorem log_calls_lines:
  "log_calls E l cs w =
     (if list_ex call_exits cs then Exited 1 else Running)
       (fold (write_call E l) (filter (log_enabled E l) (through_exit cs)) w)"
  by (induction cs arbitrary: w) (simp_all add: log_method_spec)

text \<open>
  The level variable: without it the given level counts; a value that is not a number
  means level 0, at which every call is enabled, and one beyond 64 bits suppresses every
  call.
\<close>

theorem Logger_New_level:
  "(le_Getenv E ''MB_LOG_LEVEL'' = '''' \<longrightarrow> lg_level (Logger_New E out p f level) = level) \<and>
   (le_Getenv E ''MB_LOG_LEVEL'' \<noteq> '''' \<and> Atoi (le_Getenv E ''MB_LOG_LEVEL'') = Inl ErrSyntax \<longrightarrow>
      (\<forall>c. call_text E c \<noteq> None \<longrightarrow> log_enabled E (Logger_New E out p f level) c)) \<and>
   (Atoi (le_Getenv E ''MB_LOG_LEVEL'') = Inl ErrRange \<and> hd (le_Getenv E ''MB_LOG_LEVEL'') \<noteq> CHR ''-'' \<longrightarrow>
      (\<forall>c. \<not> log_enabled E (Logger_New E out p f level) c))"
proof -
  have pos: "0 \<le> call_level c" "\<not> 9223372036854775807 \<le> call_level c" for c :: "'b log_call"
    by (cases c; simp)+
  have "ErrSyntax \<noteq> ErrRange" by (simp add: ErrSyntax_def ErrRange_def)
  moreover have "Atoi '''' = Inl ErrSyntax" by (simp add: Atoi_def)
  ultimately show ?thesis
    by (auto simp: Logger_New_def Atoi_value_def log_enabled_def Let_def pos)
qed

text \<open>
  \<open>GetOutput\<close> keeps returning the writer of the constructor: \<open>SetOutput\<close> only changes
  the inner logger's.
\<close>

theorem GetOutput_stale:
  "logger_GetOutput (logger_SetOutput out l) = logger_GetOutput l \<and>
   ll_out (lg_logger (logger_SetOutput out l)) = out"
  by (simp add: logger_GetOutput_def logger_SetOutput_def Logger_SetOutput_def)

end
