(* ===== verification/Rolling.thy ===== *)
theory Rolling
  imports Util
begin

text \<open>
  Log files that are reopened under a new name (\<open>pkg/logger/rolling.go\<close>): the file name,
  \<open>Open\<close>, \<open>Write\<close> and the redirection of the standard streams, and the goroutine that
  receives opened files from a buffered channel and reopens them on a timer.  The file
  system, the date and Unicode's case folding are the record \<open>roll_env\<close>; the functions of
  \<open>path/filepath\<close> are modelled as on Unix.  The system of callers and goroutine is a step
  relation; shown are an invariant under which no file is forgotten, and what happens
  after a failed reopening.
\<close>

subsection \<open>File names\<close>

fun split_slash :: "string \<Rightarrow> string list" where
  "split_slash [] = [[]]"
| "split_slash (c # cs) =
     (if c = CHR ''/'' then [] # split_slash cs
      else (case split_slash cs of [] \<Rightarrow> [[c]] | w # ws \<Rightarrow> (c # w) # ws))"

fun join_slash :: "string list \<Rightarrow> string" where
  "join_slash [] = []"
| "join_slash [w] = w"
| "join_slash (w # ws) = w @ ''/'' @ join_slash ws"

text \<open>The elements of \<open>filepath.Clean\<close>'s result, last one first.\<close>

fun clean_elems :: "bool \<Rightarrow> string list \<Rightarrow> string list \<Rightarrow> string list" where
  "clean_elems rooted [] out = out"
| "clean_elems rooted (e # es) out =
     (if e = [] \<or> e = ''.'' then clean_elems rooted es out
      else if e = ''..'' then
        (case out of
           [] \<Rightarrow> clean_elems rooted es (if rooted then [] else [''..''])
         | o1 # os \<Rightarrow> clean_elems rooted es (if o1 = ''..'' then ''..'' # out else os))
      else clean_elems rooted es (e # out))"

definition Clean :: "string \<Rightarrow> string" where
  "Clean path =
     (if path = [] then ''.''
      else
        (let rooted = (hd path = CHR ''/'');
             out = join_slash (rev (clean_elems rooted (split_slash path) []))
         in if rooted then ''/'' @ out else if out = [] then ''.'' else out))"

definition Dir :: "string \<Rightarrow> string" where
  "Dir path = Clean (case last_index_byte (CHR ''/'') path of None \<Rightarrow> [] | Some i \<Rightarrow> take (Suc i) path)"

definition Base :: "string \<Rightarrow> string" where
  "Base path =
     (if path = [] then ''.''
      else
        (let p = rev (dropWhile (\<lambda>c. c = CHR ''/'') (rev path));
             b = (case last_index_byte (CHR ''/'') p of None \<Rightarrow> p | Some i \<Rightarrow> drop (Suc i) p)
         in if b = [] then ''/'' else b))"

text \<open>\<open>filepath.Ext\<close> of a name without a slash.\<close>

definition Ext :: "string \<Rightarrow> string" where
  "Ext base = (case last_index_byte (CHR ''.'') base of None \<Rightarrow> [] | Some i \<Rightarrow> drop i base)"

definition TrimSuffix :: "string \<Rightarrow> string \<Rightarrow> string" where
  "TrimSuffix s suf =
     (if length suf \<le> length s \<and> drop (length s - length suf) s = suf then take (length s - length suf) s else s)"

definition injectPidIntoLogPath :: "(string \<Rightarrow> string) \<Rightarrow> string \<Rightarrow> string" where
  "injectPidIntoLogPath getenv path =
     (let dir = Dir path; base = Base path; ext = Ext base; name = TrimSuffix base ext;
          pid = getenv ''HOSTNAME''; newBase = name @ ''_'' @ pid @ ext
      in Clean (dir @ ''/'' @ newBase))"

subsection \<open>A rolling file\<close>

record 'f roll_env =
  re_OpenFile :: "string \<Rightarrow> 'f \<Rightarrow> (error + nat) \<times> 'f"
  re_CloseFile :: "nat \<Rightarrow> 'f \<Rightarrow> 'f"
  re_WriteFile :: "nat \<Rightarrow> bytes \<Rightarrow> 'f \<Rightarrow> (nat \<times> error option) \<times> 'f"
  re_dup2 :: "nat \<Rightarrow> nat \<Rightarrow> 'f \<Rightarrow> error option \<times> 'f"
  re_date :: "'f \<Rightarrow> string"
  re_fold :: "nat \<Rightarrow> nat"

record 'f RollingFile =
  rf_fileName :: string
  rf_checkFlag :: string
  rf_fileHandler :: "nat option"
  rf_checkFun :: "'f \<Rightarrow> string"

definition NewRollingFile :: "'f roll_env \<Rightarrow> (string \<Rightarrow> string) \<Rightarrow> string \<Rightarrow> 'f RollingFile" where
  "NewRollingFile E getenv fileName =
     \<lparr>rf_fileName = injectPidIntoLogPath getenv fileName, rf_checkFlag = [], rf_fileHandler = None,
      rf_checkFun = re_date E\<rparr>"

definition SetCheckFun :: "('f \<Rightarrow> string) \<Rightarrow> 'f RollingFile \<Rightarrow> 'f RollingFile" where
  "SetCheckFun fn rf = rf\<lparr>rf_checkFun := fn\<rparr>"

definition os_ErrClosed :: error where "os_ErrClosed = ErrorString ''file already closed''"

text \<open>
  The shared state: the files by address, the channel \<open>filePipeline\<close> with its capacity of
  16, the goroutine's map \<open>fileList\<close> (its keys), and the file system.
\<close>

record 'f rolling =
  ro_files :: "nat \<Rightarrow> 'f RollingFile"
  ro_pipe :: "nat list"
  ro_list :: "nat list"
  ro_fs :: 'f

definition pipeline_cap :: nat where "pipeline_cap = 16"

definition put_file :: "nat \<Rightarrow> 'f RollingFile \<Rightarrow> 'f rolling \<Rightarrow> 'f rolling" where
  "put_file k rf y = y\<lparr>ro_files := (ro_files y)(k := rf)\<rparr>"

definition try_register :: "nat \<Rightarrow> 'f rolling \<Rightarrow> 'f rolling" where
  "try_register k y = (if length (ro_pipe y) < pipeline_cap then y\<lparr>ro_pipe := ro_pipe y @ [k]\<rparr> else y)"

definition RollingFile_Open :: "'f roll_env \<Rightarrow> nat \<Rightarrow> 'f rolling \<Rightarrow> error option \<times> 'f rolling" where
  "RollingFile_Open E k y =
     (let rf = ro_files y k;
          fs1 = (case rf_fileHandler rf of Some h \<Rightarrow> re_CloseFile E h (ro_fs y) | None \<Rightarrow> ro_fs y);
          rf1 = rf\<lparr>rf_fileHandler := None, rf_checkFlag := rf_checkFun rf fs1\<rparr>;
          fileName = rf_fileName rf1 @ ''.'' @ rf_checkFlag rf1
      in (case re_OpenFile E fileName fs1 of
            (Inl e, fs2) \<Rightarrow> (Some e, put_file k rf1 (y\<lparr>ro_fs := fs2\<rparr>))
          | (Inr f, fs2) \<Rightarrow>
             (None, try_register k (put_file k (rf1\<lparr>rf_fileHandler := Some f\<rparr>) (y\<lparr>ro_fs := fs2\<rparr>)))))"

definition RollingFile_Write :: "'f roll_env \<Rightarrow> nat \<Rightarrow> bytes \<Rightarrow> 'f rolling \<Rightarrow> (nat \<times> error option) \<times> 'f rolling" where
  "RollingFile_Write E k p y =
     (case rf_fileHandler (ro_files y k) of
        Some h \<Rightarrow> (case re_WriteFile E h p (ro_fs y) of (r, fs) \<Rightarrow> (r, y\<lparr>ro_fs := fs\<rparr>))
      | None \<Rightarrow> ((0, Some os_ErrClosed), y))"

definition RedirectSTDOutput :: "'f roll_env \<Rightarrow> nat \<Rightarrow> 'f rolling \<Rightarrow> error option \<times> 'f rolling" where
  "RedirectSTDOutput E k y =
     (case rf_fileHandler (ro_files y k) of
        Some h \<Rightarrow>
         (case re_dup2 E h 1 (ro_fs y) of
            (Some e, fs) \<Rightarrow> (Some e, y\<lparr>ro_fs := fs\<rparr>)
          | (None, fs) \<Rightarrow>
             (case re_dup2 E h 2 fs of
                (Some e, fs') \<Rightarrow> (Some e, y\<lparr>ro_fs := fs'\<rparr>)
              | (None, fs') \<Rightarrow> (None, y\<lparr>ro_fs := fs'\<rparr>)))
      | None \<Rightarrow> (Some (ErrorString ''RedirectSTDOutput:Open file first''), y))"

subsection \<open>The goroutine\<close>

text \<open>\<open>strings.EqualFold\<close>: the runes agree after simple case folding.\<close>

definition EqualFold :: "'f roll_env \<Rightarrow> string \<Rightarrow> string \<Rightarrow> bool" where
  "EqualFold E s t \<longleftrightarrow> map (re_fold E) (string_runes s) = map (re_fold E) (string_runes t)"

definition timer_receive :: "'f rolling \<Rightarrow> 'f rolling option" where
  "timer_receive y =
     (case ro_pipe y of
        [] \<Rightarrow> None
      | k # ks \<Rightarrow> Some (y\<lparr>ro_pipe := ks, ro_list := (if k \<in> set (ro_list y) then ro_list y else k # ro_list y)\<rparr>))"

definition tick_file :: "'f roll_env \<Rightarrow> nat \<Rightarrow> 'f rolling \<Rightarrow> 'f rolling" where
  "tick_file E k y =
     (let rf = ro_files y k; newName = rf_checkFun rf (ro_fs y) in
      if \<not> EqualFold E newName (rf_fileName rf)
      then snd (RollingFile_Open E k
             ((put_file k (rf\<lparr>rf_checkFlag := newName\<rparr>) y)\<lparr>ro_list := removeAll k (ro_list y)\<rparr>))
      else y)"

text \<open>One tick ranges over the map in an order that Go leaves open.\<close>

definition timer_tick :: "'f roll_env \<Rightarrow> nat list \<Rightarrow> 'f rolling \<Rightarrow> 'f rolling" where
  "timer_tick E order y = fold (tick_file E) order y"

datatype roll_event = EvOpen nat | EvWrite nat bytes | EvRedirect nat | EvReceive | EvTick "nat list"

inductive roll_step :: "'f roll_env \<Rightarrow> 'f rolling \<Rightarrow> roll_event \<Rightarrow> 'f rolling \<Rightarrow> bool" for E where
  st_open: "roll_step E y (EvOpen k) (snd (RollingFile_Open E k y))"
| st_write: "roll_step E y (EvWrite k p) (snd (RollingFile_Write E k p y))"
| st_redirect: "roll_step E y (EvRedirect k) (snd (RedirectSTDOutput E k y))"
| st_receive: "timer_receive y = Some y' \<Longrightarrow> roll_step E y EvReceive y'"
| st_tick: "distinct order \<Longrightarrow> set order = set (ro_list y) \<Longrightarrow> roll_step E y (EvTick order) (timer_tick E order y)"

inductive rolls :: "'f roll_env \<Rightarrow> 'f rolling \<Rightarrow> roll_event list \<Rightarrow> 'f rolling \<Rightarrow> bool" for E where
  rolls_refl: "rolls E y [] y"
| rolls_step: "rolls E y evs y1 \<Longrightarrow> roll_step E y1 ev y2 \<Longrightarrow> rolls E y (evs @ [ev]) y2"

inductive_cases roll_stepE: "roll_step E y ev y'"

text \<open>The files that the program opens, call by call.\<close>

fun opened :: "roll_event list \<Rightarrow> nat list" where
  "opened [] = []"
| "opened (EvOpen k # evs) = k # opened evs"
| "opened (_ # evs) = opened evs"

text \<open>At the start of the process nothing is open and nothing is registered.\<close>

definition rolling_start :: "(nat \<Rightarrow> 'f RollingFile) \<Rightarrow> 'f \<Rightarrow> 'f rolling" where
  "rolling_start files fs = \<lparr>ro_files = files, ro_pipe = [], ro_list = [], ro_fs = fs\<rparr>"

subsection \<open>One opening and one turn of a tick\<close>

definition handler :: "'f rolling \<Rightarrow> nat \<Rightarrow> nat option" where
  "handler y k = rf_fileHandler (ro_files y k)"

definition env_opens :: "'f roll_env \<Rightarrow> bool" where
  "env_opens E \<longleftrightarrow> (\<forall>name fs. \<exists>h. fst (re_OpenFile E name fs) = Inr h)"

lemma register_simps [simp]:
  "ro_files (try_register k y) = ro_files y" "ro_list (try_register k y) = ro_list y"
  "ro_pipe (try_register k y) = (if length (ro_pipe y) < pipeline_cap then ro_pipe y @ [k] else ro_pipe y)"
  by (simp_all add: try_register_def)

lemma put_file_simps [simp]:
  "ro_files (put_file k rf y) = (ro_files y)(k := rf)" "ro_list (put_file k rf y) = ro_list y"
  "ro_pipe (put_file k rf y) = ro_pipe y"
  by (simp_all add: put_file_def)

lemma Open_cases:
  obtains (fails) e fs fs' rf where
      "re_OpenFile E (rf_fileName rf @ [CHR 0x2E] @ rf_checkFlag rf) fs = (Inl e, fs')"
      "RollingFile_Open E k y = (Some e, put_file k rf (y\<lparr>ro_fs := fs'\<rparr>))" "rf_fileHandler rf = None"
    | (opens) h fs fs' rf where
      "re_OpenFile E (rf_fileName rf @ [CHR 0x2E] @ rf_checkFlag rf) fs = (Inr h, fs')"
      "RollingFile_Open E k y = (None, try_register k (put_file k rf (y\<lparr>ro_fs := fs'\<rparr>)))" "rf_fileHandler rf = Some h"
      "rf_fileName rf = rf_fileName (ro_files y k)" "rf_checkFlag rf = rf_checkFun (ro_files y k) fs"
proof -
  define fs where "fs = (case rf_fileHandler (ro_files y k) of Some h \<Rightarrow> re_CloseFile E h (ro_fs y) | None \<Rightarrow> ro_fs y)"
  define rf where "rf = (ro_files y k)\<lparr>rf_fileHandler := None, rf_checkFlag := rf_checkFun (ro_files y k) fs\<rparr>"
  obtain r fs' where r: "re_OpenFile E (rf_fileName rf @ [CHR 0x2E] @ rf_checkFlag rf) fs = (r, fs')" by fastforce
  have o: "RollingFile_Open E k y = (case r of
      Inl e \<Rightarrow> (Some e, put_file k rf (y\<lparr>ro_fs := fs'\<rparr>))
    | Inr f \<Rightarrow> (None, try_register k (put_file k (rf\<lparr>rf_fileHandler := Some f\<rparr>) (y\<lparr>ro_fs := fs'\<rparr>))))"
    using r unfolding RollingFile_Open_def Let_def rf_def fs_def by (simp split: sum.splits)
  show thesis
  proof (cases r)
    case (Inl e)
    show thesis
      by (rule fails [of rf fs e fs']) (use r o Inl in simp_all, simp add: rf_def)
  next
    case (Inr h)
    show thesis
      by (rule opens [of "rf\<lparr>rf_fileHandler := Some h\<rparr>" fs h fs']) (use r o Inr in simp_all, simp_all add: rf_def)
  qed
qed

lemma Open_other:
  assumes "j \<noteq> k"
  shows "ro_files (snd (RollingFile_Open E k y)) j = ro_files y j"
  using assms by (cases rule: Open_cases [of E k y]) simp_all

lemma Open_list [simp]: "ro_list (snd (RollingFile_Open E k y)) = ro_list y"
  by (cases rule: Open_cases [of E k y]) simp_all

lemma Open_failed:
  assumes "handler (snd (RollingFile_Open E k y)) k = None"
  shows "ro_pipe (snd (RollingFile_Open E k y)) = ro_pipe y"
  using assms by (cases rule: Open_cases [of E k y]) (simp_all add: handler_def)

lemma Open_pipe_subset: "set (ro_pipe (snd (RollingFile_Open E k y))) \<subseteq> insert k (set (ro_pipe y))"
  by (cases rule: Open_cases [of E k y]) auto

lemma Open_succeeds:
  assumes "env_opens E"
  shows "handler (snd (RollingFile_Open E k y)) k \<noteq> None \<and>
    ro_pipe (snd (RollingFile_Open E k y)) = (if length (ro_pipe y) < pipeline_cap then ro_pipe y @ [k] else ro_pipe y)"
proof (cases rule: Open_cases [of E k y])
  case (fails e fs fs' rf)
  with assms show ?thesis unfolding env_opens_def by (metis Inl_Inr_False fst_conv)
qed (simp add: handler_def)

text \<open>The name and the flag of a file that was just opened belong together.\<close>

lemma Open_name:
  assumes "handler (snd (RollingFile_Open E k y)) k = Some h"
  shows "\<exists>fs fs' rf. rf = ro_files (snd (RollingFile_Open E k y)) k \<and>
    re_OpenFile E (rf_fileName rf @ [CHR 0x2E] @ rf_checkFlag rf) fs = (Inr h, fs') \<and>
    rf_fileName rf = rf_fileName (ro_files y k) \<and> rf_checkFlag rf = rf_checkFun (ro_files y k) fs"
  using assms by (cases rule: Open_cases [of E k y]) (auto simp: handler_def)

text \<open>The state in which a tick opens a file.\<close>

definition unlisted :: "nat \<Rightarrow> string \<Rightarrow> 'f rolling \<Rightarrow> 'f rolling" where
  "unlisted k flag y =
     (put_file k ((ro_files y k)\<lparr>rf_checkFlag := flag\<rparr>) y)\<lparr>ro_list := removeAll k (ro_list y)\<rparr>"

lemma unlisted_simps [simp]:
  "ro_list (unlisted k flag y) = removeAll k (ro_list y)" "ro_pipe (unlisted k flag y) = ro_pipe y"
  "handler (unlisted k flag y) j = handler y j" "j \<noteq> k \<Longrightarrow> ro_files (unlisted k flag y) j = ro_files y j"
  by (auto simp: unlisted_def put_file_def handler_def)

lemma tick_file_cases:
  "tick_file E k y = y \<or> (\<exists>flag. tick_file E k y = snd (RollingFile_Open E k (unlisted k flag y)))"
  by (auto simp: tick_file_def unlisted_def Let_def)

lemma tick_file_other:
  assumes "j \<noteq> k"
  shows "ro_files (tick_file E k y) j = ro_files y j" "handler (tick_file E k y) j = handler y j"
    "j \<in> set (ro_list (tick_file E k y)) \<longleftrightarrow> j \<in> set (ro_list y)" "j \<notin> set (ro_pipe y) \<Longrightarrow> j \<notin> set (ro_pipe (tick_file E k y))"
  using tick_file_cases [of E k y] assms Open_other [OF assms, where E = E] Open_pipe_subset [where E = E and k = k]
  by (fastforce simp: handler_def)+

subsection \<open>No file is forgotten\<close>

text \<open>
  Every file of \<open>K\<close> is open and waits in exactly one place, the channel or the map.
\<close>

definition reg_inv :: "nat set \<Rightarrow> 'f rolling \<Rightarrow> bool" where
  "reg_inv K y \<longleftrightarrow> distinct (ro_pipe y @ ro_list y) \<and> set (ro_pipe y @ ro_list y) = K \<and> (\<forall>k \<in> K. handler y k \<noteq> None)"

lemma reg_inv_length:
  assumes "reg_inv K y"
  shows "length (ro_pipe y) + length (ro_list y) = card K"
  using assms distinct_card [of "ro_pipe y @ ro_list y"] by (simp add: reg_inv_def)

lemma reg_inv_open:
  assumes "reg_inv K y" "env_opens E" "k \<notin> K" "card K < pipeline_cap"
  shows "reg_inv (insert k K) (snd (RollingFile_Open E k y))"
proof -
  let ?y = "snd (RollingFile_Open E k y)"
  have "length (ro_pipe y) < pipeline_cap" using reg_inv_length [OF assms(1)] assms(4) by linarith
  with Open_succeeds [OF assms(2), of k y] have "handler ?y k \<noteq> None" "ro_pipe ?y = ro_pipe y @ [k]" by simp_all
  moreover have "handler ?y j = handler y j" if "j \<noteq> k" for j by (simp add: handler_def Open_other [OF that])
  ultimately show ?thesis
    using assms(1,3) by (fastforce simp: reg_inv_def)
qed

lemma reg_inv_tick_file:
  assumes "reg_inv K y" "env_opens E" "card K \<le> pipeline_cap" "k \<in> set (ro_list y)"
  shows "reg_inv K (tick_file E k y)"
proof (cases "tick_file E k y = y")
  case False
  then obtain flag where t: "tick_file E k y = snd (RollingFile_Open E k (unlisted k flag y))"
    using tick_file_cases by blast
  have k: "k \<in> K" "k \<notin> set (ro_pipe y)" and fin: "finite K"
    using assms(1,4) by (auto simp: reg_inv_def)
  have "reg_inv (K - {k}) (unlisted k flag y)"
    using assms(1) k by (auto simp: reg_inv_def distinct_removeAll)
  moreover have "card (K - {k}) < pipeline_cap"
    using k fin assms(3) by (metis card_Diff1_less order_less_le_trans)
  ultimately have "reg_inv (insert k (K - {k})) (tick_file E k y)"
    unfolding t by (intro reg_inv_open assms(2)) auto
  with k show ?thesis by (simp add: insert_absorb)
qed (use assms(1) in simp)

lemma reg_inv_tick:
  assumes "reg_inv K y" "env_opens E" "card K \<le> pipeline_cap" "distinct order" "set order \<subseteq> set (ro_list y)"
  shows "reg_inv K (timer_tick E order y)"
  using assms(1,4,5) unfolding timer_tick_def
proof (induction order arbitrary: y)
  case (Cons k ks)
  have "reg_inv K (tick_file E k y)"
    using Cons.prems by (intro reg_inv_tick_file assms(2,3)) auto
  moreover have "set ks \<subseteq> set (ro_list (tick_file E k y))"
    using Cons.prems tick_file_other(3) [of _ k E y] by (metis distinct.simps(2) set_subset_Cons subset_iff)
  ultimately show ?case using Cons by simp
qed simp

subsection \<open>Runs\<close>

lemma opened_append [simp]: "opened (evs @ evs') = opened evs @ opened evs'"
  by (induction evs rule: opened.induct) simp_all

lemma opened_replicate [simp]: "opened (replicate n EvReceive) = []"
  by (induction n) simp_all

lemma rolls_trans: "rolls E y1 evs' y2 \<Longrightarrow> rolls E y evs y1 \<Longrightarrow> rolls E y (evs @ evs') y2"
proof (induction rule: rolls.induct)
  case (rolls_step y1 evs1 y2 ev y3)
  then show ?case using rolls.rolls_step by (metis append_assoc)
qed simp

lemma Write_keeps [simp]:
  "ro_files (snd (RollingFile_Write E k p y)) = ro_files y" "ro_pipe (snd (RollingFile_Write E k p y)) = ro_pipe y"
  "ro_list (snd (RollingFile_Write E k p y)) = ro_list y"
  by (simp_all add: RollingFile_Write_def split: option.splits prod.splits)

lemma Redirect_keeps [simp]:
  "ro_files (snd (RedirectSTDOutput E k y)) = ro_files y" "ro_pipe (snd (RedirectSTDOutput E k y)) = ro_pipe y"
  "ro_list (snd (RedirectSTDOutput E k y)) = ro_list y"
  by (simp_all add: RedirectSTDOutput_def split: option.splits prod.splits)

lemma receive_keeps:
  assumes "timer_receive y = Some y'"
  shows "ro_files y' = ro_files y" "set (ro_pipe y') \<union> set (ro_list y') = set (ro_pipe y) \<union> set (ro_list y)"
  using assms by (auto simp: timer_receive_def split: list.splits if_splits)

lemma reg_inv_cong:
  "ro_files y' = ro_files y \<Longrightarrow> ro_pipe y' = ro_pipe y \<Longrightarrow> ro_list y' = ro_list y \<Longrightarrow> reg_inv K y' = reg_inv K y"
  by (simp add: reg_inv_def handler_def)

lemma reg_inv_receive: "reg_inv K y \<Longrightarrow> timer_receive y = Some y' \<Longrightarrow> reg_inv K y'"
  by (auto simp: reg_inv_def timer_receive_def handler_def split: list.splits)

lemma reg_inv_rolls:
  assumes "rolls E y0 evs y" "y0 = rolling_start files fs" "env_opens E" "distinct (opened evs)" "length (opened evs) \<le> pipeline_cap"
  shows "reg_inv (set (opened evs)) y"
  using assms(1,2,4,5)
proof (induction rule: rolls.induct)
  case (rolls_refl y)
  then show ?case by (simp add: reg_inv_def rolling_start_def)
next
  case (rolls_step y0 evs y1 ev y2)
  then have inv: "reg_inv (set (opened evs)) y1" by simp
  from rolls_step.hyps(2) show ?case
  proof cases
    case (st_open k)
    with rolls_step.prems inv show ?thesis
      using reg_inv_open [OF inv assms(3), of k] by (simp add: distinct_card)
  next
    case (st_write k p)
    with inv reg_inv_cong [of y2 y1] show ?thesis by simp
  next
    case (st_redirect k)
    with inv reg_inv_cong [of y2 y1] show ?thesis by simp
  next
    case st_receive
    with inv show ?thesis by (simp add: reg_inv_receive)
  next
    case (st_tick order)
    with rolls_step.prems inv show ?thesis
      using reg_inv_tick [OF inv assms(3) _ st_tick(3), of] by (simp add: distinct_card)
  qed
qed

text \<open>The goroutine can always empty the channel.\<close>

lemma drain:
  assumes "reg_inv K y"
  shows "\<exists>y'. rolls E y (replicate (length (ro_pipe y)) EvReceive) y' \<and> ro_pipe y' = [] \<and> reg_inv K y'"
  using assms
proof (induction "ro_pipe y" arbitrary: y)
  case Nil
  then show ?case by (auto intro: rolls.rolls_refl)
next
  case (Cons k ks)
  have p: "ro_pipe y = k # ks" using Cons.hyps(2) by simp
  define y1 where "y1 = y\<lparr>ro_pipe := ks, ro_list := (if k \<in> set (ro_list y) then ro_list y else k # ro_list y)\<rparr>"
  have r: "timer_receive y = Some y1" by (simp add: timer_receive_def p y1_def)
  have "ks = ro_pipe y1" by (simp add: y1_def)
  from Cons.hyps(1) [OF this reg_inv_receive [OF Cons.prems r]]
  obtain y' where y': "rolls E y1 (replicate (length ks) EvReceive) y'" "ro_pipe y' = []" "reg_inv K y'"
    by (auto simp: y1_def)
  have "rolls E y ([] @ [EvReceive]) y1"
    by (rule rolls.rolls_step [OF rolls.rolls_refl roll_step.st_receive [OF r]])
  from rolls_trans [OF y'(1) this] y'(2,3) show ?case by (auto simp: p)
qed


subsection \<open>After a failed reopening\<close>

text \<open>A file that is closed and waits nowhere.\<close>

definition forgotten :: "nat \<Rightarrow> 'f rolling \<Rightarrow> bool" where
  "forgotten k y \<longleftrightarrow> handler y k = None \<and> k \<notin> set (ro_pipe y) \<and> k \<notin> set (ro_list y)"

lemma forgotten_tick_file: "forgotten k y \<Longrightarrow> j \<noteq> k \<Longrightarrow> forgotten k (tick_file E j y)"
  by (simp add: forgotten_def tick_file_other)

lemma forgotten_fold: "forgotten k y \<Longrightarrow> k \<notin> set order \<Longrightarrow> forgotten k (fold (tick_file E) order y)"
  by (induction order arbitrary: y) (simp_all add: forgotten_tick_file)

lemma forgotten_step:
  assumes "forgotten k y" "roll_step E y ev y'" "k \<notin> set (opened [ev])"
  shows "forgotten k y'"
  using assms(2)
proof cases
  case (st_open j)
  then have "j \<noteq> k" using assms(3) by auto
  with st_open assms(1) Open_pipe_subset [of E j y] show ?thesis
    by (auto simp: forgotten_def handler_def Open_other)
next
  case st_receive
  with receive_keeps [OF st_receive(2)] assms(1) show ?thesis
    by (auto simp: forgotten_def handler_def)
next
  case (st_tick order)
  then show ?thesis
    using assms(1) forgotten_fold [of k y order E] by (simp add: timer_tick_def forgotten_def)
qed (use assms(1) in \<open>simp_all add: forgotten_def handler_def\<close>)

lemma forgotten_rolls: "rolls E y evs y' \<Longrightarrow> forgotten k y \<Longrightarrow> k \<notin> set (opened evs) \<Longrightarrow> forgotten k y'"
  by (induction rule: rolls.induct) (auto intro: forgotten_step)

lemma tick_file_self:
  assumes "k \<notin> set (ro_pipe y)" "handler y k \<noteq> None" "handler (tick_file E k y) k = None"
  shows "forgotten k (tick_file E k y)"
proof -
  obtain flag where t: "tick_file E k y = snd (RollingFile_Open E k (unlisted k flag y))"
    using tick_file_cases [of E k y] assms(2,3) by auto
  with assms Open_failed [of E k "unlisted k flag y"] show ?thesis by (simp add: forgotten_def)
qed

lemma tick_open_or_forgotten:
  assumes "distinct order" "handler y k \<noteq> None" "k \<in> set order \<Longrightarrow> k \<notin> set (ro_pipe y)"
  shows "handler (fold (tick_file E) order y) k \<noteq> None \<or> forgotten k (fold (tick_file E) order y)"
  using assms
proof (induction order arbitrary: y)
  case (Cons j js)
  show ?case
  proof (cases "j = k \<and> handler (tick_file E k y) k = None")
    case True
    with Cons.prems tick_file_self [of k y E] forgotten_fold [of k "tick_file E k y" js E] show ?thesis by simp
  next
    case False
    with Cons.prems have "handler (tick_file E j y) k \<noteq> None" by (cases "j = k") (simp_all add: tick_file_other)
    moreover have "k \<in> set js \<Longrightarrow> k \<notin> set (ro_pipe (tick_file E j y))"
      using Cons.prems tick_file_other(4) [of k j y E] by (cases "j = k") simp_all
    ultimately show ?thesis using Cons by simp
  qed
qed simp


subsection \<open>Every tick reopens every file\<close>

text \<open>The underscore has no case variants.\<close>

definition fold_ok :: "'f roll_env \<Rightarrow> bool" where
  "fold_ok E \<longleftrightarrow> (\<forall>r. re_fold E r = re_fold E 95 \<longrightarrow> r = 95)"

lemma not_EqualFold_underscore:
  assumes "fold_ok E" "95 \<in> set (string_runes t)" "95 \<notin> set (string_runes s)"
  shows "\<not> EqualFold E s t"
proof
  assume "EqualFold E s t"
  then have "re_fold E 95 \<in> set (map (re_fold E) (string_runes s))"
    using assms(2) by (metis EqualFold_def image_eqI list.set_map)
  with assms(1,3) show False by (auto simp: fold_ok_def)
qed

lemma tick_file_opens:
  assumes "fold_ok E" "env_opens E" "95 \<in> set (string_runes (rf_fileName (ro_files y k)))"
    "\<And>fs. 95 \<notin> set (string_runes (rf_checkFun (ro_files y k) fs))"
  shows "\<exists>fs fs' h rf. ro_files (tick_file E k y) k = rf \<and> rf_fileHandler rf = Some h \<and>
    re_OpenFile E (rf_fileName rf @ [CHR 0x2E] @ rf_checkFlag rf) fs = (Inr h, fs') \<and>
    rf_fileName rf = rf_fileName (ro_files y k) \<and> rf_checkFlag rf = rf_checkFun (ro_files y k) fs"
proof -
  have "\<not> EqualFold E (rf_checkFun (ro_files y k) (ro_fs y)) (rf_fileName (ro_files y k))"
    by (rule not_EqualFold_underscore [OF assms(1,3,4)])
  then obtain flag where t: "tick_file E k y = snd (RollingFile_Open E k (unlisted k flag y))"
    by (simp add: tick_file_def unlisted_def Let_def)
  obtain h where h: "handler (tick_file E k y) k = Some h"
    using Open_succeeds [OF assms(2), of k "unlisted k flag y"] t by auto
  have u: "rf_fileName (ro_files (unlisted k flag y) k) = rf_fileName (ro_files y k)"
      "rf_checkFun (ro_files (unlisted k flag y) k) = rf_checkFun (ro_files y k)"
    by (simp_all add: unlisted_def)
  from Open_name [of E k "unlisted k flag y" h] h show ?thesis
    unfolding t u by (auto simp: handler_def)
qed

lemma tick_fold_other: "k \<notin> set order \<Longrightarrow> ro_files (fold (tick_file E) order y) k = ro_files y k"
  by (induction order arbitrary: y) (simp_all add: tick_file_other)

text \<open>
  A tick reopens every listed file, not only those whose day has changed.  The check
  value is compared with the file name (which contains an underscore, as every name
  \<open>NewRollingFile\<close> makes) instead of the value of the last opening.  So after each tick
  each file is open under its name with the check value of that moment appended, also
  when the value is the same as before.
\<close>

theorem tick_reopens_all:
  assumes "roll_step E y (EvTick order) y'" and "env_opens E" and "fold_ok E" and "k \<in> set (ro_list y)"
    and "95 \<in> set (string_runes (rf_fileName (ro_files y k)))"
    and "\<And>fs. 95 \<notin> set (string_runes (rf_checkFun (ro_files y k) fs))"
  shows "\<exists>fs fs' h rf. ro_files y' k = rf \<and> rf_fileHandler rf = Some h \<and>
    re_OpenFile E (rf_fileName rf @ [CHR 0x2E] @ rf_checkFlag rf) fs = (Inr h, fs') \<and>
    rf_fileName rf = rf_fileName (ro_files y k) \<and> rf_checkFlag rf = rf_checkFun (ro_files y k) fs"
proof -
  have o: "distinct order" "k \<in> set order" "y' = fold (tick_file E) order y"
    using assms(1,4) by (auto elim: roll_stepE simp: timer_tick_def)
  from o(2) obtain xs zs where s: "order = xs @ k # zs" by (auto simp: in_set_conv_decomp)
  with o have x: "k \<notin> set xs" "k \<notin> set zs" by auto
  let ?y = "fold (tick_file E) xs y"
  have y: "ro_files ?y k = ro_files y k" by (rule tick_fold_other [OF x(1)])
  have "ro_files y' k = ro_files (tick_file E k ?y) k" using o(3) s tick_fold_other [OF x(2)] by simp
  then show ?thesis using tick_file_opens [of E ?y k] assms(2,3,5,6) y by simp
qed

subsection \<open>A small system\<close>

text \<open>The file system counts openings; \<open>ok n\<close> tells whether the one with number \<open>n\<close> succeeds.\<close>

definition disk_env :: "(nat \<Rightarrow> bool) \<Rightarrow> nat roll_env" where
  "disk_env ok = \<lparr>re_OpenFile = \<lambda>name n. (if ok n then Inr n else Inl (External 28), Suc n), re_CloseFile = \<lambda>h n. n,
     re_WriteFile = \<lambda>h p n. ((length p, None), n), re_dup2 = \<lambda>a b n. (None, n), re_date = \<lambda>n. ''20260106'',
     re_fold = \<lambda>r. if 65 \<le> r \<and> r \<le> 90 then r + 32 else r\<rparr>"

definition demo_file :: "nat RollingFile" where
  "demo_file = NewRollingFile (disk_env (\<lambda>_. True)) (\<lambda>_. ''h1'') ''logs/app.log''"

lemma demo_file_name: "rf_fileName demo_file = ''logs/app_h1.log''"
  by (simp add: demo_file_def NewRollingFile_def injectPidIntoLogPath_def Dir_def Base_def Ext_def TrimSuffix_def
      Clean_def Let_def)

definition demo_rolling :: "(nat \<Rightarrow> bool) \<Rightarrow> nat rolling" where
  "demo_rolling ok = (let y = snd (RollingFile_Open (disk_env ok) 0 (rolling_start (\<lambda>_. demo_file) 0)) in
     y\<lparr>ro_pipe := [], ro_list := [0]\<rparr>)"

lemma disk_env_ok: "fold_ok (disk_env ok)" "(\<forall>n. ok n) \<Longrightarrow> env_opens (disk_env ok)"
  by (auto simp: fold_ok_def env_opens_def disk_env_def split: if_splits)

lemma demo_runes: "95 \<in> set (string_runes ''logs/app_h1.log'')" "95 \<notin> set (string_runes ''20260106'')"
  by (simp_all add: string_runes_def runes_ascii)

lemma demo_rolls: "ok 0 \<Longrightarrow> rolls (disk_env ok) (rolling_start (\<lambda>_. demo_file) 0) [EvOpen 0, EvReceive] (demo_rolling ok)"
proof -
  let ?E = "disk_env ok" and ?y = "rolling_start (\<lambda>_. demo_file) 0"
  assume "ok 0"
  then have "timer_receive (snd (RollingFile_Open ?E 0 ?y)) = Some (demo_rolling ok)"
    by (simp add: timer_receive_def demo_rolling_def RollingFile_Open_def rolling_start_def disk_env_def
        demo_file_def NewRollingFile_def put_file_def try_register_def pipeline_cap_def Let_def)
  from rolls_step [OF rolls_step [OF rolls_refl st_open] st_receive [OF this]] show ?thesis by simp
qed

lemma demo_state:
  "ok 0 \<Longrightarrow> ro_list (demo_rolling ok) = [0] \<and> ro_pipe (demo_rolling ok) = [] \<and> handler (demo_rolling ok) 0 = Some 0 \<and>
     rf_fileName (ro_files (demo_rolling ok) 0) = ''logs/app_h1.log'' \<and>
     rf_checkFun (ro_files (demo_rolling ok) 0) = (\<lambda>_. ''20260106'') \<and> ro_fs (demo_rolling ok) = 1"
  using demo_file_name
  by (simp add: demo_rolling_def RollingFile_Open_def rolling_start_def disk_env_def handler_def demo_file_def
      NewRollingFile_def put_file_def try_register_def pipeline_cap_def Let_def)

lemma demo_tick: "ok 0 \<Longrightarrow> roll_step (disk_env ok) (demo_rolling ok) (EvTick [0]) (timer_tick (disk_env ok) [0] (demo_rolling ok))"
  by (rule st_tick) (simp_all add: demo_state)



theorem tick_reopens_all_witness:
  "\<exists>h. rf_fileHandler (ro_files (timer_tick (disk_env (\<lambda>_. True)) [0] (demo_rolling (\<lambda>_. True))) 0) = Some h \<and>
     rf_checkFlag (ro_files (timer_tick (disk_env (\<lambda>_. True)) [0] (demo_rolling (\<lambda>_. True))) 0) = ''20260106''"
  using tick_reopens_all [OF demo_tick disk_env_ok(2,1), of "\<lambda>_. True" 0] demo_runes by (auto simp: demo_state)

end
