(* ===== verification/Rolling_Race.thy ===== *)
theory Rolling_Race
  imports Rolling
begin

text \<open>
  Concurrent use of one rolling file (\<open>pkg/logger/rolling.go\<close>).  Goroutines that log call
  \<open>Write\<close> while the timer goroutine, or the program, calls \<open>Open\<close>.  \<open>Open\<close> works under the
  mutex of the file; \<open>Write\<close> tests the handle before it takes the mutex and reads it again
  after.  The registration of an opened file with the timer goroutine is in \<open>Rolling\<close>.
\<close>

subsection \<open>Steps\<close>

datatype fcall = RWrite bytes | ROpen

datatype fileop =
    W_test
  | W_mutex
  | W_file
  | W_release nat "error option"
  | O_mutex
  | O_shut
  | O_flag
  | O_file
  | O_release "error option"
  | Op_done nat "error option"

text \<open>
  \<open>rw_live\<close> (the handles that are open in the file system) and \<open>rw_log\<close> (call, handle, whether
  it was open, bytes and result of each write of a file) only record what happened.
\<close>

record 'f rolling_file =
  rw_file :: "'f RollingFile"
  rw_fs :: 'f
  rw_mu :: "nat option"
  rw_calls :: "nat \<rightharpoonup> fcall \<times> fileop"
  rw_live :: "nat set"
  rw_log :: "(nat \<times> nat \<times> bool \<times> bytes \<times> nat \<times> error option) list"

text \<open>The error of \<open>Write\<close> on a nil \<open>*os.File\<close>.\<close>

definition os_ErrInvalid :: error where "os_ErrInvalid = ErrorString ''invalid argument''"

fun Write_step ::
  "'f roll_env \<Rightarrow> nat \<Rightarrow> bytes \<Rightarrow> fileop \<Rightarrow> 'f rolling_file \<Rightarrow> (fileop \<times> 'f rolling_file) option" where
  "Write_step E t p W_test S =
     Some (if rf_fileHandler (rw_file S) = None then Op_done 0 (Some os_ErrClosed) else W_mutex, S)"
| "Write_step E t p W_mutex S = (if rw_mu S = None then Some (W_file, S\<lparr>rw_mu := Some t\<rparr>) else None)"
| "Write_step E t p W_file S =
     (case rf_fileHandler (rw_file S) of
        None \<Rightarrow> Some (W_release 0 (Some os_ErrInvalid), S)
      | Some h \<Rightarrow>
         (case re_WriteFile E h p (rw_fs S) of ((n, err), fs) \<Rightarrow>
            Some (W_release n err, S\<lparr>rw_fs := fs, rw_log := rw_log S @ [(t, h, h \<in> rw_live S, p, n, err)]\<rparr>)))"
| "Write_step E t p (W_release n err) S = Some (Op_done n err, S\<lparr>rw_mu := None\<rparr>)"
| "Write_step E t p _ S = None"

fun Open_step ::
  "'f roll_env \<Rightarrow> nat \<Rightarrow> fileop \<Rightarrow> 'f rolling_file \<Rightarrow> (fileop \<times> 'f rolling_file) option" where
  "Open_step E t O_mutex S = (if rw_mu S = None then Some (O_shut, S\<lparr>rw_mu := Some t\<rparr>) else None)"
| "Open_step E t O_shut S =
     (case rf_fileHandler (rw_file S) of
        None \<Rightarrow> Some (O_flag, S)
      | Some h \<Rightarrow> Some (O_flag, S\<lparr>rw_file := (rw_file S)\<lparr>rf_fileHandler := None\<rparr>,
            rw_fs := re_CloseFile E h (rw_fs S), rw_live := rw_live S - {h}\<rparr>))"
| "Open_step E t O_flag S =
     Some (O_file, S\<lparr>rw_file := (rw_file S)\<lparr>rf_checkFlag := rf_checkFun (rw_file S) (rw_fs S)\<rparr>\<rparr>)"
| "Open_step E t O_file S =
     (case re_OpenFile E (rf_fileName (rw_file S) @ ''.'' @ rf_checkFlag (rw_file S)) (rw_fs S) of
        (Inl e, fs) \<Rightarrow> Some (O_release (Some e), S\<lparr>rw_fs := fs\<rparr>)
      | (Inr f, fs) \<Rightarrow> Some (O_release None, S\<lparr>rw_file := (rw_file S)\<lparr>rf_fileHandler := Some f\<rparr>, rw_fs := fs,
            rw_live := insert f (rw_live S)\<rparr>))"
| "Open_step E t (O_release err) S = Some (Op_done 0 err, S\<lparr>rw_mu := None\<rparr>)"
| "Open_step E t _ S = None"

definition first_op :: "fcall \<Rightarrow> fileop" where
  "first_op call = (case call of RWrite p \<Rightarrow> W_test | ROpen \<Rightarrow> O_mutex)"

definition op_step ::
  "'f roll_env \<Rightarrow> nat \<Rightarrow> fcall \<Rightarrow> fileop \<Rightarrow> 'f rolling_file \<Rightarrow> (fileop \<times> 'f rolling_file) option" where
  "op_step E t call pc S = (case call of RWrite p \<Rightarrow> Write_step E t p pc S | ROpen \<Rightarrow> Open_step E t pc S)"

text \<open>
  \<open>RBegin\<close> starts a call, \<open>RGo\<close> is its next step, \<open>RTickFlag\<close> the store of the timer goroutine
  to \<open>checkFlag\<close>, which it makes without the mutex, \<open>RTime\<close> what else happens to the file
  system.
\<close>

datatype 'f ract = RBegin nat fcall | RGo nat | RTickFlag | RTime 'f

fun rolling_act :: "'f roll_env \<Rightarrow> 'f ract \<Rightarrow> 'f rolling_file \<Rightarrow> 'f rolling_file option" where
  "rolling_act E (RBegin t call) S =
     (case rw_calls S t of
        Some _ \<Rightarrow> None
      | None \<Rightarrow> Some (S\<lparr>rw_calls := (rw_calls S)(t \<mapsto> (call, first_op call))\<rparr>))"
| "rolling_act E (RGo t) S =
     (case rw_calls S t of
        None \<Rightarrow> None
      | Some (call, pc) \<Rightarrow>
         (case op_step E t call pc S of
            None \<Rightarrow> None
          | Some (pc', S') \<Rightarrow> Some (S'\<lparr>rw_calls := (rw_calls S)(t \<mapsto> (call, pc'))\<rparr>)))"
| "rolling_act E RTickFlag S =
     Some (S\<lparr>rw_file := (rw_file S)\<lparr>rf_checkFlag := rf_checkFun (rw_file S) (rw_fs S)\<rparr>\<rparr>)"
| "rolling_act E (RTime fs) S = Some (S\<lparr>rw_fs := fs\<rparr>)"

abbreviation rolling_acts where
  "rolling_acts E \<equiv> run_actions (rolling_act E)"

definition rolling_init :: "'f RollingFile \<Rightarrow> 'f \<Rightarrow> 'f rolling_file" where
  "rolling_init rf fs = \<lparr>rw_file = rf\<lparr>rf_fileHandler := None\<rparr>, rw_fs = fs, rw_mu = None, rw_calls = Map.empty,
     rw_live = {}, rw_log = []\<rparr>"

text \<open>Run alone, the steps are \<open>RollingFile_Write\<close> and, up to the registration, \<open>RollingFile_Open\<close>.\<close>

definition state_of :: "nat \<Rightarrow> 'f rolling \<Rightarrow> 'f rolling_file" where
  "state_of k y = (rolling_init (ro_files y k) (ro_fs y))\<lparr>rw_file := ro_files y k,
     rw_live := set_option (rf_fileHandler (ro_files y k))\<rparr>"

lemma Write_alone:
  assumes "RollingFile_Write E k p y = ((n, err), y')"
  shows "\<exists>S. rolling_acts E (RBegin 0 (RWrite p) # replicate (if rf_fileHandler (ro_files y k) = None then 1 else 4) (RGo 0))
      (state_of k y) = Some S \<and> rw_calls S 0 = Some (RWrite p, Op_done n err) \<and> rw_fs S = ro_fs y' \<and> rw_file S = ro_files y' k"
  using assms
  by (auto simp: RollingFile_Write_def state_of_def rolling_init_def op_step_def first_op_def numeral_eq_Suc
      split: option.splits prod.splits)

lemma Open_alone:
  assumes "RollingFile_Open E k y = (err, y')"
  shows "\<exists>S. rolling_acts E (RBegin 0 ROpen # replicate 5 (RGo 0)) (state_of k y) = Some S \<and>
    rw_calls S 0 = Some (ROpen, Op_done 0 err) \<and> rw_fs S = ro_fs y' \<and> rw_file S = ro_files y' k"
  using assms
  by (auto simp: RollingFile_Open_def state_of_def rolling_init_def op_step_def first_op_def numeral_eq_Suc Let_def
      put_file_def try_register_def split: option.splits prod.splits sum.splits)

subsection \<open>The invariant\<close>

fun holds_mu :: "fileop \<Rightarrow> bool" where
  "holds_mu W_file = True"
| "holds_mu (W_release n err) = True"
| "holds_mu O_shut = True"
| "holds_mu O_flag = True"
| "holds_mu O_file = True"
| "holds_mu (O_release err) = True"
| "holds_mu _ = False"

text \<open>What call \<open>t\<close> wrote, with the results.\<close>

definition written :: "(nat \<times> nat \<times> bool \<times> bytes \<times> nat \<times> error option) list \<Rightarrow> nat \<Rightarrow> (bytes \<times> nat \<times> error option) list" where
  "written log t = map (\<lambda>(t, h, live, p, n, err). (p, n, err)) (filter (\<lambda>e. fst e = t) log)"

lemma written_simps [simp]:
  "written [] t = []"
  "written (log @ [(t', h, live, p, n, err)]) t = written log t @ (if t' = t then [(p, n, err)] else [])"
  by (simp_all add: written_def)

text \<open>A finished \<open>Write\<close> wrote its bytes once, with that result, or wrote nothing and says so.\<close>

definition write_result :: "bytes \<Rightarrow> nat \<Rightarrow> error option \<Rightarrow> (bytes \<times> nat \<times> error option) list \<Rightarrow> bool" where
  "write_result p n err l \<longleftrightarrow> l = [(p, n, err)] \<or> l = [] \<and> n = 0 \<and> err \<in> {Some os_ErrClosed, Some os_ErrInvalid}"

definition write_ok :: "bytes \<Rightarrow> fileop \<Rightarrow> (bytes \<times> nat \<times> error option) list \<Rightarrow> bool" where
  "write_ok p pc l = (case pc of
       W_test \<Rightarrow> l = [] | W_mutex \<Rightarrow> l = [] | W_file \<Rightarrow> l = []
     | W_release n err \<Rightarrow> write_result p n err l | Op_done n err \<Rightarrow> write_result p n err l | _ \<Rightarrow> False)"

definition open_ok :: "nat option \<Rightarrow> fileop \<Rightarrow> bool" where
  "open_ok h pc = (case pc of
       O_mutex \<Rightarrow> True | O_shut \<Rightarrow> True | O_flag \<Rightarrow> h = None | O_file \<Rightarrow> h = None
     | O_release err \<Rightarrow> True | Op_done n err \<Rightarrow> n = 0 | _ \<Rightarrow> False)"

definition op_ok :: "nat option \<Rightarrow> (bytes \<times> nat \<times> error option) list \<Rightarrow> fcall \<Rightarrow> fileop \<Rightarrow> bool" where
  "op_ok h l call pc = (case call of RWrite p \<Rightarrow> write_ok p pc l | ROpen \<Rightarrow> l = [] \<and> open_ok h pc)"

definition call_at ::
  "nat option \<Rightarrow> nat option \<Rightarrow> (bytes \<times> nat \<times> error option) list \<Rightarrow> nat \<Rightarrow> (fcall \<times> fileop) option \<Rightarrow> bool" where
  "call_at mu h l t c = (case c of
       None \<Rightarrow> l = [] \<and> mu \<noteq> Some t
     | Some (call, pc) \<Rightarrow> (holds_mu pc \<longleftrightarrow> mu = Some t) \<and> op_ok h l call pc)"

definition calls_ok :: "'f rolling_file \<Rightarrow> bool" where
  "calls_ok S \<longleftrightarrow> (\<forall>t. call_at (rw_mu S) (rf_fileHandler (rw_file S)) (written (rw_log S) t) t (rw_calls S t))"

lemma call_at_simps [simp]:
  "call_at mu h l t None \<longleftrightarrow> l = [] \<and> mu \<noteq> Some t"
  "call_at mu h l t (Some (call, pc)) \<longleftrightarrow> (holds_mu pc \<longleftrightarrow> mu = Some t) \<and> op_ok h l call pc"
  by (simp_all add: call_at_def)

definition rolling_inv :: "'f rolling_file \<Rightarrow> bool" where
  "rolling_inv S \<longleftrightarrow> rw_live S = set_option (rf_fileHandler (rw_file S)) \<and> calls_ok S \<and>
     (\<forall>(t, h, live, p, n, err) \<in> set (rw_log S). live)"

lemma calls_okD:
  assumes "calls_ok S" and "rw_calls S t = Some (call, pc)"
  shows "holds_mu pc \<longleftrightarrow> rw_mu S = Some t" and "op_ok (rf_fileHandler (rw_file S)) (written (rw_log S) t) call pc"
  using assms unfolding calls_ok_def by (metis call_at_simps(2))+

lemma op_ok_waiting: "op_ok h l call pc \<Longrightarrow> \<not> holds_mu pc \<Longrightarrow> op_ok h' l call pc"
  by (cases call; cases pc) (simp_all add: op_ok_def open_ok_def write_ok_def)

text \<open>A step of one call.\<close>

lemma op_step_effect:
  assumes "op_step E t call pc S = Some (pc', S')" and "op_ok (rf_fileHandler (rw_file S)) (written (rw_log S) t) call pc"
    and "holds_mu pc \<longleftrightarrow> rw_mu S = Some t" and "rw_live S = set_option (rf_fileHandler (rw_file S))"
  shows "op_ok (rf_fileHandler (rw_file S')) (written (rw_log S') t) call pc'"
    and "holds_mu pc' \<longleftrightarrow> rw_mu S' = Some t"
    and "rw_live S' = set_option (rf_fileHandler (rw_file S'))"
    and "t' \<noteq> t \<Longrightarrow> rw_mu S = Some t' \<longleftrightarrow> rw_mu S' = Some t'"
    and "t' \<noteq> t \<Longrightarrow> written (rw_log S') t' = written (rw_log S) t'"
    and "\<not> holds_mu pc \<Longrightarrow> rf_fileHandler (rw_file S') = rf_fileHandler (rw_file S)"
    and "\<exists>l. rw_log S' = rw_log S @ l \<and> (\<forall>(t, h, live, p, n, err) \<in> set l. live)"
    and "rw_calls S' = rw_calls S"
  using assms
  by (cases call; cases pc;
      auto simp: op_step_def op_ok_def write_ok_def open_ok_def write_result_def split: option.splits prod.splits sum.splits if_splits)+

lemma rolling_inv_go:
  assumes inv: "rolling_inv S" and act: "rolling_act E (RGo t) S = Some S'"
  shows "rolling_inv S'"
proof -
  obtain call pc pc' V where t: "rw_calls S t = Some (call, pc)" and go: "op_step E t call pc S = Some (pc', V)"
    and S': "S' = V\<lparr>rw_calls := (rw_calls S)(t \<mapsto> (call, pc'))\<rparr>"
    using act by (auto split: option.splits)
  have c: "calls_ok S" and live: "rw_live S = set_option (rf_fileHandler (rw_file S))"
    and log: "\<forall>(t, h, live, p, n, err) \<in> set (rw_log S). live"
    using inv by (auto simp: rolling_inv_def)
  note e = op_step_effect [OF go calls_okD(2) [OF c t] calls_okD(1) [OF c t] live]
  have other: "call_at (rw_mu V) (rf_fileHandler (rw_file V)) (written (rw_log V) t') t' (rw_calls S t')" if "t' \<noteq> t" for t'
  proof (cases "rw_calls S t'")
    case None
    with c have "written (rw_log S) t' = [] \<and> rw_mu S \<noteq> Some t'"
      unfolding calls_ok_def by (metis call_at_simps(1))
    with None e(4,5) [OF that] show ?thesis by simp
  next
    case (Some x)
    obtain call' pc1 where x: "x = (call', pc1)" by (cases x)
    note ok = calls_okD [OF c Some [unfolded x]]
    have "op_ok (rf_fileHandler (rw_file V)) (written (rw_log V) t') call' pc1"
    proof (cases "holds_mu pc1")
      case True
      then have "\<not> holds_mu pc" using ok(1) calls_okD(1) [OF c t] that by auto
      with ok(2) e(5) [OF that] e(6) show ?thesis by simp
    qed (use ok(2) e(5) [OF that] op_ok_waiting in auto)
    with ok(1) e(4) [OF that] Some x show ?thesis by simp
  qed
  then have "calls_ok S'"
    using e(1,2) by (simp add: calls_ok_def S')
  moreover have "\<forall>(t, h, live, p, n, err) \<in> set (rw_log S'). live"
    using e(7) log by (auto simp: S')
  ultimately show ?thesis
    using e(3) by (simp add: rolling_inv_def S')
qed

interpretation rolling_ts: action_system "rolling_act E :: 'f ract \<Rightarrow> 'f rolling_file \<Rightarrow> _" rolling_inv for E
proof
  fix a and S S' :: "'f rolling_file"
  assume inv: "rolling_inv S" and act: "rolling_act E a S = Some S'"
  show "rolling_inv S'"
  proof (cases a)
    case (RBegin t call)
    with act have t: "rw_calls S t = None" and S': "S' = S\<lparr>rw_calls := (rw_calls S)(t \<mapsto> (call, first_op call))\<rparr>"
      by (auto split: option.splits)
    have "written (rw_log S) t = []" "rw_mu S \<noteq> Some t"
      using inv t unfolding rolling_inv_def calls_ok_def by (metis call_at_simps(1))+
    with inv show ?thesis
      by (cases call) (auto simp: rolling_inv_def calls_ok_def S' first_op_def op_ok_def write_ok_def open_ok_def)
  next
    case (RGo t)
    then show ?thesis using rolling_inv_go [OF inv] act by blast
  qed (use inv act in \<open>auto simp: rolling_inv_def calls_ok_def\<close>)
qed

lemma rolling_init_inv: "rolling_inv (rolling_init rf fs)"
  by (simp add: rolling_inv_def calls_ok_def rolling_init_def)

subsection \<open>Writes without a reopening\<close>

text \<open>
  No call of \<open>Open\<close> is under way and the file is open; the writes begun since (not in
  \<open>old\<close>) are not turned away.
\<close>

definition accepted :: "bool \<Rightarrow> (bytes \<times> nat \<times> error option) list \<Rightarrow> (fcall \<times> fileop) option \<Rightarrow> bool" where
  "accepted d l c = (case c of
       None \<Rightarrow> True
     | Some (ROpen, pc) \<Rightarrow> (\<exists>n err. pc = Op_done n err)
     | Some (RWrite p, pc) \<Rightarrow> \<not> d \<longrightarrow>
         pc \<in> {W_test, W_mutex, W_file} \<or> (\<exists>n err. pc \<in> {W_release n err, Op_done n err} \<and> l = [(p, n, err)]))"

definition undisturbed :: "nat set \<Rightarrow> nat \<Rightarrow> 'f rolling_file \<Rightarrow> bool" where
  "undisturbed old h S \<longleftrightarrow> rf_fileHandler (rw_file S) = Some h \<and>
     (\<forall>t. accepted (t \<in> old) (written (rw_log S) t) (rw_calls S t))"

fun no_open :: "'f ract \<Rightarrow> bool" where
  "no_open (RBegin t ROpen) = False"
| "no_open _ = True"

lemma undisturbed_go:
  assumes inv: "rolling_inv S" and und: "undisturbed old h S" and act: "rolling_act E (RGo t) S = Some S'"
  shows "undisturbed old h S'"
proof -
  obtain call pc pc' V where t: "rw_calls S t = Some (call, pc)" and go: "op_step E t call pc S = Some (pc', V)"
    and S': "S' = V\<lparr>rw_calls := (rw_calls S)(t \<mapsto> (call, pc'))\<rparr>"
    using act by (auto split: option.splits)
  have h: "rf_fileHandler (rw_file S) = Some h" and acc: "accepted (t \<in> old) (written (rw_log S) t) (Some (call, pc))"
    using und t unfolding undisturbed_def by (auto dest: spec [of _ t])
  obtain p where call: "call = RWrite p"
    using acc go by (cases call) (auto simp: accepted_def op_step_def)
  have ok: "op_ok (Some h) (written (rw_log S) t) call pc"
    using inv calls_okD(2) [OF _ t] h by (simp add: rolling_inv_def)
  have "rf_fileHandler (rw_file V) = Some h \<and> accepted (t \<in> old) (written (rw_log V) t) (Some (call, pc')) \<and>
      (\<forall>t'. t' \<noteq> t \<longrightarrow> written (rw_log V) t' = written (rw_log S) t')"
    using go ok acc h
    by (cases pc) (auto simp: call op_step_def op_ok_def write_ok_def accepted_def split: option.splits prod.splits if_splits)
  with und show ?thesis by (auto simp: undisturbed_def S')
qed

lemma accepted_begin: "accepted d l (Some (RWrite p, W_test))"
  by (simp add: accepted_def)

lemma undisturbed_act:
  assumes "rolling_inv S" and "undisturbed old h S" and "no_open a" and "rolling_act E a S = Some S'"
  shows "undisturbed old h S'"
proof (cases a)
  case (RBegin t call)
  with assms(2-4) show ?thesis
    by (cases call) (auto simp: undisturbed_def accepted_begin first_op_def split: option.splits)
next
  case (RGo t)
  then show ?thesis using undisturbed_go [OF assms(1,2)] assms(4) by blast
qed (use assms(2,4) in \<open>auto simp: undisturbed_def\<close>)

subsection \<open>Properties\<close>


text \<open>A file that is opened once and written twice, the calls overlapping.\<close>

definition two_lines :: "nat ract list" where
  "two_lines = [RBegin 1 (RWrite [65]), RGo 1, RBegin 2 (RWrite [66]), RGo 2, RGo 2, RGo 2, RGo 2, RGo 1, RGo 1, RGo 1]"

abbreviation log_env :: "nat roll_env" where
  "log_env \<equiv> disk_env (\<lambda>_. True)"

definition log_file :: "nat RollingFile" where
  "log_file = NewRollingFile log_env (\<lambda>_. ''h'') ''a.log''"

definition open_acts :: "'f ract list" where
  "open_acts = RBegin 0 ROpen # replicate 5 (RGo 0)"

lemmas rolling_eval = rolling_init_def op_step_def first_op_def numeral_eq_Suc disk_env_def log_file_def NewRollingFile_def

lemma two_lines_run:
  "\<exists>S S'. rolling_acts log_env open_acts (rolling_init log_file 0) = Some S \<and> rf_fileHandler (rw_file S) = Some 0 \<and>
     rw_calls S = [0 \<mapsto> (ROpen, Op_done 0 None)] \<and> rolling_acts log_env two_lines S = Some S' \<and>
     rw_calls S' 1 = Some (RWrite [65], Op_done 1 None)"
  by (simp add: open_acts_def two_lines_def rolling_eval)


text \<open>
  C27: a line can be lost while its file is reopened.  \<open>Write\<close> tests the handle without the
  mutex, and \<open>Open\<close> sets it to nil before it opens the new file.  For every open file, every
  line, and every file system on which the next opening succeeds, there is an interleaving of one
  \<open>Open\<close> and one \<open>Write\<close> in which both return, the \<open>Open\<close> without an error and the file is
  open again, but the \<open>Write\<close> returned \<open>os.ErrClosed\<close> and nothing was written.
\<close>

definition reopen_acts :: "bytes \<Rightarrow> 'f ract list" where
  "reopen_acts p = [RBegin 0 ROpen, RGo 0, RGo 0, RBegin 1 (RWrite p), RGo 1, RGo 0, RGo 0, RGo 0]"

theorem reopen_loses_line:
  assumes "env_opens E" and "rw_calls S = Map.empty" and "rw_mu S = None" and "rf_fileHandler (rw_file S) = Some h"
  shows "\<exists>S'. rolling_acts E (reopen_acts p) S = Some S' \<and>
    rw_calls S' 0 = Some (ROpen, Op_done 0 None) \<and> rf_fileHandler (rw_file S') \<noteq> None \<and>
    rw_calls S' 1 = Some (RWrite p, Op_done 0 (Some os_ErrClosed)) \<and> rw_log S' = rw_log S"
proof -
  have "\<exists>h fs'. re_OpenFile E name fs = (Inr h, fs')" for name fs
    using assms(1) unfolding env_opens_def by (metis prod.collapse)
  then obtain h' fs' where "re_OpenFile E (rf_fileName (rw_file S) @ ''.'' @ rf_checkFun (rw_file S) (re_CloseFile E h (rw_fs S)))
      (re_CloseFile E h (rw_fs S)) = (Inr h', fs')"
    by metis
  with assms(2-4) show ?thesis
    by (simp add: reopen_acts_def op_step_def first_op_def)
qed

theorem reopen_loses_line_witness:
  "\<exists>S'. rolling_acts log_env (reopen_acts [65]) (state_of 0 (snd (RollingFile_Open log_env 0 (rolling_start (\<lambda>_. log_file) 0)))) = Some S' \<and>
    rw_calls S' 1 = Some (RWrite [65], Op_done 0 (Some os_ErrClosed)) \<and> rf_fileHandler (rw_file S') \<noteq> None"
proof -
  let ?S = "state_of 0 (snd (RollingFile_Open log_env 0 (rolling_start (\<lambda>_. log_file) 0)))"
  have "env_opens log_env" by (simp add: env_opens_def disk_env_def)
  moreover have "rw_calls ?S = Map.empty" "rw_mu ?S = None" "rf_fileHandler (rw_file ?S) = Some 0"
    by (simp_all add: state_of_def rolling_init_def RollingFile_Open_def rolling_start_def Let_def disk_env_def put_file_def
        log_file_def NewRollingFile_def try_register_def)
  ultimately show ?thesis using reopen_loses_line [of log_env ?S 0 "[65]"] by blast
qed

end
