(* ===== verification/Host.thy ===== *)
theory Host
  imports Util
begin

text \<open>
  Host information (\<open>pkg/util/os.go\<close>) and the base64 helpers (\<open>pkg/util/base64.go\<close>).
  What the operating system answers is the record \<open>os_env\<close>.  \<open>encoding/base64\<close>'s
  \<open>StdEncoding\<close> is modelled: groups of three bytes, padding, and a decoder that skips line
  breaks and accepts padding only at the end.  Shown is that decoding undoes encoding, also
  when the text has been broken into lines.
\<close>

subsection \<open>The operating system (os.go)\<close>

record os_env =
  os_Getwd :: "error + string"
  os_AbsArgs0Dir :: string
  os_UserHomeDir :: "error + string"
  os_TempDir :: string
  os_CurrentUser :: "error + string"
  os_Hostname :: "error + string"
  os_Getenv :: "string \<Rightarrow> string"
  os_LookupIP :: "string \<Rightarrow> error + string list"

definition Pwd :: "os_env \<Rightarrow> string" where
  "Pwd env = (case os_Getwd env of Inl _ \<Rightarrow> os_AbsArgs0Dir env | Inr dir \<Rightarrow> dir)"

definition HomeDir :: "os_env \<Rightarrow> string" where
  "HomeDir env = (case os_UserHomeDir env of Inl _ \<Rightarrow> '''' | Inr home \<Rightarrow> home)"

definition TempDir :: "os_env \<Rightarrow> string" where
  "TempDir env = os_TempDir env"

definition UserName :: "os_env \<Rightarrow> string" where
  "UserName env = (case os_CurrentUser env of Inl _ \<Rightarrow> '''' | Inr user \<Rightarrow> user)"

definition Hostname :: "os_env \<Rightarrow> error + string" where
  "Hostname env = (case os_Hostname env of Inl _ \<Rightarrow> Inr (EnvHostname (os_Getenv env)) | Inr hostname \<Rightarrow> Inr hostname)"

definition HostIP :: "os_env \<Rightarrow> error + string list" where
  "HostIP env =
     (case Hostname env of
        Inl e \<Rightarrow> Inl e
      | Inr hostname \<Rightarrow> (case os_LookupIP env hostname of Inl e \<Rightarrow> Inl e | Inr ips \<Rightarrow> Inr ips))"

lemma Hostname_total: "\<exists>h. Hostname env = Inr h"
  by (simp add: Hostname_def split: sum.splits)

subsection \<open>Base64 (base64.go)\<close>

definition alphabet :: string where
  "alphabet = ''ABCDEFGHIJKLMNOPQRSTUVWXYZabcdefghijklmnopqrstuvwxyz0123456789+/''"

definition enc_char :: "nat \<Rightarrow> char" where
  "enc_char n = alphabet ! n"

definition dec_char :: "char \<Rightarrow> nat option" where
  "dec_char c = index_byte c alphabet"

text \<open>The digits of a group of three bytes, and of a last group of one or two.\<close>

fun base64_encode :: "nat list \<Rightarrow> string" where
  "base64_encode [] = []"
| "base64_encode [a] = [enc_char (a div 4), enc_char (a mod 4 * 16), CHR ''='', CHR ''='']"
| "base64_encode [a, b] =
     [enc_char (a div 4), enc_char (a mod 4 * 16 + b div 16), enc_char (b mod 16 * 4), CHR ''='']"
| "base64_encode (a # b # c # bs) =
     [enc_char (a div 4), enc_char (a mod 4 * 16 + b div 16), enc_char (b mod 16 * 4 + c div 64), enc_char (c mod 64)]
     @ base64_encode bs"

definition CorruptInput :: error where "CorruptInput = ErrorString ''illegal base64 data''"

fun base64_decode :: "string \<Rightarrow> error + nat list" where
  "base64_decode [] = Inr []"
| "base64_decode (c1 # c2 # c3 # c4 # cs) =
     (case (dec_char c1, dec_char c2) of
        (Some d1, Some d2) \<Rightarrow>
          (if c3 = CHR ''='' then (if c4 = CHR ''='' \<and> cs = [] then Inr [d1 * 4 + d2 div 16] else Inl CorruptInput)
           else (case dec_char c3 of
               None \<Rightarrow> Inl CorruptInput
             | Some d3 \<Rightarrow>
                (if c4 = CHR ''='' then
                   (if cs = [] then Inr [d1 * 4 + d2 div 16, d2 mod 16 * 16 + d3 div 4] else Inl CorruptInput)
                 else (case dec_char c4 of
                     None \<Rightarrow> Inl CorruptInput
                   | Some d4 \<Rightarrow>
                      (case base64_decode cs of
                         Inl e \<Rightarrow> Inl e
                       | Inr bs \<Rightarrow> Inr ([d1 * 4 + d2 div 16, d2 mod 16 * 16 + d3 div 4, d3 mod 4 * 64 + d4] @ bs))))))
      | _ \<Rightarrow> Inl CorruptInput)"
| "base64_decode _ = Inl CorruptInput"

definition skip_breaks :: "string \<Rightarrow> string" where
  "skip_breaks s = filter (\<lambda>c. c \<noteq> CHR 0x0A \<and> c \<noteq> CHR 0x0D) s"

definition Base64Encode :: "bytes \<Rightarrow> string" where
  "Base64Encode data = base64_encode (map unat data)"

definition Base64Decode :: "string \<Rightarrow> error + bytes" where
  "Base64Decode data = (case base64_decode (skip_breaks data) of Inl e \<Rightarrow> Inl e | Inr ns \<Rightarrow> Inr (map of_nat ns))"

definition Base64StringEncode :: "string \<Rightarrow> string" where
  "Base64StringEncode data = Base64Encode (bytes_of_string data)"

definition Base64StringDecode :: "string \<Rightarrow> error + string" where
  "Base64StringDecode data = (case Base64Decode data of Inl e \<Rightarrow> Inl e | Inr decoded \<Rightarrow> Inr (string_of_bytes decoded))"

subsection \<open>Decoding undoes encoding\<close>

lemma index_byte_nth: "distinct xs \<Longrightarrow> n < length xs \<Longrightarrow> index_byte (xs ! n) xs = Some n"
proof (induction xs arbitrary: n)
  case (Cons x xs)
  then show ?case by (cases n) auto
qed simp

lemma alphabet_facts: "distinct alphabet" "length alphabet = 64" "CHR ''='' \<notin> set alphabet"
    "CHR 0x0A \<notin> set alphabet" "CHR 0x0D \<notin> set alphabet"
  by (simp_all add: alphabet_def)

lemma dec_enc [simp]: "n < 64 \<Longrightarrow> dec_char (enc_char n) = Some n"
  unfolding dec_char_def enc_char_def using alphabet_facts by (intro index_byte_nth) simp_all

lemma enc_char_in: "n < 64 \<Longrightarrow> enc_char n \<in> set alphabet"
  unfolding enc_char_def using alphabet_facts(2) by (intro nth_mem) simp

lemma enc_char_plain [simp]:
  assumes "n < 64"
  shows "enc_char n \<noteq> CHR ''=''" "enc_char n \<noteq> CHR 0x0A" "enc_char n \<noteq> CHR 0x0D"
  using enc_char_in [OF assms] alphabet_facts(3-5) by auto

lemma six_bits:
  fixes a b :: nat
  assumes "a < 256" "b < 256"
  shows "a div 4 < 64" "a mod 4 * 16 + b div 16 < 64" "a mod 16 * 4 + b div 64 < 64" "a mod 64 < 64"
    "a mod 4 * 16 < 64" "a mod 16 * 4 < 64" "b div 16 < 16" "b div 64 < 4"
proof -
  have "a div 4 < 64" "b div 16 < 16" "b div 64 < 4" "a mod 4 < 4" "a mod 16 < 16"
    using assms by (simp_all add: less_mult_imp_div_less)
  then show "a div 4 < 64" "a mod 4 * 16 + b div 16 < 64" "a mod 16 * 4 + b div 64 < 64" "a mod 64 < 64"
    "a mod 4 * 16 < 64" "a mod 16 * 4 < 64" "b div 16 < 16" "b div 64 < 4" by simp_all
qed

lemma regroup:
  fixes x y m :: nat
  assumes "y < m"
  shows "(x * m + y) div m = x" "(x * m + y) mod m = y"
  using assms by (simp_all add: div_mult_self3)

lemma decode_group:
  assumes "d1 < 64" "d2 < 64" "d3 < 64" "d4 < 64"
  shows "base64_decode (enc_char d1 # enc_char d2 # enc_char d3 # enc_char d4 # cs) =
      (case base64_decode cs of Inl e \<Rightarrow> Inl e
       | Inr bs \<Rightarrow> Inr ([d1 * 4 + d2 div 16, d2 mod 16 * 16 + d3 div 4, d3 mod 4 * 64 + d4] @ bs))"
    "base64_decode [enc_char d1, enc_char d2, enc_char d3, CHR ''=''] = Inr [d1 * 4 + d2 div 16, d2 mod 16 * 16 + d3 div 4]"
    "base64_decode [enc_char d1, enc_char d2, CHR ''='', CHR ''=''] = Inr [d1 * 4 + d2 div 16]"
  using assms by simp_all

lemma bits_of_three:
  fixes a b c :: nat
  assumes "b < 256" "c < 256"
  shows "a div 4 * 4 + (a mod 4 * 16 + b div 16) div 16 = a"
    "(a mod 4 * 16 + b div 16) mod 16 * 16 + (b mod 16 * 4 + c div 64) div 4 = b"
    "(b mod 16 * 4 + c div 64) mod 4 * 64 + c mod 64 = c"
  using six_bits(7,8) [OF assms(1,1)] six_bits(7,8) [OF assms(2,2)] by (simp_all only: regroup div_mult_mod_eq)

lemma zero_less_64: "(0 :: nat) < 64"
  by simp

lemma decode_encode: "list_all (\<lambda>n. n < 256) bs \<Longrightarrow> base64_decode (base64_encode bs) = Inr bs"
proof (induction bs rule: base64_encode.induct)
  case (4 a b c bs)
  then have s: "a < 256" "b < 256" "c < 256" and ih: "base64_decode (base64_encode bs) = Inr bs" by simp_all
  show ?case
    unfolding base64_encode.simps append.simps
      decode_group(1) [OF six_bits(1) [OF s(1,1)] six_bits(2) [OF s(1,2)] six_bits(3) [OF s(2,3)] six_bits(4) [OF s(3,3)]]
      ih sum.case bits_of_three [OF s(2,3)] by (rule refl)
next
  case (3 a b)
  then have s: "a < 256" "b < 256" by simp_all
  show ?case
    unfolding base64_encode.simps decode_group(2) [OF six_bits(1) [OF s(1,1)] six_bits(2) [OF s] six_bits(6) [OF s(2,2)] zero_less_64]
    using bits_of_three(1,2) [OF s(2), of 0 a] by simp
next
  case (2 a)
  then have s: "a < 256" by simp
  show ?case
    unfolding base64_encode.simps decode_group(3) [OF six_bits(1) [OF s s] six_bits(5) [OF s s] zero_less_64 zero_less_64]
    using bits_of_three(1) [of 0 0 a] by simp
qed simp

lemma skip_group:
  assumes "d1 < 64" "d2 < 64" "d3 < 64" "d4 < 64"
  shows "skip_breaks (enc_char d1 # enc_char d2 # enc_char d3 # enc_char d4 # cs) =
      enc_char d1 # enc_char d2 # enc_char d3 # enc_char d4 # skip_breaks cs"
    "skip_breaks [enc_char d1, enc_char d2, enc_char d3, CHR ''=''] = [enc_char d1, enc_char d2, enc_char d3, CHR ''='']"
    "skip_breaks [enc_char d1, enc_char d2, CHR ''='', CHR ''=''] = [enc_char d1, enc_char d2, CHR ''='', CHR ''='']"
  using assms by (simp_all add: skip_breaks_def)

lemma encode_plain: "list_all (\<lambda>n. n < 256) bs \<Longrightarrow> skip_breaks (base64_encode bs) = base64_encode bs"
proof (induction bs rule: base64_encode.induct)
  case (4 a b c bs)
  then have s: "a < 256" "b < 256" "c < 256" and ih: "skip_breaks (base64_encode bs) = base64_encode bs" by simp_all
  show ?case
    unfolding base64_encode.simps append.simps
      skip_group(1) [OF six_bits(1) [OF s(1,1)] six_bits(2) [OF s(1,2)] six_bits(3) [OF s(2,3)] six_bits(4) [OF s(3,3)]] ih
    by (rule refl)
next
  case (3 a b)
  then have s: "a < 256" "b < 256" by simp_all
  show ?case
    unfolding base64_encode.simps by (rule skip_group(2) [OF six_bits(1) [OF s(1,1)] six_bits(2) [OF s] six_bits(6) [OF s(2,2)] zero_less_64])
next
  case (2 a)
  then have s: "a < 256" by simp
  show ?case
    unfolding base64_encode.simps by (rule skip_group(3) [OF six_bits(1) [OF s s] six_bits(5) [OF s s] zero_less_64 zero_less_64])
qed (simp add: skip_breaks_def)

text \<open>
  Base64 loses nothing: a text that equals the encoding of some bytes up to line
  breaks decodes to exactly these bytes, and a string survives encoding and decoding
  whatever bytes it holds.
\<close>

theorem Base64_roundtrip:
  "(\<forall>s. skip_breaks s = Base64Encode data \<longrightarrow> Base64Decode s = Inr data) \<and>
   Base64Decode (Base64Encode data) = Inr data \<and>
   Base64StringDecode (Base64StringEncode str) = Inr str"
proof -
  have b: "list_all (\<lambda>n. n < 256) (map unat (data :: bytes))" for data
  proof -
    have "unat (x :: byte) < 256" for x using unsigned_less [of x] by simp
    then show ?thesis by (simp add: list_all_iff)
  qed
  have d: "Base64Decode s = Inr data" if "skip_breaks s = Base64Encode data" for s data
    using that decode_encode [OF b] by (simp add: Base64Decode_def Base64Encode_def o_def)
  have "skip_breaks (Base64Encode data) = Base64Encode data" for data
    by (simp add: Base64Encode_def encode_plain [OF b])
  with d show ?thesis
    by (simp add: Base64StringDecode_def Base64StringEncode_def)
qed

theorem Base64_roundtrip_witness:
  "Base64Decode (''TW'' @ [CHR 0x0A] @ ''E='') = Inr [77, 97]"
proof -
  have "skip_breaks (''TW'' @ [CHR 0x0A] @ ''E='') = Base64Encode [77, 97]"
    by (simp add: skip_breaks_def Base64Encode_def enc_char_def alphabet_def)
  with Base64_roundtrip [of "[77, 97]" "''''"] show ?thesis by blast
qed

end
