(* ===== verification/Digest.thy ===== *)
theory Digest
  imports Util Byte_Order
begin

text \<open>
  The remaining helpers of \<open>pkg/util\<close>: \<open>MD5\<close> and \<open>MD5Bytes\<close> (\<open>md5.go\<close>) with the
  digest of \<open>crypto/md5\<close> (RFC 1321) and the coding of \<open>encoding/hex\<close>, identifiers
  (\<open>string.go\<close>) over the random sources of their packages, and the date strings of
  \<open>time.go\<close> over a broken-down time.
\<close>

subsection \<open>MD5 (md5.go)\<close>

definition md5_K :: "uint32 list" where
  "md5_K = [
     3614090360, 3905402710, 606105819, 3250441966, 4118548399, 1200080426, 2821735955, 4249261313,
     1770035416, 2336552879, 4294925233, 2304563134, 1804603682, 4254626195, 2792965006, 1236535329,
     4129170786, 3225465664, 643717713, 3921069994, 3593408605, 38016083, 3634488961, 3889429448,
     568446438, 3275163606, 4107603335, 1163531501, 2850285829, 4243563512, 1735328473, 2368359562,
     4294588738, 2272392833, 1839030562, 4259657740, 2763975236, 1272893353, 4139469664, 3200236656,
     681279174, 3936430074, 3572445317, 76029189, 3654602809, 3873151461, 530742520, 3299628645,
     4096336452, 1126891415, 2878612391, 4237533241, 1700485571, 2399980690, 4293915773, 2240044497,
     1873313359, 4264355552, 2734768916, 1309151649, 4149444226, 3174756917, 718787259, 3951481745]"

definition md5_S :: "nat list" where
  "md5_S = [
     7, 12, 17, 22, 7, 12, 17, 22, 7, 12, 17, 22, 7, 12, 17, 22,
     5, 9, 14, 20, 5, 9, 14, 20, 5, 9, 14, 20, 5, 9, 14, 20,
     4, 11, 16, 23, 4, 11, 16, 23, 4, 11, 16, 23, 4, 11, 16, 23,
     6, 10, 15, 21, 6, 10, 15, 21, 6, 10, 15, 21, 6, 10, 15, 21]"

definition rotl32 :: "nat \<Rightarrow> uint32 \<Rightarrow> uint32" where
  "rotl32 n x = push_bit n x OR drop_bit (32 - n) x"

type_synonym md5_state = "uint32 \<times> uint32 \<times> uint32 \<times> uint32"

definition md5_init :: md5_state where
  "md5_init = (0x67452301, 0xEFCDAB89, 0x98BADCFE, 0x10325476)"

text \<open>The function and the message word of step \<open>i\<close>.\<close>

definition md5_mix :: "nat \<Rightarrow> uint32 \<Rightarrow> uint32 \<Rightarrow> uint32 \<Rightarrow> uint32" where
  "md5_mix i b c d =
     (if i < 16 then (b AND c) OR (NOT b AND d)
      else if i < 32 then (d AND b) OR (NOT d AND c)
      else if i < 48 then b XOR c XOR d
      else c XOR (b OR NOT d))"

definition md5_index :: "nat \<Rightarrow> nat" where
  "md5_index i =
     (if i < 16 then i
      else if i < 32 then (5 * i + 1) mod 16
      else if i < 48 then (3 * i + 5) mod 16
      else (7 * i) mod 16)"

definition md5_step :: "uint32 list \<Rightarrow> nat \<Rightarrow> md5_state \<Rightarrow> md5_state" where
  "md5_step M i st =
     (case st of (a, b, c, d) \<Rightarrow>
        (let f = md5_mix i b c d + a + md5_K ! i + M ! md5_index i
         in (d, b + rotl32 (md5_S ! i) f, b, c)))"

definition md5_words :: "bytes \<Rightarrow> uint32 list" where
  "md5_words block = map (\<lambda>i. LE_Uint32 (take 4 (drop (4 * i) block))) [0..<16]"

definition md5_block :: "bytes \<Rightarrow> md5_state \<Rightarrow> md5_state" where
  "md5_block block st =
     (case (st, fold (md5_step (md5_words block)) [0..<64] st) of
        ((a, b, c, d), (a', b', c', d')) \<Rightarrow> (a + a', b + b', c + c', d + d'))"

definition md5_pad :: "bytes \<Rightarrow> bytes" where
  "md5_pad msg = msg @ [0x80] @ replicate ((119 - length msg mod 64) mod 64) 0 @ LE_bytes64 (of_nat (8 * length msg))"

fun md5_blocks :: "nat \<Rightarrow> bytes \<Rightarrow> md5_state \<Rightarrow> md5_state" where
  "md5_blocks 0 msg st = st"
| "md5_blocks (Suc n) msg st = md5_blocks n (drop 64 msg) (md5_block (take 64 msg) st)"

definition md5_Sum :: "bytes \<Rightarrow> bytes" where
  "md5_Sum msg =
     (case md5_blocks (length (md5_pad msg) div 64) (md5_pad msg) md5_init of
        (a, b, c, d) \<Rightarrow> LE_bytes32 a @ LE_bytes32 b @ LE_bytes32 c @ LE_bytes32 d)"

text \<open>\<open>hex.EncodeToString\<close>\<close>

definition hex_digit :: "nat \<Rightarrow> char" where
  "hex_digit n = ''0123456789abcdef'' ! n"

definition hex_EncodeToString :: "bytes \<Rightarrow> string" where
  "hex_EncodeToString bs = concat (map (\<lambda>b. [hex_digit (unat b div 16), hex_digit (unat b mod 16)]) bs)"

definition MD5Bytes :: "bytes \<Rightarrow> string" where
  "MD5Bytes buf = hex_EncodeToString (md5_Sum buf)"

definition MD5 :: "string \<Rightarrow> string" where
  "MD5 str = MD5Bytes (bytes_of_string str)"

subsection \<open>Identifiers (string.go)\<close>

text \<open>\<open>uuid\<close> and \<open>ksuid\<close> are the strings the two packages generate.\<close>

definition NewServerID :: "string \<Rightarrow> string \<Rightarrow> string" where
  "NewServerID ksuid prefix = prefix @ ''-'' @ ksuid"

definition NewUUID :: "string \<Rightarrow> bool \<Rightarrow> string" where
  "NewUUID uuid slash = (if \<not> slash then filter (\<lambda>c. c \<noteq> CHR ''-'') uuid else uuid)"

subsection \<open>Dates (time.go)\<close>

record civil =
  cv_year :: nat
  cv_month :: nat
  cv_day :: nat
  cv_hour :: nat
  cv_minute :: nat
  cv_second :: nat

fun pad_digits :: "nat \<Rightarrow> nat \<Rightarrow> string" where
  "pad_digits 0 n = []"
| "pad_digits (Suc w) n = pad_digits w (n div 10) @ [char_of (48 + n mod 10)]"

text \<open>\<open>Format\<close> with the layouts \<open>2006-01-02\<close> and \<open>15:04:05\<close>, for years up to 9999.\<close>

definition NowDateString :: "civil \<Rightarrow> string" where
  "NowDateString t = pad_digits 4 (cv_year t) @ ''-'' @ pad_digits 2 (cv_month t) @ ''-'' @ pad_digits 2 (cv_day t)"

definition NowString :: "civil \<Rightarrow> string" where
  "NowString t = pad_digits 4 (cv_year t) @ ''-'' @ pad_digits 2 (cv_month t) @ ''-'' @ pad_digits 2 (cv_day t) @ '' '' @
     pad_digits 2 (cv_hour t) @ '':'' @ pad_digits 2 (cv_minute t) @ '':'' @ pad_digits 2 (cv_second t)"

subsection \<open>Properties\<close>

text \<open>The padded message consists of whole blocks, and the loop runs over all of them.\<close>

lemma md5_pad_blocks: "64 dvd length (md5_pad msg)"
proof -
  define r where "r = length msg mod 64"
  have r: "r < 64" by (simp add: r_def)
  have "length (md5_pad msg) = 64 * (length msg div 64) + (r + 9 + (119 - r) mod 64)"
    using div_mult_mod_eq [of "length msg" 64] by (simp add: md5_pad_def r_def)
  moreover have "64 dvd r + 9 + (119 - r) mod 64"
  proof (cases "r \<le> 55")
    case True
    then have "(119 - r) mod 64 = 55 - r" by (simp add: mod_if)
    with True show ?thesis by simp
  next
    case False
    with r have "(119 - r) mod 64 = 119 - r" by simp
    with r show ?thesis by simp
  qed
  ultimately show ?thesis by (metis dvd_add dvd_triv_left)
qed

lemma length_md5_Sum: "length (md5_Sum msg) = 16"
  by (simp add: md5_Sum_def split: prod.splits)

text \<open>
  The third entry of RFC 1321's test suite, computed sixteen steps at a time.
\<close>

definition abc_words :: "uint32 list" where
  "abc_words = [2153996897, 0, 0, 0, 0, 0, 0, 0, 0, 0, 0, 0, 0, 0, 24, 0]"

lemma md5_abc_round1: "fold (md5_step abc_words) [0..<16] md5_init = (3718887846, 1924133600, 3818292587, 2701465749)"
  by code_simp

lemma md5_abc_round2: "fold (md5_step abc_words) [16..<32] (3718887846, 1924133600, 3818292587, 2701465749) = (2030729211, 1919107795, 2787673258, 2672289016)"
  by code_simp

lemma md5_abc_round3: "fold (md5_step abc_words) [32..<48] (2030729211, 1919107795, 2787673258, 2672289016) = (2133741691, 2079037184, 2410570649, 2581161885)"
  by code_simp

lemma md5_abc_round4: "fold (md5_step abc_words) [48..<64] (2133741691, 2079037184, 2410570649, 2581161885) = (822795919, 3229755059, 3833903576, 1649249458)"
  by code_simp

lemma md5_vector_abc: "MD5 ''abc'' = ''900150983cd24fb0d6963f7d28e17f72''"
proof -
  define m where "m = md5_pad (bytes_of_string ''abc'')"
  have m: "length m div 64 = 1" "take 64 m = m" "md5_words m = abc_words"
    unfolding m_def by code_simp+
  have "[0..<64] = [0..<16] @ [16..<32] @ [32..<48] @ [48..<64]"
    by code_simp
  then have "fold (md5_step abc_words) [0..<64] md5_init = (822795919, 3229755059, 3833903576, 1649249458)"
    by (simp only: fold_append comp_apply md5_abc_round1 md5_abc_round2 md5_abc_round3 md5_abc_round4)
  then have "md5_Sum (bytes_of_string ''abc'') = [144, 1, 80, 152, 60, 210, 79, 176, 214, 150, 63, 125, 40, 225, 127, 114]"
    using m unfolding md5_Sum_def m_def [symmetric]
    by (simp add: md5_block_def md5_init_def LE_bytes32_def)
  then show ?thesis
    unfolding MD5_def MD5Bytes_def by simp code_simp
qed

lemma length_hex [simp]: "length (hex_EncodeToString bs) = 2 * length bs"
  by (induction bs) (simp_all add: hex_EncodeToString_def)

lemma hex_digit_inj: "m < 16 \<Longrightarrow> n < 16 \<Longrightarrow> hex_digit m = hex_digit n \<Longrightarrow> m = n"
proof -
  have "distinct ''0123456789abcdef''" by simp
  then show "m < 16 \<Longrightarrow> n < 16 \<Longrightarrow> hex_digit m = hex_digit n \<Longrightarrow> m = n"
    unfolding hex_digit_def by (subst (asm) nth_eq_iff_index_eq) simp_all
qed

lemma hex_digit_in: "n < 16 \<Longrightarrow> hex_digit n \<in> set ''0123456789abcdef''"
  unfolding hex_digit_def by (rule nth_mem) simp

lemma hex_nibbles: "unat (b :: byte) div 16 < 16" "unat b mod 16 < 16"
  using unsigned_less [of b, where ?'a = nat] by (simp_all add: less_mult_imp_div_less)

lemma hex_byte_inj:
  assumes "hex_digit (unat a div 16) = hex_digit (unat b div 16)" and "hex_digit (unat a mod 16) = hex_digit (unat b mod 16)"
  shows "a = (b :: byte)"
proof -
  have "unat a div 16 = unat b div 16" "unat a mod 16 = unat b mod 16"
    using assms hex_digit_inj hex_nibbles by blast+
  then have "unat a = unat b" by (metis div_mult_mod_eq)
  then show ?thesis by (rule unsigned_word_eqI)
qed

lemma hex_inj: "hex_EncodeToString as = hex_EncodeToString bs \<Longrightarrow> as = bs"
proof (induction as arbitrary: bs)
  case Nil
  then show ?case using length_hex [of bs] by (simp add: hex_EncodeToString_def)
next
  case (Cons a as)
  then show ?case
    by (cases bs) (auto simp: hex_EncodeToString_def intro: hex_byte_inj)
qed

text \<open>
  The digest string is always 32 lower-case hexadecimal digits, and two inputs share it
  exactly if they share the 16-byte digest: nothing is lost in the coding.
\<close>

theorem MD5_string:
  "length (MD5 s) = 32 \<and> set (MD5 s) \<subseteq> set ''0123456789abcdef'' \<and>
    (MD5 s = MD5 t \<longleftrightarrow> md5_Sum (bytes_of_string s) = md5_Sum (bytes_of_string t))"
proof -
  have "set (hex_EncodeToString bs) \<subseteq> set ''0123456789abcdef''" for bs :: bytes
  proof -
    have "set [hex_digit (unat b div 16), hex_digit (unat b mod 16)] \<subseteq> set ''0123456789abcdef''" for b :: byte
      using hex_digit_in hex_nibbles [of b] by (simp only: list.set(1,2) insert_subset empty_subsetI simp_thms)
    then show ?thesis unfolding hex_EncodeToString_def set_concat set_map by blast
  qed
  then show ?thesis
    unfolding MD5_def MD5Bytes_def using hex_inj length_md5_Sum by (metis length_hex mult_2 numeral_Bit0)
qed

text \<open>A canonical UUID has its four hyphens at fixed places; without them it is still unique.\<close>

definition canonical_uuid :: "string \<Rightarrow> bool" where
  "canonical_uuid u \<longleftrightarrow> length u = 36 \<and>
     (\<forall>i < 36. u ! i = CHR ''-'' \<longleftrightarrow> i \<in> {8, 13, 18, 23})"

lemma filter_split_at:
  assumes "list_all2 (\<lambda>x y. P x = P y \<and> (\<not> P x \<longrightarrow> x = y)) u v" and "filter P u = filter P v"
  shows "u = v"
  using assms by (induction rule: list_all2_induct) (auto split: if_splits)

lemma NewUUID_unique:
  assumes "canonical_uuid u" and "canonical_uuid v" and "NewUUID u slash = NewUUID v slash"
  shows "u = v"
proof (cases slash)
  case False
  with assms(3) have "filter (\<lambda>c. c \<noteq> CHR ''-'') u = filter (\<lambda>c. c \<noteq> CHR ''-'') v"
    by (simp add: NewUUID_def)
  moreover have "list_all2 (\<lambda>x y. (x \<noteq> CHR ''-'') = (y \<noteq> CHR ''-'') \<and> (\<not> x \<noteq> CHR ''-'' \<longrightarrow> x = y)) u v"
    using assms(1,2) unfolding canonical_uuid_def list_all2_conv_all_nth by metis
  ultimately show ?thesis by (rule filter_split_at [rotated])
qed (use assms in \<open>simp add: NewUUID_def\<close>)

lemma length_pad_digits [simp]: "length (pad_digits w n) = w"
  by (induction w n rule: pad_digits.induct) simp_all

text \<open>The date string is the first ten characters of the time string.\<close>

lemma date_of_time: "length (NowString t) = 19 \<and> NowDateString t = take 10 (NowString t)"
  by (simp add: NowString_def NowDateString_def)

end
