(* ===== verification/Redis_Client.thy ===== *)
theory Redis_Client
  imports Shared_Cache Proto_Enums
begin

text \<open>
  The wrapper around go-redis (\<open>Client\<close> in \<open>pkg/util/redis/redis.go\<close>), the two ways to
  build a shared cache and the gob coding of its values (\<open>pkg/util/cache/shared.go\<close>).  The
  interface \<open>redis.UniversalClient\<close> is a record of commands over the state of the server; a
  command returns a value and an error, of which \<open>Result()\<close> gives both and \<open>Err()\<close> the
  second.  A \<open>Client\<close> is a pointer to a structure whose interface may be nil, so every method
  has the panic of a nil dereference as an outcome.
\<close>

subsection \<open>The wrapper\<close>

type_synonym ('r, 's) cmd = "'s \<Rightarrow> ('r \<times> error option) \<times> 's"

record ('v, 's) universal =
  uc_kind :: redis_client_kind
  uc_Close :: "'s \<Rightarrow> error option \<times> 's"
  uc_Get :: "string \<Rightarrow> (string, 's) cmd"
  uc_Set :: "string \<Rightarrow> 'v \<Rightarrow> int \<Rightarrow> (string, 's) cmd"
  uc_SetNX :: "string \<Rightarrow> 'v \<Rightarrow> int \<Rightarrow> (bool, 's) cmd"
  uc_GetSet :: "string \<Rightarrow> 'v \<Rightarrow> (string, 's) cmd"
  uc_MGet :: "(string list) \<Rightarrow> ('v list, 's) cmd"
  uc_MSet :: "('v list) \<Rightarrow> (string, 's) cmd"
  uc_Incr :: "string \<Rightarrow> (int64, 's) cmd"
  uc_IncrBy :: "string \<Rightarrow> int64 \<Rightarrow> (int64, 's) cmd"
  uc_Decr :: "string \<Rightarrow> (int64, 's) cmd"
  uc_DecrBy :: "string \<Rightarrow> int64 \<Rightarrow> (int64, 's) cmd"
  uc_Del :: "(string list) \<Rightarrow> (int64, 's) cmd"
  uc_Exists :: "(string list) \<Rightarrow> (int64, 's) cmd"
  uc_Expire :: "string \<Rightarrow> int \<Rightarrow> (bool, 's) cmd"
  uc_TTL :: "string \<Rightarrow> (int, 's) cmd"
  uc_Keys :: "string \<Rightarrow> (string list, 's) cmd"
  uc_Scan :: "uint64 \<Rightarrow> string \<Rightarrow> int64 \<Rightarrow> (string list \<times> uint64, 's) cmd"
  uc_HGet :: "string \<Rightarrow> string \<Rightarrow> (string, 's) cmd"
  uc_HSet :: "string \<Rightarrow> ('v list) \<Rightarrow> (int64, 's) cmd"
  uc_HSetNX :: "string \<Rightarrow> string \<Rightarrow> 'v \<Rightarrow> (bool, 's) cmd"
  uc_HGetAll :: "string \<Rightarrow> ((string \<rightharpoonup> string), 's) cmd"
  uc_HDel :: "string \<Rightarrow> (string list) \<Rightarrow> (int64, 's) cmd"
  uc_HExists :: "string \<Rightarrow> string \<Rightarrow> (bool, 's) cmd"
  uc_HIncrBy :: "string \<Rightarrow> string \<Rightarrow> int64 \<Rightarrow> (int64, 's) cmd"
  uc_LPush :: "string \<Rightarrow> ('v list) \<Rightarrow> (int64, 's) cmd"
  uc_RPush :: "string \<Rightarrow> ('v list) \<Rightarrow> (int64, 's) cmd"
  uc_LPop :: "string \<Rightarrow> (string, 's) cmd"
  uc_RPop :: "string \<Rightarrow> (string, 's) cmd"
  uc_LRange :: "string \<Rightarrow> int64 \<Rightarrow> int64 \<Rightarrow> (string list, 's) cmd"
  uc_LLen :: "string \<Rightarrow> (int64, 's) cmd"
  uc_LTrim :: "string \<Rightarrow> int64 \<Rightarrow> int64 \<Rightarrow> (string, 's) cmd"
  uc_SAdd :: "string \<Rightarrow> ('v list) \<Rightarrow> (int64, 's) cmd"
  uc_SRem :: "string \<Rightarrow> ('v list) \<Rightarrow> (int64, 's) cmd"
  uc_SMembers :: "string \<Rightarrow> (string list, 's) cmd"
  uc_SIsMember :: "string \<Rightarrow> 'v \<Rightarrow> (bool, 's) cmd"
  uc_SCard :: "string \<Rightarrow> (int64, 's) cmd"
  uc_Ping :: "(string, 's) cmd"

record ('v, 's) Client =
  cl_cli :: "('v, 's) universal option"

definition nil_dereference :: string where
  "nil_dereference = ''invalid memory address or nil pointer dereference''"

definition cmd_Result ::
  "('v, 's) Client option \<Rightarrow> (('v, 's) universal \<Rightarrow> ('r, 's) cmd) \<Rightarrow> 's \<Rightarrow> (('r \<times> error option) \<times> 's) outcome" where
  "cmd_Result c f s =
     (case c of
        None \<Rightarrow> Panic nil_dereference
      | Some C \<Rightarrow> (case cl_cli C of None \<Rightarrow> Panic nil_dereference | Some u \<Rightarrow> Ret (f u s)))"

definition cmd_Err ::
  "('v, 's) Client option \<Rightarrow> (('v, 's) universal \<Rightarrow> ('r, 's) cmd) \<Rightarrow> 's \<Rightarrow> ((error option) \<times> 's) outcome" where
  "cmd_Err c f s = bind_outcome (cmd_Result c f s) (\<lambda>((_, err), s'). Ret (err, s'))"

definition Client_Close :: "('v, 's) Client option \<Rightarrow> 's \<Rightarrow> error option \<times> 's" where
  "Client_Close c s =
     (case c of
        None \<Rightarrow> (None, s)
      | Some C \<Rightarrow> (case cl_cli C of None \<Rightarrow> (None, s) | Some u \<Rightarrow> uc_Close u s))"

text \<open>The type assertions of \<open>Raw\<close> and \<open>RawCluster\<close>; \<open>None\<close> is a nil pointer.\<close>

definition Client_Raw :: "('v, 's) Client option \<Rightarrow> ('v, 's) universal option" where
  "Client_Raw c =
     (case c of
        None \<Rightarrow> None
      | Some C \<Rightarrow> (case cl_cli C of
          None \<Rightarrow> None
        | Some u \<Rightarrow> (case uc_kind u of SingleClient _ _ _ _ \<Rightarrow> Some u | ClusterClient _ _ _ \<Rightarrow> None)))"

definition Client_RawCluster :: "('v, 's) Client option \<Rightarrow> ('v, 's) universal option" where
  "Client_RawCluster c =
     (case c of
        None \<Rightarrow> None
      | Some C \<Rightarrow> (case cl_cli C of
          None \<Rightarrow> None
        | Some u \<Rightarrow> (case uc_kind u of SingleClient _ _ _ _ \<Rightarrow> None | ClusterClient _ _ _ \<Rightarrow> Some u)))"

text \<open>Strings.\<close>

definition Client_Get :: "('v, 's) Client option \<Rightarrow> string \<Rightarrow> 's \<Rightarrow> ((string \<times> error option) \<times> 's) outcome" where
  "Client_Get c key = cmd_Result c (\<lambda>u. uc_Get u key)"

definition Client_Set :: "('v, 's) Client option \<Rightarrow> string \<Rightarrow> 'v \<Rightarrow> int \<Rightarrow> 's \<Rightarrow> ((error option) \<times> 's) outcome" where
  "Client_Set c key val expiration = cmd_Err c (\<lambda>u. uc_Set u key val expiration)"

definition Client_SetNX :: "('v, 's) Client option \<Rightarrow> string \<Rightarrow> 'v \<Rightarrow> int \<Rightarrow> 's \<Rightarrow> ((bool \<times> error option) \<times> 's) outcome" where
  "Client_SetNX c key val expiration = cmd_Result c (\<lambda>u. uc_SetNX u key val expiration)"

definition Client_GetSet :: "('v, 's) Client option \<Rightarrow> string \<Rightarrow> 'v \<Rightarrow> 's \<Rightarrow> ((string \<times> error option) \<times> 's) outcome" where
  "Client_GetSet c key val = cmd_Result c (\<lambda>u. uc_GetSet u key val)"

definition Client_MGet :: "('v, 's) Client option \<Rightarrow> (string list) \<Rightarrow> 's \<Rightarrow> (('v list \<times> error option) \<times> 's) outcome" where
  "Client_MGet c keys = cmd_Result c (\<lambda>u. uc_MGet u keys)"

definition Client_MSet :: "('v, 's) Client option \<Rightarrow> ('v list) \<Rightarrow> 's \<Rightarrow> ((error option) \<times> 's) outcome" where
  "Client_MSet c pairs = cmd_Err c (\<lambda>u. uc_MSet u pairs)"

definition Client_Incr :: "('v, 's) Client option \<Rightarrow> string \<Rightarrow> 's \<Rightarrow> ((int64 \<times> error option) \<times> 's) outcome" where
  "Client_Incr c key = cmd_Result c (\<lambda>u. uc_Incr u key)"

definition Client_IncrBy :: "('v, 's) Client option \<Rightarrow> string \<Rightarrow> int64 \<Rightarrow> 's \<Rightarrow> ((int64 \<times> error option) \<times> 's) outcome" where
  "Client_IncrBy c key val = cmd_Result c (\<lambda>u. uc_IncrBy u key val)"

definition Client_Decr :: "('v, 's) Client option \<Rightarrow> string \<Rightarrow> 's \<Rightarrow> ((int64 \<times> error option) \<times> 's) outcome" where
  "Client_Decr c key = cmd_Result c (\<lambda>u. uc_Decr u key)"

definition Client_DecrBy :: "('v, 's) Client option \<Rightarrow> string \<Rightarrow> int64 \<Rightarrow> 's \<Rightarrow> ((int64 \<times> error option) \<times> 's) outcome" where
  "Client_DecrBy c key val = cmd_Result c (\<lambda>u. uc_DecrBy u key val)"

text \<open>Keys.\<close>

definition Client_Del :: "('v, 's) Client option \<Rightarrow> (string list) \<Rightarrow> 's \<Rightarrow> ((int64 \<times> error option) \<times> 's) outcome" where
  "Client_Del c keys = cmd_Result c (\<lambda>u. uc_Del u keys)"

definition Client_Exists :: "('v, 's) Client option \<Rightarrow> (string list) \<Rightarrow> 's \<Rightarrow> ((int64 \<times> error option) \<times> 's) outcome" where
  "Client_Exists c keys = cmd_Result c (\<lambda>u. uc_Exists u keys)"

definition Client_Expire :: "('v, 's) Client option \<Rightarrow> string \<Rightarrow> int \<Rightarrow> 's \<Rightarrow> ((bool \<times> error option) \<times> 's) outcome" where
  "Client_Expire c key expiration = cmd_Result c (\<lambda>u. uc_Expire u key expiration)"

definition Client_TTL :: "('v, 's) Client option \<Rightarrow> string \<Rightarrow> 's \<Rightarrow> ((int \<times> error option) \<times> 's) outcome" where
  "Client_TTL c key = cmd_Result c (\<lambda>u. uc_TTL u key)"

definition Client_Keys :: "('v, 's) Client option \<Rightarrow> string \<Rightarrow> 's \<Rightarrow> ((string list \<times> error option) \<times> 's) outcome" where
  "Client_Keys c pattern = cmd_Result c (\<lambda>u. uc_Keys u pattern)"

definition Client_Scan :: "('v, 's) Client option \<Rightarrow> uint64 \<Rightarrow> string \<Rightarrow> int64 \<Rightarrow> 's \<Rightarrow> (((string list \<times> uint64) \<times> error option) \<times> 's) outcome" where
  "Client_Scan c cursor pat cnt = cmd_Result c (\<lambda>u. uc_Scan u cursor pat cnt)"

text \<open>Hashes.\<close>

definition Client_HGet :: "('v, 's) Client option \<Rightarrow> string \<Rightarrow> string \<Rightarrow> 's \<Rightarrow> ((string \<times> error option) \<times> 's) outcome" where
  "Client_HGet c key fld = cmd_Result c (\<lambda>u. uc_HGet u key fld)"

definition Client_HSet :: "('v, 's) Client option \<Rightarrow> string \<Rightarrow> ('v list) \<Rightarrow> 's \<Rightarrow> ((int64 \<times> error option) \<times> 's) outcome" where
  "Client_HSet c key vals = cmd_Result c (\<lambda>u. uc_HSet u key vals)"

definition Client_HSetNX :: "('v, 's) Client option \<Rightarrow> string \<Rightarrow> string \<Rightarrow> 'v \<Rightarrow> 's \<Rightarrow> ((bool \<times> error option) \<times> 's) outcome" where
  "Client_HSetNX c key fld val = cmd_Result c (\<lambda>u. uc_HSetNX u key fld val)"

definition Client_HGetAll :: "('v, 's) Client option \<Rightarrow> string \<Rightarrow> 's \<Rightarrow> (((string \<rightharpoonup> string) \<times> error option) \<times> 's) outcome" where
  "Client_HGetAll c key = cmd_Result c (\<lambda>u. uc_HGetAll u key)"

definition Client_HDel :: "('v, 's) Client option \<Rightarrow> string \<Rightarrow> (string list) \<Rightarrow> 's \<Rightarrow> ((int64 \<times> error option) \<times> 's) outcome" where
  "Client_HDel c key flds = cmd_Result c (\<lambda>u. uc_HDel u key flds)"

definition Client_HExists :: "('v, 's) Client option \<Rightarrow> string \<Rightarrow> string \<Rightarrow> 's \<Rightarrow> ((bool \<times> error option) \<times> 's) outcome" where
  "Client_HExists c key fld = cmd_Result c (\<lambda>u. uc_HExists u key fld)"

definition Client_HIncrBy :: "('v, 's) Client option \<Rightarrow> string \<Rightarrow> string \<Rightarrow> int64 \<Rightarrow> 's \<Rightarrow> ((int64 \<times> error option) \<times> 's) outcome" where
  "Client_HIncrBy c key fld incr = cmd_Result c (\<lambda>u. uc_HIncrBy u key fld incr)"

text \<open>Lists.\<close>

definition Client_LPush :: "('v, 's) Client option \<Rightarrow> string \<Rightarrow> ('v list) \<Rightarrow> 's \<Rightarrow> ((int64 \<times> error option) \<times> 's) outcome" where
  "Client_LPush c key vals = cmd_Result c (\<lambda>u. uc_LPush u key vals)"

definition Client_RPush :: "('v, 's) Client option \<Rightarrow> string \<Rightarrow> ('v list) \<Rightarrow> 's \<Rightarrow> ((int64 \<times> error option) \<times> 's) outcome" where
  "Client_RPush c key vals = cmd_Result c (\<lambda>u. uc_RPush u key vals)"

definition Client_LPop :: "('v, 's) Client option \<Rightarrow> string \<Rightarrow> 's \<Rightarrow> ((string \<times> error option) \<times> 's) outcome" where
  "Client_LPop c key = cmd_Result c (\<lambda>u. uc_LPop u key)"

definition Client_RPop :: "('v, 's) Client option \<Rightarrow> string \<Rightarrow> 's \<Rightarrow> ((string \<times> error option) \<times> 's) outcome" where
  "Client_RPop c key = cmd_Result c (\<lambda>u. uc_RPop u key)"

definition Client_LRange :: "('v, 's) Client option \<Rightarrow> string \<Rightarrow> int64 \<Rightarrow> int64 \<Rightarrow> 's \<Rightarrow> ((string list \<times> error option) \<times> 's) outcome" where
  "Client_LRange c key start stop = cmd_Result c (\<lambda>u. uc_LRange u key start stop)"

definition Client_LLen :: "('v, 's) Client option \<Rightarrow> string \<Rightarrow> 's \<Rightarrow> ((int64 \<times> error option) \<times> 's) outcome" where
  "Client_LLen c key = cmd_Result c (\<lambda>u. uc_LLen u key)"

definition Client_LTrim :: "('v, 's) Client option \<Rightarrow> string \<Rightarrow> int64 \<Rightarrow> int64 \<Rightarrow> 's \<Rightarrow> ((error option) \<times> 's) outcome" where
  "Client_LTrim c key start stop = cmd_Err c (\<lambda>u. uc_LTrim u key start stop)"

text \<open>Sets.\<close>

definition Client_SAdd :: "('v, 's) Client option \<Rightarrow> string \<Rightarrow> ('v list) \<Rightarrow> 's \<Rightarrow> ((int64 \<times> error option) \<times> 's) outcome" where
  "Client_SAdd c key mems = cmd_Result c (\<lambda>u. uc_SAdd u key mems)"

definition Client_SRem :: "('v, 's) Client option \<Rightarrow> string \<Rightarrow> ('v list) \<Rightarrow> 's \<Rightarrow> ((int64 \<times> error option) \<times> 's) outcome" where
  "Client_SRem c key mems = cmd_Result c (\<lambda>u. uc_SRem u key mems)"

definition Client_SMembers :: "('v, 's) Client option \<Rightarrow> string \<Rightarrow> 's \<Rightarrow> ((string list \<times> error option) \<times> 's) outcome" where
  "Client_SMembers c key = cmd_Result c (\<lambda>u. uc_SMembers u key)"

definition Client_SIsMember :: "('v, 's) Client option \<Rightarrow> string \<Rightarrow> 'v \<Rightarrow> 's \<Rightarrow> ((bool \<times> error option) \<times> 's) outcome" where
  "Client_SIsMember c key mem = cmd_Result c (\<lambda>u. uc_SIsMember u key mem)"

definition Client_SCard :: "('v, 's) Client option \<Rightarrow> string \<Rightarrow> 's \<Rightarrow> ((int64 \<times> error option) \<times> 's) outcome" where
  "Client_SCard c key = cmd_Result c (\<lambda>u. uc_SCard u key)"

text \<open>The connection.\<close>

definition Client_Ping :: "('v, 's) Client option \<Rightarrow> 's \<Rightarrow> ((error option) \<times> 's) outcome" where
  "Client_Ping c = cmd_Err c (\<lambda>u. uc_Ping u)"

subsection \<open>The client that the cache uses\<close>

text \<open>
  \<open>New\<close> with the go-redis constructors as \<open>connect\<close>, and the five methods the cache calls,
  as it sees them.
\<close>

definition Client_New ::
  "(redis_client_kind \<Rightarrow> ('v, 's) universal) \<Rightarrow> redis_Options option \<Rightarrow> 's \<Rightarrow> (error + ('v, 's) Client) \<times> 's" where
  "Client_New connect opt s =
     (case newRedisClient opt of
        Inl e \<Rightarrow> (Inl e, s)
      | Inr kind \<Rightarrow>
         (let cli = connect kind in
          case uc_Ping cli s of
            ((_, Some e), s1) \<Rightarrow> (Inl (ErrorString ''redis ping failed: ''), snd (uc_Close cli s1))
          | ((_, None), s1) \<Rightarrow> (Inr \<lparr>cl_cli = Some cli\<rparr>, s1)))"

definition redis_of :: "(bytes, 's) universal \<Rightarrow> 's redis" where
  "redis_of u =
     \<lparr>rd_Ping = (\<lambda>s. case uc_Ping u s of ((_, err), s') \<Rightarrow> (err, s')),
      rd_Get = (\<lambda>k s. case uc_Get u k s of
          ((v, None), s') \<Rightarrow> (Inr (bytes_of_string v), s')
        | ((v, Some e), s') \<Rightarrow> (Inl e, s')),
      rd_Set = (\<lambda>k d ttl s. case uc_Set u k d ttl s of ((_, err), s') \<Rightarrow> (err, s')),
      rd_Del = (\<lambda>k s. case uc_Del u [k] s of
          ((n, None), s') \<Rightarrow> (Inr (sint n), s')
        | ((n, Some e), s') \<Rightarrow> (Inl e, s')),
      rd_Close = uc_Close u\<rparr>"

text \<open>\<open>NewSharedCache\<close> on a client pointer: the structure behind it may be empty.\<close>

definition NewSharedCache_client ::
  "(bytes, 's) Client option \<Rightarrow> string \<Rightarrow> 's \<Rightarrow> ((error + 's redisCache) \<times> 's) outcome" where
  "NewSharedCache_client c prefix s =
     (case c of
        None \<Rightarrow> Ret (NewSharedCache None prefix s)
      | Some C \<Rightarrow>
         (case cl_cli C of
            None \<Rightarrow> Panic nil_dereference
          | Some u \<Rightarrow> Ret (NewSharedCache (Some (redis_of u)) prefix s)))"

definition NewSharedCacheWithAddress ::
  "(redis_client_kind \<Rightarrow> (bytes, 's) universal) \<Rightarrow> redis_Options option \<Rightarrow> string \<Rightarrow> 's
    \<Rightarrow> ((error + 's redisCache) \<times> 's) outcome" where
  "NewSharedCacheWithAddress connect opt prefix s =
     (case Client_New connect opt s of
        (Inl e, s1) \<Rightarrow> Ret (Inl e, s1)
      | (Inr cli, s1) \<Rightarrow> NewSharedCache_client (Some cli) prefix s1)"

lemma client_as_redis:
  assumes "c = Some \<lparr>cl_cli = Some u\<rparr>"
  shows "Client_Ping c s = Ret (rd_Ping (redis_of u) s)"
    and "Client_Set c k d ttl s = Ret (rd_Set (redis_of u) k d ttl s)"
    and "Client_Close c s = rd_Close (redis_of u) s"
    and "bind_outcome (Client_Get c k s) (\<lambda>((v, err), s'). Ret (case err of None \<Rightarrow> Inr (bytes_of_string v) | Some e \<Rightarrow> Inl e, s')) =
      Ret (rd_Get (redis_of u) k s)"
  using assms
  by (auto simp: Client_Ping_def Client_Set_def Client_Get_def Client_Close_def cmd_Err_def cmd_Result_def redis_of_def
      split: prod.splits option.splits)

subsection \<open>gob (shared.go)\<close>

text \<open>
  What the cache relies on in \<open>encoding/gob\<close>: a value in an interface is sent with the name
  of its concrete type (\<open>gl_type\<close>); basic types are registered from the start
  (\<open>gl_basic\<close>); decoding needs the name registered in the decoding process.
\<close>

record goblib =
  gl_type :: "any_value \<Rightarrow> string"
  gl_basic :: "string \<Rightarrow> bool"
  gl_encode :: "any_value \<Rightarrow> error + bytes"
  gl_name :: "bytes \<Rightarrow> string"
  gl_decode :: "bytes \<Rightarrow> error + any_value"

definition goblib_ok :: "goblib \<Rightarrow> bool" where
  "goblib_ok L \<longleftrightarrow> (\<forall>v d. gl_encode L v = Inr d \<longrightarrow> v \<noteq> AnyNil \<and> gl_name L d = gl_type L v \<and> gl_decode L d = Inr v)"

definition ErrNotRegistered :: "string \<Rightarrow> error" where
  "ErrNotRegistered name = ErrorString (''gob: name not registered for interface: '' @ name)"

text \<open>\<open>reg\<close> is the registry of the process.\<close>

definition gobEncode :: "goblib \<Rightarrow> any_value \<Rightarrow> string set \<Rightarrow> (error + bytes) \<times> string set" where
  "gobEncode L v reg =
     (let reg' = (if v \<noteq> AnyNil then insert (gl_type L v) reg else reg) in (gl_encode L v, reg'))"

definition gobDecode :: "goblib \<Rightarrow> string set \<Rightarrow> bytes \<Rightarrow> error + any_value" where
  "gobDecode L reg data =
     (if gl_basic L (gl_name L data) \<or> gl_name L data \<in> reg then gl_decode L data
      else Inl (ErrNotRegistered (gl_name L data)))"

text \<open>The codec of one process, and of a process that will encode \<open>v\<close> first.\<close>

definition process_gob :: "goblib \<Rightarrow> string set \<Rightarrow> gob" where
  "process_gob L reg = \<lparr>gob_enc = (\<lambda>v. fst (gobEncode L v reg)), gob_dec = gobDecode L reg\<rparr>"

subsection \<open>Properties\<close>

text \<open>The documented behaviour of the three commands, on the interface of go-redis.\<close>

definition universal_ok :: "('s \<Rightarrow> string \<Rightarrow> bytes option) \<Rightarrow> (bytes, 's) universal \<Rightarrow> bool" where
  "universal_ok view u \<longleftrightarrow>
     (\<forall>k s v err s'. uc_Get u k s = ((v, err), s') \<longrightarrow> view s' = view s \<and>
        (err = None \<longrightarrow> view s k = Some (bytes_of_string v)) \<and> (err = Some RedisNil \<longrightarrow> view s k = None)) \<and>
     (\<forall>k d ttl s v s'. uc_Set u k d ttl s = ((v, None), s') \<longrightarrow> view s' = (view s)(k := Some d)) \<and>
     (\<forall>k n s s'. uc_Del u [k] s = ((n, None), s') \<longrightarrow> view s' = (view s)(k := None))"

lemma redis_of_ok:
  assumes "universal_ok view u"
  shows "redis_ok view (redis_of u)"
  unfolding redis_ok_def
proof (intro conjI allI impI)
  fix k s r s' assume g: "rd_Get (redis_of u) k s = (r, s')"
  obtain v err s1 where u: "uc_Get u k s = ((v, err), s1)" by (metis prod.collapse)
  with assms have "view s1 = view s \<and> (err = None \<longrightarrow> view s k = Some (bytes_of_string v)) \<and>
      (err = Some RedisNil \<longrightarrow> view s k = None)"
    unfolding universal_ok_def by blast
  with g u show "view s' = view s"
    and "case r of Inl e \<Rightarrow> e = RedisNil \<longrightarrow> view s k = None | Inr d \<Rightarrow> view s k = Some d"
    by (auto simp: redis_of_def split: option.splits)
next
  fix k d ttl s s' assume "rd_Set (redis_of u) k d ttl s = (None, s')"
  then obtain v where "uc_Set u k d ttl s = ((v, None), s')"
    by (auto simp: redis_of_def split: prod.splits)
  with assms show "view s' = (view s)(k \<mapsto> d)" unfolding universal_ok_def by blast
next
  fix k n s s' assume "rd_Del (redis_of u) k s = (Inr n, s')"
  then obtain m where "uc_Del u [k] s = ((m, None), s')"
    by (auto simp: redis_of_def split: prod.splits option.splits)
  with assms show "view s' = (view s)(k := None)" unfolding universal_ok_def by blast
qed

lemma redis_ok_set: "redis_ok view R \<Longrightarrow> rd_Set R k d ttl s = (None, s') \<Longrightarrow> view s' = (view s)(k \<mapsto> d)"
  unfolding redis_ok_def by blast

lemma redis_ok_get:
  assumes "redis_ok view R" and "rd_Get R k s = (Inr d, s')"
  shows "view s k = Some d"
proof -
  have "case Inr d of Inr d \<Rightarrow> view s k = Some d | Inl e \<Rightarrow> e = RedisNil \<longrightarrow> view s k = None"
    using assms unfolding redis_ok_def by blast
  then show ?thesis by simp
qed

text \<open>
  Building the cache from an address.  It fails with the error of the options, fails
  after a failed first ping with the client closed again, or yields a cache on exactly the
  client the options describe; it never panics.  When the second ping fails, the error is
  returned but the client, which nobody else holds, is not closed.
\<close>

theorem shared_cache_from_address:
  "(\<forall>e. newRedisClient opt = Inl e \<longrightarrow> NewSharedCacheWithAddress connect opt prefix s = Ret (Inl e, s)) \<and>
   (\<forall>kind v err s1. newRedisClient opt = Inr kind \<and> uc_Ping (connect kind) s = ((v, err), s1) \<longrightarrow>
      (case err of
         Some e \<Rightarrow> NewSharedCacheWithAddress connect opt prefix s =
           Ret (Inl (ErrorString ''redis ping failed: ''), snd (uc_Close (connect kind) s1))
       | None \<Rightarrow>
           (\<forall>v2 err2 s2. uc_Ping (connect kind) s1 = ((v2, err2), s2) \<longrightarrow>
             NewSharedCacheWithAddress connect opt prefix s =
               Ret (case err2 of
                   Some e \<Rightarrow> Inl (ErrorString ''failed to ping redis server'')
                 | None \<Rightarrow> Inr \<lparr>sc_prefix = (if IsEmptyStr prefix then sharedKeyPrefix else prefix),
                     sc_cli = redis_of (connect kind)\<rparr>, s2))))"
  by (auto simp: NewSharedCacheWithAddress_def Client_New_def NewSharedCache_client_def NewSharedCache_def redis_of_def
      Let_def split: option.splits)

text \<open>
  The cache is shared, the gob registry is not.  A value of a type that is not basic,
  stored by one process, is read back by a process that has encoded a value of that type
  itself; in any other process \<open>Get\<close> fails, although the key is there.
\<close>

theorem shared_type_registered:
  assumes "universal_ok view u" and "goblib_ok L" and "c = \<lparr>sc_prefix = p, sc_cli = redis_of u\<rparr>"
    and "redisCache_Set (process_gob L regA) c k v s = (None, s1)" and "\<not> gl_basic L (gl_type L v)"
    and "redisCache_Get (process_gob L regB) c k s1 = ((x, err), s2)"
    and "\<exists>d. rd_Get (sc_cli c) (fullKey c k) s1 = (Inr d, s2)"
  shows "(gl_type L v \<in> regB \<longrightarrow> x = v \<and> err = None) \<and>
    (gl_type L v \<notin> regB \<longrightarrow> x = AnyNil \<and> err = Some (ErrNotRegistered (gl_type L v))) \<and>
    gl_type L v \<in> snd (gobEncode L v regB)"
proof -
  have ok: "redis_ok view (sc_cli c)" using assms(1,3) by (simp add: redis_of_ok)
  obtain d where d: "gl_encode L v = Inr d" and
    w: "rd_Set (sc_cli c) (fullKey c k) d DefaultExpiration s = (None, s1)"
    using assms(4) by (auto simp: redisCache_Set_def redisCache_SetWithTTL_def process_gob_def gobEncode_def Let_def
        DefaultExpiration_def split: sum.splits)
  have L: "v \<noteq> AnyNil" "gl_name L d = gl_type L v" "gl_decode L d = Inr v"
    using assms(2) d by (auto simp: goblib_ok_def)
  have "view s1 (fullKey c k) = Some d"
    using redis_ok_set [OF ok w] by simp
  moreover obtain d' where g: "rd_Get (sc_cli c) (fullKey c k) s1 = (Inr d', s2)" using assms(7) by blast
  ultimately have "d' = d"
    using redis_ok_get [OF ok g] by simp
  with assms(5,6) g L show ?thesis
    by (auto simp: redisCache_Get_def process_gob_def gobDecode_def gobEncode_def split: if_splits)
qed

text \<open>An empty \<open>Client\<close> structure: closing it is safe, every command and the cache panic.\<close>

lemma empty_client:
  assumes "cl_cli C = None"
  shows "Client_Close (Some C) s = (None, s) \<and> Client_Raw (Some C) = None \<and> Client_RawCluster (Some C) = None \<and>
    Client_Ping (Some C) s = Panic nil_dereference \<and> Client_Get (Some C) k s = Panic nil_dereference \<and>
    NewSharedCache_client (Some C) p s = Panic nil_dereference"
  using assms
  by (simp add: Client_Close_def Client_Raw_def Client_RawCluster_def Client_Ping_def Client_Get_def cmd_Err_def
      cmd_Result_def NewSharedCache_client_def)

subsection \<open>A small server\<close>

text \<open>A server that is a map and knows the four commands of the cache; any other command fails.\<close>

definition no_command :: "'r \<Rightarrow> ('r, 's) cmd" where
  "no_command r s = ((r, Some (External 0)), s)"

definition map_universal :: "redis_client_kind \<Rightarrow> (bytes, string \<Rightarrow> bytes option) universal" where
  "map_universal kind =
     \<lparr>uc_kind = kind, uc_Close = (\<lambda>s. (None, s)),
      uc_Get = (\<lambda>k s. (case s k of None \<Rightarrow> ('''', Some RedisNil) | Some d \<Rightarrow> (string_of_bytes d, None), s)),
      uc_Set = (\<lambda>k d ttl s. ((''OK'', None), s(k \<mapsto> d))),
      uc_SetNX = (\<lambda>_ _ _. no_command False), uc_GetSet = (\<lambda>_ _. no_command ''''), uc_MGet = (\<lambda>_. no_command []),
      uc_MSet = (\<lambda>_. no_command ''''), uc_Incr = (\<lambda>_. no_command 0), uc_IncrBy = (\<lambda>_ _. no_command 0),
      uc_Decr = (\<lambda>_. no_command 0), uc_DecrBy = (\<lambda>_ _. no_command 0),
      uc_Del = (\<lambda>ks s. ((of_nat (length ks), None), fold (\<lambda>k s. s(k := None)) ks s)),
      uc_Exists = (\<lambda>_. no_command 0), uc_Expire = (\<lambda>_ _. no_command False), uc_TTL = (\<lambda>_. no_command 0),
      uc_Keys = (\<lambda>_. no_command []), uc_Scan = (\<lambda>_ _ _. no_command ([], 0)), uc_HGet = (\<lambda>_ _. no_command ''''),
      uc_HSet = (\<lambda>_ _. no_command 0), uc_HSetNX = (\<lambda>_ _ _. no_command False), uc_HGetAll = (\<lambda>_. no_command Map.empty),
      uc_HDel = (\<lambda>_ _. no_command 0), uc_HExists = (\<lambda>_ _. no_command False), uc_HIncrBy = (\<lambda>_ _ _. no_command 0),
      uc_LPush = (\<lambda>_ _. no_command 0), uc_RPush = (\<lambda>_ _. no_command 0), uc_LPop = (\<lambda>_. no_command ''''),
      uc_RPop = (\<lambda>_. no_command ''''), uc_LRange = (\<lambda>_ _ _. no_command []), uc_LLen = (\<lambda>_. no_command 0),
      uc_LTrim = (\<lambda>_ _ _. no_command ''''), uc_SAdd = (\<lambda>_ _. no_command 0), uc_SRem = (\<lambda>_ _. no_command 0),
      uc_SMembers = (\<lambda>_. no_command []), uc_SIsMember = (\<lambda>_ _. no_command False), uc_SCard = (\<lambda>_. no_command 0),
      uc_Ping = (\<lambda>s. ((''PONG'', None), s))\<rparr>"

lemma map_universal_ok: "universal_ok (\<lambda>s. s) (map_universal kind)"
  by (auto simp: universal_ok_def map_universal_def split: option.splits)

text \<open>A library that sends a value of type \<open>T\<close> as one byte.\<close>

definition demo_goblib :: goblib where
  "demo_goblib = \<lparr>gl_type = (\<lambda>v. ''T''), gl_basic = (\<lambda>_. False),
     gl_encode = (\<lambda>v. if v = AnyOther 5 then Inr [5] else Inl (External 0)), gl_name = (\<lambda>d. ''T''),
     gl_decode = (\<lambda>d. Inr (AnyOther 5))\<rparr>"

lemma demo_goblib_ok: "goblib_ok demo_goblib"
  by (auto simp: goblib_ok_def demo_goblib_def split: if_splits)

definition demo_kind :: redis_client_kind where
  "demo_kind = SingleClient ''h:1'' '''' 0 10"

theorem shared_type_registered_witness:
  "\<exists>s1. redisCache_Set (process_gob demo_goblib {}) \<lparr>sc_prefix = ''p'', sc_cli = redis_of (map_universal demo_kind)\<rparr>
      ''k'' (AnyOther 5) Map.empty = (None, s1) \<and>
    redisCache_Get (process_gob demo_goblib {}) \<lparr>sc_prefix = ''p'', sc_cli = redis_of (map_universal demo_kind)\<rparr> ''k'' s1 =
      ((AnyNil, Some (ErrNotRegistered ''T'')), s1)"
proof -
  let ?c = "\<lparr>sc_prefix = ''p'', sc_cli = redis_of (map_universal demo_kind)\<rparr>"
  let ?s1 = "[''pk'' \<mapsto> [5 :: byte]]"
  have set: "redisCache_Set (process_gob demo_goblib {}) ?c ''k'' (AnyOther 5) Map.empty = (None, ?s1)"
    by (simp add: redisCache_Set_def redisCache_SetWithTTL_def process_gob_def gobEncode_def demo_goblib_def redis_of_def
        map_universal_def fullKey_def DefaultExpiration_def)
  obtain d where d: "rd_Get (sc_cli ?c) (fullKey ?c ''k'') ?s1 = (Inr d, ?s1)"
    by (simp add: redis_of_def map_universal_def fullKey_def)
  then obtain x err where get: "redisCache_Get (process_gob demo_goblib {}) ?c ''k'' ?s1 = ((x, err), ?s1)"
    by (cases "gob_dec (process_gob demo_goblib {}) d") (auto simp: redisCache_Get_def)
  have "x = AnyNil \<and> err = Some (ErrNotRegistered (gl_type demo_goblib (AnyOther 5)))"
    using shared_type_registered [OF map_universal_ok demo_goblib_ok refl set _ get] d
    by (auto simp: demo_goblib_def)
  with set get show ?thesis by (auto simp: demo_goblib_def)
qed

theorem shared_cache_from_address_witness:
  "NewSharedCacheWithAddress map_universal None ''p:'' Map.empty = Ret (Inl (ErrorString ''redis: options is nil''), Map.empty)"
  using shared_cache_from_address [of None map_universal "''p:''" Map.empty] by (simp add: newRedisClient_def)

end
