(* ===== verification/Interfaces.thy ===== *)
theory Interfaces
  imports Byte_Stream Conn_Lifecycle Balancer Dataflow Caches Redis_Client
begin

text \<open>
  The interfaces of the packages as records of their methods, and the values through which
  the structs of the other theories implement them: \<open>ReadStream\<close> and \<open>WriteStream\<close>
  (\<open>stream.go\<close>), \<open>TCPConn\<close>, \<open>connHandler\<close>, \<open>TCPReader\<close> and \<open>TCPWriter\<close>
  (\<open>types.go\<close>), \<open>Balancer\<close> (\<open>balancer.go\<close>), \<open>TaskManager\<close> with its single
  instance (\<open>scheduler.go\<close>), \<open>Cache\<close> and \<open>LRUCache\<close> (\<open>cache/types.go\<close>), and the
  platform variants of the socket options.  Code that only knows an interface is written over
  the record; the lemmas show what it does with each implementation.
\<close>

subsection \<open>Streams (stream.go)\<close>

record 's ReadStream =
  rs_Size :: "'s \<Rightarrow> nat"
  rs_Length :: "'s \<Rightarrow> nat"
  rs_Left :: "'s \<Rightarrow> int"
  rs_Reset :: "bytes \<Rightarrow> 's \<Rightarrow> 's"
  rs_Data :: "'s \<Rightarrow> bytes"
  rs_ReadByte :: "'s \<Rightarrow> (error + byte) \<times> 's"
  rs_ReadUint16 :: "'s \<Rightarrow> (error + uint16) \<times> 's"
  rs_ReadUint32 :: "'s \<Rightarrow> (error + uint32) \<times> 's"
  rs_ReadUint64 :: "'s \<Rightarrow> (error + uint64) \<times> 's"
  rs_ReadBuff :: "int \<Rightarrow> 's \<Rightarrow> ((error + bytes) \<times> 's) outcome"
  rs_ReadString :: "'s \<Rightarrow> ((error + string) \<times> 's) outcome"
  rs_CopyBuff :: "bytes \<Rightarrow> 's \<Rightarrow> error option \<times> bytes"

record 's WriteStream =
  ws_Size :: "'s \<Rightarrow> nat"
  ws_Length :: "'s \<Rightarrow> nat"
  ws_Left :: "'s \<Rightarrow> int"
  ws_Reset :: "bytes \<Rightarrow> 's \<Rightarrow> 's"
  ws_Data :: "'s \<Rightarrow> bytes"
  ws_WriteByte :: "byte \<Rightarrow> 's \<Rightarrow> error option \<times> 's"
  ws_WriteUint16 :: "uint16 \<Rightarrow> 's \<Rightarrow> error option \<times> 's"
  ws_WriteUint32 :: "uint32 \<Rightarrow> 's \<Rightarrow> error option \<times> 's"
  ws_WriteUint64 :: "uint64 \<Rightarrow> 's \<Rightarrow> error option \<times> 's"
  ws_WriteBuff :: "bytes option \<Rightarrow> 's \<Rightarrow> error option \<times> 's"
  ws_WriteString :: "string \<Rightarrow> 's \<Rightarrow> error option \<times> 's"

text \<open>Only the big-endian stream has every method; the little-endian one lacks \<open>Length\<close>.\<close>

definition BE_ReadStream :: "stream ReadStream" where
  "BE_ReadStream = \<lparr>rs_Size = BE_Size, rs_Length = BE_Length, rs_Left = BE_Left, rs_Reset = BE_Reset,
     rs_Data = BE_Data, rs_ReadByte = BE_ReadByte, rs_ReadUint16 = BE_ReadUint16, rs_ReadUint32 = BE_ReadUint32,
     rs_ReadUint64 = BE_ReadUint64, rs_ReadBuff = BE_ReadBuff, rs_ReadString = BE_ReadString,
     rs_CopyBuff = BE_CopyBuff\<rparr>"

definition BE_WriteStream :: "stream WriteStream" where
  "BE_WriteStream = \<lparr>ws_Size = BE_Size, ws_Length = BE_Length, ws_Left = BE_Left, ws_Reset = BE_Reset,
     ws_Data = BE_Data, ws_WriteByte = BE_WriteByte, ws_WriteUint16 = BE_WriteUint16, ws_WriteUint32 = BE_WriteUint32,
     ws_WriteUint64 = BE_WriteUint64, ws_WriteBuff = BE_WriteBuff, ws_WriteString = BE_WriteString\<rparr>"

text \<open>Code that writes and reads fields through the interfaces only.\<close>

fun iface_write :: "stream WriteStream \<Rightarrow> field \<Rightarrow> stream \<Rightarrow> error option \<times> stream" where
  "iface_write W (FByte b) s = ws_WriteByte W b s"
| "iface_write W (FUint16 v) s = ws_WriteUint16 W v s"
| "iface_write W (FUint32 v) s = ws_WriteUint32 W v s"
| "iface_write W (FUint64 v) s = ws_WriteUint64 W v s"
| "iface_write W (FBuff b) s = ws_WriteBuff W (Some b) s"
| "iface_write W (FString t) s = ws_WriteString W t s"

fun iface_read :: "stream ReadStream \<Rightarrow> field_kind \<Rightarrow> stream \<Rightarrow> ((error + field) \<times> stream) outcome" where
  "iface_read R KByte s = ret_field FByte (rs_ReadByte R s)"
| "iface_read R KUint16 s = ret_field FUint16 (rs_ReadUint16 R s)"
| "iface_read R KUint32 s = ret_field FUint32 (rs_ReadUint32 R s)"
| "iface_read R KUint64 s = ret_field FUint64 (rs_ReadUint64 R s)"
| "iface_read R (KBuff n) s = bind_outcome (rs_ReadBuff R (int n) s) (ret_field FBuff)"
| "iface_read R KString s = bind_outcome (rs_ReadString R s) (ret_field FString)"

lemma iface_fields: "iface_write BE_WriteStream = BE_write_field" "iface_read BE_ReadStream = BE_read_field"
proof -
  show "iface_write BE_WriteStream = BE_write_field"
  proof (intro ext)
    show "iface_write BE_WriteStream f s = BE_write_field f s" for f s
      by (cases f) (simp_all add: BE_WriteStream_def)
  qed
  show "iface_read BE_ReadStream = BE_read_field"
  proof (intro ext)
    show "iface_read BE_ReadStream k s = BE_read_field k s" for k s
      by (cases k) (simp_all add: BE_ReadStream_def)
  qed
qed

interpretation iface_s: field_stream "iface_write BE_WriteStream" "iface_read BE_ReadStream" BE_encode_field
  unfolding iface_fields by (rule BEs.field_stream_axioms)

subsection \<open>Connections (types.go)\<close>

record 's TCPConn =
  tc_ID :: "'s \<Rightarrow> uint32"
  tc_RemoteAddr :: "'s \<Rightarrow> string"
  tc_LocalAddr :: "'s \<Rightarrow> string"
  tc_SetReadDeadline :: "int \<Rightarrow> 's \<Rightarrow> error option \<times> 's"
  tc_SetWriteDeadline :: "int \<Rightarrow> 's \<Rightarrow> error option \<times> 's"
  tc_SetHeartbeatInterval :: "duration \<Rightarrow> 's \<Rightarrow> error option \<times> 's"
  tc_SetNoNagle :: "bool \<Rightarrow> 's \<Rightarrow> (error option \<times> 's) outcome"
  tc_SetKeepAlive :: "bool \<Rightarrow> 's \<Rightarrow> (error option \<times> 's) outcome"
  tc_SetKeepAlivePeriod :: "duration \<Rightarrow> 's \<Rightarrow> (error option \<times> 's) outcome"
  tc_SetReuseAddr :: "bool \<Rightarrow> 's \<Rightarrow> error option \<times> 's"
  tc_SetReusePort :: "bool \<Rightarrow> 's \<Rightarrow> error option \<times> 's"
  tc_RawConn :: "'s \<Rightarrow> netconn option"
  tc_Write :: "'s writer"
  tc_Read :: "'s reader"
  tc_Connect :: "string \<Rightarrow> 's \<Rightarrow> error option \<times> 's"
  tc_ConnectWithTLS :: "string \<Rightarrow> 's \<Rightarrow> error option \<times> 's"
  tc_Close :: "'s \<Rightarrow> (error option \<times> 's) outcome"
  tc_IsClosed :: "'s \<Rightarrow> bool"
  tc_WritePacket :: "uint8 \<Rightarrow> uint8 \<Rightarrow> proto_message \<Rightarrow> 's \<Rightarrow> (error option \<times> 's) outcome option"

record 's connHandler =
  ch_OnConnect :: "'s \<Rightarrow> error option \<times> 's"
  ch_OnMessage :: "'s msg_handler"
  ch_OnClose :: "'s \<Rightarrow> 's"

record ('r, 's) TCPReader =
  tr_ReadPacket :: "'r \<Rightarrow> ((error + PacketHeader \<times> bytes option) \<times> 'r) option"
  tr_Close :: "bool \<Rightarrow> 's \<Rightarrow> (bool \<times> 's) outcome"

record 's TCPWriter =
  tw_WritePacket :: "uint8 \<Rightarrow> uint8 \<Rightarrow> proto_message \<Rightarrow> 's \<Rightarrow> (error option \<times> 's) outcome option"

definition tcpConn_TCPConn :: "kernel \<Rightarrow> marshal \<Rightarrow> ('e, 'h) callbacks \<Rightarrow> ('e, 'h) world TCPConn" where
  "tcpConn_TCPConn K mar cb =
     \<lparr>tc_ID = tcpConn_ID, tc_RemoteAddr = RemoteAddr, tc_LocalAddr = LocalAddr,
      tc_SetReadDeadline = SetReadDeadline K, tc_SetWriteDeadline = SetWriteDeadline K,
      tc_SetHeartbeatInterval = SetHeartbeatInterval, tc_SetNoNagle = SetNoNagle K, tc_SetKeepAlive = SetKeepAlive K,
      tc_SetKeepAlivePeriod = SetKeepAlivePeriod K, tc_SetReuseAddr = SetReuseAddr K, tc_SetReusePort = SetReusePort K,
      tc_RawConn = RawConn, tc_Write = tcpConn_Write, tc_Read = tcpConn_Read, tc_Connect = tcpConn_Connect K cb,
      tc_ConnectWithTLS = ConnectWithTLS K cb, tc_Close = tcpConn_Close K cb, tc_IsClosed = tcpConn_IsClosed,
      tc_WritePacket = tcpConn_WritePacket mar\<rparr>"

text \<open>\<open>c.handler = c\<close>: the connection is its own handler.\<close>

definition tcpConn_connHandler :: "unmarshal \<Rightarrow> ('e, 'h) callbacks \<Rightarrow> ('e, 'h) world connHandler" where
  "tcpConn_connHandler unm cb = \<lparr>ch_OnConnect = tcpConn_OnConnect cb, ch_OnMessage = tcpConn_OnMessage unm cb,
     ch_OnClose = tcpConn_OnClose cb\<rparr>"

definition tcpReader_TCPReader ::
  "kernel \<Rightarrow> ('e, 'h) callbacks \<Rightarrow> (('e, 'h) world tcpReader, ('e, 'h) world) TCPReader" where
  "tcpReader_TCPReader K cb = \<lparr>tr_ReadPacket = tcpReader_ReadPacket tcpConn_Read tcpConn_IsClosed,
     tr_Close = tcpReader_Close K cb\<rparr>"

text \<open>The assertion \<open>conn.(network.TCPWriter)\<close> of the example server keeps one method.\<close>

definition as_TCPWriter :: "'s TCPConn \<Rightarrow> 's TCPWriter" where
  "as_TCPWriter c = \<lparr>tw_WritePacket = tc_WritePacket c\<rparr>"

subsection \<open>Socket options per platform\<close>

datatype platform = Unix | Windows | OtherPlatform

text \<open>\<open>setsockopt\<close> is the system call.\<close>

definition unix_ReuseAddr :: "(sockopt \<Rightarrow> error option) \<Rightarrow> int \<Rightarrow> error option" where
  "unix_ReuseAddr setsockopt v = setsockopt (ReuseAddr v)"

definition unix_ReusePort :: "(sockopt \<Rightarrow> error option) \<Rightarrow> int \<Rightarrow> error option" where
  "unix_ReusePort setsockopt v = setsockopt (ReusePort v)"

definition windows_ReuseAddr :: "(sockopt \<Rightarrow> error option) \<Rightarrow> int \<Rightarrow> error option" where
  "windows_ReuseAddr setsockopt v = setsockopt (ReuseAddr v)"

definition windows_ReusePort :: "(sockopt \<Rightarrow> error option) \<Rightarrow> int \<Rightarrow> error option" where
  "windows_ReusePort setsockopt v = Some ErrUnsupported"

definition other_ReuseAddr :: "(sockopt \<Rightarrow> error option) \<Rightarrow> int \<Rightarrow> error option" where
  "other_ReuseAddr setsockopt v = Some ErrUnsupported"

definition other_ReusePort :: "(sockopt \<Rightarrow> error option) \<Rightarrow> int \<Rightarrow> error option" where
  "other_ReusePort setsockopt v = Some ErrUnsupported"

definition sys_ReuseAddr :: "platform \<Rightarrow> (sockopt \<Rightarrow> error option) \<Rightarrow> int \<Rightarrow> error option" where
  "sys_ReuseAddr p = (case p of Unix \<Rightarrow> unix_ReuseAddr | Windows \<Rightarrow> windows_ReuseAddr | OtherPlatform \<Rightarrow> other_ReuseAddr)"

definition sys_ReusePort :: "platform \<Rightarrow> (sockopt \<Rightarrow> error option) \<Rightarrow> int \<Rightarrow> error option" where
  "sys_ReusePort p = (case p of Unix \<Rightarrow> unix_ReusePort | Windows \<Rightarrow> windows_ReusePort | OtherPlatform \<Rightarrow> other_ReusePort)"

text \<open>The kernel as a program built for \<open>p\<close> sees it: an unsupported option is not even tried.\<close>

definition build_for :: "platform \<Rightarrow> kernel \<Rightarrow> kernel" where
  "build_for p K = K\<lparr>k_setopt := (\<lambda>opt nc. case opt of
       ReuseAddr v \<Rightarrow> (case sys_ReuseAddr p (\<lambda>_. None) v of Some e \<Rightarrow> (Some e, nc) | None \<Rightarrow> k_setopt K opt nc)
     | ReusePort v \<Rightarrow> (case sys_ReusePort p (\<lambda>_. None) v of Some e \<Rightarrow> (Some e, nc) | None \<Rightarrow> k_setopt K opt nc)
     | _ \<Rightarrow> k_setopt K opt nc)\<rparr>"

text \<open>
  \<open>SetReusePort\<close> works on Unix only and \<open>SetReuseAddr\<close> on Unix and Windows; elsewhere the
  call reports \<open>ErrUnsupported\<close> and leaves the socket as it was.
\<close>

lemma reuse_by_platform:
  assumes "c_conn (w_conn W) = Some nc" and "nc_tcp nc" and "k_syscall K nc = None" and "k_control K nc = None"
  shows "SetReusePort (build_for p K) b W = (if p = Unix then SetReusePort K b W else (Some ErrUnsupported, W)) \<and>
    SetReuseAddr (build_for p K) b W = (if p = OtherPlatform then (Some ErrUnsupported, W) else SetReuseAddr K b W)"
proof -
  have "upd_conn (c_conn_update (\<lambda>_. Some nc)) W = W"
    using assms(1) by (simp add: upd_conn_def)
  with assms show ?thesis
    by (cases p) (simp_all add: SetReusePort_def SetReuseAddr_def tcpControl_def set_sockopt_def build_for_def
        sys_ReuseAddr_def sys_ReusePort_def unix_ReuseAddr_def unix_ReusePort_def windows_ReuseAddr_def
        windows_ReusePort_def other_ReuseAddr_def other_ReusePort_def Let_def)
qed

subsection \<open>Balancers (balancer.go, compose.go)\<close>

record 'w Balancer =
  bal_Pick :: "Service option \<Rightarrow> 'w \<Rightarrow> ((error + Instance option) \<times> 'w) outcome"
  bal_Resolve :: "string \<Rightarrow> string \<Rightarrow> int \<Rightarrow> 'w \<Rightarrow> ((error + Instance option) \<times> 'w) outcome"
  bal_DiscoverClient :: "'w DiscoClient option"

text \<open>A discovery client that also carries the state of a balancer.\<close>

definition lift_client :: "'s DiscoClient \<Rightarrow> ('s \<times> 'b) DiscoClient" where
  "lift_client D = \<lparr>dc_GetGroupName = (\<lambda>w. dc_GetGroupName D (fst w)),
     dc_GetConfig = (\<lambda>k w. case dc_GetConfig D k (fst w) of (r, s) \<Rightarrow> (r, s, snd w)),
     dc_SetConfig = (\<lambda>k v w. case dc_SetConfig D k v (fst w) of (r, s) \<Rightarrow> (r, s, snd w)),
     dc_GetService = (\<lambda>n g w. case dc_GetService D n g (fst w) of (r, s) \<Rightarrow> (r, s, snd w))\<rparr>"

definition robin_Balancer :: "'s DiscoClient \<Rightarrow> json_codec \<Rightarrow> ('s \<times> roundRobinBalancer) Balancer" where
  "robin_Balancer D J =
     \<lparr>bal_Pick = (\<lambda>svc w. bind_outcome (robin_Pick svc (snd w)) (\<lambda>(r, b). Ret (r, fst w, b))),
      bal_Resolve = robin_Resolve D J, bal_DiscoverClient = Some (lift_client D)\<rparr>"

definition NewComposeBalancer :: "json_codec \<Rightarrow> 'w Balancer \<Rightarrow> 'w DiscoClient option \<Rightarrow> 'w Balancer" where
  "NewComposeBalancer J innerBalancer discoverClient =
     \<lparr>bal_Pick = compose_Pick (bal_Pick innerBalancer),
      bal_Resolve = compose_Resolve discoverClient J (bal_Resolve innerBalancer),
      bal_DiscoverClient = discoverClient\<rparr>"

text \<open>
  The stack that the package offers, a sticky balancer over a round robin on one client.  The
  first choice for a stream comes from the round robin and is stored; as long as the item
  decodes to what was encoded, every later call returns the same instance and neither moves
  the round robin nor changes any configuration, whatever the inner balancer would say.
\<close>

lemma stack_sticky:
  assumes "dc_GetConfig D (compose_key n st k) s = (Inr content, s)" and "\<not> IsEmptyStr content"
    and "unjson_Instance J content = Inr i"
  shows "bal_Resolve (NewComposeBalancer J (robin_Balancer D J) (Some (lift_client D))) n st k (s, b) =
    Ret (Inr (Some i), s, b)"
  using assms by (simp add: NewComposeBalancer_def compose_Resolve_def lift_client_def Let_def)

subsection \<open>The task manager (scheduler.go)\<close>

record ('t, 's) TaskManager =
  tm_Start :: "'s \<Rightarrow> error option \<times> 's"
  tm_Stop :: "'s \<Rightarrow> 's outcome"
  tm_AddTask :: "nat \<Rightarrow> 's \<Rightarrow> 's"
  tm_RemoveTask :: "string \<Rightarrow> 's \<Rightarrow> 's"
  tm_GetTasks :: "'s \<Rightarrow> nat list"

definition scheduler_TaskManager :: "('t \<Rightarrow> string) \<Rightarrow> (nat \<Rightarrow> 't) \<Rightarrow> ('t, sched_sys) TaskManager" where
  "scheduler_TaskManager ID heap =
     \<lparr>tm_Start = scheduler_Start, tm_Stop = scheduler_Stop,
      tm_AddTask = (\<lambda>t y. y\<lparr>y_s := AddTask t (y_s y)\<rparr>),
      tm_RemoveTask = (\<lambda>tid y. y\<lparr>y_s := RemoveTask ID heap tid (y_s y)\<rparr>),
      tm_GetTasks = (\<lambda>y. GetTasks (y_s y))\<rparr>"

text \<open>
  \<open>Manager()\<close>: the package's \<open>once\<close> and \<open>instance\<close>.  The first call creates the
  scheduler, every later one returns the same object.
\<close>

definition Manager :: "sched_sys option \<Rightarrow> sched_sys \<times> sched_sys option" where
  "Manager inst = (case inst of None \<Rightarrow> (sys_zero, Some sys_zero) | Some y \<Rightarrow> (y, Some y))"

lemma Manager_single: "Manager (snd (Manager inst)) = Manager inst"
  by (cases inst) (simp_all add: Manager_def)

subsection \<open>Caches (cache/types.go)\<close>

record ('v, 's) Cache =
  ca_Get :: "string \<Rightarrow> 's \<Rightarrow> ('v \<times> error option) \<times> 's"
  ca_Set :: "string \<Rightarrow> 'v \<Rightarrow> 's \<Rightarrow> error option \<times> 's"
  ca_SetWithTTL :: "string \<Rightarrow> 'v \<Rightarrow> int \<Rightarrow> 's \<Rightarrow> error option \<times> 's"
  ca_Delete :: "string \<Rightarrow> 's \<Rightarrow> error option \<times> 's"
  ca_Close :: "'s \<Rightarrow> error option \<times> 's"
  ca_Length :: "'s \<Rightarrow> int"

record ('v, 's) LRUCache =
  lr_Get :: "string \<Rightarrow> 's \<Rightarrow> ('v \<times> error option) \<times> 's"
  lr_Set :: "string \<Rightarrow> 'v \<Rightarrow> 's \<Rightarrow> error option \<times> 's"
  lr_Delete :: "string \<Rightarrow> 's \<Rightarrow> error option \<times> 's"
  lr_Close :: "'s \<Rightarrow> error option \<times> 's"
  lr_Length :: "'s \<Rightarrow> int"

text \<open>The local cache at time \<open>now\<close>, the shared cache, and the bounded one.\<close>

definition inMem_Cache :: "time \<Rightarrow> ('v any, 'v inMemCache) Cache" where
  "inMem_Cache now =
     \<lparr>ca_Get = (\<lambda>k c. case inMemCache_Get now k c of (v, c') \<Rightarrow> ((v, None), c')),
      ca_Set = (\<lambda>k v c. (None, inMemCache_Set now k v c)),
      ca_SetWithTTL = (\<lambda>k v ttl c. (None, inMemCache_SetWithTTL now k v ttl c)),
      ca_Delete = (\<lambda>k c. (None, inMemCache_Delete k c)),
      ca_Close = (\<lambda>c. (None, inMemCache_Close c)), ca_Length = (\<lambda>c. int (inMemCache_Length c))\<rparr>"

definition redis_Cache :: "gob \<Rightarrow> 's redisCache \<Rightarrow> (any_value, 's) Cache" where
  "redis_Cache G c =
     \<lparr>ca_Get = redisCache_Get G c, ca_Set = redisCache_Set G c, ca_SetWithTTL = redisCache_SetWithTTL G c,
      ca_Delete = redisCache_Delete c, ca_Close = redisCache_Close (Some c), ca_Length = (\<lambda>_. redisCache_Length c)\<rparr>"

definition lru_LRUCache :: "('v any, 'v lruCache) LRUCache" where
  "lru_LRUCache =
     \<lparr>lr_Get = (\<lambda>k c. case lruCache_Get k c of (v, c') \<Rightarrow> ((v, None), c')),
      lr_Set = (\<lambda>k v c. (None, lruCache_Set k v c)), lr_Delete = (\<lambda>k c. (None, lruCache_Delete k c)),
      lr_Close = (\<lambda>c. (None, lruCache_Close c)), lr_Length = (\<lambda>c. int (lruCache_Length c))\<rparr>"

end
