(* ===== verification/Spec2Isabelle.thy ===== *)
theory Spec2Isabelle
  imports Byte_Stream Server_Run Shutdown_Timing Conn_Writers Cache_Race Lookup_Race Factory_Race Disco_Server Disco_Wire
    Heartbeat_Wire Disco_Main Dataflow Probe_Timing Logger Rolling_Race Host Digest Redis_Client Interfaces
begin

text \<open>
  A verification of net-flux, a Go library for services that talk over TCP: length-prefixed
  protobuf packets, clients and servers for them, service discovery, load balancing, caches,
  and the reporting of machine and network data.

  \<^bold>\<open>The program and how its parts interact.\<close>  \<open>pkg/network\<close> frames packets
  (\<open>tcp_writer.go\<close>, \<open>tcp_reader.go\<close>), runs a connection with its read, heartbeat and
  reconnect goroutines (\<open>tcp_con.go\<close>), and owns connections in a client (\<open>tcp_cli.go\<close>)
  and a server (\<open>tcp_server.go\<close>).  \<open>misc/proto.go\<close> decodes a packet by its command pair,
  and the connection calls one method of the application's event handler for it.
  \<open>pkg/naming\<close> is service discovery: \<open>rpc_client.go\<close> sends look-ups over a TCP client and
  wraps its event handler to receive the acknowledgements; \<open>nacos_client.go\<close> asks a nacos
  server; the discovery server under \<open>examples/disco/server\<close> answers the first with the
  second.  \<open>pkg/balancer\<close> chooses an instance through a discovery client, whose
  configuration items live in redis (\<open>pkg/util/cache/shared.go\<close>) or in nacos.
  \<open>pkg/dataflow\<close> collects samples and probes and sends them over a TCP client from tasks
  that a scheduler runs every second.  \<open>pkg/logger\<close> writes the log lines of all of them.

  \<^bold>\<open>Theories and sources.\<close>  Definitions carry the names of the code, prefixed with the
  type where a name occurs twice.
  \<^item> \<open>NF_Prelude\<close>: machine integers, errors and panics as values, slices, strings, maps.
  \<^item> \<open>Byte_Order\<close>, \<open>Byte_Stream\<close>: \<open>encoding/binary\<close> and \<open>network/stream/stream.go\<close>.
    The locale \<open>fixed_codec\<close> is interpreted for the seven fixed-width codecs, the locale
    \<open>field_stream\<close> for the big- and the little-endian stream: what was written is read
    back, and no call leaves the buffer.
  \<^item> \<open>Proto_Enums\<close>, \<open>Proto_Messages\<close>, \<open>Proto_Dispatch\<close>: the enums and message structs of
    \<open>gen/\<close> and \<open>network/misc/proto.go\<close>.  \<open>enum_table\<close> is interpreted for every enum; the
    decoder implements the command table of the protocol.
  \<^item> \<open>Go_Io\<close>, \<open>Packet\<close>: \<open>net.Conn\<close>, \<open>bufio.Reader\<close>, \<open>io.ReadFull\<close> as the code uses
    them, the writer, the reader and the read loop.  The locales \<open>io_writer\<close>, \<open>io_reader\<close>,
    \<open>bufio_reader\<close>, \<open>packet_source\<close> and \<open>packet_loop\<close> are the interfaces between these
    layers, interpreted on the network and on the connection.
  \<^item> \<open>Tcp_Conn\<close>, \<open>Conn_Props\<close>, \<open>Conn_Lifecycle\<close>: \<open>tcp_con.go\<close>.  A \<open>world\<close> is a connection
    object, the application's state, the channel to the server, the context, the wait group
    and the goroutines to be started.  Shown are delivery end to end, the dispatch, the
    errors, and safety in every reachable state; the reconnect loop ends after
    \<open>ReconnectMax\<close> attempts or with a connection, and a \<open>Close\<close> does not stop it.
  \<^item> \<open>Conn_Writers\<close>: \<open>WritePacket\<close> and \<open>Write\<close> of one connection called concurrently, one
    shared access at a time, against \<open>close\<close>, \<open>Connect\<close> and \<open>reconnect\<close>.  Packets never
    mix and the mutexes cannot deadlock; a close can make a writer panic, and a write that
    fails part way leaves a cut-off frame in front of the next one.
  \<^item> \<open>Tcp_Client\<close>, \<open>Tcp_Server\<close>, \<open>Server_Run\<close>: \<open>tcp_cli.go\<close> and \<open>tcp_server.go\<close>; the
    server's connections are objects in a heap, and \<open>Server_Run\<close> interleaves the accept
    goroutine with the select loop.  \<open>Shutdown_Timing\<close> adds the time-outs: a shutdown returns
    within seven seconds even when handlers block.
  \<^item> \<open>Caches\<close>, \<open>Shared_Cache\<close>, \<open>Redis_Client\<close>: \<open>util/cache\<close> and \<open>util/redis\<close>.  The LRU
    cache refines an association list; \<open>kv_cache\<close> is interpreted for both in-process caches;
    the shared cache refines a map.  \<open>Redis_Client\<close> has the wrapped client with all its
    commands, the cache made from an address, and gob's registry of types.  \<open>Cache_Race\<close> has
    the cache with expiry under concurrent use: a fresh entry stays until its deadline, unless
    a \<open>Get\<close> that found the expired one deletes it.
  \<^item> \<open>Util\<close>, \<open>Host\<close>, \<open>Digest\<close>: \<open>net.go\<close>, \<open>env.go\<close>, the hashes of \<open>md5.go\<close> and the test of
    \<open>string.go\<close>; \<open>os.go\<close>, \<open>base64.go\<close>; MD5, the identifiers of \<open>string.go\<close> and \<open>time.go\<close>.
  \<^item> \<open>Balancer\<close>: \<open>robin.go\<close>, \<open>compose.go\<close>, over any discovery client.
  \<^item> \<open>Naming_Rpc\<close>, \<open>Nacos\<close>, \<open>Disco_Server\<close>: the two discovery clients and the server between
    them.  \<open>Disco_Wire\<close> runs a look-up over both connections down to the bytes,
    \<open>Heartbeat_Wire\<close> a heartbeat.
  \<^item> \<open>Lookup_Race\<close>, \<open>Factory_Race\<close>: concurrent look-ups of one client against acknowledgements
    and \<open>Close\<close>, and concurrent calls on the client factory of the server.  Answers reach
    the call they are for, as long as nobody closes the client; no nacos client is leaked.
  \<^item> \<open>Disco_Menu\<close>, \<open>Disco_Main\<close>: the interactive client of \<open>examples/disco\<close> with the packets
    and the reporting session of its menu, and the \<open>main\<close> functions with their flags.
  \<^item> \<open>Prober\<close>, \<open>Probe_Timing\<close>, \<open>Scheduler\<close>, \<open>Gather\<close>, \<open>Dataflow\<close>: \<open>pkg/dataflow\<close>.
    \<open>Probe_Timing\<close> computes the waits of the prober from the latencies of a web server.  The
    scheduler is a system of \<open>Start\<close>, \<open>Stop\<close> and the goroutine; \<open>periodic_task\<close> is the
    contract of a task, interpreted on the three tasks of \<open>Dataflow\<close>.
  \<^item> \<open>Interfaces\<close>: the interface types (streams, connections, balancers, task manager, caches)
    as records of operations, with the values that implement them, and the socket options per
    platform.
  \<^item> \<open>Logger\<close>, \<open>Rolling\<close>: \<open>logger.go\<close>, \<open>rolling.go\<close>.  \<open>Rolling_Race\<close> has \<open>Write\<close> against
    \<open>Open\<close> on one file: no closed handle is used, but a line can be lost while the file is
    reopened.
  \<^item> This theory: the balancers on the TCP discovery client, and the node information from the
    host.

  \<^bold>\<open>How code is modelled.\<close>  State is passed explicitly; operations that can fail return a
  sum, operations that can panic an \<open>outcome\<close>.  Goroutines and callers that share state are
  steps of a relation, cut where the code releases a lock or blocks, and a theorem about
  "every reachable state" ranges over all interleavings of these steps.  Go ranges over a map
  in no fixed order; such loops take the order as an argument.  Machine integers are words,
  or integers where the code uses \<open>int\<close> far from its bounds; times and durations are
  integers, floating-point numbers exact rationals (the conversion from \<open>float64\<close> to
  \<open>float32\<close> is a parameter).  Log output is not part of the state except in \<open>Logger\<close>.

  Code outside the repository is a parameter: the kernel (dialing, socket options), the
  protobuf codec, JSON and gob, go-redis, the nacos SDK, gopsutil, HTTP and DNS, the file
  system, the clock.  What a theorem needs of it is a named predicate (\<open>redis_ok\<close>,
  \<open>gob_ok\<close>, \<open>naming_ok\<close>, \<open>nacos_config_ok\<close>, \<open>config_store_ok\<close>, \<open>env_opens\<close>, ...), and
  the witness of the theorem satisfies it with a concrete instance.

  \<^bold>\<open>Bounds.\<close>  No loop is cut off by fuel.  Four loops of the code have no bound of their own
  (\<open>writeAll\<close>, \<open>io.ReadFull\<close>, the read loop, the reconnect loop); they are partial functions
  into \<open>option\<close>, where \<open>None\<close> means that the loop does not return, and the properties about
  them state that they return: the read loop when the network's input ends, the reconnect loop
  at the first successful dial or after \<open>ReconnectMax\<close> failures.  All other loops are total
  functions with a measure.  Channel capacities (16 for closed connections and for rolling files, 1 for
  look-ups and accept errors), the packet limit of 65535 bytes and the default intervals are
  those of the code.

  \<^bold>\<open>Step systems.\<close>  The locale \<open>transition_system\<close> of the prelude carries the invariants of
  the step relations (connection, server, \<open>Run\<close>, scheduler), and its extension
  \<open>action_system\<close>, in which a list of actions is one interleaving, those of the concurrent
  models (writers, look-ups, cache, client factory, rolling file); all of them interpret it.
  In the concurrent models the steps of a call are those of its sequential model, cut at its
  locks; a lemma in each theory (\<open>lookup_start_steps\<close>, \<open>Get_steps\<close>, \<open>GetDiscoClient_steps\<close>,
  \<open>Write_alone\<close>, \<open>Open_alone\<close>) puts them together again.

  \<^bold>\<open>Not modelled.\<close>  The reflection code and getters under \<open>gen/\<close>; the empty
  \<open>examples/server.go\<close>; signal handling.  When two cases of a select become ready at the
  same instant, the timed models fix one of them.  Data races on unlocked fields other than
  those of \<open>Conn_Writers\<close> and \<open>Rolling_Race\<close> (such as \<open>SetLevel\<close>) are not modelled: each
  step is atomic.
\<close>

section \<open>The balancers on the TCP discovery client\<close>

text \<open>
  \<open>rpcClient\<close> as a \<open>naming.DiscoClient\<close>: its configuration items live in the shared
  cache.  The lookup behind \<open>GetService\<close> is a parameter here, because a caller only sees
  its result.
\<close>

definition rpc_DiscoClient ::
  "gob \<Rightarrow> 's redisCache option \<Rightarrow> string \<Rightarrow> (string \<Rightarrow> string \<Rightarrow> 's \<Rightarrow> (error + Service option) \<times> 's) \<Rightarrow> 's DiscoClient" where
  "rpc_DiscoClient G storage groupName lookup =
     \<lparr>dc_GetGroupName = (\<lambda>_. groupName),
      dc_GetConfig = rpc_GetConfig (map_option (redisCache_Get G) storage),
      dc_SetConfig = rpc_SetConfig (map_option (redisCache_Set G) storage),
      dc_GetService = lookup\<rparr>"

text \<open>A server that can be reached: the only error of a read is the absent key.\<close>

definition redis_up :: "'s redis \<Rightarrow> bool" where
  "redis_up R \<longleftrightarrow> (\<forall>k s e s'. rd_Get R k s = (Inl e, s') \<longrightarrow> e = RedisNil)"

lemma rpc_Get_absent:
  assumes "redis_ok view (sc_cli c)" and "redis_up (sc_cli c)" and "view s (fullKey c k) = None"
  shows "\<exists>s'. dc_GetConfig (rpc_DiscoClient G (Some c) g lookup) k s = (Inl (ErrorString (''no config found:'' @ k)), s') \<and> view s' = view s"
proof -
  obtain r s' where g: "rd_Get (sc_cli c) (fullKey c k) s = (r, s')" by fastforce
  with assms(1) have v: "view s' = view s"
    "case r of Inr d \<Rightarrow> view s (fullKey c k) = Some d | Inl e \<Rightarrow> e = RedisNil \<longrightarrow> view s (fullKey c k) = None"
    unfolding redis_ok_def by blast+
  with assms(3) obtain e where "r = Inl e" by (cases r) auto
  moreover from this g assms(2) have "e = RedisNil" by (auto simp: redis_up_def)
  ultimately show ?thesis using g v by (simp add: rpc_DiscoClient_def rpc_GetConfig_def redisCache_Get_def)
qed

lemma rpc_Get_present:
  assumes "redis_ok view (sc_cli c)" and "redis_up (sc_cli c)" and "shared_view view G c s k = Some (AnyString v)"
  shows "fst (dc_GetConfig (rpc_DiscoClient G (Some c) g lookup) k s) = Inr v"
proof -
  obtain d where d: "view s (fullKey c k) = Some d" "gob_dec G d = Inr (AnyString v)"
    using assms(3) by (auto simp: shared_view_def split: option.splits sum.splits)
  obtain r s' where g: "rd_Get (sc_cli c) (fullKey c k) s = (r, s')" by fastforce
  with assms(1) have "case r of Inr d \<Rightarrow> view s (fullKey c k) = Some d | Inl e \<Rightarrow> e = RedisNil \<longrightarrow> view s (fullKey c k) = None"
    unfolding redis_ok_def by blast
  with g d assms(2) have "r = Inr d" by (cases r) (auto simp: redis_up_def)
  with g d show ?thesis by (simp add: rpc_DiscoClient_def rpc_GetConfig_def redisCache_Get_def)
qed

text \<open>
  The TCP discovery client keeps the contract the balancers rely on: on a redis server
  that is up and behaves as documented, a configuration item that was set without an error
  reads back as the same text.
\<close>

theorem rpc_config_store:
  assumes "redis_ok view (sc_cli c)" and "redis_up (sc_cli c)" and "gob_ok G"
  shows "config_store_ok (rpc_DiscoClient G (Some c) g lookup)"
  unfolding config_store_ok_def
proof (intro allI impI)
  fix k v s s'
  assume "dc_SetConfig (rpc_DiscoClient G (Some c) g lookup) k v s = (None, s')"
  then have "redisCache_Set G c k (AnyString v) s = (None, s')" by (simp add: rpc_DiscoClient_def rpc_SetConfig_def)
  from Set_view [OF assms(1,3) this] have "shared_view view G c s' k = Some (AnyString v)" by simp
  then show "fst (dc_GetConfig (rpc_DiscoClient G (Some c) g lookup) k s') = Inr v"
    by (rule rpc_Get_present [OF assms(1,2)])
qed

lemma map_redis_up: "redis_up map_redis"
  by (auto simp: redis_up_def map_redis_def split: option.splits)

theorem rpc_config_store_witness:
  "config_store_ok (rpc_DiscoClient string_gob (Some demo_cache) ''1'' (\<lambda>_ _ s. (Inr None, s)))"
  using rpc_config_store [of "\<lambda>s. s" demo_cache string_gob] map_redis_ok map_redis_up string_gob_ok
  by (simp add: demo_cache_def)

text \<open>
  C36: neither balancer can ever choose an instance for the first time on the TCP discovery
  client.  Both begin with \<open>GetConfig\<close> and take an empty item for "not chosen yet", but
  \<open>rpcClient.GetConfig\<close> reports an absent item as an error; so for a key that nobody has
  stored \<open>Resolve\<close> returns that error, asks neither the discovery service nor the inner
  balancer, and stores nothing.
\<close>

theorem resolve_cannot_bootstrap:
  assumes "redis_ok view (sc_cli c)" and "redis_up (sc_cli c)"
  shows "(view s (fullKey c (robin_key name node)) = None \<longrightarrow>
      (\<exists>s'. robin_Resolve (rpc_DiscoClient G (Some c) g lookup) J name stream node (s, b) =
          Ret (Inl (ErrorString (''no config found:'' @ robin_key name node)), s', b) \<and> view s' = view s)) \<and>
    (view s (fullKey c (compose_key name stream node)) = None \<longrightarrow>
      (\<exists>s'. compose_Resolve (Some (rpc_DiscoClient G (Some c) g lookup)) J inner name stream node s =
          Ret (Inl (ErrorString (''no config found:'' @ compose_key name stream node)), s') \<and> view s' = view s))"
proof (intro conjI impI)
  assume "view s (fullKey c (robin_key name node)) = None"
  from rpc_Get_absent [OF assms this, of G g lookup] obtain s' where
    "dc_GetConfig (rpc_DiscoClient G (Some c) g lookup) (robin_key name node) s =
      (Inl (ErrorString (''no config found:'' @ robin_key name node)), s')" "view s' = view s" by blast
  then show "\<exists>s'. robin_Resolve (rpc_DiscoClient G (Some c) g lookup) J name stream node (s, b) =
      Ret (Inl (ErrorString (''no config found:'' @ robin_key name node)), s', b) \<and> view s' = view s"
    by (simp add: robin_Resolve_def robin_load_def)
next
  assume "view s (fullKey c (compose_key name stream node)) = None"
  from rpc_Get_absent [OF assms this, of G g lookup] obtain s' where
    "dc_GetConfig (rpc_DiscoClient G (Some c) g lookup) (compose_key name stream node) s =
      (Inl (ErrorString (''no config found:'' @ compose_key name stream node)), s')" "view s' = view s" by blast
  then show "\<exists>s'. compose_Resolve (Some (rpc_DiscoClient G (Some c) g lookup)) J inner name stream node s =
      Ret (Inl (ErrorString (''no config found:'' @ compose_key name stream node)), s') \<and> view s' = view s"
    by (simp add: compose_Resolve_def)
qed

theorem resolve_cannot_bootstrap_witness:
  "robin_Resolve (rpc_DiscoClient string_gob (Some demo_cache) ''1'' (\<lambda>_ _ s. (Inr None, s))) toy_json ''api'' ''s1'' 1
      (\<lambda>_. None, demo_balancer) = Ret (Inl (ErrorString (''no config found:'' @ robin_key ''api'' 1)), \<lambda>_. None, demo_balancer)"
  using resolve_cannot_bootstrap [where view = "\<lambda>s. s" and c = demo_cache and s = "\<lambda>_. None" and name = "''api''" and node = 1
      and G = string_gob and g = "''1''" and lookup = "\<lambda>_ _ s. (Inr None, s)" and J = toy_json and stream = "''s1''" and b = demo_balancer]
    map_redis_ok map_redis_up
  by (auto simp: demo_cache_def)

section \<open>Node information from the host\<close>

text \<open>
  The node information of the reports can always be read: the host name falls back to the
  environment, the address to the loop-back address.  The only way to a panic would be a
  resolver that returns an empty list without an error.
\<close>

theorem node_info_available:
  assumes "\<And>h. os_LookupIP env h \<noteq> Inr []"
  shows "\<exists>info. ReadBaseNodeInfo (Hostname env) (EnvInternalIP (os_Getenv env)) (HostIP env) now node = Ret (Inr info) \<and>
    ni_Node info = node \<and> (\<not> IsEmptyStr (EnvInternalIP (os_Getenv env)) \<longrightarrow> ni_IP info = EnvInternalIP (os_Getenv env))"
proof -
  obtain h where h: "Hostname env = Inr h" using Hostname_total by blast
  have "HostIP env \<noteq> Inr []" using assms [of h] h by (auto simp: HostIP_def split: sum.splits)
  with h show ?thesis
    by (cases "HostIP env") (auto simp: ReadBaseNodeInfo_def neq_Nil_conv)
qed

end
